(* ===== verification/Prelude.thy ===== *)
theory Prelude
  imports Main "HOL-Library.AList" "HOL-Library.Signed_Division"
begin

text \<open>
  Shared vocabulary of the development: the fixed-width integers of Go written out on
  \<^verbatim>\<open>int\<close>, the time values of package time, the association lists that stand for Go maps
  whose iteration order matters, and the collections of rewrite rules the component theories
  extend.

  Go's \<^verbatim>\<open>int64\<close> is \<^verbatim>\<open>int\<close> with the wrap-around of \<^verbatim>\<open>i64\<close>; a
  \<^verbatim>\<open>time.Time\<close> is the number of nanoseconds since the zero time, so that
  \<^verbatim>\<open>IsZero\<close> is equality with 0, and a \<^verbatim>\<open>time.Duration\<close> is an \<^verbatim>\<open>int64\<close> number of
  nanoseconds.
\<close>

named_theorems go_arith "rewrite rules for the fixed-width integers and times of Go"
named_theorems tx_inv "inversion rules: what a successful step of a transaction means"
named_theorems tx_run "evaluation rules for the transaction steps"
named_theorems db_simps "facts about the rows a statement reads and writes"

section \<open>Fixed-width integers\<close>

definition max_int64 :: int where
  "max_int64 = 9223372036854775807"

definition min_int64 :: int where
  "min_int64 = - 9223372036854775808"

definition in_i64 :: "int \<Rightarrow> bool" where
  "in_i64 x \<longleftrightarrow> min_int64 \<le> x \<and> x \<le> max_int64"

text \<open>The value an \<^verbatim>\<open>int64\<close> expression has after wrap-around.\<close>

definition i64 :: "int \<Rightarrow> int" where
  "i64 x = (x + 9223372036854775808) mod 18446744073709551616 - 9223372036854775808"

lemma i64_id [go_arith]: "in_i64 x \<Longrightarrow> i64 x = x"
  by (simp add: i64_def in_i64_def min_int64_def max_int64_def)

lemma i64_in [go_arith, simp]: "in_i64 (i64 x)"
  by (simp add: i64_def in_i64_def min_int64_def max_int64_def)

lemma i64_idem [simp]: "i64 (i64 x) = i64 x"
  by (simp add: i64_id)

text \<open>Go's integer division truncates towards zero.\<close>

definition go_div :: "int \<Rightarrow> int \<Rightarrow> int" where
  "go_div a b = a sdiv b"

lemma go_div_nonneg [go_arith]: "0 \<le> a \<Longrightarrow> 0 < b \<Longrightarrow> go_div a b = a div b"
  by (auto simp: go_div_def signed_divide_int_def sgn_if abs_if)

section \<open>Time\<close>

type_synonym gotime = int
type_synonym duration = int

abbreviation millisecond :: duration where "millisecond \<equiv> 1000000"
abbreviation second :: duration where "second \<equiv> 1000000000"
abbreviation minute :: duration where "minute \<equiv> 60000000000"

definition is_zero_time :: "gotime \<Rightarrow> bool" where
  "is_zero_time t \<longleftrightarrow> t = 0"

text \<open>\<^verbatim>\<open>Time.Sub\<close> saturates at the extreme durations.\<close>

definition time_sub :: "gotime \<Rightarrow> gotime \<Rightarrow> duration" where
  "time_sub t u = max min_int64 (min max_int64 (t - u))"

lemma time_sub_exact [go_arith]: "in_i64 (t - u) \<Longrightarrow> time_sub t u = t - u"
  by (simp add: time_sub_def in_i64_def)

lemma time_sub_pos: "0 < time_sub t u \<longleftrightarrow> u < t"
  by (auto simp: time_sub_def min_int64_def max_int64_def)

lemma time_sub_mono: "t \<le> t' \<Longrightarrow> time_sub t u \<le> time_sub t' u"
  by (auto simp: time_sub_def)

text \<open>\<^verbatim>\<open>Time.Truncate(time.Millisecond)\<close>, as \<^verbatim>\<open>sameMillis\<close> uses it.\<close>

definition truncate_milli :: "gotime \<Rightarrow> gotime" where
  "truncate_milli t = t - t mod millisecond"

text \<open>What a \<^verbatim>\<open>DATETIME(3)\<close> and a \<^verbatim>\<open>DATETIME(6)\<close> column keep of a time: MySQL rounds
  to the nearest unit.\<close>

definition datetime3 :: "gotime \<Rightarrow> gotime" where
  "datetime3 t = (t + 500000) div millisecond * millisecond"

definition datetime6 :: "gotime \<Rightarrow> gotime" where
  "datetime6 t = (t + 500) div 1000 * 1000"

lemma datetime3_idem [simp]: "datetime3 (datetime3 t) = datetime3 t"
  by (simp add: datetime3_def)

lemma datetime6_datetime3 [simp]: "datetime6 (datetime3 t) = datetime3 t"
  by (simp add: datetime3_def datetime6_def)

section \<open>Association lists\<close>

text \<open>A Go map that the code ranges over is an association list with distinct keys: the order
  of the list is one iteration order.\<close>

definition unique_keys :: "('k \<times> 'v) list \<Rightarrow> bool" where
  "unique_keys m \<longleftrightarrow> distinct (map fst m)"

lemma unique_keys_update [simp, intro]:
  "unique_keys m \<Longrightarrow> unique_keys (AList.update k v m)"
  by (simp add: unique_keys_def distinct_update)

lemma unique_keys_Nil [simp]: "unique_keys []"
  by (simp add: unique_keys_def)

lemma map_of_update [simp]: "map_of (AList.update k v m) = (map_of m)(k \<mapsto> v)"
  by (simp add: update_conv')

lemma map_of_mem_iff: "unique_keys m \<Longrightarrow> map_of m k = Some v \<longleftrightarrow> (k, v) \<in> set m"
  by (simp add: unique_keys_def)

lemma map_of_eq_set_eq:
  "unique_keys m \<Longrightarrow> unique_keys m' \<Longrightarrow> map_of m = map_of m' \<Longrightarrow> set m = set m'"
  by (metis map_of_mem_iff subsetI subset_antisym surj_pair)

section \<open>Option and sum helpers\<close>

definition is_err :: "'e + 'a \<Rightarrow> bool" where
  "is_err r \<longleftrightarrow> (case r of Inl _ \<Rightarrow> True | Inr _ \<Rightarrow> False)"

lemma is_err_simps [simp]: "is_err (Inl e)" "\<not> is_err (Inr a)"
  by (simp_all add: is_err_def)

lemma not_is_err: "\<not> is_err r \<longleftrightarrow> (\<exists>a. r = Inr a)"
  by (cases r) simp_all

definition opt_or :: "'a option \<Rightarrow> 'a \<Rightarrow> 'a" where
  "opt_or x d = (case x of Some v \<Rightarrow> v | None \<Rightarrow> d)"

lemma opt_or_simps [simp]: "opt_or (Some v) d = v" "opt_or None d = d"
  by (simp_all add: opt_or_def)

end
