(* ===== verification/ErrCode.thy ===== *)
theory ErrCode
  imports Prelude
begin

text \<open>
  Package errcode: the stable error codes, the chain of wrapped errors and the mapping of a code
  to HTTP, gRPC and the retry flag.

  A Go error is a chain; errors.As and errors.Is walk it.  Message texts carry no behaviour here
  (the package forbids branching on them) and are dropped, so \<^verbatim>\<open>fmt.Errorf("...: %w", e)\<close>, which
  only adds text in front of the chain, is \<^verbatim>\<open>e\<close> itself.
\<close>

datatype errcode =
    CommonInvalidArgument | CommonRateLimited | CommonServerSeqGap | CommonInvalidMetadata
  | ResourceExhausted
  | AuthUnauthorized | AuthTokenExpired | AuthForbidden | AuthIdentityExists
  | EconomyInsufficient | EconomyDuplicate | EconomyItemNotFound
  | FarmVersionConflict | FarmPlotState | FarmRoomFull | FarmPlotNotMature | FarmCropNotFound
  | FarmActorMigrating | FarmNotFound
  | SocialAlreadyFriend | SocialInviteExpired | SocialInviteExhausted | SocialSelfInvite
  | SocialNotFriend | SocialNotFarmOwner
  | TaskNotCompleted | TaskAlreadyClaimed
  | PetNotOwned | PetAlreadyEquipped | PetAutoDisabled
  | MailNotFound | MailAlreadyClaimed | MailExpired
  | RoutingEpochStale | RoutingOwnerNotFound | RoutingFenced
  | Internal
  | OtherCode string

text \<open>
  Errors: a domain error with its reason, a domain error that wraps a cause, a retry error, an
  error of the MySQL driver with its number, the two context errors, sql.ErrNoRows and any other
  error, named by a tag.
\<close>

datatype go_error =
    CodeErr errcode string
  | WrapErr errcode go_error
  | RetryErr errcode string duration
  | MySQLErr nat
  | CtxDeadline
  | CtxCanceled
  | SqlNoRows
  | PlainErr string

definition New :: "errcode \<Rightarrow> go_error" where
  "New c = CodeErr c ''''"

definition NewReason :: "errcode \<Rightarrow> string \<Rightarrow> go_error" where
  "NewReason c r = CodeErr c r"

definition NewRetryReason :: "errcode \<Rightarrow> string \<Rightarrow> duration \<Rightarrow> go_error" where
  "NewRetryReason c r d = RetryErr c r d"

definition NewRetry :: "errcode \<Rightarrow> duration \<Rightarrow> go_error" where
  "NewRetry c d = RetryErr c '''' d"

text \<open>errors.As to *Error: the first domain error of the chain, with its reason.\<close>

fun as_error :: "go_error \<Rightarrow> (errcode \<times> string) option" where
  "as_error (CodeErr c r) = Some (c, r)"
| "as_error (WrapErr c e) = Some (c, '''')"
| "as_error (RetryErr c r d) = Some (c, r)"
| "as_error _ = None"

fun as_mysql :: "go_error \<Rightarrow> nat option" where
  "as_mysql (MySQLErr n) = Some n"
| "as_mysql (WrapErr c e) = as_mysql e"
| "as_mysql _ = None"

text \<open>errors.Is against one of the sentinels.\<close>

fun errors_is :: "go_error \<Rightarrow> go_error \<Rightarrow> bool" where
  "errors_is (WrapErr c e) t \<longleftrightarrow> WrapErr c e = t \<or> errors_is e t"
| "errors_is e t \<longleftrightarrow> e = t"

definition err_code :: "go_error \<Rightarrow> errcode option" where
  "err_code e = map_option fst (as_error e)"

lemma err_code_simps [simp]:
  "err_code (New c) = Some c" "err_code (NewReason c r) = Some c"
  "err_code (CodeErr c r) = Some c" "err_code (WrapErr c e) = Some c"
  "err_code (RetryErr c r d) = Some c" "err_code (MySQLErr n) = None"
  by (simp_all add: err_code_def New_def NewReason_def)

text \<open>Function Reason.\<close>

definition Reason :: "go_error \<Rightarrow> string" where
  "Reason e = (case as_error e of Some (_, r) \<Rightarrow> r | None \<Rightarrow> '''')"

text \<open>Function RetryAfter: the delay of the first retry error of the chain.\<close>

fun RetryAfter :: "go_error \<Rightarrow> duration" where
  "RetryAfter (RetryErr c r d) = d"
| "RetryAfter (WrapErr c e) = RetryAfter e"
| "RetryAfter _ = 0"

text \<open>FromRemoteReason: the millisecond count of the wire becomes an int64 of nanoseconds, so the
  product wraps.\<close>

definition FromRemoteReason :: "errcode \<Rightarrow> string \<Rightarrow> int \<Rightarrow> go_error" where
  "FromRemoteReason code reason ms =
     (if 0 < ms then NewRetryReason code reason (i64 (ms * millisecond))
      else NewReason code reason)"

definition FromRemote :: "errcode \<Rightarrow> int \<Rightarrow> go_error" where
  "FromRemote code ms = FromRemoteReason code '''' ms"

fun HTTPStatus :: "errcode \<Rightarrow> nat" where
  "HTTPStatus CommonInvalidArgument = 400" | "HTTPStatus FarmPlotState = 400"
| "HTTPStatus FarmPlotNotMature = 400" | "HTTPStatus FarmCropNotFound = 400"
| "HTTPStatus EconomyItemNotFound = 400" | "HTTPStatus SocialSelfInvite = 400"
| "HTTPStatus CommonInvalidMetadata = 400"
| "HTTPStatus AuthUnauthorized = 401" | "HTTPStatus AuthTokenExpired = 401"
| "HTTPStatus AuthForbidden = 403"
| "HTTPStatus FarmNotFound = 404" | "HTTPStatus MailNotFound = 404"
| "HTTPStatus AuthIdentityExists = 409" | "HTTPStatus FarmVersionConflict = 409"
| "HTTPStatus EconomyDuplicate = 409" | "HTTPStatus SocialAlreadyFriend = 409"
| "HTTPStatus TaskAlreadyClaimed = 409" | "HTTPStatus MailAlreadyClaimed = 409"
| "HTTPStatus PetAlreadyEquipped = 409"
| "HTTPStatus EconomyInsufficient = 422" | "HTTPStatus FarmRoomFull = 422"
| "HTTPStatus TaskNotCompleted = 422" | "HTTPStatus PetNotOwned = 422"
| "HTTPStatus PetAutoDisabled = 422" | "HTTPStatus MailExpired = 422"
| "HTTPStatus SocialInviteExpired = 422" | "HTTPStatus SocialInviteExhausted = 422"
| "HTTPStatus SocialNotFriend = 422" | "HTTPStatus SocialNotFarmOwner = 422"
| "HTTPStatus CommonRateLimited = 429"
| "HTTPStatus ResourceExhausted = 503"
| "HTTPStatus RoutingEpochStale = 503" | "HTTPStatus RoutingOwnerNotFound = 503"
| "HTTPStatus RoutingFenced = 503" | "HTTPStatus FarmActorMigrating = 503"
| "HTTPStatus _ = 500"

definition GRPCCode :: "errcode \<Rightarrow> string" where
  "GRPCCode code =
     (if code \<in> {CommonInvalidArgument, FarmPlotState, FarmPlotNotMature, FarmCropNotFound,
                 EconomyItemNotFound, SocialSelfInvite, CommonInvalidMetadata}
      then ''INVALID_ARGUMENT''
      else if code \<in> {AuthUnauthorized, AuthTokenExpired} then ''UNAUTHENTICATED''
      else if code = AuthForbidden then ''PERMISSION_DENIED''
      else if code \<in> {FarmNotFound, MailNotFound} then ''NOT_FOUND''
      else if code \<in> {AuthIdentityExists, FarmVersionConflict, EconomyDuplicate,
                      SocialAlreadyFriend, TaskAlreadyClaimed, MailAlreadyClaimed,
                      PetAlreadyEquipped}
      then ''ALREADY_EXISTS''
      else if code \<in> {EconomyInsufficient, FarmRoomFull, TaskNotCompleted, PetNotOwned,
                      PetAutoDisabled, MailExpired, SocialInviteExpired, SocialInviteExhausted,
                      SocialNotFriend, SocialNotFarmOwner}
      then ''FAILED_PRECONDITION''
      else if code \<in> {CommonRateLimited, ResourceExhausted} then ''RESOURCE_EXHAUSTED''
      else if code \<in> {RoutingEpochStale, RoutingOwnerNotFound, RoutingFenced, FarmActorMigrating}
      then ''UNAVAILABLE''
      else if code = CommonServerSeqGap then ''OUT_OF_RANGE''
      else ''INTERNAL'')"

definition Retryable :: "errcode \<Rightarrow> bool" where
  "Retryable code \<longleftrightarrow>
     code \<in> {CommonRateLimited, ResourceExhausted, RoutingEpochStale, RoutingOwnerNotFound,
             RoutingFenced, FarmActorMigrating, Internal}"

text \<open>The three mappings agree: a client error is never retryable, and every retryable code other
  than INTERNAL_ERROR is reported as overload or unavailability on both transports.\<close>

lemma retryable_status: "Retryable c \<Longrightarrow> HTTPStatus c \<in> {429, 500, 503}"
  by (auto simp: Retryable_def)

lemma retryable_grpc: "Retryable c \<Longrightarrow> GRPCCode c \<in> {''RESOURCE_EXHAUSTED'', ''UNAVAILABLE'', ''INTERNAL''}"
  by (auto simp: Retryable_def GRPCCode_def)

lemma client_error_not_retryable: "HTTPStatus c < 429 \<Longrightarrow> \<not> Retryable c"
  using retryable_status by fastforce

lemma unavailable_iff_retryable:
  "GRPCCode c \<in> {''RESOURCE_EXHAUSTED'', ''UNAVAILABLE''} \<longleftrightarrow> Retryable c \<and> c \<noteq> Internal"
  by (cases c) (simp_all add: GRPCCode_def Retryable_def)

lemma http_unavailable_iff:
  "HTTPStatus c \<in> {429, 503} \<longleftrightarrow> GRPCCode c \<in> {''RESOURCE_EXHAUSTED'', ''UNAVAILABLE''}"
  by (cases c) (simp_all add: GRPCCode_def)

end
