(* ===== verification/Tx.thy ===== *)
theory Tx
  imports ErrCode
begin

text \<open>
  SQL transactions of package database/sql, as the MySQL-backed services use them.

  A transaction body is a function from the database state to an error or a result with the new
  state; MySQL's row locks make each body atomic with respect to the others, so bodies are run one
  after the other and their interleaving is the order of the runs.  The driver and the network are
  the environment \<^verbatim>\<open>env\<close>: every named driver call may fail (\<^verbatim>\<open>fault\<close>), and Commit may succeed,
  fail with nothing stored, or fail after the server has stored everything and only the
  acknowledgement was lost.  \<^verbatim>\<open>defer tx.Rollback()\<close> is the clause of \<^verbatim>\<open>run_tx\<close> that returns the
  old state on every path without a Commit.
\<close>

datatype commit_outcome = CommitOK | CommitFailed go_error | CommitAckLost go_error

record env =
  fault :: "string \<Rightarrow> go_error option"
  commit_outcome :: commit_outcome
  clk_now :: gotime
  fresh_id :: string

type_synonym ('s, 'a) tx = "'s \<Rightarrow> go_error + ('a \<times> 's)"

datatype 'a ended = Committed 'a | NoCommit 'a

definition tx_return :: "'a \<Rightarrow> ('s, 'a) tx" where
  "tx_return a = (\<lambda>s. Inr (a, s))"

definition tx_fail :: "go_error \<Rightarrow> ('s, 'a) tx" where
  "tx_fail e = (\<lambda>s. Inl e)"

definition tx_bind :: "('s, 'a) tx \<Rightarrow> ('a \<Rightarrow> ('s, 'b) tx) \<Rightarrow> ('s, 'b) tx" where
  "tx_bind m f = (\<lambda>s. case m s of Inl e \<Rightarrow> Inl e | Inr (a, s') \<Rightarrow> f a s')"

abbreviation tx_seq :: "('s, unit) tx \<Rightarrow> ('s, 'b) tx \<Rightarrow> ('s, 'b) tx" where
  "tx_seq m n \<equiv> tx_bind m (\<lambda>_. n)"

text \<open>An early return of an error when the condition does not hold.\<close>

definition tx_guard :: "bool \<Rightarrow> go_error \<Rightarrow> ('s, unit) tx" where
  "tx_guard b e = (if b then tx_return () else tx_fail e)"

definition tx_when :: "bool \<Rightarrow> ('s, unit) tx \<Rightarrow> ('s, unit) tx" where
  "tx_when b m = (if b then m else tx_return ())"

definition tx_get :: "('s \<Rightarrow> 'a) \<Rightarrow> ('s, 'a) tx" where
  "tx_get f = (\<lambda>s. Inr (f s, s))"

definition tx_modify :: "('s \<Rightarrow> 's) \<Rightarrow> ('s, unit) tx" where
  "tx_modify f = (\<lambda>s. Inr ((), f s))"

text \<open>One driver call: it fails as the environment says, otherwise it is carried out.\<close>

definition stmt :: "env \<Rightarrow> string \<Rightarrow> ('s, 'a) tx \<Rightarrow> ('s, 'a) tx" where
  "stmt env label m = (case fault env label of Some e \<Rightarrow> tx_fail e | None \<Rightarrow> m)"

text \<open>A constraint of the schema that the statement violates.\<close>

definition lift_opt :: "go_error \<Rightarrow> 'a option \<Rightarrow> ('s, 'a) tx" where
  "lift_opt e x = (case x of Some a \<Rightarrow> tx_return a | None \<Rightarrow> tx_fail e)"

fun tx_each :: "('x \<Rightarrow> ('s, unit) tx) \<Rightarrow> 'x list \<Rightarrow> ('s, unit) tx" where
  "tx_each f [] = tx_return ()"
| "tx_each f (x # xs) = tx_seq (f x) (tx_each f xs)"

definition run_tx :: "env \<Rightarrow> ('s, 'a ended) tx \<Rightarrow> 's \<Rightarrow> (go_error + 'a) \<times> 's" where
  "run_tx env body s =
     (case fault env ''begin'' of
        Some e \<Rightarrow> (Inl e, s)
      | None \<Rightarrow>
          (case body s of
             Inl e \<Rightarrow> (Inl e, s)
           | Inr (NoCommit a, _) \<Rightarrow> (Inr a, s)
           | Inr (Committed a, s') \<Rightarrow>
               (case commit_outcome env of
                  CommitOK \<Rightarrow> (Inr a, s')
                | CommitFailed e \<Rightarrow> (Inl e, s)
                | CommitAckLost e \<Rightarrow> (Inl e, s'))))"

text \<open>A single statement outside a transaction (\<^verbatim>\<open>db.ExecContext\<close>, \<^verbatim>\<open>db.QueryRowContext\<close>): it
  commits by itself, with the same three outcomes.\<close>

definition run_auto :: "env \<Rightarrow> ('s, 'a) tx \<Rightarrow> 's \<Rightarrow> (go_error + 'a) \<times> 's" where
  "run_auto env m s =
     (case m s of
        Inl e \<Rightarrow> (Inl e, s)
      | Inr (a, s') \<Rightarrow>
          (case commit_outcome env of
             CommitOK \<Rightarrow> (Inr a, s')
           | CommitFailed e \<Rightarrow> (Inl e, s)
           | CommitAckLost e \<Rightarrow> (Inl e, s')))"

text \<open>A query whose caller compares the error with sql.ErrNoRows.\<close>

definition query_exact :: "env \<Rightarrow> string \<Rightarrow> ('s \<Rightarrow> 'a option) \<Rightarrow> ('s, 'a option) tx" where
  "query_exact env label f =
     (\<lambda>s. case fault env label of Some e \<Rightarrow> if e = SqlNoRows then Inr (None, s) else Inl e | None \<Rightarrow> Inr (f s, s))"

section \<open>Inversion: what a successful step means\<close>

lemma tx_return_Inr [tx_inv]: "tx_return a s = Inr (b, s') \<longleftrightarrow> b = a \<and> s' = s"
  by (auto simp: tx_return_def)

lemma tx_fail_Inr [tx_inv]: "tx_fail e s = Inr r \<longleftrightarrow> False"
  by (simp add: tx_fail_def)

lemma tx_bind_Inr [tx_inv]:
  "tx_bind m f s = Inr r \<longleftrightarrow> (\<exists>a s'. m s = Inr (a, s') \<and> f a s' = Inr r)"
  by (auto simp: tx_bind_def split: sum.split)

lemma tx_guard_Inr [tx_inv]: "tx_guard b e s = Inr (u, s') \<longleftrightarrow> b \<and> s' = s"
  by (auto simp: tx_guard_def tx_inv)

lemma tx_when_Inr [tx_inv]:
  "tx_when b m s = Inr (u, s') \<longleftrightarrow> (if b then m s = Inr (u, s') else s' = s)"
  by (auto simp: tx_when_def tx_inv)

lemma tx_get_Inr [tx_inv]: "tx_get f s = Inr (a, s') \<longleftrightarrow> a = f s \<and> s' = s"
  by (auto simp: tx_get_def)

lemma tx_modify_Inr [tx_inv]: "tx_modify f s = Inr (u, s') \<longleftrightarrow> s' = f s"
  by (auto simp: tx_modify_def)

lemma stmt_Inr [tx_inv]: "stmt env l m s = Inr r \<longleftrightarrow> fault env l = None \<and> m s = Inr r"
  by (auto simp: stmt_def tx_inv split: option.split)

lemma lift_opt_Inr [tx_inv]: "lift_opt e x s = Inr (a, s') \<longleftrightarrow> x = Some a \<and> s' = s"
  by (auto simp: lift_opt_def tx_inv split: option.split)

section \<open>Evaluation when the environment does not interfere\<close>

lemmas tx_defs = tx_return_def tx_fail_def tx_bind_def tx_guard_def tx_when_def tx_get_def
  tx_modify_def stmt_def lift_opt_def

text \<open>A transaction is atomic: the state after it is the old one or the one its body reached, and
  a result is only reported when the body was reached.\<close>

lemma run_tx_cases:
  obtains (unchanged) "snd (run_tx env body s) = s"
  | (applied) a s' where "body s = Inr (Committed a, s')" "snd (run_tx env body s) = s'"
proof (cases "snd (run_tx env body s) = s")
  case False
  then obtain a s' where "body s = Inr (Committed a, s')" "snd (run_tx env body s) = s'"
    by (auto simp: run_tx_def split: option.splits sum.splits ended.splits commit_outcome.splits)
  then show ?thesis by (rule applied)
qed (rule unchanged)

lemma run_tx_ok:
  assumes "run_tx env body s = (Inr a, s')"
  shows "body s = Inr (Committed a, s') \<or> (\<exists>t. body s = Inr (NoCommit a, t) \<and> s' = s)"
  using assms
  by (auto simp: run_tx_def split: option.splits sum.splits ended.splits commit_outcome.splits)

lemma run_tx_committed:
  assumes "body s = Inr (Committed a, s')" "fault env ''begin'' = None" "commit_outcome env = CommitOK"
  shows "run_tx env body s = (Inr a, s')"
  using assms by (simp add: run_tx_def)

lemma run_tx_error_body:
  assumes "body s = Inl e" "fault env ''begin'' = None"
  shows "run_tx env body s = (Inl e, s)"
  using assms by (simp add: run_tx_def)

lemma run_tx_invariant:
  assumes "P s" "\<And>a s'. body s = Inr (Committed a, s') \<Longrightarrow> P s'"
  shows "P (snd (run_tx env body s))"
  using assms by (cases rule: run_tx_cases [of env body s]) auto

lemma run_auto_cases:
  obtains (unchanged) "snd (run_auto env m s) = s"
  | (applied) a s' where "m s = Inr (a, s')" "snd (run_auto env m s) = s'"
proof (cases "snd (run_auto env m s) = s")
  case False
  then obtain a s' where "m s = Inr (a, s')" "snd (run_auto env m s) = s'"
    by (auto simp: run_auto_def split: sum.splits commit_outcome.splits)
  then show ?thesis by (rule applied)
qed (rule unchanged)

lemma run_auto_ok: "run_auto env m s = (Inr a, s') \<Longrightarrow> m s = Inr (a, s')"
  by (auto simp: run_auto_def split: sum.splits commit_outcome.splits)

lemma run_auto_clean: "m s = Inr (a, s') \<Longrightarrow> commit_outcome env = CommitOK \<Longrightarrow> run_auto env m s = (Inr a, s')"
  by (simp add: run_auto_def)

lemma run_auto_invariant:
  assumes "P s" "\<And>a s'. m s = Inr (a, s') \<Longrightarrow> P s'"
  shows "P (snd (run_auto env m s))"
  using assms by (cases rule: run_auto_cases [of env m s]) auto

text \<open>The environment in which every driver call succeeds.\<close>

definition clean :: "env \<Rightarrow> bool" where
  "clean env \<longleftrightarrow> fault env = (\<lambda>_. None) \<and> commit_outcome env = CommitOK"

lemma clean_stmt [tx_run]: "clean env \<Longrightarrow> stmt env l m = m"
  by (simp add: clean_def stmt_def)

lemma clean_run_tx [tx_run]:
  "clean env \<Longrightarrow> run_tx env body s =
     (case body s of Inl e \<Rightarrow> (Inl e, s) | Inr (NoCommit a, _) \<Rightarrow> (Inr a, s) | Inr (Committed a, s') \<Rightarrow> (Inr a, s'))"
  by (simp add: clean_def run_tx_def split: sum.split ended.split)

lemma clean_run_auto [tx_run]:
  "clean env \<Longrightarrow> run_auto env m s = (case m s of Inl e \<Rightarrow> (Inl e, s) | Inr (a, s') \<Rightarrow> (Inr a, s'))"
  by (simp add: clean_def run_auto_def split: sum.split)

end
