(* ===== verification/Events.thy ===== *)
theory Events
  imports Prelude
begin

text \<open>
  contracts/events: the domain events that travel through the outbox to Kafka, one record per
  payload type.  JSON encoding is the identity on these typed values; a consumer that decodes the
  payload of another type is modelled by the constructor test (the decoded struct then has the
  fields the two types share and zero values elsewhere, which every consumer rejects or ignores).
\<close>

definition EventTypeFarmPlanted :: string where "EventTypeFarmPlanted = ''farm.planted.v1''"
definition EventTypeFarmHarvested :: string where "EventTypeFarmHarvested = ''farm.harvested.v1''"
definition EventTypeFarmWatered :: string where "EventTypeFarmWatered = ''farm.watered.v1''"
definition EventTypeFarmStolen :: string where "EventTypeFarmStolen = ''farm.stolen.v1''"
definition EventTypeFriendAccepted :: string where
  "EventTypeFriendAccepted = ''social.friend_accepted.v1''"
definition EventTypeFriendEdgeRequested :: string where
  "EventTypeFriendEdgeRequested = ''social.friend_edge_requested.v1''"
definition EventTypeFriendEdgeApplied :: string where
  "EventTypeFriendEdgeApplied = ''social.friend_edge_applied.v1''"

lemmas event_type_defs = EventTypeFarmPlanted_def EventTypeFarmHarvested_def
  EventTypeFarmWatered_def EventTypeFarmStolen_def EventTypeFriendAccepted_def
  EventTypeFriendEdgeRequested_def EventTypeFriendEdgeApplied_def

record farm_planted_payload =
  fp_FarmID :: string
  fp_OwnerUserID :: string
  fp_ActorUserID :: string
  fp_FarmVersion :: int
  fp_PlotID :: int
  fp_CropID :: string
  fp_PlantedAt :: gotime
  fp_MatureAt :: gotime
  fp_CmdID :: string

record farm_harvested_payload =
  fh_FarmID :: string
  fh_OwnerUserID :: string
  fh_ActorUserID :: string
  fh_FarmVersion :: int
  fh_PlotID :: int
  fh_CropID :: string
  fh_Yield :: int
  fh_Mode :: string
  fh_HarvestedAt :: gotime
  fh_CmdID :: string

record farm_watered_payload =
  fw_FarmID :: string
  fw_OwnerUserID :: string
  fw_ActorUserID :: string
  fw_FarmVersion :: int
  fw_PlotID :: int
  fw_WateredAt :: gotime
  fw_CmdID :: string

record farm_stolen_payload =
  fs_FarmID :: string
  fs_OwnerUserID :: string
  fs_ActorUserID :: string
  fs_OwnerDisplayName :: string
  fs_ActorDisplayName :: string
  fs_FarmVersion :: int
  fs_PlotID :: int
  fs_CropID :: string
  fs_StolenAmount :: int
  fs_RemainingYield :: int
  fs_StolenAt :: gotime
  fs_CmdID :: string

record friend_edge_payload =
  fe_SourceEventID :: string
  fe_SourceUserID :: string
  fe_TargetUserID :: string
  fe_SourceDisplayName :: string
  fe_TargetDisplayName :: string
  fe_At :: gotime

record friend_accepted_payload =
  fa_UserIDA :: string
  fa_UserIDB :: string
  fa_InviterID :: string
  fa_AccepterID :: string
  fa_InviterDisplayName :: string
  fa_AccepterDisplayName :: string
  fa_AcceptedAt :: gotime

datatype payload =
    FarmPlanted farm_planted_payload
  | FarmHarvested farm_harvested_payload
  | FarmWatered farm_watered_payload
  | FarmStolen farm_stolen_payload
  | FriendEdgeRequested friend_edge_payload
  | FriendEdgeApplied friend_edge_payload
  | FriendAccepted friend_accepted_payload
  | NilPayload

record envelope =
  ev_EventID :: string
  ev_EventType :: string
  ev_AggregateType :: string
  ev_AggregateID :: string
  ev_SchemaVersion :: int
  ev_OccurredAt :: gotime
  ev_CorrelationID :: string
  ev_CausationID :: string
  ev_Payload :: payload

text \<open>The bytes of a message: the JSON of an envelope, or bytes that do not parse as one.\<close>

datatype raw = JSONOf envelope | NotJSON string

end
