(* ===== verification/FarmDomain.thy ===== *)
theory FarmDomain
  imports ErrCode
begin

text \<open>
  internal/farm/domain/farm.go and internal/farm/infrastructure/crop_config.go: plots, their lazily
  derived growth, commands, and the table of crops.
\<close>

section \<open>Plots and growth\<close>

text \<open>PlotStatus is a string in Go; the empty string is the status of a plot that is absent from the
  map, and any other text can come out of a stored snapshot.\<close>

datatype plot_status = PlotUnset | PlotEmpty | PlotGrowing | PlotMature | PlotOther string

datatype growth_stage = Seedling | SemiMature | Mature

record plot =
  PlotID :: int
  CropID :: string
  Status :: plot_status
  PlantedAt :: gotime
  MatureAt :: gotime
  WateredCount :: int
  RemainingYield :: int

definition zero_plot :: plot where
  "zero_plot = \<lparr>PlotID = 0, CropID = '''', Status = PlotUnset, PlantedAt = 0, MatureAt = 0,
     WateredCount = 0, RemainingYield = 0\<rparr>"

definition EffectiveStatus :: "plot \<Rightarrow> gotime \<Rightarrow> plot_status" where
  "EffectiveStatus p now =
     (if Status p = PlotGrowing \<and> \<not> is_zero_time (MatureAt p) \<and> \<not> now < MatureAt p
      then PlotMature else Status p)"

definition GrowthStage :: "plot \<Rightarrow> gotime \<Rightarrow> growth_stage" where
  "GrowthStage p now =
     (if Status p = PlotEmpty then Seedling
      else if is_zero_time (MatureAt p) \<or> \<not> now < MatureAt p then Mature
      else
        let total = time_sub (MatureAt p) (PlantedAt p) in
        if total \<le> 0 then Mature
        else
          let elapsed0 = time_sub now (PlantedAt p);
              elapsed = (if elapsed0 < 0 then 0 else elapsed0)
          in if total \<le> i64 (elapsed * 2) then SemiMature else Seedling)"

record snapshot =
  snap_FarmID :: int
  snap_OwnerID :: int
  snap_Version :: int
  snap_RouteEpoch :: int
  snap_Plots :: "(int \<times> plot) list"

record patch =
  patch_FarmID :: int
  patch_Version :: int
  patch_Plots :: "plot list"
  patch_ActorUser :: int

datatype command_type =
    CmdPlant | CmdWater | CmdHarvest | CmdPurchaseSeed | CmdSellCrop | CmdHelpWater
  | CmdStealCrop | CmdPetAutoHarvest | CmdUnknown string

definition MaxEconomyQuantity :: int where
  "MaxEconomyQuantity = 10000"

record command =
  cmd_CmdID :: string
  cmd_FarmID :: int
  cmd_ActorUser :: int
  cmd_Type :: command_type
  cmd_PlotID :: int
  cmd_CropID :: string
  cmd_Quantity :: int
  cmd_BaseVersion :: int
  cmd_RouteEpoch :: int
  cmd_PetScheduledAt :: gotime

section \<open>Crop configuration\<close>

record crop_config =
  SeedPrice :: int
  GrowthDuration :: duration
  HarvestYield :: int
  SellPrice :: int
  ItemID :: int
  CatalogKey :: string

definition cropConfigs :: "(string \<times> crop_config) list" where
  "cropConfigs =
    [(''1'', \<lparr>SeedPrice = 10, GrowthDuration = 3 * minute, HarvestYield = 5, SellPrice = 20, ItemID = 1, CatalogKey = ''crop_WHEAT''\<rparr>),
     (''WHEAT'', \<lparr>SeedPrice = 10, GrowthDuration = 3 * minute, HarvestYield = 5, SellPrice = 20, ItemID = 1, CatalogKey = ''crop_WHEAT''\<rparr>),
     (''2'', \<lparr>SeedPrice = 20, GrowthDuration = 6 * minute, HarvestYield = 6, SellPrice = 25, ItemID = 2, CatalogKey = ''crop_CARROT''\<rparr>),
     (''CARROT'', \<lparr>SeedPrice = 20, GrowthDuration = 6 * minute, HarvestYield = 6, SellPrice = 25, ItemID = 2, CatalogKey = ''crop_CARROT''\<rparr>),
     (''3'', \<lparr>SeedPrice = 30, GrowthDuration = 9 * minute, HarvestYield = 8, SellPrice = 30, ItemID = 3, CatalogKey = ''crop_TOMATO''\<rparr>),
     (''TOMATO'', \<lparr>SeedPrice = 30, GrowthDuration = 9 * minute, HarvestYield = 8, SellPrice = 30, ItemID = 3, CatalogKey = ''crop_TOMATO''\<rparr>)]"

definition defaultGrowthDuration :: duration where
  "defaultGrowthDuration = 10 * minute"

definition getCropConfig :: "string \<Rightarrow> go_error + crop_config" where
  "getCropConfig cropID =
     (case map_of cropConfigs cropID of
        None \<Rightarrow> Inl (New FarmCropNotFound)
      | Some cfg \<Rightarrow>
          if 0 < SeedPrice cfg \<and> go_div max_int64 MaxEconomyQuantity < SeedPrice cfg
          then Inl (New Internal)
          else if 0 < SellPrice cfg \<and> go_div max_int64 MaxEconomyQuantity < SellPrice cfg
          then Inl (New Internal)
          else Inr cfg)"

definition harvestYieldForCrop :: "string \<Rightarrow> int" where
  "harvestYieldForCrop cropID =
     (case getCropConfig cropID of
        Inr cfg \<Rightarrow> if 0 < HarvestYield cfg then HarvestYield cfg else 1
      | Inl _ \<Rightarrow> 1)"

definition cropIDToItemID :: "string \<Rightarrow> int" where
  "cropIDToItemID cropID =
     (case getCropConfig cropID of
        Inr cfg \<Rightarrow> if 0 < ItemID cfg then ItemID cfg else 1
      | Inl _ \<Rightarrow> 1)"

definition catalogKeyForCrop :: "string \<Rightarrow> string option" where
  "catalogKeyForCrop cropID =
     (case getCropConfig cropID of
        Inl _ \<Rightarrow> None
      | Inr cfg \<Rightarrow> if CatalogKey cfg = '''' then None else Some (CatalogKey cfg))"

section \<open>Facts about growth\<close>

text \<open>For a growing plot the two derived views agree: mature as a status exactly when mature as a
  stage.\<close>

lemma effective_mature_imp_stage:
  "Status p = PlotGrowing \<Longrightarrow> EffectiveStatus p now = PlotMature \<Longrightarrow> GrowthStage p now = Mature"
  by (auto simp: EffectiveStatus_def GrowthStage_def split: if_splits)

lemma stage_mature_imp_effective:
  assumes "Status p = PlotGrowing" "\<not> is_zero_time (MatureAt p)" "PlantedAt p < MatureAt p"
    "GrowthStage p now = Mature"
  shows "EffectiveStatus p now = PlotMature"
  using assms time_sub_pos [of "MatureAt p" "PlantedAt p"]
  by (auto simp: EffectiveStatus_def GrowthStage_def Let_def split: if_splits)

text \<open>The stages of a plot that is not tampered with only move forward.\<close>

definition stage_rank :: "growth_stage \<Rightarrow> nat" where
  "stage_rank g = (case g of Seedling \<Rightarrow> 0 | SemiMature \<Rightarrow> 1 | Mature \<Rightarrow> 2)"

instantiation growth_stage :: linorder
begin

definition less_eq_growth_stage :: "growth_stage \<Rightarrow> growth_stage \<Rightarrow> bool" where
  "less_eq_growth_stage a b \<longleftrightarrow> stage_rank a \<le> stage_rank b"

definition less_growth_stage :: "growth_stage \<Rightarrow> growth_stage \<Rightarrow> bool" where
  "less_growth_stage a b \<longleftrightarrow> stage_rank a < stage_rank b"

instance
  by standard
    (auto simp: less_eq_growth_stage_def less_growth_stage_def stage_rank_def
      split: growth_stage.splits)

end

lemma stage_order [simp]:
  "Seedling \<le> g" "g \<le> Mature" "Seedling < SemiMature" "SemiMature < Mature"
  by (auto simp: less_eq_growth_stage_def less_growth_stage_def stage_rank_def
      split: growth_stage.splits)

text \<open>The doubling of the elapsed time does not overflow for growth periods up to 2^62 ns (146
  years); the configured ones are minutes.\<close>

definition sane_growth :: "plot \<Rightarrow> bool" where
  "sane_growth p \<longleftrightarrow> MatureAt p - PlantedAt p < 4611686018427387904"

lemma elapsed_exact:
  assumes "sane_growth p" "now < MatureAt p"
  shows "i64 ((if time_sub now (PlantedAt p) < 0 then 0 else time_sub now (PlantedAt p)) * 2)
       = max 0 (now - PlantedAt p) * 2"
proof -
  have "(if time_sub now (PlantedAt p) < 0 then 0 else time_sub now (PlantedAt p)) = max 0 (now - PlantedAt p)"
    using assms by (auto simp: sane_growth_def time_sub_def min_int64_def max_int64_def)
  moreover have "in_i64 (max 0 (now - PlantedAt p) * 2)"
    using assms by (simp add: sane_growth_def in_i64_def min_int64_def max_int64_def max_def)
  ultimately show ?thesis by (simp add: i64_id)
qed

lemma GrowthStage_exact:
  assumes "sane_growth p" "Status p \<noteq> PlotEmpty" "MatureAt p \<noteq> 0" "PlantedAt p < MatureAt p"
  shows "GrowthStage p now =
    (if MatureAt p \<le> now then Mature
     else if MatureAt p - PlantedAt p \<le> 2 * max 0 (now - PlantedAt p) then SemiMature
     else Seedling)"
proof -
  have t: "time_sub (MatureAt p) (PlantedAt p) = MatureAt p - PlantedAt p"
    using assms by (auto simp: sane_growth_def time_sub_def min_int64_def max_int64_def)
  show ?thesis
  proof (cases "MatureAt p \<le> now")
    case False
    then have "now < MatureAt p" by simp
    from elapsed_exact [OF assms(1) this] show ?thesis
      using assms False by (simp add: GrowthStage_def is_zero_time_def t Let_def mult.commute)
  qed (use assms in \<open>simp add: GrowthStage_def is_zero_time_def\<close>)
qed

lemma GrowthStage_mono:
  assumes "sane_growth p" "Status p \<noteq> PlotEmpty" "MatureAt p \<noteq> 0" "PlantedAt p < MatureAt p"
    "now \<le> later"
  shows "GrowthStage p now \<le> GrowthStage p later"
proof -
  have "MatureAt p - PlantedAt p \<le> 2 * max 0 (later - PlantedAt p)"
    if "MatureAt p - PlantedAt p \<le> 2 * max 0 (now - PlantedAt p)"
    using that assms(5) by (auto simp: max_def split: if_splits)
  then show ?thesis
    using assms(5) by (auto simp: GrowthStage_exact [OF assms(1-4)] less_imp_le)
qed

section \<open>Facts about the crop table\<close>

lemma getCropConfig_cases:
  assumes "getCropConfig c = Inr cfg"
  shows "cfg \<in> snd ` set cropConfigs"
  using assms
  by (auto simp: getCropConfig_def split: option.splits if_splits dest!: map_of_SomeD
      intro: rev_image_eqI)

lemma getCropConfig_bounds:
  assumes "getCropConfig c = Inr cfg"
  shows "0 < SeedPrice cfg" "SeedPrice cfg \<le> 30" "0 < SellPrice cfg" "SellPrice cfg \<le> 30"
    "0 < HarvestYield cfg" "HarvestYield cfg \<le> 8" "0 < ItemID cfg" "0 < GrowthDuration cfg"
    "GrowthDuration cfg \<le> 9 * minute" "2 * minute < GrowthDuration cfg" "5 \<le> HarvestYield cfg"
    "CatalogKey cfg \<noteq> ''''"
  using getCropConfig_cases [OF assms] by (auto simp: cropConfigs_def)

lemma harvestYieldForCrop_bounds: "1 \<le> harvestYieldForCrop c" "harvestYieldForCrop c \<le> 8"
  using getCropConfig_bounds(5,6)
  by (auto simp: harvestYieldForCrop_def split: sum.split) (smt (verit))

lemma cropIDToItemID_pos: "0 < cropIDToItemID c"
  by (auto simp: cropIDToItemID_def split: sum.split)

text \<open>A price times a quantity that passed the quantity check stays far from the int64 bound.\<close>

lemma price_quantity_exact:
  assumes "getCropConfig c = Inr cfg" "1 \<le> q" "q \<le> MaxEconomyQuantity"
  shows "i64 (SeedPrice cfg * q) = SeedPrice cfg * q" "i64 (SellPrice cfg * q) = SellPrice cfg * q"
    "0 < SeedPrice cfg * q" "0 < SellPrice cfg * q"
    "SeedPrice cfg * q \<le> 300000" "SellPrice cfg * q \<le> 300000"
proof -
  note b = getCropConfig_bounds [OF assms(1)]
  have s: "SeedPrice cfg * q \<le> 30 * 10000" "SellPrice cfg * q \<le> 30 * 10000"
    using b assms by (intro mult_mono; simp add: MaxEconomyQuantity_def)+
  have p: "0 < SeedPrice cfg * q" "0 < SellPrice cfg * q"
    using b assms by (intro mult_pos_pos; simp)+
  show "0 < SeedPrice cfg * q" "0 < SellPrice cfg * q" by (fact p)+
  show "SeedPrice cfg * q \<le> 300000" "SellPrice cfg * q \<le> 300000" using s by simp_all
  show "i64 (SeedPrice cfg * q) = SeedPrice cfg * q" "i64 (SellPrice cfg * q) = SellPrice cfg * q"
    using s p by (auto intro!: i64_id simp: in_i64_def min_int64_def max_int64_def)
qed

end
