(* ===== verification/Schema.thy ===== *)
theory Schema
  imports Tx Events FarmDomain
begin

text \<open>
  The MySQL tables of one shard as they stand after all migrations (src/migrations/mysql), as far
  as the services read or write them.  A table the code scans in an order is a list in primary-key
  order; a table only addressed by its unique key is a map from the key.  Audit columns that no
  statement of the sources reads back (created_at of most tables, row_version, trace ids) are left
  out.  Unique keys, CHECK constraints and triggers are part of the statements: an insert that
  violates one fails with the MySQL error number.  Keys are compared exactly.  The string columns have the
  collation utf8mb4_0900_ai_ci, which identifies letters up to case and accent; the command and event ids that reach them
  are normalised to lower-case hexadecimal digits (src/server/pkg/id, \<^verbatim>\<open>NormalizeV7\<close>) or built by the server, so that both
  comparisons agree on them.  Where a collation matters, for user names and devices, it is a parameter
  (\<^verbatim>\<open>account_keys\<close>).
\<close>

record plot_json =
  pj_CropID :: string
  pj_Status :: string
  pj_PlantedAt :: gotime
  pj_MatureAt :: gotime
  pj_WateredCount :: int
  pj_RemainingYield :: "int option"

type_synonym snapshot_json = "(string \<times> plot_json) list"

record farm_row =
  fr_owner :: int
  fr_version :: int
  fr_snapshot :: snapshot_json
  fr_route_epoch :: int
  fr_next_pet :: "gotime option"
  fr_lease_owner :: "string option"
  fr_lease_until :: "gotime option"

record ledger_row =
  lg_currency :: string
  lg_before :: int
  lg_delta :: int
  lg_after :: int
  lg_source :: string
  lg_committed :: bool

record receipt_row =
  rc_user :: int
  rc_cmd :: string
  rc_version :: "int option"
  rc_created :: gotime

datatype outbox_status = OPending | OPublishing | OPublished | ODead

record outbox_row =
  ob_id :: nat
  ob_event_id :: string
  ob_aggregate_type :: string
  ob_aggregate_id :: int
  ob_partition_key :: string
  ob_event_type :: string
  ob_payload :: envelope
  ob_status :: outbox_status
  ob_available :: gotime
  ob_retry :: int
  ob_locked_by :: "string option"
  ob_locked_until :: "gotime option"
  ob_published_at :: "gotime option"

record consumed_row =
  ce_event :: string
  ce_consumer :: string
  ce_processed :: gotime

record failed_row =
  cf_group :: string
  cf_name :: string
  cf_topic :: string
  cf_partition :: int
  cf_offset :: int
  cf_key :: string
  cf_event :: "string option"
  cf_payload :: raw
  cf_attempts :: int
  cf_error :: go_error
  cf_first :: gotime
  cf_last :: gotime

datatype pet_status = PetActive | PetInactive

record pet_row =
  pt_status :: pet_status
  pt_auto :: bool

datatype task_status = TaskActive | TaskCompleted | TaskRewardClaimed

record task_row =
  tk_id :: nat
  tk_progress :: int
  tk_status :: task_status
  tk_created :: gotime
  tk_updated :: gotime

datatype edge_state = EdgePending | EdgeActive | EdgeFailed

record edge_row =
  ed_state :: edge_state
  ed_source :: "string option"
  ed_updated :: gotime

datatype mail_status = MailUnread | MailRead | MailDeleted

record mail_row =
  ml_id :: nat
  ml_user :: int
  ml_sender :: "int option"
  ml_type :: string
  ml_title :: string
  ml_content :: string
  ml_status :: mail_status
  ml_read_at :: "gotime option"
  ml_expires :: "gotime option"
  ml_created :: gotime

record attachment_row =
  at_id :: nat
  at_mail :: nat
  at_type :: string
  at_item :: int
  at_quantity :: int
  at_claimed :: "gotime option"

record mailbox_row =
  mb_unread :: int
  mb_version :: int

record account_row =
  acct_farm :: "int option"
  acct_type :: string
  acct_status :: string
  acct_created :: gotime

record identity_row =
  idn_user :: int
  idn_credential :: "string option"
  idn_status :: string

text \<open>The column display_name of accounts is the map \<^verbatim>\<open>display_names\<close>; the other columns are in \<^verbatim>\<open>accounts\<close>.  An identity
  is found by its provider and its subject as the collation of the column compares it.\<close>

record db =
  farms :: "(int \<times> farm_row) list"
  wallets :: "int \<rightharpoonup> int"
  inventory :: "int \<times> string \<times> int \<rightharpoonup> int"
  ledger :: "int \<times> string \<times> string \<rightharpoonup> ledger_row"
  receipts :: "receipt_row list"
  outbox :: "outbox_row list"
  consumed :: "consumed_row list"
  pets :: "int \<rightharpoonup> pet_row"
  tasks :: "((int \<times> string) \<times> task_row) list"
  unlocks :: "int \<times> string \<rightharpoonup> gotime"
  friendships :: "(int \<times> int) list"
  edges :: "((int \<times> int) \<times> edge_row) list"
  mails :: "mail_row list"
  attachments :: "attachment_row list"
  mailboxes :: "int \<rightharpoonup> mailbox_row"
  display_names :: "int \<rightharpoonup> string"
  accounts :: "(int \<times> account_row) list"
  identities :: "((string \<times> string) \<times> identity_row) list"
  failed :: "failed_row list"

definition empty_db :: db where
  "empty_db = \<lparr>farms = [], wallets = Map.empty, inventory = Map.empty, ledger = Map.empty,
     receipts = [], outbox = [], consumed = [], pets = Map.empty, tasks = [],
     unlocks = Map.empty, friendships = [], edges = [], mails = [], attachments = [],
     mailboxes = Map.empty, display_names = Map.empty, accounts = [], identities = [], failed = []\<rparr>"

section \<open>Constraints of the schema\<close>

definition dup_key :: go_error where "dup_key = MySQLErr 1062"
definition check_violation :: go_error where "check_violation = MySQLErr 3819"
definition out_of_range :: go_error where "out_of_range = MySQLErr 1264"
definition null_violation :: go_error where "null_violation = MySQLErr 1048"

text \<open>MySQL's UNHEX on a hexadecimal string, in canonical lower case, and the value a BINARY(16)
  column holds: zero-padded on the right, an error when longer.\<close>

definition lower_char :: "char \<Rightarrow> char" where
  "lower_char c = (let n = of_char c in if 65 \<le> n \<and> n \<le> 90 then char_of (n + 32 :: nat) else c)"

definition is_hex :: "char \<Rightarrow> bool" where
  "is_hex c \<longleftrightarrow> (let n = (of_char c :: nat) in (48 \<le> n \<and> n \<le> 57) \<or> (97 \<le> n \<and> n \<le> 102) \<or> (65 \<le> n \<and> n \<le> 70))"

definition unhex :: "string \<Rightarrow> string option" where
  "unhex s =
     (if list_all is_hex s
      then Some (map lower_char (if even (length s) then s else CHR ''0'' # s))
      else None)"

definition binary16 :: "string \<Rightarrow> go_error + string" where
  "binary16 s =
     (case unhex s of
        None \<Rightarrow> Inl null_violation
      | Some h \<Rightarrow>
          if 32 < length h then Inl (MySQLErr 1406)
          else Inr (h @ replicate (32 - length h) (CHR ''0'')))"

definition lift_sum :: "go_error + 'a \<Rightarrow> ('s, 'a) tx" where
  "lift_sum x = (case x of Inl e \<Rightarrow> tx_fail e | Inr a \<Rightarrow> tx_return a)"

lemma lift_sum_Inr [tx_inv]: "lift_sum x s = Inr (a, s') \<longleftrightarrow> x = Inr a \<and> s' = s"
  by (auto simp: lift_sum_def tx_inv split: sum.split)

definition next_outbox_id :: "db \<Rightarrow> nat" where
  "next_outbox_id s = Suc (foldr (\<lambda>r m. max (ob_id r) m) (outbox s) 0)"

text \<open>Rows are inserted with AUTO_INCREMENT keys, so insertion is at the end of the list.\<close>

definition insert_outbox_row :: "outbox_row \<Rightarrow> (db, unit) tx" where
  "insert_outbox_row r =
     (\<lambda>s. if ob_event_id r \<in> ob_event_id ` set (outbox s) then Inl dup_key
          else Inr ((), s\<lparr>outbox := outbox s @ [r\<lparr>ob_id := next_outbox_id s\<rparr>]\<rparr>))"

lemma insert_outbox_row_Inr [tx_inv]:
  "insert_outbox_row r s = Inr (u, s') \<longleftrightarrow>
     ob_event_id r \<notin> ob_event_id ` set (outbox s)
     \<and> s' = s\<lparr>outbox := outbox s @ [r\<lparr>ob_id := next_outbox_id s\<rparr>]\<rparr>"
  by (auto simp: insert_outbox_row_def)

definition pending_row :: "string \<Rightarrow> string \<Rightarrow> int \<Rightarrow> string \<Rightarrow> string \<Rightarrow> envelope \<Rightarrow> gotime \<Rightarrow> outbox_row" where
  "pending_row eventID aggType aggID key eventType payload now =
     \<lparr>ob_id = 0, ob_event_id = eventID, ob_aggregate_type = aggType, ob_aggregate_id = aggID,
      ob_partition_key = key, ob_event_type = eventType, ob_payload = payload,
      ob_status = OPending, ob_available = datetime3 now, ob_retry = 0, ob_locked_by = None,
      ob_locked_until = None, ob_published_at = None\<rparr>"

section \<open>Well-formed databases\<close>

text \<open>What the primary keys, unique keys and CHECK constraints guarantee of every stored state, and
  the convention of the sources that a farm has the id of its owner.\<close>

definition outbox_ok :: "db \<Rightarrow> bool" where
  "outbox_ok s \<longleftrightarrow> distinct (map ob_id (outbox s)) \<and> distinct (map ob_event_id (outbox s))"

definition coins_ok :: "db \<Rightarrow> bool" where
  "coins_ok s \<longleftrightarrow> (\<forall>u b. wallets s u = Some b \<longrightarrow> 0 \<le> b \<and> b \<le> max_int64)"

type_synonym inventory_map = "int \<times> string \<times> int \<rightharpoonup> int"

definition inv_ok :: "inventory_map \<Rightarrow> bool" where
  "inv_ok iv \<longleftrightarrow> (\<forall>k q. iv k = Some q \<longrightarrow> 0 \<le> q \<and> q \<le> max_int64)"

definition inventory_ok :: "db \<Rightarrow> bool" where
  "inventory_ok s \<longleftrightarrow> inv_ok (inventory s)"

text \<open>The quantity an inventory holds of an item, and a change of it that keeps every row in the
  range of its column.\<close>

definition qty :: "inventory_map \<Rightarrow> int \<times> string \<times> int \<Rightarrow> int" where
  "qty iv k = opt_or (iv k) 0"

definition quantity :: "db \<Rightarrow> int \<times> string \<times> int \<Rightarrow> int" where
  "quantity s k = qty (inventory s) k"

definition inv_change :: "(int \<times> string \<times> int \<Rightarrow> int) \<Rightarrow> inventory_map \<Rightarrow> inventory_map \<Rightarrow> bool" where
  "inv_change f iv iv' \<longleftrightarrow> (\<forall>k. qty iv' k = qty iv k + f k) \<and> (inv_ok iv \<longrightarrow> inv_ok iv')"

lemma inv_change_refl: "(\<And>k. f k = 0) \<Longrightarrow> inv_change f iv iv"
  by (simp add: inv_change_def)

lemma inv_change_upd:
  assumes "0 \<le> qty iv k + d" "qty iv k + d \<le> max_int64" "\<And>j. f j = (if j = k then d else 0)"
  shows "inv_change f iv (iv(k \<mapsto> qty iv k + d))"
  using assms by (auto simp: inv_change_def qty_def inv_ok_def)

lemma inv_change_qty: "inv_change f iv iv' \<Longrightarrow> qty iv' k = qty iv k + f k"
  unfolding inv_change_def by blast

definition receipts_ok :: "db \<Rightarrow> bool" where
  "receipts_ok s \<longleftrightarrow> distinct (map (\<lambda>r. (rc_user r, rc_cmd r)) (receipts s))"

definition farms_ok :: "db \<Rightarrow> bool" where
  "farms_ok s \<longleftrightarrow> unique_keys (farms s) \<and> (\<forall>(k, r) \<in> set (farms s). fr_owner r = k)"

definition wf_db :: "db \<Rightarrow> bool" where
  "wf_db s \<longleftrightarrow> outbox_ok s \<and> coins_ok s \<and> inventory_ok s \<and> receipts_ok s \<and> farms_ok s"

lemma next_outbox_id_fresh: "r \<in> set (outbox s) \<Longrightarrow> ob_id r < next_outbox_id s"
proof -
  have "r \<in> set rs \<Longrightarrow> ob_id r \<le> foldr (\<lambda>r m. max (ob_id r) m) rs 0" for rs :: "outbox_row list"
    by (induction rs) auto
  then show "r \<in> set (outbox s) \<Longrightarrow> ob_id r < next_outbox_id s"
    by (simp add: next_outbox_id_def le_imp_less_Suc)
qed

lemma insert_outbox_row_ok:
  assumes "outbox_ok s" "insert_outbox_row r s = Inr (u, s')"
  shows "outbox_ok s'"
  using assms next_outbox_id_fresh [of _ s] by (force simp: outbox_ok_def tx_inv)

end
