(* ===== verification/Strconv.thy ===== *)
theory Strconv
  imports Prelude
begin

text \<open>
  The part of Go's strconv and strings the sources use: decimal formatting and parsing of
  integers, TrimSpace and Split.  A Go string is its list of bytes, as characters.
\<close>

definition digit_char :: "nat \<Rightarrow> char" where
  "digit_char d = char_of (48 + d)"

definition char_digit :: "char \<Rightarrow> nat option" where
  "char_digit c = (let n = of_char c in if 48 \<le> n \<and> n \<le> 57 then Some (n - 48) else None)"

lemma char_digit_digit_char [simp]: "d < 10 \<Longrightarrow> char_digit (digit_char d) = Some d"
  by (simp add: char_digit_def digit_char_def)

lemma digit_char_not_sign [simp]: "d < 10 \<Longrightarrow> digit_char d \<noteq> CHR ''-''" "d < 10 \<Longrightarrow> digit_char d \<noteq> CHR ''+''"
  using char_digit_digit_char [of d] by (auto simp: char_digit_def simp del: char_digit_digit_char)

fun format_nat :: "nat \<Rightarrow> string" where
  "format_nat n =
     (if n < 10 then [digit_char n] else format_nat (n div 10) @ [digit_char (n mod 10)])"

declare format_nat.simps [simp del]

text \<open>strconv.FormatInt(x, 10) and strconv.Itoa.\<close>

definition format_int :: "int \<Rightarrow> string" where
  "format_int x =
     (if x < 0 then CHR ''-'' # format_nat (nat (- x)) else format_nat (nat x))"

fun parse_digits :: "nat \<Rightarrow> string \<Rightarrow> nat option" where
  "parse_digits acc [] = Some acc"
| "parse_digits acc (c # cs) =
     (case char_digit c of None \<Rightarrow> None | Some d \<Rightarrow> parse_digits (10 * acc + d) cs)"

definition parse_unsigned :: "string \<Rightarrow> nat option" where
  "parse_unsigned s = (if s = [] then None else parse_digits 0 s)"

text \<open>strconv.ParseInt(s, 10, bits): an optional sign, digits, and a range check.\<close>

definition parse_int :: "nat \<Rightarrow> string \<Rightarrow> int option" where
  "parse_int bits s =
     (let (neg, body) =
        (case s of
           [] \<Rightarrow> (False, [])
         | c # cs \<Rightarrow>
             if c = CHR ''-'' then (True, cs) else if c = CHR ''+'' then (False, cs)
             else (False, s))
      in case parse_unsigned body of
           None \<Rightarrow> None
         | Some n \<Rightarrow>
             let x = (if neg then - int n else int n)
             in if - (2 ^ (bits - 1)) \<le> x \<and> x < 2 ^ (bits - 1) then Some x else None)"

text \<open>strings.TrimSpace on the ASCII spaces, strings.Split on one character.\<close>

definition is_space :: "char \<Rightarrow> bool" where
  "is_space c \<longleftrightarrow> (of_char c :: nat) \<in> {9, 10, 11, 12, 13, 32}"

definition trim_space :: "string \<Rightarrow> string" where
  "trim_space s = rev (dropWhile is_space (rev (dropWhile is_space s)))"

fun split_on :: "char \<Rightarrow> string \<Rightarrow> string list" where
  "split_on c [] = [[]]"
| "split_on c (x # xs) =
     (if x = c then [] # split_on c xs
      else (case split_on c xs of [] \<Rightarrow> [[x]] | p # ps \<Rightarrow> (x # p) # ps))"

section \<open>Round trips\<close>

lemma parse_digits_append:
  "parse_digits acc (xs @ ys) =
     (case parse_digits acc xs of None \<Rightarrow> None | Some m \<Rightarrow> parse_digits m ys)"
  by (induction acc xs rule: parse_digits.induct) (auto split: option.split)

lemma parse_digits_format_nat [simp]: "parse_digits 0 (format_nat n) = Some n"
proof (induction n rule: format_nat.induct)
  case (1 n)
  then show ?case
    by (subst format_nat.simps) (auto simp: parse_digits_append)
qed

lemma format_nat_nonempty [simp]: "format_nat n \<noteq> []"
  by (subst format_nat.simps) simp

lemma format_nat_digits: "set (format_nat n) \<subseteq> digit_char ` {..<10}"
proof (induction n rule: format_nat.induct)
  case (1 n)
  then show ?case by (subst format_nat.simps) auto
qed

lemma format_nat_char_digit: "c \<in> set (format_nat n) \<Longrightarrow> char_digit c \<noteq> None"
  using format_nat_digits [of n] by auto

lemma digit_char_notin [simp]:
  "CHR ''-'' \<notin> set (format_nat n)" "CHR ''+'' \<notin> set (format_nat n)"
  "CHR '':'' \<notin> set (format_nat n)" "CHR ''.'' \<notin> set (format_nat n)"
  "CHR '' '' \<notin> set (format_nat n)"
  by (auto dest!: format_nat_char_digit simp: char_digit_def)

lemma format_int_no_sep [simp]:
  "CHR '':'' \<notin> set (format_int x)" "CHR ''.'' \<notin> set (format_int x)"
  by (auto simp: format_int_def)

lemma format_int_nonempty [simp]: "format_int x \<noteq> []"
  by (simp add: format_int_def)

lemma parse_unsigned_format [simp]: "parse_unsigned (format_nat n) = Some n"
  by (simp add: parse_unsigned_def)

lemma parse_format_int:
  assumes "- (2 ^ (bits - 1)) \<le> x" "x < 2 ^ (bits - 1)"
  shows "parse_int bits (format_int x) = Some x"
proof (cases "x < 0")
  case True
  then show ?thesis using assms by (simp add: parse_int_def format_int_def)
next
  case False
  obtain c cs where f: "format_nat (nat x) = c # cs"
    by (cases "format_nat (nat x)") auto
  have "c \<noteq> CHR ''-''" "c \<noteq> CHR ''+''"
    using digit_char_notin(1,2) [of "nat x"] f by (metis list.set_intros(1))+
  then show ?thesis
    using False assms parse_unsigned_format [of "nat x"] by (simp add: parse_int_def format_int_def f)
qed

lemma parse_format_i64: "in_i64 x \<Longrightarrow> parse_int 64 (format_int x) = Some x"
  by (rule parse_format_int) (simp_all add: in_i64_def min_int64_def max_int64_def)

lemma format_int_inj: "inj format_int"
proof (rule injI)
  fix x y :: int
  assume eq: "format_int x = format_int y"
  have nat_inj: "format_nat m = format_nat n \<Longrightarrow> m = n" for m n
    by (metis parse_unsigned_format option.inject)
  have sign: "CHR ''-'' # cs \<noteq> format_nat n" for cs n
    using digit_char_notin(1) [of n] by (metis list.set_intros(1))
  show "x = y"
    using eq sign sign [symmetric]
    by (auto simp: format_int_def split: if_splits dest!: nat_inj)
qed

lemma split_on_no_sep: "c \<notin> set p \<Longrightarrow> split_on c p = [p]"
  by (induction p) auto

lemma split_on_nonempty [simp]: "split_on c s \<noteq> []"
  by (induction s) (auto split: list.split)

lemma split_on_append:
  "c \<notin> set p \<Longrightarrow> split_on c (p @ c # s) = p # split_on c s"
  by (induction p) (auto split: list.split)

end
