(* ===== verification/FarmApply.thy ===== *)
theory FarmApply
  imports Schema Strconv
begin

text \<open>
  The in-memory half of internal/farm/infrastructure/committer_mysql.go: applying a command to a
  locked snapshot, and the stored form of a snapshot.
\<close>

section \<open>Applying a command\<close>

record apply_result =
  ar_changedPlot :: plot
  ar_eventType :: string
  ar_harvestedCropID :: string
  ar_harvestedYield :: int
  ar_harvestMode :: string
  ar_stolenAmount :: int
  ar_remainingYield :: int

definition plain_result :: "plot \<Rightarrow> string \<Rightarrow> apply_result" where
  "plain_result p ev = \<lparr>ar_changedPlot = p, ar_eventType = ev, ar_harvestedCropID = '''',
     ar_harvestedYield = 0, ar_harvestMode = '''', ar_stolenAmount = 0, ar_remainingYield = 0\<rparr>"

definition waterByGrowthStage :: "plot \<Rightarrow> gotime \<Rightarrow> plot" where
  "waterByGrowthStage p now =
     (let watered = p\<lparr>MatureAt := MatureAt p - minute, WateredCount := WateredCount p + 1\<rparr> in
      case GrowthStage p now of
        Seedling \<Rightarrow> if WateredCount p \<noteq> 0 then p else watered
      | SemiMature \<Rightarrow> if WateredCount p \<noteq> 1 then p else watered
      | Mature \<Rightarrow> p)"

text \<open>The loop of smallestMaturePlotID over the map, in one iteration order.\<close>

fun smallest_from :: "int option \<Rightarrow> gotime \<Rightarrow> (int \<times> plot) list \<Rightarrow> int option" where
  "smallest_from acc now [] = acc"
| "smallest_from acc now ((plotID, p) # ps) =
     (if EffectiveStatus p now \<noteq> PlotMature then smallest_from acc now ps
      else
        (case acc of
           None \<Rightarrow> smallest_from (Some plotID) now ps
         | Some m \<Rightarrow> smallest_from (Some (if plotID < m then plotID else m)) now ps))"

definition smallestMaturePlotID :: "(int \<times> plot) list \<Rightarrow> gotime \<Rightarrow> int option" where
  "smallestMaturePlotID plots now = smallest_from None now plots"

definition plot_at :: "(int \<times> plot) list \<Rightarrow> int \<Rightarrow> plot" where
  "plot_at plots k = opt_or (map_of plots k) zero_plot"

definition cleared_plot :: "int \<Rightarrow> plot" where
  "cleared_plot plotID = zero_plot\<lparr>PlotID := plotID, Status := PlotEmpty\<rparr>"

definition with_plot :: "snapshot \<Rightarrow> int \<Rightarrow> plot \<Rightarrow> snapshot" where
  "with_plot snap k p = snap\<lparr>snap_Plots := AList.update k p (snap_Plots snap)\<rparr>"

definition apply_plant :: "snapshot \<Rightarrow> command \<Rightarrow> plot \<Rightarrow> gotime \<Rightarrow> go_error + (apply_result \<times> snapshot)" where
  "apply_plant snap cmd p now =
     (if Status p \<noteq> PlotUnset \<and> Status p \<noteq> PlotEmpty then Inl (New FarmPlotState)
      else
        let d = (case getCropConfig (cmd_CropID cmd) of
                   Inr cfg \<Rightarrow> GrowthDuration cfg | Inl _ \<Rightarrow> defaultGrowthDuration);
            p' = p\<lparr>CropID := cmd_CropID cmd, Status := PlotGrowing, PlantedAt := now,
                   MatureAt := now + d, WateredCount := 0,
                   RemainingYield := harvestYieldForCrop (cmd_CropID cmd)\<rparr>
        in Inr (plain_result p' EventTypeFarmPlanted, with_plot snap (cmd_PlotID cmd) p'))"

definition apply_water :: "snapshot \<Rightarrow> command \<Rightarrow> plot \<Rightarrow> gotime \<Rightarrow> go_error + (apply_result \<times> snapshot)" where
  "apply_water snap cmd p now =
     (let eff = EffectiveStatus p now in
      if eff = PlotEmpty \<or> eff = PlotUnset then Inl (New FarmPlotState)
      else
        let p' = waterByGrowthStage p now
        in Inr (plain_result p' EventTypeFarmWatered, with_plot snap (cmd_PlotID cmd) p'))"

definition harvested :: "snapshot \<Rightarrow> command \<Rightarrow> plot \<Rightarrow> string \<Rightarrow> apply_result \<times> snapshot" where
  "harvested snap cmd p mode =
     (let p' = cleared_plot (cmd_PlotID cmd)
      in ((plain_result p' EventTypeFarmHarvested)
            \<lparr>ar_harvestedCropID := CropID p, ar_harvestedYield := RemainingYield p,
             ar_harvestMode := mode\<rparr>,
          with_plot snap (cmd_PlotID cmd) p'))"

definition apply_harvest :: "snapshot \<Rightarrow> command \<Rightarrow> plot \<Rightarrow> gotime \<Rightarrow> go_error + (apply_result \<times> snapshot)" where
  "apply_harvest snap cmd p now =
     (if EffectiveStatus p now \<noteq> PlotMature then Inl (New FarmPlotState)
      else Inr (harvested snap cmd p ''MANUAL''))"

definition apply_steal :: "snapshot \<Rightarrow> command \<Rightarrow> plot \<Rightarrow> gotime \<Rightarrow> go_error + (apply_result \<times> snapshot)" where
  "apply_steal snap cmd p now =
     (if EffectiveStatus p now \<noteq> PlotMature then Inl (New FarmPlotState)
      else
        let remainingYield = RemainingYield p;
            stealAmount = go_div (harvestYieldForCrop (CropID p)) 5
        in if stealAmount \<le> 0 \<or> remainingYield \<le> stealAmount then Inl (New FarmPlotState)
           else
             let p' = p\<lparr>RemainingYield := i64 (remainingYield - stealAmount)\<rparr>
             in Inr ((plain_result p' EventTypeFarmStolen)
                       \<lparr>ar_harvestedCropID := CropID p, ar_stolenAmount := stealAmount,
                        ar_remainingYield := RemainingYield p'\<rparr>,
                     with_plot snap (cmd_PlotID cmd) p'))"

definition apply_pet_harvest :: "snapshot \<Rightarrow> command \<Rightarrow> plot \<Rightarrow> gotime \<Rightarrow> go_error + (apply_result \<times> snapshot)" where
  "apply_pet_harvest snap cmd p now =
     (if EffectiveStatus p now \<noteq> PlotMature then Inl (New FarmPlotState)
      else if smallestMaturePlotID (snap_Plots snap) now \<noteq> Some (cmd_PlotID cmd)
      then Inl (New FarmVersionConflict)
      else Inr (harvested snap cmd p ''PET_AUTO''))"

definition applyCmd :: "snapshot \<Rightarrow> command \<Rightarrow> gotime \<Rightarrow> go_error + (apply_result \<times> snapshot)" where
  "applyCmd snap cmd now =
     (let p = (plot_at (snap_Plots snap) (cmd_PlotID cmd))\<lparr>PlotID := cmd_PlotID cmd\<rparr> in
      case cmd_Type cmd of
        CmdPlant \<Rightarrow> apply_plant snap cmd p now
      | CmdHarvest \<Rightarrow> apply_harvest snap cmd p now
      | CmdWater \<Rightarrow> apply_water snap cmd p now
      | CmdHelpWater \<Rightarrow> apply_water snap cmd p now
      | CmdStealCrop \<Rightarrow> apply_steal snap cmd p now
      | CmdPetAutoHarvest \<Rightarrow> apply_pet_harvest snap cmd p now
      | _ \<Rightarrow> Inl (New CommonInvalidArgument))"

section \<open>The stored snapshot\<close>

definition status_text :: "plot_status \<Rightarrow> string" where
  "status_text st = (case st of PlotUnset \<Rightarrow> '''' | PlotEmpty \<Rightarrow> ''EMPTY'' | PlotGrowing \<Rightarrow> ''GROWING''
     | PlotMature \<Rightarrow> ''MATURE'' | PlotOther t \<Rightarrow> t)"

definition status_of_text :: "string \<Rightarrow> plot_status" where
  "status_of_text t =
     (if t = '''' then PlotUnset else if t = ''EMPTY'' then PlotEmpty
      else if t = ''GROWING'' then PlotGrowing else if t = ''MATURE'' then PlotMature
      else PlotOther t)"

definition plot_to_json :: "plot \<Rightarrow> plot_json" where
  "plot_to_json p =
     \<lparr>pj_CropID = CropID p, pj_Status = status_text (Status p), pj_PlantedAt = PlantedAt p,
      pj_MatureAt = MatureAt p, pj_WateredCount = WateredCount p,
      pj_RemainingYield = Some (RemainingYield p)\<rparr>"

definition marshalSnapshot :: "snapshot \<Rightarrow> snapshot_json" where
  "marshalSnapshot snap = map (\<lambda>(plotID, p). (format_int plotID, plot_to_json p)) (snap_Plots snap)"

definition plot_of_json :: "int \<Rightarrow> plot_json \<Rightarrow> plot" where
  "plot_of_json pid j =
     (let st = status_of_text (pj_Status j);
          remaining =
            (case pj_RemainingYield j of
               Some y \<Rightarrow> y
             | None \<Rightarrow>
                 if st \<noteq> PlotEmpty \<and> pj_Status j \<noteq> '''' then harvestYieldForCrop (pj_CropID j)
                 else 0)
      in \<lparr>PlotID = pid, CropID = pj_CropID j, Status = st, PlantedAt = pj_PlantedAt j,
          MatureAt = pj_MatureAt j, WateredCount = pj_WateredCount j, RemainingYield = remaining\<rparr>)"

fun unmarshal_plots :: "(int \<times> plot) list \<Rightarrow> snapshot_json \<Rightarrow> go_error + (int \<times> plot) list" where
  "unmarshal_plots acc [] = Inr acc"
| "unmarshal_plots acc ((k, j) # rest) =
     (case parse_int 32 k of
        None \<Rightarrow> Inl (PlainErr ''invalid plot_id key'')
      | Some pid \<Rightarrow> unmarshal_plots (AList.update pid (plot_of_json pid j) acc) rest)"

definition unmarshalSnapshot :: "int \<Rightarrow> int \<Rightarrow> int \<Rightarrow> snapshot_json \<Rightarrow> go_error + snapshot" where
  "unmarshalSnapshot farmID ownerID version raw =
     (case unmarshal_plots [] raw of
        Inl e \<Rightarrow> Inl e
      | Inr plots \<Rightarrow>
          Inr \<lparr>snap_FarmID = farmID, snap_OwnerID = ownerID, snap_Version = version,
               snap_RouteEpoch = 0, snap_Plots = plots\<rparr>)"

definition emptySnapshot :: "int \<Rightarrow> snapshot" where
  "emptySnapshot farmID = \<lparr>snap_FarmID = farmID, snap_OwnerID = farmID, snap_Version = 0,
     snap_RouteEpoch = 0, snap_Plots = []\<rparr>"

section \<open>The smallest mature plot\<close>

definition mature_ids :: "(int \<times> plot) list \<Rightarrow> gotime \<Rightarrow> int set" where
  "mature_ids plots now = {k. \<exists>p. (k, p) \<in> set plots \<and> EffectiveStatus p now = PlotMature}"

lemma mature_ids_Cons:
  "mature_ids ((k, p) # ps) now =
     (if EffectiveStatus p now = PlotMature then insert k (mature_ids ps now) else mature_ids ps now)"
  by (auto simp: mature_ids_def)

lemma finite_mature_ids [simp]: "finite (mature_ids ps now)"
proof -
  have "mature_ids ps now \<subseteq> fst ` set ps" by (force simp: mature_ids_def)
  then show ?thesis by (rule finite_subset) simp
qed

lemma Min_insert_two:
  fixes k m :: int
  assumes "finite S"
  shows "Min (insert k (insert m S)) = Min (insert (if k < m then k else m) S)"
  using assms by (cases "S = {}") (auto simp: min_def)

lemma smallest_from_spec:
  "smallest_from acc now ps =
     (let S = mature_ids ps now \<union> set_option acc in if S = {} then None else Some (Min S))"
proof (induction acc now ps rule: smallest_from.induct)
  case (1 acc now)
  then show ?case by (cases acc) (simp_all add: mature_ids_def)
next
  case (2 acc now k p ps)
  then show ?case
  proof (cases acc)
    case (Some m)
    with 2 show ?thesis
      by (simp add: mature_ids_Cons Let_def insert_commute [of k m] Min_insert_two [symmetric]
          del: Min_insert)
  qed (simp add: mature_ids_Cons Let_def)
qed

lemma smallestMaturePlotID_spec:
  "smallestMaturePlotID ps now =
     (if mature_ids ps now = {} then None else Some (Min (mature_ids ps now)))"
  by (simp add: smallestMaturePlotID_def smallest_from_spec)

lemma smallestMaturePlotID_order_independent:
  "set ps = set qs \<Longrightarrow> smallestMaturePlotID ps now = smallestMaturePlotID qs now"
  by (simp add: smallestMaturePlotID_spec mature_ids_def)

lemma smallestMaturePlotID_None:
  "smallestMaturePlotID ps now = None \<longleftrightarrow> (\<forall>(k, p) \<in> set ps. EffectiveStatus p now \<noteq> PlotMature)"
  by (auto simp: smallestMaturePlotID_spec mature_ids_def)

lemma smallestMaturePlotID_Some:
  "smallestMaturePlotID ps now = Some k \<Longrightarrow>
     k \<in> mature_ids ps now \<and> (\<forall>j \<in> mature_ids ps now. k \<le> j)"
  by (auto simp: smallestMaturePlotID_spec split: if_splits intro!: Min_in)

section \<open>Well-formed plots\<close>

definition growth_of :: "string \<Rightarrow> duration" where
  "growth_of crop = (case getCropConfig crop of
     Inr cfg \<Rightarrow> GrowthDuration cfg | Inl _ \<Rightarrow> defaultGrowthDuration)"

text \<open>A growing plot carries the crop's growth period less one minute for each effective watering,
  of which there are at most two, and a remaining yield between 1 and the crop's yield.\<close>

definition plot_ok :: "plot \<Rightarrow> bool" where
  "plot_ok p \<longleftrightarrow>
     (Status p = PlotEmpty \<and> p = cleared_plot (PlotID p)
      \<or> Status p = PlotGrowing \<and> 0 < PlantedAt p
        \<and> 0 \<le> WateredCount p \<and> WateredCount p \<le> 2
        \<and> MatureAt p = PlantedAt p + growth_of (CropID p) - WateredCount p * minute
        \<and> 1 \<le> RemainingYield p \<and> RemainingYield p \<le> harvestYieldForCrop (CropID p))"

definition plots_ok :: "(int \<times> plot) list \<Rightarrow> bool" where
  "plots_ok ps \<longleftrightarrow> unique_keys ps \<and> (\<forall>(k, p) \<in> set ps. PlotID p = k \<and> plot_ok p)"

lemma growth_of_bounds: "3 * minute \<le> growth_of c" "growth_of c \<le> 10 * minute"
proof -
  have "cfg \<in> snd ` set cropConfigs \<Longrightarrow> 3 * minute \<le> GrowthDuration cfg \<and> GrowthDuration cfg \<le> 10 * minute" for cfg
    by (auto simp: cropConfigs_def)
  then show "3 * minute \<le> growth_of c" "growth_of c \<le> 10 * minute"
    using getCropConfig_cases [of c]
    by (auto simp: growth_of_def defaultGrowthDuration_def split: sum.split)
qed

lemma plot_ok_growing:
  assumes "plot_ok p" "Status p = PlotGrowing"
  shows "sane_growth p" "MatureAt p \<noteq> 0" "PlantedAt p < MatureAt p"
    "MatureAt p = PlantedAt p + growth_of (CropID p) - WateredCount p * minute"
    "1 \<le> RemainingYield p" "RemainingYield p \<le> harvestYieldForCrop (CropID p)"
    "0 \<le> WateredCount p" "WateredCount p \<le> 2" "0 < PlantedAt p"
  using assms growth_of_bounds [of "CropID p"]
  by (auto simp: plot_ok_def sane_growth_def cleared_plot_def)

lemma plot_ok_cleared [simp]: "plot_ok (cleared_plot k)"
  by (simp add: plot_ok_def cleared_plot_def zero_plot_def)

lemma cleared_plot_simps [simp]:
  "PlotID (cleared_plot k) = k" "Status (cleared_plot k) = PlotEmpty"
  "RemainingYield (cleared_plot k) = 0"
  by (simp_all add: cleared_plot_def zero_plot_def)

lemma plot_ok_water:
  assumes "plot_ok p" "Status p = PlotGrowing"
  shows "plot_ok (waterByGrowthStage p now)" "Status (waterByGrowthStage p now) = PlotGrowing"
    "PlotID (waterByGrowthStage p now) = PlotID p"
    "CropID (waterByGrowthStage p now) = CropID p"
    "RemainingYield (waterByGrowthStage p now) = RemainingYield p"
  using assms
  by (auto simp: waterByGrowthStage_def plot_ok_def cleared_plot_def Let_def algebra_simps
      split: growth_stage.split)

lemma plots_ok_update:
  assumes "plots_ok ps" "plot_ok p" "PlotID p = k"
  shows "plots_ok (AList.update k p ps)"
proof -
  have "(j, q) \<in> set (AList.update k p ps) \<Longrightarrow> (j, q) = (k, p) \<or> (j, q) \<in> set ps" for j q
    using assms(1) unique_keys_update [of ps k p]
    by (auto simp: plots_ok_def map_of_mem_iff [symmetric] split: if_splits)
  then show ?thesis
    using assms by (fastforce simp: plots_ok_def)
qed

lemma plots_ok_lookup:
  assumes "plots_ok ps" "map_of ps k = Some p"
  shows "plot_ok p" "PlotID p = k"
  using assms map_of_SomeD [OF assms(2)] by (auto simp: plots_ok_def)

definition snapshot_ok :: "snapshot \<Rightarrow> bool" where
  "snapshot_ok snap \<longleftrightarrow> plots_ok (snap_Plots snap)"

text \<open>The plot a command works on.\<close>

definition target_plot :: "snapshot \<Rightarrow> command \<Rightarrow> plot" where
  "target_plot snap cmd = (plot_at (snap_Plots snap) (cmd_PlotID cmd))\<lparr>PlotID := cmd_PlotID cmd\<rparr>"

lemma target_plot_ok:
  assumes "snapshot_ok snap" "Status (target_plot snap cmd) \<noteq> PlotUnset"
  shows "plot_ok (target_plot snap cmd)" "map_of (snap_Plots snap) (cmd_PlotID cmd) = Some (target_plot snap cmd)"
proof -
  obtain p where p: "map_of (snap_Plots snap) (cmd_PlotID cmd) = Some p"
    using assms(2) by (cases "map_of (snap_Plots snap) (cmd_PlotID cmd)")
      (auto simp: target_plot_def plot_at_def zero_plot_def)
  have "PlotID p = cmd_PlotID cmd" "plot_ok p"
    using assms(1) p plots_ok_lookup by (auto simp: snapshot_ok_def)
  moreover have "target_plot snap cmd = p"
    using p \<open>PlotID p = cmd_PlotID cmd\<close> by (cases p) (simp add: target_plot_def plot_at_def)
  ultimately show "plot_ok (target_plot snap cmd)"
    "map_of (snap_Plots snap) (cmd_PlotID cmd) = Some (target_plot snap cmd)"
    using p by simp_all
qed

lemma applyCmd_target:
  "applyCmd snap cmd now =
     (case cmd_Type cmd of
        CmdPlant \<Rightarrow> apply_plant snap cmd (target_plot snap cmd) now
      | CmdHarvest \<Rightarrow> apply_harvest snap cmd (target_plot snap cmd) now
      | CmdWater \<Rightarrow> apply_water snap cmd (target_plot snap cmd) now
      | CmdHelpWater \<Rightarrow> apply_water snap cmd (target_plot snap cmd) now
      | CmdStealCrop \<Rightarrow> apply_steal snap cmd (target_plot snap cmd) now
      | CmdPetAutoHarvest \<Rightarrow> apply_pet_harvest snap cmd (target_plot snap cmd) now
      | _ \<Rightarrow> Inl (New CommonInvalidArgument))"
  by (simp add: applyCmd_def target_plot_def Let_def split: command_type.split)

text \<open>Whatever the command, a successful application replaces exactly the target plot.\<close>

lemmas apply_defs = apply_plant_def apply_harvest_def apply_water_def apply_steal_def
  apply_pet_harvest_def harvested_def plain_result_def

lemma applyCmd_only_target:
  assumes "applyCmd snap cmd now = Inr (ar, snap')"
  shows "snap' = with_plot snap (cmd_PlotID cmd) (ar_changedPlot ar)"
  using assms
  by (auto simp: applyCmd_target apply_defs Let_def split: command_type.splits if_splits)

lemma applyCmd_frame:
  assumes "applyCmd snap cmd now = Inr (ar, snap')"
  shows "snap_FarmID snap' = snap_FarmID snap" "snap_OwnerID snap' = snap_OwnerID snap"
    "snap_Version snap' = snap_Version snap" "snap_RouteEpoch snap' = snap_RouteEpoch snap"
    "map_of (snap_Plots snap') = (map_of (snap_Plots snap))(cmd_PlotID cmd \<mapsto> ar_changedPlot ar)"
  using applyCmd_only_target [OF assms] by (simp_all add: with_plot_def)

lemma effective_mature_growing:
  assumes "plot_ok p" "EffectiveStatus p now = PlotMature"
  shows "Status p = PlotGrowing" "MatureAt p \<le> now"
  using assms by (auto simp: EffectiveStatus_def plot_ok_def split: if_splits)

lemma effective_unset: "EffectiveStatus p now = PlotMature \<Longrightarrow> Status p \<noteq> PlotUnset"
  by (auto simp: EffectiveStatus_def split: if_splits)

section \<open>What each command does\<close>

lemma apply_plant_ok:
  assumes "apply_plant snap cmd p now = Inr (ar, snap')" "PlotID p = cmd_PlotID cmd" "0 < now"
  shows "plot_ok (ar_changedPlot ar)" "PlotID (ar_changedPlot ar) = cmd_PlotID cmd"
  using assms harvestYieldForCrop_bounds(1) [of "cmd_CropID cmd"]
  by (auto simp: apply_defs plot_ok_def growth_of_def Let_def split: if_splits)

lemma apply_steal_result:
  assumes "apply_steal snap cmd p now = Inr (ar, snap')" "plot_ok p"
  defines "n \<equiv> harvestYieldForCrop (CropID p) div 5"
  shows "ar_stolenAmount ar = n" "0 < n"
    "ar_changedPlot ar = p\<lparr>RemainingYield := RemainingYield p - n\<rparr>"
    "ar_remainingYield ar = RemainingYield p - n" "1 \<le> RemainingYield p - n"
    "ar_harvestedCropID ar = CropID p" "EffectiveStatus p now = PlotMature"
proof -
  have div: "go_div (harvestYieldForCrop (CropID p)) 5 = n"
    using harvestYieldForCrop_bounds(1) [of "CropID p"] by (simp add: n_def go_div_nonneg)
  have eff: "EffectiveStatus p now = PlotMature"
    using assms(1) by (auto simp: apply_steal_def split: if_splits)
  with assms(2) have "RemainingYield p \<le> 8" "1 \<le> RemainingYield p"
    using plot_ok_growing(5,6) [of p] effective_mature_growing(1) [of p now]
      harvestYieldForCrop_bounds(2) [of "CropID p"] by auto
  moreover have "0 < n" "n < RemainingYield p"
    using assms(1) div by (auto simp: apply_steal_def Let_def split: if_splits)
  ultimately have "i64 (RemainingYield p - n) = RemainingYield p - n"
    by (intro i64_id) (simp add: in_i64_def min_int64_def max_int64_def)
  then show "ar_stolenAmount ar = n" "0 < n"
    "ar_changedPlot ar = p\<lparr>RemainingYield := RemainingYield p - n\<rparr>"
    "ar_remainingYield ar = RemainingYield p - n" "1 \<le> RemainingYield p - n"
    "ar_harvestedCropID ar = CropID p" "EffectiveStatus p now = PlotMature"
    using assms(1) div eff \<open>0 < n\<close> \<open>n < RemainingYield p\<close>
    by (auto simp: apply_steal_def plain_result_def Let_def split: if_splits)
qed

lemma plot_ok_less_yield:
  assumes "plot_ok p" "Status p = PlotGrowing" "1 \<le> y" "y \<le> RemainingYield p"
  shows "plot_ok (p\<lparr>RemainingYield := y\<rparr>)"
  using assms by (auto simp: plot_ok_def cleared_plot_def)

lemma applyCmd_changed_ok:
  assumes "applyCmd snap cmd now = Inr (ar, snap')" "snapshot_ok snap" "0 < now"
  shows "plot_ok (ar_changedPlot ar) \<and> PlotID (ar_changedPlot ar) = cmd_PlotID cmd"
proof -
  let ?p = "target_plot snap cmd"
  have id: "PlotID ?p = cmd_PlotID cmd" by (simp add: target_plot_def)
  have eff: "EffectiveStatus ?p now = PlotMature \<Longrightarrow> plot_ok ?p \<and> Status ?p = PlotGrowing"
    using target_plot_ok(1) [OF assms(2)] effective_unset effective_mature_growing(1) by metis
  have grow: "plot_ok ?p \<Longrightarrow> EffectiveStatus ?p now \<noteq> PlotEmpty \<Longrightarrow> Status ?p = PlotGrowing"
    by (auto simp: plot_ok_def EffectiveStatus_def)
  have unset: "EffectiveStatus ?p now \<noteq> PlotUnset \<Longrightarrow> Status ?p \<noteq> PlotUnset"
    by (auto simp: EffectiveStatus_def)
  have water: "plot_ok (ar_changedPlot ar) \<and> PlotID (ar_changedPlot ar) = cmd_PlotID cmd"
    if "apply_water snap cmd ?p now = Inr (ar, snap')"
    using that grow unset target_plot_ok(1) [OF assms(2)] plot_ok_water [of ?p now] id
    by (auto simp: apply_water_def plain_result_def Let_def split: if_splits)
  have steal: "plot_ok (ar_changedPlot ar) \<and> PlotID (ar_changedPlot ar) = cmd_PlotID cmd"
    if a: "apply_steal snap cmd ?p now = Inr (ar, snap')"
  proof -
    have mature: "EffectiveStatus ?p now = PlotMature"
      using a by (auto simp: apply_steal_def split: if_splits)
    note r = apply_steal_result [OF a conjunct1 [OF eff [OF mature]]]
    then show ?thesis using eff [OF mature] plot_ok_less_yield [of ?p] id by auto
  qed
  have harvest: "plot_ok (ar_changedPlot ar) \<and> PlotID (ar_changedPlot ar) = cmd_PlotID cmd"
    if "harvested snap cmd ?p m = (ar, snap')" for m
    using that by (auto simp: harvested_def plain_result_def Let_def)
  show ?thesis
    using assms(1) water steal harvest apply_plant_ok [of snap cmd ?p now ar snap'] id assms(3)
    by (auto simp: applyCmd_target apply_harvest_def apply_pet_harvest_def
        split: command_type.splits if_splits)
qed

lemma applyCmd_snapshot_ok:
  assumes "applyCmd snap cmd now = Inr (ar, snap')" "snapshot_ok snap" "0 < now"
  shows "snapshot_ok snap'"
  using applyCmd_only_target [OF assms(1)] applyCmd_changed_ok [OF assms] assms(2) plots_ok_update
  by (simp add: snapshot_ok_def with_plot_def)

section \<open>The stored snapshot round-trips\<close>

lemma plot_ok_status: "plot_ok p \<Longrightarrow> status_of_text (status_text (Status p)) = Status p"
  by (auto simp: plot_ok_def status_of_text_def status_text_def)

lemma plot_json_roundtrip:
  assumes "plot_ok p"
  shows "plot_of_json (PlotID p) (plot_to_json p) = p"
  using plot_ok_status [OF assms] by (cases p) (simp add: plot_of_json_def plot_to_json_def Let_def)

lemma update_append_new: "k \<notin> fst ` set xs \<Longrightarrow> AList.update k v xs = xs @ [(k, v)]"
  by (induction xs) auto

definition int32_keys :: "(int \<times> 'a) list \<Rightarrow> bool" where
  "int32_keys ps \<longleftrightarrow> (\<forall>k \<in> fst ` set ps. -2147483648 \<le> k \<and> k \<le> 2147483647)"

lemma parse_int32 [simp]:
  "-2147483648 \<le> k \<Longrightarrow> k \<le> 2147483647 \<Longrightarrow> parse_int 32 (format_int k) = Some k"
  by (rule parse_format_int) simp_all

lemma unmarshal_marshal_plots:
  assumes "unique_keys (acc @ ps)" "int32_keys ps" "\<forall>(k, p) \<in> set ps. PlotID p = k \<and> plot_ok p"
  shows "unmarshal_plots acc (map (\<lambda>(k, p). (format_int k, plot_to_json p)) ps) = Inr (acc @ ps)"
  using assms
proof (induction ps arbitrary: acc)
  case (Cons x ps)
  obtain k p where x: "x = (k, p)" by (cases x)
  have new: "k \<notin> fst ` set acc"
    using Cons.prems(1) x by (auto simp: unique_keys_def)
  have "plot_of_json k (plot_to_json p) = p"
    using Cons.prems(3) plot_json_roundtrip [of p] x by auto
  moreover have "unmarshal_plots (acc @ [x]) (map (\<lambda>(k, p). (format_int k, plot_to_json p)) ps)
      = Inr ((acc @ [x]) @ ps)"
    using Cons.prems by (intro Cons.IH) (auto simp: int32_keys_def)
  ultimately show ?case
    using Cons.prems(2) x by (simp add: update_append_new [OF new] int32_keys_def)
qed simp

lemma unmarshal_marshal:
  assumes "snapshot_ok snap" "int32_keys (snap_Plots snap)"
  shows "unmarshalSnapshot (snap_FarmID snap) (snap_OwnerID snap) (snap_Version snap) (marshalSnapshot snap)
       = Inr (snap\<lparr>snap_RouteEpoch := 0\<rparr>)"
proof -
  have "unmarshal_plots [] (marshalSnapshot snap) = Inr (snap_Plots snap)"
    using assms unmarshal_marshal_plots [of "[]" "snap_Plots snap"]
    by (simp add: marshalSnapshot_def snapshot_ok_def plots_ok_def)
  then show ?thesis by (cases snap) (simp add: unmarshalSnapshot_def)
qed

end
