(* ===== verification/MysqlRetry.thy ===== *)
theory MysqlRetry
  imports Tx
begin

text \<open>
  Package mysqlretry: bounded retries of a whole transaction, and the contract that makes such
  retries safe.  The locale \<^verbatim>\<open>durable_once\<close> is that contract: an operation leaves a durable
  credential in the same transaction as its effect and does nothing when it finds the credential.
  It is interpreted by the farm commit, the economy commit, the cross-shard steal credit, the
  mail claim and the acceptance of an invitation.
\<close>

definition MaxAttempts :: nat where
  "MaxAttempts = 3"

definition isNumber :: "go_error \<Rightarrow> nat \<Rightarrow> bool" where
  "isNumber err number \<longleftrightarrow> as_mysql err = Some number"

definition IsTransient :: "go_error \<Rightarrow> bool" where
  "IsTransient err \<longleftrightarrow> isNumber err 1213 \<or> isNumber err 1205"

definition IsDuplicateKey :: "go_error \<Rightarrow> bool" where
  "IsDuplicateKey err \<longleftrightarrow> isNumber err 1062"

text \<open>
  Value from attempt number \<^verbatim>\<open>n\<close> on.  \<^verbatim>\<open>wait n\<close> is the outcome of the wait after attempt \<^verbatim>\<open>n\<close>:
  \<^verbatim>\<open>Some e\<close> when the context ends first (ctx.Err()), \<^verbatim>\<open>None\<close> when the timer fires.
\<close>

function retry_from ::
  "(nat \<Rightarrow> go_error option) \<Rightarrow> (go_error \<Rightarrow> bool) \<Rightarrow> (nat \<Rightarrow> 's \<Rightarrow> (go_error + 'a) \<times> 's)
     \<Rightarrow> nat \<Rightarrow> 's \<Rightarrow> (go_error + 'a) \<times> 's" where
  "retry_from wait shouldRetry fn attempt s =
     (if attempt > MaxAttempts then (Inl CtxCanceled, s)
      else
        (case fn attempt s of
           (Inr value, s') \<Rightarrow> (Inr value, s')
         | (Inl err, s') \<Rightarrow>
             if attempt = MaxAttempts \<or> \<not> shouldRetry err then (Inl err, s')
             else
               (case wait attempt of
                  Some werr \<Rightarrow> (Inl werr, s')
                | None \<Rightarrow> retry_from wait shouldRetry fn (attempt + 1) s')))"
  by pat_completeness auto

termination
  by (relation "measure (\<lambda>(wait, shouldRetry, fn, attempt, s). 4 - attempt)")
    (auto simp: MaxAttempts_def)

declare retry_from.simps [simp del]

definition retry_value ::
  "(nat \<Rightarrow> go_error option) \<Rightarrow> (go_error \<Rightarrow> bool) \<Rightarrow> (nat \<Rightarrow> 's \<Rightarrow> (go_error + 'a) \<times> 's)
     \<Rightarrow> 's \<Rightarrow> (go_error + 'a) \<times> 's" where
  "retry_value wait shouldRetry fn s = retry_from wait shouldRetry fn 1 s"

section \<open>What a bounded retry guarantees\<close>

text \<open>An invariant of every attempt is an invariant of the retried operation.\<close>

lemma retry_from_invariant:
  assumes "P s" and "\<And>n t. P t \<Longrightarrow> P (snd (fn n t))"
  shows "P (snd (retry_from wait shouldRetry fn attempt s))"
  using assms
proof (induction wait shouldRetry fn attempt s rule: retry_from.induct)
  case (1 wait shouldRetry fn attempt s)
  have step: "\<And>r t. fn attempt s = (r, t) \<Longrightarrow> P t"
    using 1(3) [of s attempt] 1(2) by (metis snd_conv)
  have rec: "P (snd (retry_from wait shouldRetry fn (Suc attempt) t))"
    if "\<not> MaxAttempts < attempt" "fn attempt s = (Inl e, t)" "attempt \<noteq> MaxAttempts"
      "shouldRetry e" "wait attempt = None" for e t
    using 1(1) [of "Inl e" t e] that step 1(3) by simp
  show ?case
    by (subst retry_from.simps)
      (auto simp: 1(2) step rec split: prod.splits sum.splits option.splits)
qed

lemma retry_value_invariant:
  assumes "\<And>n t. P t \<Longrightarrow> P (snd (fn n t))" and "P s"
  shows "P (snd (retry_value wait shouldRetry fn s))"
  unfolding retry_value_def using assms(2,1) by (rule retry_from_invariant)

text \<open>A result was produced by one of the attempts, the state being the one it left.\<close>

lemma retry_from_ok_inv:
  assumes "P s" "\<And>n t. P t \<Longrightarrow> P (snd (fn n t))"
    "retry_from wait shouldRetry fn attempt s = (Inr a, s')"
  shows "\<exists>n t. P t \<and> fn n t = (Inr a, s')"
  using assms
proof (induction wait shouldRetry fn attempt s rule: retry_from.induct)
  case (1 wait shouldRetry fn attempt s)
  show ?case
  proof (cases "fn attempt s")
    case (Pair x t)
    have "P t" using 1(3) [of s attempt] 1(2) Pair by simp
    show ?thesis
    proof (cases x)
      case (Inl e)
      have "\<not> MaxAttempts < attempt" "attempt \<noteq> MaxAttempts" "shouldRetry e" "wait attempt = None"
        "retry_from wait shouldRetry fn (Suc attempt) t = (Inr a, s')"
        using 1(4) Pair Inl unfolding retry_from.simps [of wait shouldRetry fn attempt s]
        by (auto split: if_splits option.splits)
      then show ?thesis using 1(1) [of "Inl e" t e] Pair Inl \<open>P t\<close> 1(3) by simp
    next
      case (Inr b)
      then have "b = a \<and> t = s'"
        using 1(4) Pair unfolding retry_from.simps [of wait shouldRetry fn attempt s]
        by (auto split: if_splits)
      then show ?thesis using 1(2) Pair Inr by blast
    qed
  qed
qed

lemma retry_value_ok_inv:
  assumes "P s" "\<And>n t. P t \<Longrightarrow> P (snd (fn n t))"
    "retry_value wait shouldRetry fn s = (Inr a, s')"
  shows "\<exists>n t. P t \<and> fn n t = (Inr a, s')"
  using assms unfolding retry_value_def by (rule retry_from_ok_inv)

lemma retry_value_ok:
  "retry_value wait shouldRetry fn s = (Inr a, s') \<Longrightarrow> \<exists>n t. fn n t = (Inr a, s')"
  using retry_value_ok_inv [of "\<lambda>_. True" s fn wait shouldRetry a s'] by simp

lemma retry_value_first_ok:
  assumes "fn 1 s = (Inr a, s')"
  shows "retry_value wait shouldRetry fn s = (Inr a, s')"
  using assms by (simp add: retry_value_def retry_from.simps MaxAttempts_def)

lemma retry_value_no_retry:
  assumes "fn 1 s = (Inl e, s')" "\<not> shouldRetry e"
  shows "retry_value wait shouldRetry fn s = (Inl e, s')"
  using assms by (simp add: retry_value_def retry_from.simps MaxAttempts_def)

section \<open>The contract of an operation that is applied at most once\<close>

text \<open>
  A history is a sequence of attempts at the operation (\<^verbatim>\<open>Inl e\<close>, in environment \<^verbatim>\<open>e\<close>) and of other
  steps of the system (\<^verbatim>\<open>Inr f\<close>).  \<^verbatim>\<open>effective\<close> counts the attempts that changed the state.
\<close>

fun run_history :: "('e \<Rightarrow> 's \<Rightarrow> 'r \<times> 's) \<Rightarrow> ('e + ('s \<Rightarrow> 's)) list \<Rightarrow> 's \<Rightarrow> 's" where
  "run_history once [] s = s"
| "run_history once (Inl e # h) s = run_history once h (snd (once e s))"
| "run_history once (Inr f # h) s = run_history once h (f s)"

fun effective :: "('e \<Rightarrow> 's \<Rightarrow> 'r \<times> 's) \<Rightarrow> ('e + ('s \<Rightarrow> 's)) list \<Rightarrow> 's \<Rightarrow> nat" where
  "effective once [] s = 0"
| "effective once (Inl e # h) s =
     (if snd (once e s) = s then 0 else 1) + effective once h (snd (once e s))"
| "effective once (Inr f # h) s = effective once h (f s)"

text \<open>The other steps of a history keep the invariant and never take the credential away.\<close>

definition others_keep :: "('s \<Rightarrow> bool) \<Rightarrow> ('s \<Rightarrow> bool) \<Rightarrow> ('e + ('s \<Rightarrow> 's)) list \<Rightarrow> bool" where
  "others_keep I P h \<longleftrightarrow>
     (\<forall>f. Inr f \<in> set h \<longrightarrow> (\<forall>s. I s \<longrightarrow> I (f s) \<and> (P s \<longrightarrow> P (f s))))"

lemma others_keep_simps [simp]:
  "others_keep I P []"
  "others_keep I P (Inl e # h) = others_keep I P h"
  "others_keep I P (Inr f # h) = ((\<forall>s. I s \<longrightarrow> I (f s) \<and> (P s \<longrightarrow> P (f s))) \<and> others_keep I P h)"
  by (auto simp: others_keep_def)

locale durable_once =
  fixes I :: "'s \<Rightarrow> bool"
    and once :: "'e \<Rightarrow> 's \<Rightarrow> (go_error + 'r) \<times> 's"
    and applied :: "'s \<Rightarrow> bool"
  assumes inv_kept: "I s \<Longrightarrow> I (snd (once e s))"
    and replay: "I s \<Longrightarrow> applied s \<Longrightarrow> snd (once e s) = s"
    and effect_leaves_credential: "I s \<Longrightarrow> snd (once e s) = s \<or> applied (snd (once e s))"
    and success_means_applied: "I s \<Longrightarrow> fst (once e s) = Inr r \<Longrightarrow> applied (snd (once e s))"
begin

lemma no_effect_after_applied:
  "I s \<Longrightarrow> applied s \<Longrightarrow> others_keep I applied h \<Longrightarrow> effective once h s = 0"
proof (induction h arbitrary: s)
  case (Cons x h)
  then show ?case by (cases x) (simp_all add: replay)
qed simp

text \<open>However often the operation is attempted, retried or redelivered, and whatever else runs in
  between, at most one attempt changes the state.\<close>

lemma at_most_once:
  "I s \<Longrightarrow> others_keep I applied h \<Longrightarrow> effective once h s \<le> 1"
proof (induction h arbitrary: s)
  case (Cons x h)
  show ?case
  proof (cases x)
    case (Inl e)
    have I': "I (snd (once e s))" using Cons.prems(1) by (rule inv_kept)
    have keep: "others_keep I applied h" using Cons.prems(2) Inl by simp
    show ?thesis
    proof (cases "snd (once e s) = s")
      case True
      with Inl Cons.IH [OF I' keep] show ?thesis by simp
    next
      case False
      then have "applied (snd (once e s))"
        using effect_leaves_credential [OF Cons.prems(1)] by blast
      with Inl False no_effect_after_applied [OF I' _ keep] show ?thesis by simp
    qed
  qed (use Cons in simp)
qed simp

text \<open>After a reported success nothing is applied again.\<close>

lemma nothing_after_success:
  assumes "I s" "fst (once e s) = Inr r" "others_keep I applied h"
  shows "effective once h (snd (once e s)) = 0"
  using assms no_effect_after_applied inv_kept success_means_applied by blast

text \<open>The bounded retry of such an operation is such an operation.\<close>

lemma retry_inv: "I s \<Longrightarrow> I (snd (retry_value wait shouldRetry (\<lambda>n. once (envs n)) s))"
  using retry_value_invariant [of I "\<lambda>n. once (envs n)"] inv_kept by blast

lemma retry_replay:
  assumes "I s" "applied s"
  shows "snd (retry_value wait shouldRetry (\<lambda>n. once (envs n)) s) = s"
  using retry_value_invariant [of "\<lambda>t. t = s \<and> applied t" "\<lambda>n. once (envs n)"] assms
  by (auto simp: replay)

lemma retry_effect:
  assumes "I s"
  shows "snd (retry_value wait shouldRetry (\<lambda>n. once (envs n)) s) = s
     \<or> applied (snd (retry_value wait shouldRetry (\<lambda>n. once (envs n)) s))"
proof -
  let ?P = "\<lambda>t. I t \<and> (t = s \<or> applied t)"
  have "?P (snd (once (envs n) t))" if "?P t" for n t
  proof (cases "applied t")
    case True
    with that show ?thesis using replay [of t "envs n"] by simp
  next
    case False
    with that show ?thesis using effect_leaves_credential [of t "envs n"] inv_kept [of t "envs n"] by auto
  qed
  then show ?thesis
    using retry_value_invariant [of ?P "\<lambda>n. once (envs n)" s wait shouldRetry] assms by auto
qed

text \<open>The effect of the retried operation is the effect of one attempt.\<close>

lemma retry_one:
  assumes "I s"
  shows "snd (retry_value wait shouldRetry (\<lambda>n. once (envs n)) s) = s
     \<or> (\<exists>n. snd (retry_value wait shouldRetry (\<lambda>n. once (envs n)) s) = snd (once (envs n) s))"
proof -
  let ?P = "\<lambda>t. I t \<and> (t = s \<or> (applied t \<and> (\<exists>n. t = snd (once (envs n) s))))"
  have "?P (snd (once (envs n) t))" if "?P t" for n t
  proof (cases "t = s")
    case True
    then show ?thesis using effect_leaves_credential [of s "envs n"] inv_kept [of s "envs n"] assms by blast
  next
    case False
    then show ?thesis using that replay [of t "envs n"] by simp
  qed
  then show ?thesis
    using retry_value_invariant [of ?P "\<lambda>n. once (envs n)" s wait shouldRetry] assms by auto
qed

lemma retry_success:
  assumes "I s" "fst (retry_value wait shouldRetry (\<lambda>n. once (envs n)) s) = Inr r"
  shows "applied (snd (retry_value wait shouldRetry (\<lambda>n. once (envs n)) s))"
proof -
  obtain u where u: "retry_value wait shouldRetry (\<lambda>n. once (envs n)) s = (Inr r, u)"
    using assms(2) by (cases "retry_value wait shouldRetry (\<lambda>n. once (envs n)) s") auto
  then obtain n t where "I t" "once (envs n) t = (Inr r, u)"
    using retry_value_ok_inv [of I s "\<lambda>n. once (envs n)"] assms(1) inv_kept by blast
  then show ?thesis using u success_means_applied [of t "envs n"] by simp
qed

end

section \<open>Faults of the driver\<close>

text \<open>A failing driver call is a lost connection, a deadlock or the like; the duplicate-key error comes
  only from the key of a table.  \<^verbatim>\<open>driver_env\<close> is an arbitrary environment restricted to such faults.\<close>

definition driver_env :: "env \<Rightarrow> env" where
  "driver_env env = env\<lparr>fault := (\<lambda>l. case fault env l of Some e \<Rightarrow> if IsDuplicateKey e then None else Some e | None \<Rightarrow> None)\<rparr>"

lemma driver_fault: "fault (driver_env env) l = Some e \<Longrightarrow> \<not> IsDuplicateKey e"
  by (auto simp: driver_env_def split: option.splits if_splits)

lemma driver_clean: "fault env = (\<lambda>_. None) \<Longrightarrow> driver_env env = env"
  by (simp add: driver_env_def)

end
