(* ===== verification/FarmCommit.thy ===== *)
theory FarmCommit
  imports FarmApply MysqlRetry
begin

text \<open>
  internal/farm/infrastructure/committer_mysql.go: the authoritative commit of a farm command in one
  MySQL transaction, the durable route fence and the loading of a snapshot.  The order of guards and
  statements is that of the source; the label of each statement is its place for a driver fault.
\<close>

record commit_result =
  cr_NewVersion :: int
  cr_Patch :: patch
  cr_EventID :: string
  cr_Replayed :: bool
  cr_CoinBalance :: int

definition zero_patch :: patch where
  "zero_patch = \<lparr>patch_FarmID = 0, patch_Version = 0, patch_Plots = [], patch_ActorUser = 0\<rparr>"

definition zero_result :: commit_result where
  "zero_result = \<lparr>cr_NewVersion = 0, cr_Patch = zero_patch, cr_EventID = '''', cr_Replayed = False,
     cr_CoinBalance = 0\<rparr>"

text \<open>MySQLCommitter: the switches of WithFriendshipEdges and WithDeferredRemoteStealCredit.\<close>

record committer =
  useFriendshipEdges :: bool
  deferRemoteStealCredit :: "(int \<Rightarrow> int \<Rightarrow> bool) option"

section \<open>SQL helpers\<close>

definition requiresCommandReceipt :: "command_type \<Rightarrow> bool" where
  "requiresCommandReceipt t \<longleftrightarrow> t \<in> {CmdPlant, CmdHarvest, CmdStealCrop, CmdPetAutoHarvest}"

definition find_receipt :: "receipt_row list \<Rightarrow> int \<Rightarrow> string \<Rightarrow> receipt_row option" where
  "find_receipt rs u c = find (\<lambda>r. rc_user r = u \<and> rc_cmd r = c) rs"

definition checkReceipt :: "env \<Rightarrow> int \<Rightarrow> string \<Rightarrow> (db, commit_result option) tx" where
  "checkReceipt env userID cmdID =
     stmt env ''check_receipt''
       (tx_get (\<lambda>s. map_option
          (\<lambda>r. zero_result\<lparr>cr_NewVersion := opt_or (rc_version r) 0, cr_Replayed := True\<rparr>)
          (find_receipt (receipts s) userID cmdID)))"

definition checkPetAutoHarvestEnabled :: "env \<Rightarrow> int \<Rightarrow> (db, unit) tx" where
  "checkPetAutoHarvestEnabled env userID =
     stmt env ''check_pet''
       (\<lambda>s. case pets s userID of
              None \<Rightarrow> Inl (New PetNotOwned)
            | Some p \<Rightarrow>
                if pt_status p \<noteq> PetActive then Inl (New PetNotOwned)
                else if \<not> pt_auto p then Inl (New PetAutoDisabled) else Inr ((), s))"

definition sameMillis :: "gotime \<Rightarrow> gotime \<Rightarrow> bool" where
  "sameMillis a b \<longleftrightarrow> truncate_milli a = truncate_milli b"

text \<open>The row of a farm as the code decodes it; a farm without a row is empty at version 0.\<close>

definition read_snapshot :: "db \<Rightarrow> int \<Rightarrow> go_error + (snapshot \<times> gotime option)" where
  "read_snapshot s farmID =
     (case map_of (farms s) farmID of
        None \<Rightarrow> Inr (emptySnapshot farmID, None)
      | Some r \<Rightarrow>
          (case unmarshalSnapshot farmID (fr_owner r) (fr_version r) (fr_snapshot r) of
             Inl e \<Rightarrow> Inl e
           | Inr snap \<Rightarrow> Inr (snap\<lparr>snap_RouteEpoch := fr_route_epoch r\<rparr>, fr_next_pet r)))"

definition loadSnapshotForUpdate :: "env \<Rightarrow> int \<Rightarrow> (db, snapshot \<times> gotime option) tx" where
  "loadSnapshotForUpdate env farmID =
     stmt env ''load_snapshot_for_update''
       (\<lambda>s. case read_snapshot s farmID of Inl e \<Rightarrow> Inl e | Inr x \<Rightarrow> Inr (x, s))"

text \<open>INSERT ... ON DUPLICATE KEY UPDATE: the row with the primary key, or else the one with the
  unique owner, is updated.\<close>

definition stored_row :: "snapshot \<Rightarrow> farm_row \<Rightarrow> farm_row" where
  "stored_row snap r = r\<lparr>fr_version := snap_Version snap, fr_snapshot := marshalSnapshot snap,
     fr_route_epoch := snap_RouteEpoch snap\<rparr>"

definition new_farm_row :: "snapshot \<Rightarrow> farm_row" where
  "new_farm_row snap = \<lparr>fr_owner = snap_OwnerID snap, fr_version = snap_Version snap,
     fr_snapshot = marshalSnapshot snap, fr_route_epoch = snap_RouteEpoch snap,
     fr_next_pet = None, fr_lease_owner = None, fr_lease_until = None\<rparr>"

definition upsert_farm :: "snapshot \<Rightarrow> (int \<times> farm_row) list \<Rightarrow> (int \<times> farm_row) list" where
  "upsert_farm snap fs =
     (case map_of fs (snap_FarmID snap) of
        Some r \<Rightarrow> AList.update (snap_FarmID snap) (stored_row snap r) fs
      | None \<Rightarrow>
          (case find (\<lambda>(k, r). fr_owner r = snap_OwnerID snap) fs of
             Some (k, r) \<Rightarrow> AList.update k (stored_row snap r) fs
           | None \<Rightarrow> AList.update (snap_FarmID snap) (new_farm_row snap) fs))"

definition upsertSnapshot :: "env \<Rightarrow> snapshot \<Rightarrow> (db, unit) tx" where
  "upsertSnapshot env snap =
     stmt env ''upsert_snapshot'' (tx_modify (\<lambda>s. s\<lparr>farms := upsert_farm snap (farms s)\<rparr>))"

definition insertReceipt :: "env \<Rightarrow> int \<Rightarrow> string \<Rightarrow> int \<Rightarrow> gotime \<Rightarrow> (db, unit) tx" where
  "insertReceipt env userID cmdID version now =
     stmt env ''insert_receipt''
       (\<lambda>s. if find_receipt (receipts s) userID cmdID \<noteq> None then Inl dup_key
            else Inr ((), s\<lparr>receipts := receipts s @
              [\<lparr>rc_user = userID, rc_cmd = cmdID, rc_version = Some version,
                rc_created = datetime3 now\<rparr>]\<rparr>))"

definition loadDisplayName :: "env \<Rightarrow> db \<Rightarrow> int \<Rightarrow> string" where
  "loadDisplayName env s uid =
     (case (fault env ''display_name'', display_names s uid) of
        (None, Some name) \<Rightarrow> if trim_space name = '''' then format_int uid else name
      | _ \<Rightarrow> format_int uid)"

definition buildPayload :: "string \<Rightarrow> snapshot \<Rightarrow> command \<Rightarrow> apply_result \<Rightarrow> gotime \<Rightarrow> (int \<Rightarrow> string) \<Rightarrow> payload" where
  "buildPayload eventType snap cmd ar now displayName =
     (let farmStr = format_int (snap_FarmID snap);
          ownerStr = format_int (snap_OwnerID snap);
          actorStr = format_int (cmd_ActorUser cmd);
          p = ar_changedPlot ar
      in if eventType = EventTypeFarmPlanted then
           FarmPlanted \<lparr>fp_FarmID = farmStr, fp_OwnerUserID = ownerStr, fp_ActorUserID = actorStr,
             fp_FarmVersion = snap_Version snap, fp_PlotID = PlotID p, fp_CropID = CropID p,
             fp_PlantedAt = PlantedAt p, fp_MatureAt = MatureAt p, fp_CmdID = cmd_CmdID cmd\<rparr>
         else if eventType = EventTypeFarmHarvested then
           FarmHarvested \<lparr>fh_FarmID = farmStr, fh_OwnerUserID = ownerStr, fh_ActorUserID = actorStr,
             fh_FarmVersion = snap_Version snap, fh_PlotID = PlotID p,
             fh_CropID = ar_harvestedCropID ar, fh_Yield = ar_harvestedYield ar,
             fh_Mode = ar_harvestMode ar, fh_HarvestedAt = now, fh_CmdID = cmd_CmdID cmd\<rparr>
         else if eventType = EventTypeFarmWatered then
           FarmWatered \<lparr>fw_FarmID = farmStr, fw_OwnerUserID = ownerStr, fw_ActorUserID = actorStr,
             fw_FarmVersion = snap_Version snap, fw_PlotID = PlotID p, fw_WateredAt = now,
             fw_CmdID = cmd_CmdID cmd\<rparr>
         else if eventType = EventTypeFarmStolen then
           FarmStolen \<lparr>fs_FarmID = farmStr, fs_OwnerUserID = ownerStr, fs_ActorUserID = actorStr,
             fs_OwnerDisplayName = displayName (snap_OwnerID snap),
             fs_ActorDisplayName = displayName (cmd_ActorUser cmd),
             fs_FarmVersion = snap_Version snap, fs_PlotID = PlotID p,
             fs_CropID = ar_harvestedCropID ar, fs_StolenAmount = ar_stolenAmount ar,
             fs_RemainingYield = ar_remainingYield ar, fs_StolenAt = now,
             fs_CmdID = cmd_CmdID cmd\<rparr>
         else NilPayload)"

definition farm_envelope :: "string \<Rightarrow> string \<Rightarrow> snapshot \<Rightarrow> command \<Rightarrow> apply_result \<Rightarrow> gotime \<Rightarrow> (int \<Rightarrow> string) \<Rightarrow> envelope" where
  "farm_envelope eventID eventType snap cmd ar now displayName =
     \<lparr>ev_EventID = eventID, ev_EventType = eventType, ev_AggregateType = ''farm'',
      ev_AggregateID = format_int (snap_FarmID snap), ev_SchemaVersion = 1, ev_OccurredAt = now,
      ev_CorrelationID = cmd_CmdID cmd, ev_CausationID = cmd_CmdID cmd,
      ev_Payload = buildPayload eventType snap cmd ar now displayName\<rparr>"

definition insertOutbox :: "env \<Rightarrow> string \<Rightarrow> string \<Rightarrow> snapshot \<Rightarrow> command \<Rightarrow> apply_result \<Rightarrow> gotime \<Rightarrow> (db, unit) tx" where
  "insertOutbox env eventID eventType snap cmd ar now =
     tx_bind (tx_get (loadDisplayName env))
       (\<lambda>names. stmt env ''insert_outbox''
          (insert_outbox_row
             (pending_row eventID ''farm'' (snap_FarmID snap) (format_int (snap_FarmID snap)) eventType
                (farm_envelope eventID eventType snap cmd ar now names) now)))"

text \<open>inventory_items: the upsert and the guarded decrement.\<close>

definition addInventoryItem :: "env \<Rightarrow> int \<Rightarrow> string \<Rightarrow> int \<Rightarrow> int \<Rightarrow> (db, unit) tx" where
  "addInventoryItem env userID itemType itemID delta =
     stmt env ''add_inventory''
       (\<lambda>s. let q = opt_or (inventory s (userID, itemType, itemID)) 0 + delta
            in if q < 0 then Inl check_violation
               else if max_int64 < q then Inl out_of_range
               else Inr ((), s\<lparr>inventory := (inventory s)((userID, itemType, itemID) \<mapsto> q)\<rparr>))"

definition deductInventoryItem :: "env \<Rightarrow> int \<Rightarrow> string \<Rightarrow> int \<Rightarrow> int \<Rightarrow> (db, bool) tx" where
  "deductInventoryItem env userID itemType itemID delta =
     stmt env ''deduct_inventory''
       (\<lambda>s. case inventory s (userID, itemType, itemID) of
              None \<Rightarrow> Inr (False, s)
            | Some q \<Rightarrow>
                if delta \<le> q
                then Inr (True, s\<lparr>inventory := (inventory s)((userID, itemType, itemID) \<mapsto> q - delta)\<rparr>)
                else Inr (False, s))"

definition friend_pair :: "int \<Rightarrow> int \<Rightarrow> int \<times> int" where
  "friend_pair a b = (if b < a then (b, a) else (a, b))"

definition checkFriendship :: "env \<Rightarrow> committer \<Rightarrow> int \<Rightarrow> int \<Rightarrow> (db, unit) tx" where
  "checkFriendship env c userIDA userIDB =
     (\<lambda>s. let legacy =
            (case fault env ''friendships'' of
               Some e \<Rightarrow> Inl (if e = SqlNoRows then New SocialNotFriend else e)
             | None \<Rightarrow> if friend_pair userIDA userIDB \<in> set (friendships s) then Inr ((), s)
                       else Inl (New SocialNotFriend))
          in if useFriendshipEdges c then
               (case fault env ''friendship_edges'' of
                  Some e \<Rightarrow> if errors_is e SqlNoRows then legacy else Inl e
                | None \<Rightarrow>
                    (case map_of (edges s) (userIDB, userIDA) of
                       Some r \<Rightarrow> if ed_state r = EdgeActive then Inr ((), s) else legacy
                     | None \<Rightarrow> legacy))
             else legacy)"

section \<open>Side effects of a command on inventories and schedules\<close>

definition advance_pet_schedule :: "env \<Rightarrow> command \<Rightarrow> gotime \<Rightarrow> (db, unit) tx" where
  "advance_pet_schedule env cmd now =
     stmt env ''update_next_pet_action''
       (\<lambda>s. case map_of (farms s) (cmd_FarmID cmd) of
              Some r \<Rightarrow>
                if fr_next_pet r = Some (datetime6 (cmd_PetScheduledAt cmd))
                then Inr ((), s\<lparr>farms := AList.update (cmd_FarmID cmd)
                       (r\<lparr>fr_next_pet := Some (datetime3 (now + 30 * second)),
                          fr_lease_owner := None, fr_lease_until := None\<rparr>) (farms s)\<rparr>)
                else Inl (New FarmVersionConflict)
            | None \<Rightarrow> Inl (New FarmVersionConflict))"

definition applyEconomicSideEffects :: "env \<Rightarrow> committer \<Rightarrow> command \<Rightarrow> apply_result \<Rightarrow> int \<Rightarrow> gotime \<Rightarrow> (db, unit) tx" where
  "applyEconomicSideEffects env c cmd ar ownerID now =
     (case cmd_Type cmd of
        CmdPlant \<Rightarrow>
          (case getCropConfig (cmd_CropID cmd) of
             Inl _ \<Rightarrow> tx_return ()
           | Inr _ \<Rightarrow>
               tx_bind (deductInventoryItem env (cmd_ActorUser cmd) ''SEED'' (cropIDToItemID (cmd_CropID cmd)) 1)
                 (\<lambda>ok. tx_guard ok (New EconomyInsufficient)))
      | CmdHarvest \<Rightarrow>
          tx_when (0 < ar_harvestedYield ar)
            (addInventoryItem env ownerID ''CROP'' (cropIDToItemID (ar_harvestedCropID ar)) (ar_harvestedYield ar))
      | CmdPetAutoHarvest \<Rightarrow>
          tx_seq
            (tx_when (0 < ar_harvestedYield ar)
              (addInventoryItem env ownerID ''CROP'' (cropIDToItemID (ar_harvestedCropID ar)) (ar_harvestedYield ar)))
            (advance_pet_schedule env cmd now)
      | CmdStealCrop \<Rightarrow>
          if (case deferRemoteStealCredit c of Some d \<Rightarrow> d ownerID (cmd_ActorUser cmd) | None \<Rightarrow> False)
          then tx_return ()
          else addInventoryItem env (cmd_ActorUser cmd) ''CROP'' (cropIDToItemID (ar_harvestedCropID ar))
                 (ar_stolenAmount ar)
      | _ \<Rightarrow> tx_return ())"

section \<open>The transaction\<close>

definition check_pet_schedule :: "command \<Rightarrow> snapshot \<Rightarrow> gotime option \<Rightarrow> gotime \<Rightarrow> (db, unit) tx" where
  "check_pet_schedule cmd snap nextPetAt now =
     tx_seq (tx_guard (cmd_ActorUser cmd = snap_OwnerID snap) (New SocialNotFarmOwner))
       (tx_seq (tx_guard (\<not> is_zero_time (cmd_PetScheduledAt cmd)) (New CommonInvalidArgument))
         (case nextPetAt of
            None \<Rightarrow> tx_fail (New FarmVersionConflict)
          | Some t \<Rightarrow>
              tx_seq (tx_guard (sameMillis t (cmd_PetScheduledAt cmd)) (New FarmVersionConflict))
                (tx_guard (\<not> now < t) (New FarmVersionConflict))))"

definition check_visitor :: "env \<Rightarrow> committer \<Rightarrow> command \<Rightarrow> snapshot \<Rightarrow> (db, unit) tx" where
  "check_visitor env c cmd snap =
     tx_seq (tx_guard (cmd_ActorUser cmd \<noteq> snap_OwnerID snap) (New SocialNotFarmOwner))
       (checkFriendship env c (cmd_ActorUser cmd) (snap_OwnerID snap))"

definition farm_result :: "env \<Rightarrow> command \<Rightarrow> snapshot \<Rightarrow> apply_result \<Rightarrow> commit_result" where
  "farm_result env cmd snap ar =
     zero_result\<lparr>cr_NewVersion := snap_Version snap,
       cr_Patch := \<lparr>patch_FarmID = snap_FarmID snap, patch_Version = snap_Version snap,
         patch_Plots = [ar_changedPlot ar], patch_ActorUser = cmd_ActorUser cmd\<rparr>,
       cr_EventID := fresh_id env\<rparr>"

text \<open>Steps 5 to 8 of commitFarmCommandOnce: everything that is written.\<close>

definition write_farm_command :: "env \<Rightarrow> committer \<Rightarrow> command \<Rightarrow> snapshot \<Rightarrow> apply_result \<Rightarrow> (db, commit_result ended) tx" where
  "write_farm_command env c cmd snap ar =
     tx_seq (applyEconomicSideEffects env c cmd ar (snap_OwnerID snap) (clk_now env))
       (tx_seq (upsertSnapshot env snap)
         (tx_seq
           (tx_when (requiresCommandReceipt (cmd_Type cmd))
             (insertReceipt env (cmd_ActorUser cmd) (cmd_CmdID cmd) (snap_Version snap) (clk_now env)))
           (tx_seq (insertOutbox env (fresh_id env) (ar_eventType ar) snap cmd ar (clk_now env))
             (tx_return (Committed (farm_result env cmd snap ar))))))"

definition farm_command_body :: "env \<Rightarrow> committer \<Rightarrow> command \<Rightarrow> (db, commit_result ended) tx" where
  "farm_command_body env c cmd =
     tx_bind (if requiresCommandReceipt (cmd_Type cmd)
              then checkReceipt env (cmd_ActorUser cmd) (cmd_CmdID cmd) else tx_return None)
       (\<lambda>replay. case replay of Some res \<Rightarrow> tx_return (NoCommit res) | None \<Rightarrow>
         tx_bind (loadSnapshotForUpdate env (cmd_FarmID cmd)) (\<lambda>(snap, nextPetAt).
           tx_seq (tx_guard (cmd_RouteEpoch cmd = snap_RouteEpoch snap) (New RoutingFenced))
           (tx_seq (tx_when (cmd_Type cmd = CmdPetAutoHarvest)
                      (check_pet_schedule cmd snap nextPetAt (clk_now env)))
           (tx_seq (tx_guard (cmd_Type cmd = CmdPetAutoHarvest \<or> cmd_BaseVersion cmd = snap_Version snap)
                      (New FarmVersionConflict))
           (tx_seq (tx_when (cmd_Type cmd = CmdHelpWater \<or> cmd_Type cmd = CmdStealCrop)
                      (check_visitor env c cmd snap))
           (tx_seq (tx_when (cmd_Type cmd = CmdPetAutoHarvest)
                      (checkPetAutoHarvestEnabled env (snap_OwnerID snap)))
           (tx_bind (lift_sum (applyCmd snap cmd (clk_now env))) (\<lambda>(ar, snap').
             write_farm_command env c cmd
               (snap'\<lparr>snap_Version := i64 (snap_Version snap' + 1)\<rparr>) ar))))))))"

definition commitFarmOnce :: "committer \<Rightarrow> command \<Rightarrow> env \<Rightarrow> db \<Rightarrow> (go_error + commit_result) \<times> db" where
  "commitFarmOnce c cmd env s = run_tx env (farm_command_body env c cmd) s"

section \<open>The route fence and the snapshot loader\<close>

definition LoadSnapshot :: "env \<Rightarrow> int \<Rightarrow> db \<Rightarrow> go_error + snapshot" where
  "LoadSnapshot env farmID s =
     (case fault env ''load_snapshot'' of
        Some e \<Rightarrow> Inl e
      | None \<Rightarrow> map_sum id fst (read_snapshot s farmID))"

definition advance_epoch_body :: "env \<Rightarrow> int \<Rightarrow> int \<Rightarrow> (db, unit ended) tx" where
  "advance_epoch_body env farmID epoch =
     tx_bind (stmt env ''lock_route_epoch'' (tx_get (\<lambda>s. map_of (farms s) farmID)))
       (\<lambda>row. case row of
          None \<Rightarrow> tx_fail (New FarmNotFound)
        | Some r \<Rightarrow>
            tx_seq (tx_guard (\<not> epoch < fr_route_epoch r) (New RoutingEpochStale))
              (tx_seq
                (tx_when (fr_route_epoch r < epoch)
                  (stmt env ''advance_route_epoch''
                    (tx_modify (\<lambda>s. s\<lparr>farms := AList.update farmID (r\<lparr>fr_route_epoch := epoch\<rparr>) (farms s)\<rparr>))))
                (tx_return (Committed ()))))"

definition advanceRouteEpochOnce :: "int \<Rightarrow> int \<Rightarrow> env \<Rightarrow> db \<Rightarrow> (go_error + unit) \<times> db" where
  "advanceRouteEpochOnce farmID epoch env s = run_tx env (advance_epoch_body env farmID epoch) s"

definition AdvanceRouteEpoch :: "(nat \<Rightarrow> go_error option) \<Rightarrow> (nat \<Rightarrow> env) \<Rightarrow> int \<Rightarrow> int \<Rightarrow> db \<Rightarrow> (go_error + unit) \<times> db" where
  "AdvanceRouteEpoch wait envs farmID epoch s =
     (if epoch \<le> 0 then (Inl (New CommonInvalidArgument), s)
      else retry_value wait IsTransient (\<lambda>n. advanceRouteEpochOnce farmID epoch (envs n)) s)"

section \<open>Inversion of the statements\<close>

lemma checkReceipt_Inr [tx_inv]:
  "checkReceipt env u c s = Inr (r, s') \<longleftrightarrow>
     fault env ''check_receipt'' = None \<and> s' = s
     \<and> r = map_option (\<lambda>r. zero_result\<lparr>cr_NewVersion := opt_or (rc_version r) 0, cr_Replayed := True\<rparr>)
           (find_receipt (receipts s) u c)"
  by (auto simp: checkReceipt_def tx_inv)

lemma loadSnapshotForUpdate_Inr [tx_inv]:
  "loadSnapshotForUpdate env k s = Inr (x, s') \<longleftrightarrow>
     fault env ''load_snapshot_for_update'' = None \<and> read_snapshot s k = Inr x \<and> s' = s"
  by (auto simp: loadSnapshotForUpdate_def tx_inv split: sum.split)

definition pet_enabled :: "db \<Rightarrow> int \<Rightarrow> bool" where
  "pet_enabled s u = (case pets s u of Some p \<Rightarrow> pt_status p = PetActive \<and> pt_auto p | None \<Rightarrow> False)"

lemma checkPetAutoHarvestEnabled_Inr [tx_inv]:
  "checkPetAutoHarvestEnabled env u s = Inr (x, s') \<longleftrightarrow>
     fault env ''check_pet'' = None \<and> pet_enabled s u \<and> s' = s"
  by (auto simp: checkPetAutoHarvestEnabled_def pet_enabled_def tx_inv split: option.splits if_splits)

text \<open>Friendship as the commit sees it: an ACTIVE directed edge or the undirected pair.\<close>

definition are_friends :: "committer \<Rightarrow> db \<Rightarrow> int \<Rightarrow> int \<Rightarrow> bool" where
  "are_friends c s visitor owner \<longleftrightarrow>
     (useFriendshipEdges c \<and> (\<exists>r. map_of (edges s) (owner, visitor) = Some r \<and> ed_state r = EdgeActive))
     \<or> friend_pair visitor owner \<in> set (friendships s)"

lemma checkFriendship_Inr:
  "checkFriendship env c a b s = Inr (x, s') \<Longrightarrow> are_friends c s a b \<and> s' = s"
  by (auto simp: checkFriendship_def are_friends_def Let_def split: option.splits if_splits)

lemma check_visitor_Inr:
  "check_visitor env c cmd snap s = Inr (x, s') \<Longrightarrow>
     cmd_ActorUser cmd \<noteq> snap_OwnerID snap
     \<and> are_friends c s (cmd_ActorUser cmd) (snap_OwnerID snap) \<and> s' = s"
  by (auto simp: check_visitor_def tx_inv dest: checkFriendship_Inr)

lemma check_pet_schedule_Inr:
  "check_pet_schedule cmd snap nextPetAt now s = Inr (x, s') \<longleftrightarrow>
     cmd_ActorUser cmd = snap_OwnerID snap \<and> cmd_PetScheduledAt cmd \<noteq> 0
     \<and> (\<exists>t. nextPetAt = Some t \<and> sameMillis t (cmd_PetScheduledAt cmd) \<and> t \<le> now) \<and> s' = s"
  by (auto simp: check_pet_schedule_def is_zero_time_def tx_inv split: option.splits)

lemma addInventoryItem_Inr [tx_inv]:
  "addInventoryItem env u t i d s = Inr (x, s') \<longleftrightarrow>
     fault env ''add_inventory'' = None
     \<and> 0 \<le> opt_or (inventory s (u, t, i)) 0 + d \<and> opt_or (inventory s (u, t, i)) 0 + d \<le> max_int64
     \<and> s' = s\<lparr>inventory := (inventory s)((u, t, i) \<mapsto> opt_or (inventory s (u, t, i)) 0 + d)\<rparr>"
  by (auto simp: addInventoryItem_def tx_inv Let_def)

lemma deductInventoryItem_Inr [tx_inv]:
  "deductInventoryItem env u t i d s = Inr (ok, s') \<longleftrightarrow>
     fault env ''deduct_inventory'' = None
     \<and> (ok \<longleftrightarrow> (\<exists>q. inventory s (u, t, i) = Some q \<and> d \<le> q))
     \<and> s' = (if ok then s\<lparr>inventory := (inventory s)((u, t, i) \<mapsto> opt_or (inventory s (u, t, i)) 0 - d)\<rparr> else s)"
  by (auto simp: deductInventoryItem_def tx_inv split: option.splits)

lemma insertReceipt_Inr [tx_inv]:
  "insertReceipt env u c v now s = Inr (x, s') \<longleftrightarrow>
     fault env ''insert_receipt'' = None \<and> find_receipt (receipts s) u c = None
     \<and> s' = s\<lparr>receipts := receipts s @
          [\<lparr>rc_user = u, rc_cmd = c, rc_version = Some v, rc_created = datetime3 now\<rparr>]\<rparr>"
  by (auto simp: insertReceipt_def tx_inv)

lemma upsertSnapshot_Inr [tx_inv]:
  "upsertSnapshot env snap s = Inr (x, s') \<longleftrightarrow>
     fault env ''upsert_snapshot'' = None \<and> s' = s\<lparr>farms := upsert_farm snap (farms s)\<rparr>"
  by (auto simp: upsertSnapshot_def tx_inv)

definition outbox_entry :: "env \<Rightarrow> command \<Rightarrow> snapshot \<Rightarrow> apply_result \<Rightarrow> (int \<Rightarrow> string) \<Rightarrow> outbox_row" where
  "outbox_entry env cmd snap ar names =
     pending_row (fresh_id env) ''farm'' (snap_FarmID snap) (format_int (snap_FarmID snap)) (ar_eventType ar)
       (farm_envelope (fresh_id env) (ar_eventType ar) snap cmd ar (clk_now env) names) (clk_now env)"

lemma insertOutbox_Inr:
  "insertOutbox env (fresh_id env) (ar_eventType ar) snap cmd ar (clk_now env) s = Inr (x, s') \<longleftrightarrow>
     fault env ''insert_outbox'' = None
     \<and> fresh_id env \<notin> ob_event_id ` set (outbox s)
     \<and> s' = s\<lparr>outbox := outbox s @ [(outbox_entry env cmd snap ar (loadDisplayName env s))\<lparr>ob_id := next_outbox_id s\<rparr>]\<rparr>"
  by (auto simp: insertOutbox_def outbox_entry_def pending_row_def tx_inv)

lemma advance_pet_schedule_Inr [tx_inv]:
  "advance_pet_schedule env cmd now s = Inr (x, s') \<longleftrightarrow>
     fault env ''update_next_pet_action'' = None
     \<and> (\<exists>r. map_of (farms s) (cmd_FarmID cmd) = Some r
          \<and> fr_next_pet r = Some (datetime6 (cmd_PetScheduledAt cmd))
          \<and> s' = s\<lparr>farms := AList.update (cmd_FarmID cmd)
                 (r\<lparr>fr_next_pet := Some (datetime3 (now + 30 * second)),
                    fr_lease_owner := None, fr_lease_until := None\<rparr>) (farms s)\<rparr>)"
  by (auto simp: advance_pet_schedule_def tx_inv split: option.splits)

text \<open>The body reached its Commit: every guard held and everything was written.\<close>

lemma farm_body_committed:
  assumes "farm_command_body env c cmd s = Inr (Committed res, s')"
  obtains snap nxt ar snap' where
    "requiresCommandReceipt (cmd_Type cmd) \<Longrightarrow> find_receipt (receipts s) (cmd_ActorUser cmd) (cmd_CmdID cmd) = None"
    "read_snapshot s (cmd_FarmID cmd) = Inr (snap, nxt)"
    "cmd_RouteEpoch cmd = snap_RouteEpoch snap"
    "cmd_Type cmd = CmdPetAutoHarvest \<Longrightarrow> cmd_ActorUser cmd = snap_OwnerID snap \<and> pet_enabled s (snap_OwnerID snap)
       \<and> (\<exists>t. nxt = Some t \<and> sameMillis t (cmd_PetScheduledAt cmd) \<and> t \<le> clk_now env)"
    "cmd_Type cmd \<noteq> CmdPetAutoHarvest \<Longrightarrow> cmd_BaseVersion cmd = snap_Version snap"
    "cmd_Type cmd \<in> {CmdHelpWater, CmdStealCrop} \<Longrightarrow> cmd_ActorUser cmd \<noteq> snap_OwnerID snap
       \<and> are_friends c s (cmd_ActorUser cmd) (snap_OwnerID snap)"
    "applyCmd snap cmd (clk_now env) = Inr (ar, snap')"
    "write_farm_command env c cmd (snap'\<lparr>snap_Version := i64 (snap_Version snap' + 1)\<rparr>) ar s
       = Inr (Committed res, s')"
  using assms
  by (auto simp: farm_command_body_def tx_inv check_pet_schedule_Inr
      split: option.splits if_splits prod.splits dest!: check_visitor_Inr)

end
