(* ===== verification/FarmCommitFacts.thy ===== *)
theory FarmCommitFacts
  imports FarmCommit
begin

text \<open>
  What one farm transaction does to the tables: the stored snapshot, the inventories, the receipt and
  the outbox.  The lemmas describe the state after the writes of a committed body; the properties in
  FarmCommitProps are read off from them.
\<close>

text \<open>The change of every inventory row that a command with result \<^verbatim>\<open>ar\<close> makes.\<close>

definition deferred_steal :: "committer \<Rightarrow> command \<Rightarrow> int \<Rightarrow> bool" where
  "deferred_steal c cmd owner =
     (case deferRemoteStealCredit c of Some d \<Rightarrow> d owner (cmd_ActorUser cmd) | None \<Rightarrow> False)"

definition crop_key :: "int \<Rightarrow> string \<Rightarrow> int \<times> string \<times> int" where
  "crop_key u crop = (u, ''CROP'', cropIDToItemID crop)"

definition seed_key :: "int \<Rightarrow> string \<Rightarrow> int \<times> string \<times> int" where
  "seed_key u crop = (u, ''SEED'', cropIDToItemID crop)"

definition side_delta :: "committer \<Rightarrow> command \<Rightarrow> apply_result \<Rightarrow> int \<Rightarrow> int \<times> string \<times> int \<Rightarrow> int" where
  "side_delta c cmd ar owner k =
     (case cmd_Type cmd of
        CmdPlant \<Rightarrow>
          if is_err (getCropConfig (cmd_CropID cmd)) then 0
          else if k = seed_key (cmd_ActorUser cmd) (cmd_CropID cmd) then -1 else 0
      | CmdHarvest \<Rightarrow>
          if 0 < ar_harvestedYield ar \<and> k = crop_key owner (ar_harvestedCropID ar)
          then ar_harvestedYield ar else 0
      | CmdPetAutoHarvest \<Rightarrow>
          if 0 < ar_harvestedYield ar \<and> k = crop_key owner (ar_harvestedCropID ar)
          then ar_harvestedYield ar else 0
      | CmdStealCrop \<Rightarrow>
          if \<not> deferred_steal c cmd owner \<and> k = crop_key (cmd_ActorUser cmd) (ar_harvestedCropID ar)
          then ar_stolenAmount ar else 0
      | _ \<Rightarrow> 0)"

definition rescheduled :: "gotime \<Rightarrow> farm_row \<Rightarrow> farm_row" where
  "rescheduled now r = r\<lparr>fr_next_pet := Some (datetime3 (now + 30 * second)),
     fr_lease_owner := None, fr_lease_until := None\<rparr>"

definition pet_farms :: "command \<Rightarrow> gotime \<Rightarrow> db \<Rightarrow> (int \<times> farm_row) list" where
  "pet_farms cmd now s =
     (if cmd_Type cmd = CmdPetAutoHarvest
      then (case map_of (farms s) (cmd_FarmID cmd) of
              Some r \<Rightarrow> AList.update (cmd_FarmID cmd) (rescheduled now r) (farms s)
            | None \<Rightarrow> farms s)
      else farms s)"

lemma add_inventory_effect:
  assumes "addInventoryItem env u t i d s = Inr (x, s1)" "\<And>j. f j = (if j = (u, t, i) then d else 0)"
  shows "\<exists>iv. s1 = s\<lparr>inventory := iv\<rparr> \<and> inv_change f (inventory s) iv"
  using assms(1) inv_change_upd [of "inventory s" "(u, t, i)" d f, OF _ _ assms(2)]
  by (auto simp: tx_inv qty_def [symmetric])

lemma deduct_inventory_effect:
  assumes "deductInventoryItem env u t i d s = Inr (True, s1)" "0 \<le> d"
    "\<And>j. f j = (if j = (u, t, i) then - d else 0)" "inventory_ok s"
  shows "\<exists>iv. s1 = s\<lparr>inventory := iv\<rparr> \<and> inv_change f (inventory s) iv"
proof -
  obtain q where q: "inventory s (u, t, i) = Some q" "d \<le> q"
    "s1 = s\<lparr>inventory := (inventory s)((u, t, i) \<mapsto> q - d)\<rparr>"
    using assms(1) by (auto simp: tx_inv)
  have "q \<le> max_int64" using q(1) assms(4) by (auto simp: inventory_ok_def inv_ok_def)
  with q assms show ?thesis
    using inv_change_upd [of "inventory s" "(u, t, i)" "- d" f, OF _ _ assms(3)]
    by (auto simp: qty_def)
qed

definition side_effect_spec :: "committer \<Rightarrow> command \<Rightarrow> apply_result \<Rightarrow> int \<Rightarrow> gotime \<Rightarrow> db \<Rightarrow> db \<Rightarrow> bool" where
  "side_effect_spec c cmd ar owner now s s1 \<longleftrightarrow>
     (\<exists>iv. s1 = s\<lparr>inventory := iv, farms := pet_farms cmd now s\<rparr>
        \<and> inv_change (side_delta c cmd ar owner) (inventory s) iv)
     \<and> (cmd_Type cmd = CmdPetAutoHarvest \<longrightarrow>
          (\<exists>r. map_of (farms s) (cmd_FarmID cmd) = Some r
             \<and> fr_next_pet r = Some (datetime6 (cmd_PetScheduledAt cmd))))"

lemma inventory_only_spec:
  assumes "\<exists>iv. s1 = s\<lparr>inventory := iv\<rparr> \<and> inv_change (side_delta c cmd ar owner) (inventory s) iv"
    "cmd_Type cmd \<noteq> CmdPetAutoHarvest"
  shows "side_effect_spec c cmd ar owner now s s1"
proof -
  obtain iv where "s1 = s\<lparr>inventory := iv\<rparr>" "inv_change (side_delta c cmd ar owner) (inventory s) iv"
    using assms(1) by blast
  moreover have "s\<lparr>inventory := iv\<rparr> = s\<lparr>inventory := iv, farms := pet_farms cmd now s\<rparr>"
    using assms(2) by (simp add: pet_farms_def)
  ultimately show ?thesis
    using assms(2) unfolding side_effect_spec_def by blast
qed

lemma no_inventory_effect:
  assumes "s1 = s" "\<And>k. f k = 0"
  shows "\<exists>iv. s1 = s\<lparr>inventory := iv\<rparr> \<and> inv_change f (inventory s) iv"
  using assms by (intro exI [of _ "inventory s"]) (simp add: inv_change_refl)

lemma side_effects_plant:
  assumes "applyEconomicSideEffects env c cmd ar owner now s = Inr (x, s1)" "cmd_Type cmd = CmdPlant"
    "inventory_ok s"
  shows "side_effect_spec c cmd ar owner now s s1"
proof (cases "getCropConfig (cmd_CropID cmd)")
  case (Inl e)
  with assms have "s1 = s" by (simp add: applyEconomicSideEffects_def tx_inv)
  with assms Inl show ?thesis
    by (intro inventory_only_spec no_inventory_effect) (simp_all add: side_delta_def)
next
  case (Inr cfg)
  with assms have
    "deductInventoryItem env (cmd_ActorUser cmd) ''SEED'' (cropIDToItemID (cmd_CropID cmd)) 1 s = Inr (True, s1)"
    by (auto simp: applyEconomicSideEffects_def tx_bind_Inr tx_guard_Inr)
  with assms Inr show ?thesis
    by (intro inventory_only_spec deduct_inventory_effect) (simp_all add: side_delta_def seed_key_def)
qed

lemma harvest_credit:
  assumes "tx_when (0 < ar_harvestedYield ar)
      (addInventoryItem env owner ''CROP'' (cropIDToItemID (ar_harvestedCropID ar)) (ar_harvestedYield ar)) s = Inr (x, s1)"
    "cmd_Type cmd = CmdHarvest \<or> cmd_Type cmd = CmdPetAutoHarvest"
  shows "\<exists>iv. s1 = s\<lparr>inventory := iv\<rparr> \<and> inv_change (side_delta c cmd ar owner) (inventory s) iv"
proof (cases "0 < ar_harvestedYield ar")
  case True
  with assms have "addInventoryItem env owner ''CROP'' (cropIDToItemID (ar_harvestedCropID ar)) (ar_harvestedYield ar) s = Inr (x, s1)"
    by (simp add: tx_when_def)
  then show ?thesis
    by (rule add_inventory_effect) (use assms(2) True in \<open>auto simp: side_delta_def crop_key_def\<close>)
next
  case False
  with assms have "s1 = s" by (simp add: tx_inv)
  then show ?thesis
    by (rule no_inventory_effect) (use False assms(2) in \<open>auto simp: side_delta_def\<close>)
qed

lemma side_effects_harvest:
  assumes "applyEconomicSideEffects env c cmd ar owner now s = Inr (x, s1)" "cmd_Type cmd = CmdHarvest"
  shows "side_effect_spec c cmd ar owner now s s1"
proof (rule inventory_only_spec)
  have "tx_when (0 < ar_harvestedYield ar)
      (addInventoryItem env owner ''CROP'' (cropIDToItemID (ar_harvestedCropID ar)) (ar_harvestedYield ar)) s = Inr (x, s1)"
    using assms by (simp add: applyEconomicSideEffects_def)
  then show "\<exists>iv. s1 = s\<lparr>inventory := iv\<rparr> \<and> inv_change (side_delta c cmd ar owner) (inventory s) iv"
    by (rule harvest_credit) (simp add: assms(2))
qed (simp add: assms(2))

lemma side_effects_pet:
  assumes "applyEconomicSideEffects env c cmd ar owner now s = Inr (x, s2)" "cmd_Type cmd = CmdPetAutoHarvest"
  shows "side_effect_spec c cmd ar owner now s s2"
proof -
  obtain y s1 where
    1: "tx_when (0 < ar_harvestedYield ar)
      (addInventoryItem env owner ''CROP'' (cropIDToItemID (ar_harvestedCropID ar)) (ar_harvestedYield ar)) s = Inr (y, s1)"
    and 2: "advance_pet_schedule env cmd now s1 = Inr (x, s2)"
    using assms by (auto simp: applyEconomicSideEffects_def tx_bind_Inr)
  obtain iv where iv: "s1 = s\<lparr>inventory := iv\<rparr>" "inv_change (side_delta c cmd ar owner) (inventory s) iv"
    using harvest_credit [OF 1, of cmd c] assms(2) by auto
  obtain r where r: "map_of (farms s) (cmd_FarmID cmd) = Some r"
      "fr_next_pet r = Some (datetime6 (cmd_PetScheduledAt cmd))"
      "s2 = s\<lparr>inventory := iv, farms := AList.update (cmd_FarmID cmd) (rescheduled now r) (farms s)\<rparr>"
    using 2 iv(1) by (auto simp: advance_pet_schedule_Inr rescheduled_def)
  have pf: "pet_farms cmd now s = AList.update (cmd_FarmID cmd) (rescheduled now r) (farms s)"
    using assms(2) r(1) by (simp add: pet_farms_def)
  show ?thesis
    unfolding side_effect_spec_def pf using r iv(2) by (intro conjI impI exI)
qed

lemma side_effects_steal:
  assumes "applyEconomicSideEffects env c cmd ar owner now s = Inr (x, s1)" "cmd_Type cmd = CmdStealCrop"
  shows "side_effect_spec c cmd ar owner now s s1"
proof (cases "deferred_steal c cmd owner")
  case True
  with assms have "s1 = s"
    by (simp add: applyEconomicSideEffects_def deferred_steal_def tx_inv split: option.splits)
  with assms True show ?thesis
    by (intro inventory_only_spec no_inventory_effect) (simp_all add: side_delta_def)
next
  case False
  with assms have "addInventoryItem env (cmd_ActorUser cmd) ''CROP'' (cropIDToItemID (ar_harvestedCropID ar)) (ar_stolenAmount ar) s = Inr (x, s1)"
    by (simp add: applyEconomicSideEffects_def deferred_steal_def split: option.splits)
  with assms False show ?thesis
    by (intro inventory_only_spec add_inventory_effect) (simp_all add: side_delta_def crop_key_def)
qed

lemma side_effects_none:
  assumes "applyEconomicSideEffects env c cmd ar owner now s = Inr (x, s1)"
    "cmd_Type cmd \<notin> {CmdPlant, CmdHarvest, CmdPetAutoHarvest, CmdStealCrop}"
  shows "side_effect_spec c cmd ar owner now s s1"
proof -
  have "s1 = s"
    using assms by (auto simp: applyEconomicSideEffects_def tx_inv split: command_type.splits)
  then show ?thesis
    using assms(2)
    by (intro inventory_only_spec no_inventory_effect) (auto simp: side_delta_def split: command_type.splits)
qed

lemma side_effects:
  assumes "applyEconomicSideEffects env c cmd ar owner now s = Inr (x, s1)" "inventory_ok s"
  shows "side_effect_spec c cmd ar owner now s s1"
  using side_effects_plant [OF assms(1) _ assms(2)] side_effects_harvest [OF assms(1)]
    side_effects_pet [OF assms(1)] side_effects_steal [OF assms(1)] side_effects_none [OF assms(1)]
  by auto

section \<open>The state after all writes\<close>

definition receipt_of :: "env \<Rightarrow> command \<Rightarrow> snapshot \<Rightarrow> receipt_row" where
  "receipt_of env cmd snap = \<lparr>rc_user = cmd_ActorUser cmd, rc_cmd = cmd_CmdID cmd,
     rc_version = Some (snap_Version snap), rc_created = datetime3 (clk_now env)\<rparr>"

lemma loadDisplayName_cong:
  "display_names s = display_names s' \<Longrightarrow> loadDisplayName env s = loadDisplayName env s'"
  by (simp add: loadDisplayName_def fun_eq_iff split: option.split)

definition receipts_after :: "env \<Rightarrow> command \<Rightarrow> snapshot \<Rightarrow> receipt_row list \<Rightarrow> receipt_row list" where
  "receipts_after env cmd snap rs =
     (if requiresCommandReceipt (cmd_Type cmd) then rs @ [receipt_of env cmd snap] else rs)"

definition entry_of :: "env \<Rightarrow> command \<Rightarrow> snapshot \<Rightarrow> apply_result \<Rightarrow> db \<Rightarrow> outbox_row" where
  "entry_of env cmd snap ar s =
     (outbox_entry env cmd snap ar (loadDisplayName env s))\<lparr>ob_id := next_outbox_id s\<rparr>"

lemma entry_of_cong:
  assumes "outbox s = outbox s'" "display_names s = display_names s'"
  shows "entry_of env cmd snap ar s = entry_of env cmd snap ar s'"
  using assms loadDisplayName_cong [of s s' env] by (simp add: entry_of_def next_outbox_id_def)

lemma write_tail:
  assumes "tx_seq (tx_when (requiresCommandReceipt (cmd_Type cmd))
             (insertReceipt env (cmd_ActorUser cmd) (cmd_CmdID cmd) (snap_Version snap) (clk_now env)))
           (tx_seq (insertOutbox env (fresh_id env) (ar_eventType ar) snap cmd ar (clk_now env))
             (tx_return (Committed (farm_result env cmd snap ar)))) s = Inr (Committed res, s')"
  shows "s' = s\<lparr>receipts := receipts_after env cmd snap (receipts s), outbox := outbox s @ [entry_of env cmd snap ar s]\<rparr>"
    "res = farm_result env cmd snap ar" "fresh_id env \<notin> ob_event_id ` set (outbox s)"
    "requiresCommandReceipt (cmd_Type cmd) \<longrightarrow>
       find_receipt (receipts s) (cmd_ActorUser cmd) (cmd_CmdID cmd) = None"
proof -
  obtain s3 where 3: "s3 = s\<lparr>receipts := receipts_after env cmd snap (receipts s)\<rparr>"
    "requiresCommandReceipt (cmd_Type cmd) \<longrightarrow>
       find_receipt (receipts s) (cmd_ActorUser cmd) (cmd_CmdID cmd) = None"
    "insertOutbox env (fresh_id env) (ar_eventType ar) snap cmd ar (clk_now env) s3 = Inr ((), s')"
    "res = farm_result env cmd snap ar"
    using assms by (auto simp: tx_inv receipts_after_def receipt_of_def split: if_splits)
  moreover have "entry_of env cmd snap ar s3 = entry_of env cmd snap ar s"
    using 3(1) by (intro entry_of_cong) simp_all
  ultimately show "s' = s\<lparr>receipts := receipts_after env cmd snap (receipts s), outbox := outbox s @ [entry_of env cmd snap ar s]\<rparr>"
    "res = farm_result env cmd snap ar" "fresh_id env \<notin> ob_event_id ` set (outbox s)"
    "requiresCommandReceipt (cmd_Type cmd) \<longrightarrow>
       find_receipt (receipts s) (cmd_ActorUser cmd) (cmd_CmdID cmd) = None"
    by (simp_all add: insertOutbox_Inr entry_of_def [symmetric])
qed

lemma write_effect:
  assumes "write_farm_command env c cmd snap ar s = Inr (Committed res, s')" "inventory_ok s"
  obtains iv where
    "inv_change (side_delta c cmd ar (snap_OwnerID snap)) (inventory s) iv"
    "cmd_Type cmd = CmdPetAutoHarvest \<Longrightarrow> \<exists>r. map_of (farms s) (cmd_FarmID cmd) = Some r
       \<and> fr_next_pet r = Some (datetime6 (cmd_PetScheduledAt cmd))"
    "s' = s\<lparr>inventory := iv,
            farms := upsert_farm snap (pet_farms cmd (clk_now env) s),
            receipts := receipts_after env cmd snap (receipts s),
            outbox := outbox s @ [entry_of env cmd snap ar s]\<rparr>"
    "res = farm_result env cmd snap ar"
    "fresh_id env \<notin> ob_event_id ` set (outbox s)"
    "requiresCommandReceipt (cmd_Type cmd) \<Longrightarrow>
       find_receipt (receipts s) (cmd_ActorUser cmd) (cmd_CmdID cmd) = None"
proof -
  obtain s1 where
    1: "applyEconomicSideEffects env c cmd ar (snap_OwnerID snap) (clk_now env) s = Inr ((), s1)"
    and 2: "tx_seq (tx_when (requiresCommandReceipt (cmd_Type cmd))
             (insertReceipt env (cmd_ActorUser cmd) (cmd_CmdID cmd) (snap_Version snap) (clk_now env)))
           (tx_seq (insertOutbox env (fresh_id env) (ar_eventType ar) snap cmd ar (clk_now env))
             (tx_return (Committed (farm_result env cmd snap ar))))
           (s1\<lparr>farms := upsert_farm snap (farms s1)\<rparr>) = Inr (Committed res, s')"
    using assms(1) unfolding write_farm_command_def tx_bind_Inr upsertSnapshot_Inr by auto
  obtain iv where iv: "s1 = s\<lparr>inventory := iv, farms := pet_farms cmd (clk_now env) s\<rparr>"
      "inv_change (side_delta c cmd ar (snap_OwnerID snap)) (inventory s) iv"
    and pet: "cmd_Type cmd = CmdPetAutoHarvest \<longrightarrow> (\<exists>r. map_of (farms s) (cmd_FarmID cmd) = Some r
       \<and> fr_next_pet r = Some (datetime6 (cmd_PetScheduledAt cmd)))"
    using side_effects [OF 1 assms(2)] unfolding side_effect_spec_def by blast
  let ?t = "s1\<lparr>farms := upsert_farm snap (farms s1)\<rparr>"
  have "entry_of env cmd snap ar ?t = entry_of env cmd snap ar s"
    using iv(1) by (intro entry_of_cong) simp_all
  with write_tail [OF 2] iv(1) have
    "s' = s\<lparr>inventory := iv, farms := upsert_farm snap (pet_farms cmd (clk_now env) s),
            receipts := receipts_after env cmd snap (receipts s),
            outbox := outbox s @ [entry_of env cmd snap ar s]\<rparr>"
    "res = farm_result env cmd snap ar" "fresh_id env \<notin> ob_event_id ` set (outbox s)"
    "requiresCommandReceipt (cmd_Type cmd) \<longrightarrow>
       find_receipt (receipts s) (cmd_ActorUser cmd) (cmd_CmdID cmd) = None"
    by simp_all
  then show ?thesis by (intro that [OF iv(2)]) (use pet in auto)
qed

section \<open>Rows of farms\<close>

lemma map_of_upsert:
  assumes "unique_keys fs" "\<forall>(k, r) \<in> set fs. fr_owner r = k" "snap_OwnerID snap = snap_FarmID snap"
  shows "map_of (upsert_farm snap fs) = (map_of fs)(snap_FarmID snap \<mapsto>
     (case map_of fs (snap_FarmID snap) of Some r \<Rightarrow> stored_row snap r | None \<Rightarrow> new_farm_row snap))"
proof (cases "map_of fs (snap_FarmID snap)")
  case None
  have "find (\<lambda>(k, r). fr_owner r = snap_OwnerID snap) fs = None"
    using None assms(2,3) by (force simp: find_None_iff map_of_eq_None_iff)
  with None show ?thesis by (simp add: upsert_farm_def)
qed (simp add: upsert_farm_def)

lemma upsert_farms_ok:
  assumes "unique_keys fs" "\<forall>(k, r) \<in> set fs. fr_owner r = k" "snap_OwnerID snap = snap_FarmID snap"
  shows "unique_keys (upsert_farm snap fs)" "\<forall>(k, r) \<in> set (upsert_farm snap fs). fr_owner r = k"
proof -
  show u: "unique_keys (upsert_farm snap fs)"
    using assms(1) by (auto simp: upsert_farm_def split: option.split)
  have "fr_owner r = k" if "(k, r) \<in> set (upsert_farm snap fs)" for k r
  proof -
    have "map_of (upsert_farm snap fs) k = Some r" using that u by (simp add: map_of_mem_iff)
    then show ?thesis
      using assms(2,3) map_of_SomeD [of fs]
      by (fastforce simp: map_of_upsert [OF assms] stored_row_def new_farm_row_def
          split: if_splits option.splits)
  qed
  then show "\<forall>(k, r) \<in> set (upsert_farm snap fs). fr_owner r = k" by auto
qed

lemma pet_farms_map:
  "map_of (pet_farms cmd now s) k =
     (if cmd_Type cmd = CmdPetAutoHarvest \<and> k = cmd_FarmID cmd
      then map_option (rescheduled now) (map_of (farms s) k) else map_of (farms s) k)"
  by (auto simp: pet_farms_def split: option.split)

lemma pet_farms_ok:
  assumes "farms_ok s"
  shows "unique_keys (pet_farms cmd now s)" "\<forall>(k, r) \<in> set (pet_farms cmd now s). fr_owner r = k"
proof -
  show u: "unique_keys (pet_farms cmd now s)"
    using assms by (auto simp: pet_farms_def farms_ok_def split: option.split)
  have "fr_owner r = k" if "(k, r) \<in> set (pet_farms cmd now s)" for k r
  proof -
    have "map_of (pet_farms cmd now s) k = Some r" using that u by (simp add: map_of_mem_iff)
    then obtain r0 where "map_of (farms s) k = Some r0" "fr_owner r = fr_owner r0"
      by (auto simp: pet_farms_map rescheduled_def split: if_splits)
    then show ?thesis using assms map_of_SomeD by (fastforce simp: farms_ok_def)
  qed
  then show "\<forall>(k, r) \<in> set (pet_farms cmd now s). fr_owner r = k" by auto
qed

text \<open>Stored snapshots that decode to well-formed plots.\<close>

definition stored_ok :: "snapshot_json \<Rightarrow> bool" where
  "stored_ok j = (case unmarshal_plots [] j of Inl _ \<Rightarrow> False | Inr ps \<Rightarrow> plots_ok ps \<and> int32_keys ps)"

definition snapshots_ok :: "db \<Rightarrow> bool" where
  "snapshots_ok s \<longleftrightarrow> (\<forall>(k, r) \<in> set (farms s). stored_ok (fr_snapshot r))"

lemma marshal_stored_ok:
  assumes "snapshot_ok snap" "int32_keys (snap_Plots snap)"
  shows "unmarshal_plots [] (marshalSnapshot snap) = Inr (snap_Plots snap)" "stored_ok (marshalSnapshot snap)"
proof -
  show "unmarshal_plots [] (marshalSnapshot snap) = Inr (snap_Plots snap)"
    using assms unmarshal_marshal_plots [of "[]" "snap_Plots snap"]
    by (simp add: marshalSnapshot_def snapshot_ok_def plots_ok_def)
  then show "stored_ok (marshalSnapshot snap)"
    using assms by (simp add: stored_ok_def snapshot_ok_def)
qed

lemma read_snapshot_ok:
  assumes "snapshots_ok s" "farms_ok s" "read_snapshot s k = Inr (snap, nxt)"
  shows "snapshot_ok snap" "int32_keys (snap_Plots snap)" "snap_FarmID snap = k" "snap_OwnerID snap = k"
proof -
  have "snapshot_ok snap \<and> int32_keys (snap_Plots snap) \<and> snap_FarmID snap = k \<and> snap_OwnerID snap = k"
  proof (cases "map_of (farms s) k")
  case None
  with assms(3) show "snapshot_ok snap \<and> int32_keys (snap_Plots snap) \<and> snap_FarmID snap = k \<and> snap_OwnerID snap = k"
    by (auto simp: read_snapshot_def emptySnapshot_def snapshot_ok_def plots_ok_def int32_keys_def)
next
  case (Some r)
  then have "stored_ok (fr_snapshot r)" "fr_owner r = k"
    using assms(1,2) map_of_SomeD by (fastforce simp: snapshots_ok_def farms_ok_def)+
  with Some assms(3) show "snapshot_ok snap \<and> int32_keys (snap_Plots snap) \<and> snap_FarmID snap = k \<and> snap_OwnerID snap = k"
    by (auto simp: read_snapshot_def unmarshalSnapshot_def stored_ok_def snapshot_ok_def split: sum.splits)
  qed
  then show "snapshot_ok snap" "int32_keys (snap_Plots snap)" "snap_FarmID snap = k" "snap_OwnerID snap = k"
    by simp_all
qed

lemma read_snapshot_total:
  assumes "snapshots_ok s"
  shows "\<exists>snap nxt. read_snapshot s k = Inr (snap, nxt)"
proof (cases "map_of (farms s) k")
  case (Some r)
  then have "stored_ok (fr_snapshot r)"
    using assms map_of_SomeD by (fastforce simp: snapshots_ok_def)
  with Some show ?thesis
    by (auto simp: read_snapshot_def unmarshalSnapshot_def stored_ok_def split: sum.splits)
qed (simp add: read_snapshot_def)

end
