(* ===== verification/FarmCommitProps.thy ===== *)
theory FarmCommitProps
  imports FarmCommitFacts
begin

text \<open>
  Properties of the farm commit: refinement of the in-memory application, at-most-once under retries,
  fencing and optimistic concurrency, the invariants of the tables, and the rules for stealing and
  for the pet.
\<close>

section \<open>A transaction that took effect\<close>

lemma farm_took_effect:
  assumes "snd (commitFarmOnce c cmd env s) \<noteq> s" "inventory_ok s"
  obtains snap nxt ar snap1 iv where
    "requiresCommandReceipt (cmd_Type cmd) \<Longrightarrow> find_receipt (receipts s) (cmd_ActorUser cmd) (cmd_CmdID cmd) = None"
    "read_snapshot s (cmd_FarmID cmd) = Inr (snap, nxt)"
    "cmd_RouteEpoch cmd = snap_RouteEpoch snap"
    "cmd_Type cmd = CmdPetAutoHarvest \<Longrightarrow> cmd_ActorUser cmd = snap_OwnerID snap \<and> pet_enabled s (snap_OwnerID snap)
       \<and> (\<exists>t. nxt = Some t \<and> t = datetime6 (cmd_PetScheduledAt cmd) \<and> t \<le> clk_now env)"
    "cmd_Type cmd \<noteq> CmdPetAutoHarvest \<Longrightarrow> cmd_BaseVersion cmd = snap_Version snap"
    "cmd_Type cmd \<in> {CmdHelpWater, CmdStealCrop} \<Longrightarrow> cmd_ActorUser cmd \<noteq> snap_OwnerID snap
       \<and> are_friends c s (cmd_ActorUser cmd) (snap_OwnerID snap)"
    "applyCmd snap cmd (clk_now env) = Inr (ar, snap1)"
    "inv_change (side_delta c cmd ar (snap_OwnerID snap)) (inventory s) iv"
    "snd (commitFarmOnce c cmd env s) = s\<lparr>inventory := iv,
            farms := upsert_farm (snap1\<lparr>snap_Version := i64 (snap_Version snap + 1)\<rparr>) (pet_farms cmd (clk_now env) s),
            receipts := receipts_after env cmd (snap1\<lparr>snap_Version := i64 (snap_Version snap + 1)\<rparr>) (receipts s),
            outbox := outbox s @ [entry_of env cmd (snap1\<lparr>snap_Version := i64 (snap_Version snap + 1)\<rparr>) ar s]\<rparr>"
    "fresh_id env \<notin> ob_event_id ` set (outbox s)"
proof -
  obtain res s' where body: "farm_command_body env c cmd s = Inr (Committed res, s')"
    and s': "snd (commitFarmOnce c cmd env s) = s'"
    using assms(1) unfolding commitFarmOnce_def
    by (cases rule: run_tx_cases [of env "farm_command_body env c cmd" s]) auto
  from body obtain snap nxt ar snap1 where
    g: "requiresCommandReceipt (cmd_Type cmd) \<Longrightarrow> find_receipt (receipts s) (cmd_ActorUser cmd) (cmd_CmdID cmd) = None"
    "read_snapshot s (cmd_FarmID cmd) = Inr (snap, nxt)"
    "cmd_RouteEpoch cmd = snap_RouteEpoch snap"
    "cmd_Type cmd = CmdPetAutoHarvest \<Longrightarrow> cmd_ActorUser cmd = snap_OwnerID snap \<and> pet_enabled s (snap_OwnerID snap)
       \<and> (\<exists>t. nxt = Some t \<and> sameMillis t (cmd_PetScheduledAt cmd) \<and> t \<le> clk_now env)"
    "cmd_Type cmd \<noteq> CmdPetAutoHarvest \<Longrightarrow> cmd_BaseVersion cmd = snap_Version snap"
    "cmd_Type cmd \<in> {CmdHelpWater, CmdStealCrop} \<Longrightarrow> cmd_ActorUser cmd \<noteq> snap_OwnerID snap
       \<and> are_friends c s (cmd_ActorUser cmd) (snap_OwnerID snap)"
    "applyCmd snap cmd (clk_now env) = Inr (ar, snap1)"
    and w: "write_farm_command env c cmd (snap1\<lparr>snap_Version := i64 (snap_Version snap1 + 1)\<rparr>) ar s
       = Inr (Committed res, s')"
    by (rule farm_body_committed) blast
  note frame = applyCmd_frame [OF g(7)]
  from w assms(2) obtain iv where
    e: "inv_change (side_delta c cmd ar (snap_OwnerID snap)) (inventory s) iv"
    "cmd_Type cmd = CmdPetAutoHarvest \<Longrightarrow> \<exists>r. map_of (farms s) (cmd_FarmID cmd) = Some r
       \<and> fr_next_pet r = Some (datetime6 (cmd_PetScheduledAt cmd))"
    "s' = s\<lparr>inventory := iv,
            farms := upsert_farm (snap1\<lparr>snap_Version := i64 (snap_Version snap1 + 1)\<rparr>) (pet_farms cmd (clk_now env) s),
            receipts := receipts_after env cmd (snap1\<lparr>snap_Version := i64 (snap_Version snap1 + 1)\<rparr>) (receipts s),
            outbox := outbox s @ [entry_of env cmd (snap1\<lparr>snap_Version := i64 (snap_Version snap1 + 1)\<rparr>) ar s]\<rparr>"
    "fresh_id env \<notin> ob_event_id ` set (outbox s)"
    by (rule write_effect) (simp add: frame)
  have pet: "\<exists>t. nxt = Some t \<and> t = datetime6 (cmd_PetScheduledAt cmd) \<and> t \<le> clk_now env"
    if "cmd_Type cmd = CmdPetAutoHarvest"
    using g(2) g(4) [OF that] e(2) [OF that] by (auto simp: read_snapshot_def split: sum.splits)
  show ?thesis
    by (rule that [OF g(1-3) _ g(5-7) e(1)]) (use g(4) pet e(3,4) s' frame in auto)
qed

lemma farm_result_means_effect:
  assumes "commitFarmOnce c cmd env s = (Inr res, s')"
  shows "(s' = s \<and> cr_Replayed res \<and> requiresCommandReceipt (cmd_Type cmd)
           \<and> find_receipt (receipts s) (cmd_ActorUser cmd) (cmd_CmdID cmd) \<noteq> None)
       \<or> farm_command_body env c cmd s = Inr (Committed res, s')"
proof -
  consider "farm_command_body env c cmd s = Inr (Committed res, s')"
    | t where "farm_command_body env c cmd s = Inr (NoCommit res, t)" "s' = s"
    using run_tx_ok [of env "farm_command_body env c cmd" s res s'] assms
    by (auto simp: commitFarmOnce_def)
  then show ?thesis
  proof cases
    case 2
    have no: "write_farm_command env c cmd snap ar u \<noteq> Inr (NoCommit res, t)" for snap ar u
      unfolding write_farm_command_def tx_bind_Inr tx_return_Inr by blast
    show ?thesis
      using 2 no by (auto simp: farm_command_body_def tx_bind_Inr checkReceipt_Inr tx_return_Inr
          split: option.splits if_splits prod.splits)
  qed simp
qed

section \<open>Applied at most once\<close>

text \<open>The durable trace of a command: its receipt, or, for the commands without receipts, a stored
  version other than the one the command was based on.\<close>

definition farm_version :: "db \<Rightarrow> int \<Rightarrow> int" where
  "farm_version s f = (case map_of (farms s) f of None \<Rightarrow> 0 | Some r \<Rightarrow> fr_version r)"

definition farm_applied :: "command \<Rightarrow> db \<Rightarrow> bool" where
  "farm_applied cmd s =
     (if requiresCommandReceipt (cmd_Type cmd)
      then find_receipt (receipts s) (cmd_ActorUser cmd) (cmd_CmdID cmd) \<noteq> None
      else farm_version s (cmd_FarmID cmd) \<noteq> cmd_BaseVersion cmd)"

definition farm_inv :: "db \<Rightarrow> bool" where
  "farm_inv s \<longleftrightarrow> farms_ok s \<and> inventory_ok s"

lemma read_snapshot_version:
  "read_snapshot s f = Inr (snap, nxt) \<Longrightarrow> snap_Version snap = farm_version s f"
  by (auto simp: read_snapshot_def farm_version_def emptySnapshot_def unmarshalSnapshot_def
      split: option.splits sum.splits)

lemma read_snapshot_ids:
  assumes "read_snapshot s f = Inr (snap, nxt)" "farms_ok s"
  shows "snap_FarmID snap = f" "snap_OwnerID snap = f"
  using assms map_of_SomeD [of "farms s" f]
  by (fastforce simp: read_snapshot_def emptySnapshot_def unmarshalSnapshot_def farms_ok_def
      split: option.splits sum.splits)+

lemma map_of_farms_after:
  assumes "farms_ok s" "snap_FarmID snap = cmd_FarmID cmd" "snap_OwnerID snap = cmd_FarmID cmd"
  shows "map_of (upsert_farm snap (pet_farms cmd now s)) k =
    (if k = cmd_FarmID cmd
     then Some (case map_of (pet_farms cmd now s) k of Some r \<Rightarrow> stored_row snap r | None \<Rightarrow> new_farm_row snap)
     else map_of (farms s) k)"
  using assms by (auto simp: map_of_upsert [OF pet_farms_ok [OF assms(1)]] pet_farms_map split: option.split)

lemma farms_after_ok:
  assumes "farms_ok s" "snap_FarmID snap = cmd_FarmID cmd" "snap_OwnerID snap = cmd_FarmID cmd"
    "farms s' = upsert_farm snap (pet_farms cmd now s)"
  shows "farms_ok s'"
  using upsert_farms_ok [OF pet_farms_ok [OF assms(1)], of snap cmd now] assms
  by (simp add: farms_ok_def)

lemma find_receipt_after:
  assumes "find_receipt rs (cmd_ActorUser cmd) (cmd_CmdID cmd) = None" "requiresCommandReceipt (cmd_Type cmd)"
  shows "find_receipt (receipts_after env cmd snap rs) (cmd_ActorUser cmd) (cmd_CmdID cmd) \<noteq> None"
proof
  assume "find_receipt (receipts_after env cmd snap rs) (cmd_ActorUser cmd) (cmd_CmdID cmd) = None"
  moreover have "receipt_of env cmd snap \<in> set (receipts_after env cmd snap rs)"
    using assms(2) by (simp add: receipts_after_def)
  moreover have "rc_user (receipt_of env cmd snap) = cmd_ActorUser cmd"
    "rc_cmd (receipt_of env cmd snap) = cmd_CmdID cmd" by (simp_all add: receipt_of_def)
  ultimately show False unfolding find_receipt_def find_None_iff by blast
qed

lemma i64_succ_neq: "i64 (x + 1) \<noteq> x"
proof
  assume "i64 (x + 1) = x"
  then have "(x + 1 + 9223372036854775808) mod 18446744073709551616 = x + 9223372036854775808"
    by (simp add: i64_def)
  then have "(x + 1 + 9223372036854775808) mod 18446744073709551616
      = (x + 9223372036854775808) mod 18446744073709551616"
    by (metis mod_mod_trivial)
  then have "(18446744073709551616 :: int) dvd (x + 1 + 9223372036854775808) - (x + 9223372036854775808)"
    by (simp only: mod_eq_dvd_iff)
  then show False by simp
qed

lemma farm_effect_applied:
  assumes "farm_inv s" "snd (commitFarmOnce c cmd env s) \<noteq> s"
  shows "farm_inv (snd (commitFarmOnce c cmd env s)) \<and> farm_applied cmd (snd (commitFarmOnce c cmd env s))"
proof -
  have ok: "farms_ok s" "inventory_ok s" using assms(1) by (simp_all add: farm_inv_def)
  from assms(2) ok(2) show ?thesis
  proof (rule farm_took_effect)
    fix snap snap1 :: snapshot and nxt :: "gotime option" and ar iv
    let ?new = "snap1\<lparr>snap_Version := i64 (snap_Version snap + 1)\<rparr>"
    let ?s' = "snd (commitFarmOnce c cmd env s)"
    assume h: "requiresCommandReceipt (cmd_Type cmd) \<Longrightarrow> find_receipt (receipts s) (cmd_ActorUser cmd) (cmd_CmdID cmd) = None"
      "read_snapshot s (cmd_FarmID cmd) = Inr (snap, nxt)"
      "cmd_Type cmd \<noteq> CmdPetAutoHarvest \<Longrightarrow> cmd_BaseVersion cmd = snap_Version snap"
      "applyCmd snap cmd (clk_now env) = Inr (ar, snap1)"
      "inv_change (side_delta c cmd ar (snap_OwnerID snap)) (inventory s) iv"
      "?s' = s\<lparr>inventory := iv, farms := upsert_farm ?new (pet_farms cmd (clk_now env) s),
            receipts := receipts_after env cmd ?new (receipts s),
            outbox := outbox s @ [entry_of env cmd ?new ar s]\<rparr>"
    note ids = read_snapshot_ids [OF h(2) ok(1)] and frame = applyCmd_frame [OF h(4)]
    have farms: "farms_ok ?s'"
      by (rule farms_after_ok [OF ok(1), of ?new cmd _ "clk_now env"]) (simp_all add: h(6) ids frame)
    have inv: "inventory_ok ?s'"
      using h(5) ok(2) by (simp add: h(6) inventory_ok_def inv_change_def)
    have "fr_version r = i64 (snap_Version snap + 1)"
      if "map_of (farms ?s') (cmd_FarmID cmd) = Some r" for r
      using that by (auto simp: h(6) map_of_farms_after [OF ok(1)] ids frame stored_row_def new_farm_row_def
          split: option.splits)
    moreover have "map_of (farms ?s') (cmd_FarmID cmd) \<noteq> None"
      by (simp add: h(6) map_of_farms_after [OF ok(1)] ids frame)
    ultimately have ver: "farm_version ?s' (cmd_FarmID cmd) = i64 (snap_Version snap + 1)"
      by (auto simp: farm_version_def)
    have "farm_applied cmd ?s'"
    proof (cases "requiresCommandReceipt (cmd_Type cmd)")
      case True
      then show ?thesis using find_receipt_after [OF h(1) [OF True] True] by (simp add: farm_applied_def h(6))
    next
      case False
      then have "cmd_BaseVersion cmd = snap_Version snap"
        by (intro h(3)) (auto simp: requiresCommandReceipt_def)
      then show ?thesis using False ver i64_succ_neq [of "snap_Version snap"] by (simp add: farm_applied_def)
    qed
    with farms inv show ?thesis by (simp add: farm_inv_def)
  qed
qed

lemma farm_applied_no_effect:
  assumes "farm_inv s" "farm_applied cmd s"
  shows "snd (commitFarmOnce c cmd env s) = s"
proof (rule ccontr)
  assume eff: "snd (commitFarmOnce c cmd env s) \<noteq> s"
  have "inventory_ok s" using assms(1) by (simp add: farm_inv_def)
  with eff show False
  proof (rule farm_took_effect)
    fix snap :: snapshot and nxt :: "gotime option"
    assume h: "requiresCommandReceipt (cmd_Type cmd) \<Longrightarrow> find_receipt (receipts s) (cmd_ActorUser cmd) (cmd_CmdID cmd) = None"
      "read_snapshot s (cmd_FarmID cmd) = Inr (snap, nxt)"
      "cmd_Type cmd \<noteq> CmdPetAutoHarvest \<Longrightarrow> cmd_BaseVersion cmd = snap_Version snap"
    show False
    proof (cases "requiresCommandReceipt (cmd_Type cmd)")
      case True
      then show False using h(1) assms(2) by (simp add: farm_applied_def)
    next
      case False
      then have "cmd_BaseVersion cmd = snap_Version snap"
        by (intro h(3)) (auto simp: requiresCommandReceipt_def)
      then show False
        using False assms(2) read_snapshot_version [OF h(2)] by (simp add: farm_applied_def)
    qed
  qed
qed

lemma farm_success_applied:
  assumes "farm_inv s" "fst (commitFarmOnce c cmd env s) = Inr res"
  shows "farm_applied cmd (snd (commitFarmOnce c cmd env s))"
proof -
  obtain s' where s': "commitFarmOnce c cmd env s = (Inr res, s')"
    using assms(2) by (cases "commitFarmOnce c cmd env s") auto
  from farm_result_means_effect [OF this] show ?thesis
  proof
    assume "s' = s \<and> cr_Replayed res \<and> requiresCommandReceipt (cmd_Type cmd)
           \<and> find_receipt (receipts s) (cmd_ActorUser cmd) (cmd_CmdID cmd) \<noteq> None"
    then show ?thesis using s' by (simp add: farm_applied_def)
  next
    assume "farm_command_body env c cmd s = Inr (Committed res, s')"
    from farm_body_committed [OF this] obtain snap ar snap1
      where "write_farm_command env c cmd (snap1\<lparr>snap_Version := i64 (snap_Version snap1 + 1)\<rparr>) ar s
       = Inr (Committed res, s')" by metis
    moreover have "inventory_ok s" using assms(1) by (simp add: farm_inv_def)
    ultimately have "length (outbox s') = Suc (length (outbox s))"
      by (rule write_effect) simp
    then have "snd (commitFarmOnce c cmd env s) \<noteq> s" using s' by auto
    with farm_effect_applied [OF assms(1)] show ?thesis by blast
  qed
qed

interpretation farm_once: durable_once farm_inv "commitFarmOnce c cmd" "farm_applied cmd" for c cmd
proof (standard, goal_cases)
  case (1 s e)
  then show ?case using farm_effect_applied [of s c cmd e] by metis
next
  case (2 s e)
  then show ?case by (rule farm_applied_no_effect)
next
  case (3 s e)
  then show ?case using farm_effect_applied [of s c cmd e] by blast
next
  case (4 s e r)
  then show ?case by (rule farm_success_applied)
qed

section \<open>Reading back what was written\<close>

definition command_ok :: "command \<Rightarrow> bool" where
  "command_ok cmd \<longleftrightarrow> -2147483648 \<le> cmd_PlotID cmd \<and> cmd_PlotID cmd \<le> 2147483647"

lemma keys_update: "fst ` set (AList.update k v xs) = insert k (fst ` set xs)"
  by (induction xs) auto

lemma unmarshal_written:
  assumes "snapshot_ok snap" "int32_keys (snap_Plots snap)"
  shows "unmarshalSnapshot (snap_FarmID snap) (snap_OwnerID snap) (snap_Version snap) (marshalSnapshot snap)
     = Inr (snap\<lparr>snap_RouteEpoch := 0\<rparr>)"
  by (rule unmarshal_marshal [OF assms])

lemma read_after_write:
  assumes "farms_ok s" "snapshot_ok snap" "int32_keys (snap_Plots snap)"
    "snap_FarmID snap = cmd_FarmID cmd" "snap_OwnerID snap = cmd_FarmID cmd"
    "farms s' = upsert_farm snap (pet_farms cmd now s)"
  shows "\<exists>nxt. read_snapshot s' (cmd_FarmID cmd) = Inr (snap, nxt)"
    and "k \<noteq> cmd_FarmID cmd \<Longrightarrow> read_snapshot s' k = read_snapshot s k"
proof -
  note after = map_of_farms_after [OF assms(1,4,5)]
  obtain r where r: "map_of (farms s') (cmd_FarmID cmd) = Some r" "fr_owner r = cmd_FarmID cmd"
    "fr_version r = snap_Version snap" "fr_snapshot r = marshalSnapshot snap"
    "fr_route_epoch r = snap_RouteEpoch snap"
  proof (cases "map_of (pet_farms cmd now s) (cmd_FarmID cmd)")
    case None
    then show ?thesis using that [of "new_farm_row snap"] by (simp add: after assms new_farm_row_def)
  next
    case (Some r0)
    then have "fr_owner r0 = cmd_FarmID cmd"
      using pet_farms_ok(2) [OF assms(1)] map_of_SomeD by fastforce
    then show ?thesis using that [of "stored_row snap r0"] Some by (simp add: after assms stored_row_def)
  qed
  have "snap\<lparr>snap_RouteEpoch := 0, snap_RouteEpoch := snap_RouteEpoch snap\<rparr> = snap" by (cases snap) simp
  with r unmarshal_written [OF assms(2,3)] assms(4,5)
  show "\<exists>nxt. read_snapshot s' (cmd_FarmID cmd) = Inr (snap, nxt)"
    by (simp add: read_snapshot_def)
  show "k \<noteq> cmd_FarmID cmd \<Longrightarrow> read_snapshot s' k = read_snapshot s k"
    by (simp add: read_snapshot_def assms(6) after)
qed

lemma new_snapshot_ok:
  assumes "applyCmd snap cmd now = Inr (ar, snap1)" "snapshot_ok snap" "int32_keys (snap_Plots snap)"
    "0 < now" "command_ok cmd"
  shows "snapshot_ok (snap1\<lparr>snap_Version := v\<rparr>)" "int32_keys (snap_Plots (snap1\<lparr>snap_Version := v\<rparr>))"
proof -
  show "snapshot_ok (snap1\<lparr>snap_Version := v\<rparr>)"
    using applyCmd_snapshot_ok [OF assms(1,2,4)] by (simp add: snapshot_ok_def)
  have "int32_keys (AList.update (cmd_PlotID cmd) (ar_changedPlot ar) (snap_Plots snap))"
    using assms(3,5) by (auto simp: int32_keys_def keys_update command_ok_def)
  then show "int32_keys (snap_Plots (snap1\<lparr>snap_Version := v\<rparr>))"
    using applyCmd_only_target [OF assms(1)] by (simp add: with_plot_def)
qed

section \<open>Properties\<close>

text \<open>C1: a farm transaction that changes the database does to the stored farm exactly what
  \<^verbatim>\<open>applyCmd\<close> does to the snapshot in memory, at the next version, and touches no other farm.  This
  holds for every outcome of the driver, a lost acknowledgement of the commit included.\<close>

theorem farm_commit_refines_apply:
  assumes "snd (commitFarmOnce c cmd env s) \<noteq> s"
    and "wf_db s" "snapshots_ok s" "command_ok cmd" "0 < clk_now env"
  shows "\<exists>snap nxt ar snap' nxt'.
     read_snapshot s (cmd_FarmID cmd) = Inr (snap, nxt)
     \<and> applyCmd snap cmd (clk_now env) = Inr (ar, snap')
     \<and> read_snapshot (snd (commitFarmOnce c cmd env s)) (cmd_FarmID cmd)
         = Inr (snap'\<lparr>snap_Version := i64 (snap_Version snap + 1)\<rparr>, nxt')
     \<and> (\<forall>k. k \<noteq> cmd_FarmID cmd \<longrightarrow>
          read_snapshot (snd (commitFarmOnce c cmd env s)) k = read_snapshot s k)"
proof -
  have ok: "farms_ok s" "inventory_ok s" using assms(2) by (simp_all add: wf_db_def)
  from assms(1) ok(2) show ?thesis
  proof (rule farm_took_effect)
    fix snap snap1 :: snapshot and nxt :: "gotime option" and ar iv
    let ?new = "snap1\<lparr>snap_Version := i64 (snap_Version snap + 1)\<rparr>"
    assume h: "read_snapshot s (cmd_FarmID cmd) = Inr (snap, nxt)"
      "applyCmd snap cmd (clk_now env) = Inr (ar, snap1)"
      "snd (commitFarmOnce c cmd env s) = s\<lparr>inventory := iv,
            farms := upsert_farm ?new (pet_farms cmd (clk_now env) s),
            receipts := receipts_after env cmd ?new (receipts s),
            outbox := outbox s @ [entry_of env cmd ?new ar s]\<rparr>"
    note r = read_snapshot_ok [OF assms(3) ok(1) h(1)]
    note n = new_snapshot_ok [OF h(2) r(1,2) assms(5,4)]
    have ids: "snap_FarmID ?new = cmd_FarmID cmd" "snap_OwnerID ?new = cmd_FarmID cmd"
      using r(3,4) applyCmd_frame [OF h(2)] by simp_all
    have fs: "farms (snd (commitFarmOnce c cmd env s)) = upsert_farm ?new (pet_farms cmd (clk_now env) s)"
      by (simp add: h(3))
    show ?thesis
      using read_after_write [OF ok(1) n ids fs] h(1,2) by blast
  qed
qed

lemma find_receipt_kept:
  "find_receipt rs u c \<noteq> None \<Longrightarrow> find_receipt (receipts_after env cmd snap rs) u c \<noteq> None"
  by (auto simp: find_receipt_def find_None_iff receipts_after_def)

lemma other_commit_keeps_receipt:
  assumes "farm_inv s" "find_receipt (receipts s) u k \<noteq> None"
  shows "find_receipt (receipts (snd (commitFarmOnce c cmd env s))) u k \<noteq> None"
proof (cases "snd (commitFarmOnce c cmd env s) = s")
  case False
  have "inventory_ok s" using assms(1) by (simp add: farm_inv_def)
  with False show ?thesis
    by (rule farm_took_effect) (use find_receipt_kept [OF assms(2)] in simp)
qed (use assms in simp)

definition farm_history :: "committer \<Rightarrow> (env + (command \<times> env)) list \<Rightarrow> (env + (db \<Rightarrow> db)) list" where
  "farm_history c h =
     map (\<lambda>x. case x of Inl e \<Rightarrow> Inl e | Inr (cmd', e) \<Rightarrow> Inr (\<lambda>s. snd (commitFarmOnce c cmd' e s))) h"

lemma farm_history_keeps:
  assumes "requiresCommandReceipt (cmd_Type cmd)"
  shows "others_keep farm_inv (farm_applied cmd) (farm_history c h)"
proof -
  have "farm_inv (snd (commitFarmOnce c cmd' e s))" if "farm_inv s" for cmd' e s
    using farm_once.inv_kept that by blast
  moreover have "farm_applied cmd (snd (commitFarmOnce c cmd' e s))"
    if "farm_inv s" "farm_applied cmd s" for cmd' e s
    using that assms other_commit_keeps_receipt [OF that(1)] by (simp add: farm_applied_def)
  ultimately show ?thesis
    by (auto simp: others_keep_def farm_history_def split: sum.splits prod.splits)
qed

text \<open>A command that carries a receipt takes effect at most once, whatever other farm commands are
  committed in between; EconomyProps lifts this to the retried entry point and all commands.\<close>

lemma farm_commit_at_most_once:
  assumes "farm_inv s" "requiresCommandReceipt (cmd_Type cmd)"
  shows "effective (commitFarmOnce c cmd) (farm_history c h) s \<le> 1"
  using assms(1) farm_history_keeps [OF assms(2)] by (rule farm_once.at_most_once)

text \<open>C8: a command of a stale owner (route epoch) or based on a stale version changes nothing, and it
  is an error unless its receipt is replayed.\<close>

theorem farm_commit_stale_rejected:
  assumes "read_snapshot s (cmd_FarmID cmd) = Inr (snap, nxt)"
    and "cmd_RouteEpoch cmd \<noteq> snap_RouteEpoch snap
         \<or> cmd_Type cmd \<noteq> CmdPetAutoHarvest \<and> cmd_BaseVersion cmd \<noteq> snap_Version snap"
  shows "snd (commitFarmOnce c cmd env s) = s
    \<and> (\<not> farm_applied cmd s \<or> \<not> requiresCommandReceipt (cmd_Type cmd) \<longrightarrow> is_err (fst (commitFarmOnce c cmd env s)))"
proof -
  have not: "farm_command_body env c cmd s \<noteq> Inr (Committed res, s')" for res s'
  proof
    assume "farm_command_body env c cmd s = Inr (Committed res, s')"
    then show False by (rule farm_body_committed) (use assms in auto)
  qed
  have "snd (commitFarmOnce c cmd env s) = s"
    unfolding commitFarmOnce_def by (rule run_tx_cases [of env "farm_command_body env c cmd" s]) (use not in auto)
  moreover have "is_err (fst (commitFarmOnce c cmd env s))"
    if "\<not> farm_applied cmd s \<or> \<not> requiresCommandReceipt (cmd_Type cmd)"
  proof (rule ccontr)
    assume "\<not> is_err (fst (commitFarmOnce c cmd env s))"
    then obtain res s' where "commitFarmOnce c cmd env s = (Inr res, s')"
      by (cases "commitFarmOnce c cmd env s") (auto simp: not_is_err)
    from farm_result_means_effect [OF this] not that show False
      by (auto simp: farm_applied_def)
  qed
  ultimately show ?thesis by blast
qed

text \<open>C6: when a farm transaction takes effect, the inventories change by exactly what the command
  earns or costs, exactly one pending outbox event is appended, a receipt is appended for the
  asset commands, and no other table changes.\<close>

theorem farm_commit_other_tables:
  assumes "snd (commitFarmOnce c cmd env s) \<noteq> s" "farm_inv s"
  shows "\<exists>snap nxt ar snap' row.
     read_snapshot s (cmd_FarmID cmd) = Inr (snap, nxt)
     \<and> applyCmd snap cmd (clk_now env) = Inr (ar, snap')
     \<and> (\<forall>k. quantity (snd (commitFarmOnce c cmd env s)) k
            = quantity s k + side_delta c cmd ar (cmd_FarmID cmd) k)
     \<and> outbox (snd (commitFarmOnce c cmd env s)) = outbox s @ [row]
     \<and> ob_event_id row = fresh_id env \<and> ob_status row = OPending
     \<and> ob_event_type row = ar_eventType ar \<and> ob_aggregate_id row = cmd_FarmID cmd
     \<and> length (receipts (snd (commitFarmOnce c cmd env s)))
         = length (receipts s) + (if requiresCommandReceipt (cmd_Type cmd) then 1 else 0)
     \<and> snd (commitFarmOnce c cmd env s) = s
         \<lparr>farms := farms (snd (commitFarmOnce c cmd env s)),
          inventory := inventory (snd (commitFarmOnce c cmd env s)),
          receipts := receipts (snd (commitFarmOnce c cmd env s)),
          outbox := outbox (snd (commitFarmOnce c cmd env s))\<rparr>"
proof -
  have ok: "farms_ok s" "inventory_ok s" using assms(2) by (simp_all add: farm_inv_def)
  from assms(1) ok(2) show ?thesis
  proof (rule farm_took_effect)
    fix snap snap1 :: snapshot and nxt :: "gotime option" and ar iv
    let ?new = "snap1\<lparr>snap_Version := i64 (snap_Version snap + 1)\<rparr>"
    assume h: "read_snapshot s (cmd_FarmID cmd) = Inr (snap, nxt)"
      "applyCmd snap cmd (clk_now env) = Inr (ar, snap1)"
      "inv_change (side_delta c cmd ar (snap_OwnerID snap)) (inventory s) iv"
      and s': "snd (commitFarmOnce c cmd env s) = s\<lparr>inventory := iv,
            farms := upsert_farm ?new (pet_farms cmd (clk_now env) s),
            receipts := receipts_after env cmd ?new (receipts s),
            outbox := outbox s @ [entry_of env cmd ?new ar s]\<rparr>"
    note ids = read_snapshot_ids [OF h(1) ok(1)]
    have e: "ob_event_id (entry_of env cmd ?new ar s) = fresh_id env"
      "ob_status (entry_of env cmd ?new ar s) = OPending"
      "ob_event_type (entry_of env cmd ?new ar s) = ar_eventType ar"
      "ob_aggregate_id (entry_of env cmd ?new ar s) = cmd_FarmID cmd"
      using ids applyCmd_frame [OF h(2)] by (simp_all add: entry_of_def outbox_entry_def pending_row_def)
    have q: "quantity (snd (commitFarmOnce c cmd env s)) k
            = quantity s k + side_delta c cmd ar (cmd_FarmID cmd) k" for k
      using inv_change_qty [OF h(3), of k] ids by (simp add: quantity_def s')
    show ?thesis
      using h(1,2) e q by (intro exI conjI) (assumption | simp add: s' receipts_after_def)+
  qed
qed

text \<open>C7: a farm transaction keeps the constraints of the tables and the well-formedness of every
  stored plot (growth period, at most two waterings, remaining yield between 1 and the crop's
  yield).\<close>

theorem farm_commit_keeps_invariants:
  assumes "wf_db s" "snapshots_ok s" "command_ok cmd" "0 < clk_now env"
  shows "wf_db (snd (commitFarmOnce c cmd env s)) \<and> snapshots_ok (snd (commitFarmOnce c cmd env s))"
proof (cases "snd (commitFarmOnce c cmd env s) = s")
  case False
  have ok: "farms_ok s" "inventory_ok s" "coins_ok s" "receipts_ok s" "outbox_ok s"
    using assms(1) by (simp_all add: wf_db_def)
  from False ok(2) show ?thesis
  proof (rule farm_took_effect)
    fix snap snap1 :: snapshot and nxt :: "gotime option" and ar iv
    let ?new = "snap1\<lparr>snap_Version := i64 (snap_Version snap + 1)\<rparr>"
    let ?s' = "snd (commitFarmOnce c cmd env s)"
    assume h: "requiresCommandReceipt (cmd_Type cmd) \<Longrightarrow> find_receipt (receipts s) (cmd_ActorUser cmd) (cmd_CmdID cmd) = None"
      "read_snapshot s (cmd_FarmID cmd) = Inr (snap, nxt)"
      "applyCmd snap cmd (clk_now env) = Inr (ar, snap1)"
      "inv_change (side_delta c cmd ar (snap_OwnerID snap)) (inventory s) iv"
      and s': "?s' = s\<lparr>inventory := iv,
            farms := upsert_farm ?new (pet_farms cmd (clk_now env) s),
            receipts := receipts_after env cmd ?new (receipts s),
            outbox := outbox s @ [entry_of env cmd ?new ar s]\<rparr>"
      and fresh: "fresh_id env \<notin> ob_event_id ` set (outbox s)"
    note r = read_snapshot_ok [OF assms(2) ok(1) h(2)]
    note n = new_snapshot_ok [OF h(3) r(1,2) assms(4,3)]
    have ids: "snap_FarmID ?new = cmd_FarmID cmd" "snap_OwnerID ?new = cmd_FarmID cmd"
      using r(3,4) applyCmd_frame [OF h(3)] by simp_all
    have farms: "farms_ok ?s'" by (rule farms_after_ok [OF ok(1) ids]) (simp add: s')
    have inv: "inventory_ok ?s'" using h(4) ok(2) by (simp add: s' inventory_ok_def inv_change_def)
    have rec: "receipts_ok ?s'"
      using ok(4) h(1) by (force simp: s' receipts_ok_def receipts_after_def receipt_of_def find_receipt_def find_None_iff)
    have ob: "outbox_ok ?s'"
      using ok(5) fresh next_outbox_id_fresh [of _ s]
      by (force simp: s' outbox_ok_def entry_of_def outbox_entry_def pending_row_def)
    have stored: "stored_ok (fr_snapshot q)" if q: "map_of (farms ?s') k = Some q" for k q
    proof (cases "k = cmd_FarmID cmd")
      case True
      then have "fr_snapshot q = marshalSnapshot ?new"
        using q by (auto simp: s' map_of_farms_after [OF ok(1) ids] stored_row_def new_farm_row_def split: option.splits)
      then show ?thesis using marshal_stored_ok(2) [OF n] by simp
    next
      case False
      then have "map_of (farms s) k = Some q"
        using q by (simp add: s' map_of_farms_after [OF ok(1) ids])
      then show ?thesis using assms(2) map_of_SomeD by (fastforce simp: snapshots_ok_def)
    qed
    have "snapshots_ok ?s'"
      using stored farms by (auto simp: snapshots_ok_def farms_ok_def map_of_mem_iff [symmetric])
    moreover have "coins_ok ?s'" using ok(3) by (simp add: s' coins_ok_def)
    ultimately show ?thesis using farms inv rec ob by (simp add: wf_db_def)
  qed
qed (use assms in simp)

text \<open>C9: a steal that takes effect is by a friend other than the owner, on a mature plot; it takes a
  fifth of the crop's yield, at least one unit, leaves at least one unit on the otherwise unchanged
  plot, and credits exactly what it took (at once, or through the event when the credit is
  deferred to the thief's shard).\<close>

theorem steal_is_bounded:
  assumes "snd (commitFarmOnce c cmd env s) \<noteq> s" "cmd_Type cmd = CmdStealCrop"
    and "wf_db s" "snapshots_ok s"
  shows "\<exists>snap nxt p ar snap'.
     read_snapshot s (cmd_FarmID cmd) = Inr (snap, nxt)
     \<and> cmd_ActorUser cmd \<noteq> cmd_FarmID cmd \<and> are_friends c s (cmd_ActorUser cmd) (cmd_FarmID cmd)
     \<and> map_of (snap_Plots snap) (cmd_PlotID cmd) = Some p \<and> EffectiveStatus p (clk_now env) = PlotMature
     \<and> applyCmd snap cmd (clk_now env) = Inr (ar, snap')
     \<and> ar_stolenAmount ar = harvestYieldForCrop (CropID p) div 5 \<and> 1 \<le> ar_stolenAmount ar
     \<and> ar_changedPlot ar = p\<lparr>RemainingYield := RemainingYield p - ar_stolenAmount ar\<rparr>
     \<and> 1 \<le> RemainingYield (ar_changedPlot ar)
     \<and> (\<forall>k. quantity (snd (commitFarmOnce c cmd env s)) k = quantity s k
          + (if \<not> deferred_steal c cmd (cmd_FarmID cmd) \<and> k = crop_key (cmd_ActorUser cmd) (CropID p)
             then ar_stolenAmount ar else 0))"
proof -
  have ok: "farms_ok s" "inventory_ok s" using assms(3) by (simp_all add: wf_db_def)
  from assms(1) ok(2) show ?thesis
  proof (rule farm_took_effect)
    fix snap snap1 :: snapshot and nxt :: "gotime option" and ar iv
    assume h: "read_snapshot s (cmd_FarmID cmd) = Inr (snap, nxt)"
      "cmd_Type cmd \<in> {CmdHelpWater, CmdStealCrop} \<Longrightarrow> cmd_ActorUser cmd \<noteq> snap_OwnerID snap
       \<and> are_friends c s (cmd_ActorUser cmd) (snap_OwnerID snap)"
      "applyCmd snap cmd (clk_now env) = Inr (ar, snap1)"
      "inv_change (side_delta c cmd ar (snap_OwnerID snap)) (inventory s) iv"
      and s': "snd (commitFarmOnce c cmd env s) = s\<lparr>inventory := iv,
            farms := upsert_farm (snap1\<lparr>snap_Version := i64 (snap_Version snap + 1)\<rparr>) (pet_farms cmd (clk_now env) s),
            receipts := receipts_after env cmd (snap1\<lparr>snap_Version := i64 (snap_Version snap + 1)\<rparr>) (receipts s),
            outbox := outbox s @ [entry_of env cmd (snap1\<lparr>snap_Version := i64 (snap_Version snap + 1)\<rparr>) ar s]\<rparr>"
    note r = read_snapshot_ok [OF assms(4) ok(1) h(1)]
    let ?p = "target_plot snap cmd"
    have st: "apply_steal snap cmd ?p (clk_now env) = Inr (ar, snap1)"
      using h(3) assms(2) by (simp add: applyCmd_target)
    then have eff: "EffectiveStatus ?p (clk_now env) = PlotMature"
      by (auto simp: apply_steal_def split: if_splits)
    note p = target_plot_ok [OF r(1) effective_unset [OF eff]]
    note a = apply_steal_result [OF st p(1)]
    have q: "quantity (snd (commitFarmOnce c cmd env s)) k = quantity s k
          + (if \<not> deferred_steal c cmd (cmd_FarmID cmd) \<and> k = crop_key (cmd_ActorUser cmd) (CropID ?p)
             then ar_stolenAmount ar else 0)" for k
      using inv_change_qty [OF h(4), of k] r(4) assms(2) a(6)
      by (simp add: quantity_def s' side_delta_def)
    show ?thesis
      using h(1,3) h(2) assms(2) r(4) p(2) eff a q by (intro exI conjI) (assumption | simp)+
  qed
qed

text \<open>C10: an automatic pet harvest that takes effect is for an owner whose pet is active and switched
  on, at a schedule that is due and is the stored one, on the smallest mature plot; it moves the
  schedule to 30 seconds from now and releases the scan lease.\<close>

theorem pet_harvest_guarded:
  assumes "snd (commitFarmOnce c cmd env s) \<noteq> s" "cmd_Type cmd = CmdPetAutoHarvest"
    and "wf_db s" "snapshots_ok s"
  shows "\<exists>snap t r'.
     read_snapshot s (cmd_FarmID cmd) = Inr (snap, Some t) \<and> t \<le> clk_now env
     \<and> t = datetime6 (cmd_PetScheduledAt cmd)
     \<and> cmd_ActorUser cmd = cmd_FarmID cmd \<and> pet_enabled s (cmd_FarmID cmd)
     \<and> smallestMaturePlotID (snap_Plots snap) (clk_now env) = Some (cmd_PlotID cmd)
     \<and> map_of (farms (snd (commitFarmOnce c cmd env s))) (cmd_FarmID cmd) = Some r'
     \<and> fr_next_pet r' = Some (datetime3 (clk_now env + 30 * second))
     \<and> fr_lease_owner r' = None \<and> fr_lease_until r' = None"
proof -
  have ok: "farms_ok s" "inventory_ok s" using assms(3) by (simp_all add: wf_db_def)
  from assms(1) ok(2) show ?thesis
  proof (rule farm_took_effect)
    fix snap snap1 :: snapshot and nxt :: "gotime option" and ar iv
    let ?new = "snap1\<lparr>snap_Version := i64 (snap_Version snap + 1)\<rparr>"
    assume h: "read_snapshot s (cmd_FarmID cmd) = Inr (snap, nxt)"
      "cmd_Type cmd = CmdPetAutoHarvest \<Longrightarrow> cmd_ActorUser cmd = snap_OwnerID snap \<and> pet_enabled s (snap_OwnerID snap)
       \<and> (\<exists>t. nxt = Some t \<and> t = datetime6 (cmd_PetScheduledAt cmd) \<and> t \<le> clk_now env)"
      "applyCmd snap cmd (clk_now env) = Inr (ar, snap1)"
      and s': "snd (commitFarmOnce c cmd env s) = s\<lparr>inventory := iv,
            farms := upsert_farm ?new (pet_farms cmd (clk_now env) s),
            receipts := receipts_after env cmd ?new (receipts s),
            outbox := outbox s @ [entry_of env cmd ?new ar s]\<rparr>"
    note r = read_snapshot_ok [OF assms(4) ok(1) h(1)]
    obtain t where t: "nxt = Some t" "t = datetime6 (cmd_PetScheduledAt cmd)" "t \<le> clk_now env"
      using h(2) [OF assms(2)] by blast
    obtain r0 where r0: "map_of (farms s) (cmd_FarmID cmd) = Some r0"
      using h(1) t(1) by (auto simp: read_snapshot_def split: option.splits)
    have ids: "snap_FarmID ?new = cmd_FarmID cmd" "snap_OwnerID ?new = cmd_FarmID cmd"
      using r(3,4) applyCmd_frame [OF h(3)] by simp_all
    have "map_of (farms (snd (commitFarmOnce c cmd env s))) (cmd_FarmID cmd)
        = Some (stored_row ?new (rescheduled (clk_now env) r0))"
      using assms(2) r0 by (simp add: s' map_of_farms_after [OF ok(1) ids] pet_farms_map)
    moreover have "smallestMaturePlotID (snap_Plots snap) (clk_now env) = Some (cmd_PlotID cmd)"
      using h(3) assms(2) by (auto simp: applyCmd_target apply_pet_harvest_def split: if_splits)
    ultimately show ?thesis
      using h(1) h(2) [OF assms(2)] t r(4)
      by (intro exI [of _ snap] exI [of _ t] exI conjI) (assumption | simp add: stored_row_def rescheduled_def)+
  qed
qed

section \<open>The route fence\<close>

definition farm_epoch :: "db \<Rightarrow> int \<Rightarrow> int" where
  "farm_epoch s f = (case map_of (farms s) f of None \<Rightarrow> 0 | Some r \<Rightarrow> fr_route_epoch r)"

lemma read_snapshot_epoch:
  "read_snapshot s f = Inr (snap, nxt) \<Longrightarrow> snap_RouteEpoch snap = farm_epoch s f"
  by (auto simp: read_snapshot_def farm_epoch_def emptySnapshot_def split: option.splits sum.splits)

lemma commit_keeps_epoch:
  assumes "farm_inv s"
  shows "farm_epoch (snd (commitFarmOnce c cmd env s)) f = farm_epoch s f"
proof (cases "snd (commitFarmOnce c cmd env s) = s")
  case False
  have ok: "farms_ok s" "inventory_ok s" using assms by (simp_all add: farm_inv_def)
  from False ok(2) show ?thesis
  proof (rule farm_took_effect)
    fix snap snap1 :: snapshot and nxt :: "gotime option" and ar iv
    let ?new = "snap1\<lparr>snap_Version := i64 (snap_Version snap + 1)\<rparr>"
    assume h: "read_snapshot s (cmd_FarmID cmd) = Inr (snap, nxt)"
      "applyCmd snap cmd (clk_now env) = Inr (ar, snap1)"
      and s': "snd (commitFarmOnce c cmd env s) = s\<lparr>inventory := iv,
            farms := upsert_farm ?new (pet_farms cmd (clk_now env) s),
            receipts := receipts_after env cmd ?new (receipts s),
            outbox := outbox s @ [entry_of env cmd ?new ar s]\<rparr>"
    note r = read_snapshot_ids [OF h(1) ok(1)]
    have ids: "snap_FarmID ?new = cmd_FarmID cmd" "snap_OwnerID ?new = cmd_FarmID cmd"
      "snap_RouteEpoch ?new = farm_epoch s (cmd_FarmID cmd)"
      using r applyCmd_frame [OF h(2)] read_snapshot_epoch [OF h(1)] by simp_all
    show ?thesis
      using ids(3) by (auto simp: farm_epoch_def s' map_of_farms_after [OF ok(1) ids(1,2)] stored_row_def
          new_farm_row_def split: option.split)
  qed
qed simp

lemma advance_effect:
  assumes "snd (advanceRouteEpochOnce f e env s) \<noteq> s"
  obtains r where "map_of (farms s) f = Some r" "fr_route_epoch r < e"
    "snd (advanceRouteEpochOnce f e env s) = s\<lparr>farms := AList.update f (r\<lparr>fr_route_epoch := e\<rparr>) (farms s)\<rparr>"
  using assms
  by (cases rule: run_tx_cases [of env "advance_epoch_body env f e" s])
    (auto simp: advanceRouteEpochOnce_def advance_epoch_body_def tx_inv split: option.splits if_splits)

lemma advance_inv:
  assumes "farm_inv s"
  shows "farm_inv (snd (advanceRouteEpochOnce f e env s))"
    and "farm_epoch s g \<le> farm_epoch (snd (advanceRouteEpochOnce f e env s)) g"
proof -
  have "farm_inv (snd (advanceRouteEpochOnce f e env s))
      \<and> farm_epoch s g \<le> farm_epoch (snd (advanceRouteEpochOnce f e env s)) g"
  proof (cases "snd (advanceRouteEpochOnce f e env s) = s")
    case False
    then obtain r where r: "map_of (farms s) f = Some r" "fr_route_epoch r < e"
      "snd (advanceRouteEpochOnce f e env s) = s\<lparr>farms := AList.update f (r\<lparr>fr_route_epoch := e\<rparr>) (farms s)\<rparr>"
      by (rule advance_effect)
    have own: "fr_owner r = f" using assms r(1) map_of_SomeD by (fastforce simp: farm_inv_def farms_ok_def)
    have u: "unique_keys (AList.update f (r\<lparr>fr_route_epoch := e\<rparr>) (farms s))"
      using assms by (simp add: farm_inv_def farms_ok_def)
    have "fr_owner q = k" if "(k, q) \<in> set (AList.update f (r\<lparr>fr_route_epoch := e\<rparr>) (farms s))" for k q
      using that assms own map_of_SomeD [of "farms s" k q]
      by (auto simp: map_of_mem_iff [OF u, symmetric] farm_inv_def farms_ok_def split: if_splits)
    with u assms r show ?thesis
      by (auto simp: farm_inv_def farms_ok_def inventory_ok_def farm_epoch_def)
  qed (use assms in simp)
  then show "farm_inv (snd (advanceRouteEpochOnce f e env s))"
    "farm_epoch s g \<le> farm_epoch (snd (advanceRouteEpochOnce f e env s)) g" by simp_all
qed

lemma advance_success:
  assumes "advanceRouteEpochOnce f e env s = (Inr u, s')"
  shows "farm_epoch s' f = e"
  using run_tx_ok [of env "advance_epoch_body env f e" s u s'] assms
  by (auto simp: advanceRouteEpochOnce_def advance_epoch_body_def farm_epoch_def tx_inv
      split: option.splits if_splits)

text \<open>A command with an older epoch finds another epoch in the farm and leaves the database alone.\<close>

lemma stale_epoch_no_effect:
  assumes "cmd_RouteEpoch cmd < farm_epoch s (cmd_FarmID cmd)"
  shows "snd (commitFarmOnce c cmd env s) = s"
proof -
  have stale: "cmd_RouteEpoch cmd \<noteq> snap_RouteEpoch snap" if "read_snapshot s (cmd_FarmID cmd) = Inr (snap, nxt)" for snap nxt
    using assms read_snapshot_epoch [OF that] by simp
  show ?thesis
  proof (rule run_tx_cases [of env "farm_command_body env c cmd" s])
    assume "snd (run_tx env (farm_command_body env c cmd) s) = s"
    then show ?thesis by (simp add: commitFarmOnce_def)
  next
    fix a s'
    assume "farm_command_body env c cmd s = Inr (Committed a, s')"
    then show ?thesis by (rule farm_body_committed) (use stale in blast)
  qed
qed

text \<open>The version of a farm after a farm command that took effect.\<close>

lemma farm_effect_version:
  assumes "farm_inv s" "snd (commitFarmOnce c cmd env s) \<noteq> s"
  shows "farm_version (snd (commitFarmOnce c cmd env s)) f
      = (if f = cmd_FarmID cmd then i64 (farm_version s f + 1) else farm_version s f)
    \<and> (cmd_Type cmd \<noteq> CmdPetAutoHarvest \<longrightarrow> cmd_BaseVersion cmd = farm_version s (cmd_FarmID cmd))"
proof -
  have ok: "farms_ok s" "inventory_ok s" using assms(1) by (simp_all add: farm_inv_def)
  from assms(2) ok(2) show ?thesis
  proof (rule farm_took_effect)
    fix snap snap1 :: snapshot and nxt :: "gotime option" and ar iv
    let ?new = "snap1\<lparr>snap_Version := i64 (snap_Version snap + 1)\<rparr>"
    assume h: "read_snapshot s (cmd_FarmID cmd) = Inr (snap, nxt)"
      "cmd_Type cmd \<noteq> CmdPetAutoHarvest \<Longrightarrow> cmd_BaseVersion cmd = snap_Version snap"
      "applyCmd snap cmd (clk_now env) = Inr (ar, snap1)"
      "snd (commitFarmOnce c cmd env s) = s\<lparr>inventory := iv, farms := upsert_farm ?new (pet_farms cmd (clk_now env) s),
            receipts := receipts_after env cmd ?new (receipts s), outbox := outbox s @ [entry_of env cmd ?new ar s]\<rparr>"
    note ids = read_snapshot_ids [OF h(1) ok(1)] and frame = applyCmd_frame [OF h(3)]
    have "map_of (farms (snd (commitFarmOnce c cmd env s))) f = (if f = cmd_FarmID cmd
        then Some (case map_of (pet_farms cmd (clk_now env) s) f of Some r \<Rightarrow> stored_row ?new r | None \<Rightarrow> new_farm_row ?new)
        else map_of (farms s) f)"
      using map_of_farms_after [OF ok(1), of ?new cmd "clk_now env" f] ids frame by (simp add: h(4))
    then show ?thesis using read_snapshot_version [OF h(1)] h(2)
      by (auto simp: farm_version_def stored_row_def new_farm_row_def split: option.split)
  qed
qed

section \<open>Who may water\<close>

lemma checkFriendship_no_fault:
  "fault env = (\<lambda>_. None) \<Longrightarrow>
     checkFriendship env c a b s = (if are_friends c s a b then Inr ((), s) else Inl (New SocialNotFriend))"
  by (auto simp: checkFriendship_def are_friends_def Let_def split: option.splits)

lemma target_plot_type [simp]: "target_plot snap (cmd\<lparr>cmd_Type := t\<rparr>) = target_plot snap cmd"
  by (simp add: target_plot_def)

text \<open>HELP_WATER by a stranger is refused, but the same request sent as WATER commits and waters
  the plot: the friendship check is on the command type only.\<close>

theorem stranger_can_water:
  assumes "read_snapshot s (cmd_FarmID cmd) = Inr (snap, nxt)"
    and "cmd_RouteEpoch cmd = snap_RouteEpoch snap" "cmd_BaseVersion cmd = snap_Version snap"
    and "cmd_ActorUser cmd \<noteq> snap_OwnerID snap"
    and "\<not> are_friends c s (cmd_ActorUser cmd) (snap_OwnerID snap)"
    and "Status (target_plot snap cmd) = PlotGrowing"
    and "fault env = (\<lambda>_. None)" "commit_outcome env = CommitOK"
    and "fresh_id env \<notin> ob_event_id ` set (outbox s)"
  shows "commitFarmOnce c (cmd\<lparr>cmd_Type := CmdHelpWater\<rparr>) env s = (Inl (New SocialNotFriend), s)
     \<and> (\<exists>res s'. commitFarmOnce c (cmd\<lparr>cmd_Type := CmdWater\<rparr>) env s = (Inr res, s') \<and> s' \<noteq> s
          \<and> patch_Plots (cr_Patch res) = [waterByGrowthStage (target_plot snap cmd) (clk_now env)])"
proof -
  have denied: "farm_command_body env c (cmd\<lparr>cmd_Type := CmdHelpWater\<rparr>) s = Inl (New SocialNotFriend)"
    using assms(1-5,7)
    by (simp add: farm_command_body_def requiresCommandReceipt_def loadSnapshotForUpdate_def
        check_visitor_def checkFriendship_no_fault tx_defs)
  have eff: "EffectiveStatus (target_plot snap cmd) (clk_now env) \<noteq> PlotEmpty"
    "EffectiveStatus (target_plot snap cmd) (clk_now env) \<noteq> PlotUnset"
    using assms(6) by (auto simp: EffectiveStatus_def)
  have "\<exists>res s'. farm_command_body env c (cmd\<lparr>cmd_Type := CmdWater\<rparr>) s = Inr (Committed res, s')
      \<and> patch_Plots (cr_Patch res) = [waterByGrowthStage (target_plot snap cmd) (clk_now env)]
      \<and> length (outbox s') = Suc (length (outbox s))"
    using assms(1-3,7,9) eff
    by (simp add: farm_command_body_def requiresCommandReceipt_def loadSnapshotForUpdate_def
        applyCmd_target apply_water_def plain_result_def lift_sum_def write_farm_command_def
        applyEconomicSideEffects_def upsertSnapshot_def insertOutbox_def insert_outbox_row_def
        farm_result_def zero_result_def tx_defs Let_def pending_row_def)
  then obtain res s' where "farm_command_body env c (cmd\<lparr>cmd_Type := CmdWater\<rparr>) s = Inr (Committed res, s')"
    "patch_Plots (cr_Patch res) = [waterByGrowthStage (target_plot snap cmd) (clk_now env)]"
    "length (outbox s') = Suc (length (outbox s))" by blast
  with denied assms(7,8) show ?thesis
    by (auto simp: commitFarmOnce_def run_tx_def)
qed

end
