(* ===== verification/FarmApplyProps.thy ===== *)
theory FarmApplyProps
  imports FarmApply
begin

text \<open>
  Properties of \<^verbatim>\<open>applyCmd\<close> over whole runs of commands on one farm: the invariant of the plots, the
  earliest harvest, and the conservation of the yield.
\<close>

section \<open>Runs\<close>

text \<open>A run applies the commands in order, each at its time; a rejected command leaves the snapshot.\<close>

fun run_cmds :: "snapshot \<Rightarrow> (command \<times> gotime) list \<Rightarrow> snapshot" where
  "run_cmds snap [] = snap"
| "run_cmds snap ((cmd, now) # h) =
     (case applyCmd snap cmd now of Inl _ \<Rightarrow> run_cmds snap h | Inr (_, snap') \<Rightarrow> run_cmds snap' h)"

text \<open>What a successful command hands out, and what it plants.\<close>

definition handed_out :: "apply_result \<Rightarrow> int" where
  "handed_out ar = ar_harvestedYield ar + ar_stolenAmount ar"

definition newly_planted :: "command \<Rightarrow> apply_result \<Rightarrow> int" where
  "newly_planted cmd ar = (if cmd_Type cmd = CmdPlant then RemainingYield (ar_changedPlot ar) else 0)"

fun run_sum :: "(command \<Rightarrow> apply_result \<Rightarrow> int) \<Rightarrow> snapshot \<Rightarrow> (command \<times> gotime) list \<Rightarrow> int" where
  "run_sum f snap [] = 0"
| "run_sum f snap ((cmd, now) # h) =
     (case applyCmd snap cmd now of
        Inl _ \<Rightarrow> run_sum f snap h
      | Inr (ar, snap') \<Rightarrow> f cmd ar + run_sum f snap' h)"

definition standing :: "snapshot \<Rightarrow> int" where
  "standing snap = sum_list (map (\<lambda>(k, p). RemainingYield p) (snap_Plots snap))"

lemma sum_list_update:
  fixes f :: "'b \<Rightarrow> int"
  assumes "unique_keys xs"
  shows "sum_list (map (\<lambda>(k, v). f v) (AList.update k v xs))
     = sum_list (map (\<lambda>(k, v). f v) xs) - (case map_of xs k of Some w \<Rightarrow> f w | None \<Rightarrow> 0) + f v"
  using assms
proof (induction xs)
  case (Cons x xs)
  then show ?case by (cases x) (auto simp: unique_keys_def split: option.splits dest: map_of_SomeD)
qed simp

lemma standing_with_plot:
  assumes "snapshot_ok snap"
  shows "standing (with_plot snap k p) = standing snap - RemainingYield (plot_at (snap_Plots snap) k) + RemainingYield p"
  using assms sum_list_update [of "snap_Plots snap" RemainingYield k p]
  by (auto simp: standing_def with_plot_def snapshot_ok_def plots_ok_def plot_at_def zero_plot_def
      split: option.splits)

lemma target_yield [simp]:
  "RemainingYield (target_plot snap cmd) = RemainingYield (plot_at (snap_Plots snap) (cmd_PlotID cmd))"
  by (simp add: target_plot_def)

lemma plot_ok_empty:
  assumes "plot_ok p" "Status p = PlotEmpty"
  shows "RemainingYield p = 0"
proof -
  have "p = cleared_plot (PlotID p)" using assms unfolding plot_ok_def by auto
  then have "RemainingYield p = RemainingYield (cleared_plot (PlotID p))" by (rule arg_cong)
  then show ?thesis by simp
qed

lemma target_no_yield:
  assumes "snapshot_ok snap" "Status (target_plot snap cmd) = PlotUnset \<or> Status (target_plot snap cmd) = PlotEmpty"
  shows "RemainingYield (target_plot snap cmd) = 0"
proof (cases "Status (target_plot snap cmd) = PlotUnset")
  case True
  have "\<not> plot_ok p" if "Status p = PlotUnset" for p using that by (auto simp: plot_ok_def)
  with True have "map_of (snap_Plots snap) (cmd_PlotID cmd) = None"
    using plots_ok_lookup(1) [of "snap_Plots snap" "cmd_PlotID cmd"] assms(1)
    by (cases "map_of (snap_Plots snap) (cmd_PlotID cmd)")
      (auto simp: target_plot_def plot_at_def snapshot_ok_def)
  then show ?thesis by (simp add: target_plot_def plot_at_def zero_plot_def)
next
  case False
  then have "plot_ok (target_plot snap cmd)" using target_plot_ok(1) [OF assms(1)] by blast
  then show ?thesis using False assms(2) by (intro plot_ok_empty) auto
qed

lemma apply_step_conserves:
  assumes "applyCmd snap cmd now = Inr (ar, snap')" "snapshot_ok snap"
  shows "standing snap' + handed_out ar = standing snap + newly_planted cmd ar"
proof -
  let ?p = "target_plot snap cmd"
  have st: "standing snap' = standing snap - RemainingYield ?p + RemainingYield (ar_changedPlot ar)"
    using applyCmd_only_target [OF assms(1)] standing_with_plot [OF assms(2)] by simp
  have water: "RemainingYield (waterByGrowthStage p now) = RemainingYield p" for p
    by (simp add: waterByGrowthStage_def Let_def split: growth_stage.split)
  show ?thesis
  proof (cases "cmd_Type cmd")
    case CmdStealCrop
    then have a: "apply_steal snap cmd ?p now = Inr (ar, snap')"
      using assms(1) by (simp add: applyCmd_target)
    then have "EffectiveStatus ?p now = PlotMature" by (auto simp: apply_steal_def split: if_splits)
    then have "plot_ok ?p" using target_plot_ok(1) [OF assms(2)] effective_unset by blast
    from apply_steal_result [OF a this] have
      "ar_stolenAmount ar = RemainingYield ?p - RemainingYield (ar_changedPlot ar)" by simp
    moreover have "ar_harvestedYield ar = 0"
      using a by (auto simp: apply_steal_def plain_result_def Let_def split: if_splits)
    ultimately show ?thesis using st CmdStealCrop by (simp add: handed_out_def newly_planted_def)
  next
    case CmdPlant
    then have "RemainingYield ?p = 0"
      using assms target_no_yield by (auto simp: applyCmd_target apply_plant_def split: if_splits)
    moreover have "handed_out ar = 0"
      using assms(1) CmdPlant by (auto simp: applyCmd_target apply_plant_def plain_result_def handed_out_def Let_def split: if_splits)
    ultimately show ?thesis using st CmdPlant by (simp add: newly_planted_def)
  qed (use assms(1) st water in \<open>auto simp: applyCmd_target apply_harvest_def apply_pet_harvest_def
        apply_water_def harvested_def plain_result_def handed_out_def newly_planted_def Let_def split: if_splits\<close>)
qed

section \<open>Properties\<close>

text \<open>C11: over any run of commands, every plot keeps its invariant: a growing plot matures exactly one
  minute earlier than planted for each of at most two waterings, and holds between 1 and its crop's
  yield.\<close>

theorem run_keeps_plots_ok:
  assumes "snapshot_ok snap" "\<forall>(cmd, now) \<in> set h. 0 < now"
  shows "snapshot_ok (run_cmds snap h)"
  using assms
proof (induction snap h rule: run_cmds.induct)
  case (2 snap cmd now h)
  show ?case
  proof (cases "applyCmd snap cmd now")
    case (Inr x)
    then obtain ar snap' where a: "applyCmd snap cmd now = Inr (ar, snap')" by (cases x) auto
    have "snapshot_ok snap'" using applyCmd_snapshot_ok [OF a] 2(3,4) by auto
    then show ?thesis using 2(2) [of "(ar, snap')"] 2(4) a by simp
  qed (use 2 in simp)
qed simp

text \<open>C5: yield is conserved over any run: what stands on the plots plus what was harvested or stolen
  is what stood there before plus what was planted.\<close>

theorem yield_conservation:
  assumes "snapshot_ok snap" "\<forall>(cmd, now) \<in> set h. 0 < now"
  shows "standing (run_cmds snap h) + run_sum (\<lambda>_. handed_out) snap h
       = standing snap + run_sum newly_planted snap h"
  using assms
proof (induction snap h rule: run_cmds.induct)
  case (2 snap cmd now h)
  show ?case
  proof (cases "applyCmd snap cmd now")
    case (Inr x)
    then obtain ar snap' where a: "applyCmd snap cmd now = Inr (ar, snap')" by (cases x) auto
    have "snapshot_ok snap'" using applyCmd_snapshot_ok [OF a] 2(3,4) by auto
    then show ?thesis using 2(2) [of "(ar, snap')"] 2(4) a apply_step_conserves [OF a 2(3)] by simp
  qed (use 2 in simp)
qed simp

text \<open>No harvest succeeds before the growth period less two minutes is over, and it hands out
  between 1 and the full yield of the crop.\<close>

theorem harvest_not_before:
  assumes "applyCmd snap cmd now = Inr (ar, snap')" "snapshot_ok snap"
    and "cmd_Type cmd = CmdHarvest \<or> cmd_Type cmd = CmdPetAutoHarvest"
  shows "\<exists>p. map_of (snap_Plots snap) (cmd_PlotID cmd) = Some p
     \<and> PlantedAt p + growth_of (CropID p) - 2 * minute \<le> now
     \<and> ar_harvestedCropID ar = CropID p
     \<and> 1 \<le> ar_harvestedYield ar \<and> ar_harvestedYield ar \<le> harvestYieldForCrop (CropID p)
     \<and> map_of (snap_Plots snap') (cmd_PlotID cmd) = Some (cleared_plot (cmd_PlotID cmd))"
proof -
  let ?p = "target_plot snap cmd"
  have eff: "EffectiveStatus ?p now = PlotMature"
    and res: "ar_harvestedCropID ar = CropID ?p" "ar_harvestedYield ar = RemainingYield ?p"
      "ar_changedPlot ar = cleared_plot (cmd_PlotID cmd)"
    using assms(1,3)
    by (auto simp: applyCmd_target apply_harvest_def apply_pet_harvest_def harvested_def
        plain_result_def Let_def split: if_splits)
  have ok: "plot_ok ?p" "map_of (snap_Plots snap) (cmd_PlotID cmd) = Some ?p"
    using target_plot_ok [OF assms(2) effective_unset [OF eff]] by blast+
  note g = plot_ok_growing [OF ok(1) effective_mature_growing(1) [OF ok(1) eff]]
  have "PlantedAt ?p + growth_of (CropID ?p) - 2 * minute \<le> now"
    using g(4,8) effective_mature_growing(2) [OF ok(1) eff] by linarith
  then show ?thesis
    using ok(2) res g(5,6) applyCmd_frame(5) [OF assms(1)] by auto
qed

end
