(* ===== verification/Fixtures.thy ===== *)
theory Fixtures
  imports FarmCommitProps FarmApplyProps
begin

text \<open>
  A small concrete shard on which the properties of the farm commit are instantiated: the farm of
  user 7 at version 4 with one mature plot of wheat and one growing plot of carrots, the friends 7
  and 8, a stranger 9, wallets, seeds, and an active pet whose schedule is due.
\<close>

definition plain_committer :: committer where
  "plain_committer = \<lparr>useFriendshipEdges = False, deferRemoteStealCredit = None\<rparr>"

definition demo_now :: gotime where "demo_now = 1000 * second"

definition demo_env :: env where
  "demo_env = \<lparr>fault = (\<lambda>_. None), commit_outcome = CommitOK, clk_now = demo_now, fresh_id = ''e1''\<rparr>"

definition lost_ack_env :: env where
  "lost_ack_env = demo_env\<lparr>commit_outcome := CommitAckLost CtxDeadline\<rparr>"

definition wheat_plot :: plot where
  "wheat_plot = \<lparr>PlotID = 1, CropID = ''WHEAT'', Status = PlotGrowing, PlantedAt = 10 * second,
     MatureAt = 190 * second, WateredCount = 0, RemainingYield = 5\<rparr>"

definition carrot_plot :: plot where
  "carrot_plot = \<lparr>PlotID = 2, CropID = ''2'', Status = PlotGrowing, PlantedAt = 990 * second,
     MatureAt = 1350 * second, WateredCount = 0, RemainingYield = 6\<rparr>"

definition demo_snapshot :: snapshot where
  "demo_snapshot = \<lparr>snap_FarmID = 7, snap_OwnerID = 7, snap_Version = 4, snap_RouteEpoch = 2,
     snap_Plots = [(2, carrot_plot), (1, wheat_plot)]\<rparr>"

definition demo_farm :: farm_row where
  "demo_farm = \<lparr>fr_owner = 7, fr_version = 4, fr_snapshot = marshalSnapshot demo_snapshot,
     fr_route_epoch = 2, fr_next_pet = Some (900 * second), fr_lease_owner = Some ''w'',
     fr_lease_until = Some (1010 * second)\<rparr>"

definition demo_db :: db where
  "demo_db = empty_db
     \<lparr>farms := [(7, demo_farm)],
      wallets := [7 \<mapsto> 500, 8 \<mapsto> 100],
      inventory := [(7, ''SEED'', 1) \<mapsto> 3, (8, ''CROP'', 1) \<mapsto> 4],
      pets := [7 \<mapsto> \<lparr>pt_status = PetActive, pt_auto = True\<rparr>],
      friendships := [(7, 8)]\<rparr>"

definition demo_command :: command where
  "demo_command = \<lparr>cmd_CmdID = ''c1'', cmd_FarmID = 7, cmd_ActorUser = 7, cmd_Type = CmdHarvest,
     cmd_PlotID = 1, cmd_CropID = '''', cmd_Quantity = 0, cmd_BaseVersion = 4, cmd_RouteEpoch = 2,
     cmd_PetScheduledAt = 0\<rparr>"

definition steal_command :: command where
  "steal_command = demo_command\<lparr>cmd_Type := CmdStealCrop, cmd_ActorUser := 8\<rparr>"

definition pet_command :: command where
  "pet_command = demo_command\<lparr>cmd_Type := CmdPetAutoHarvest, cmd_BaseVersion := 0,
     cmd_PetScheduledAt := 900 * second\<rparr>"

definition stranger_command :: command where
  "stranger_command = demo_command\<lparr>cmd_Type := CmdWater, cmd_ActorUser := 9, cmd_PlotID := 2\<rparr>"

lemmas demo_defs = plain_committer_def demo_now_def demo_env_def lost_ack_env_def wheat_plot_def
  carrot_plot_def demo_snapshot_def demo_farm_def demo_db_def empty_db_def demo_command_def
  steal_command_def pet_command_def stranger_command_def

lemma crop_facts:
  "getCropConfig ''WHEAT'' = Inr \<lparr>SeedPrice = 10, GrowthDuration = 3 * minute, HarvestYield = 5,
     SellPrice = 20, ItemID = 1, CatalogKey = ''crop_WHEAT''\<rparr>"
  "harvestYieldForCrop ''WHEAT'' = 5" "harvestYieldForCrop ''2'' = 6"
  "growth_of ''WHEAT'' = 3 * minute" "growth_of ''2'' = 6 * minute"
  by code_simp+

lemma demo_snapshot_ok: "snapshot_ok demo_snapshot" "int32_keys (snap_Plots demo_snapshot)"
  by (simp_all add: demo_defs snapshot_ok_def plots_ok_def unique_keys_def plot_ok_def crop_facts int32_keys_def)

lemma demo_wf: "wf_db demo_db" "snapshots_ok demo_db" "farm_inv demo_db"
proof -
  show "wf_db demo_db"
    by (simp add: demo_defs wf_db_def outbox_ok_def coins_ok_def inventory_ok_def inv_ok_def
        receipts_ok_def farms_ok_def unique_keys_def max_int64_def)
  then show "farm_inv demo_db" by (simp add: wf_db_def farm_inv_def)
  have "stored_ok (marshalSnapshot demo_snapshot)"
    using demo_snapshot_ok by (rule marshal_stored_ok(2))
  then show "snapshots_ok demo_db"
    by (simp add: snapshots_ok_def demo_db_def demo_farm_def empty_db_def)
qed

lemma demo_command_ok:
  "command_ok demo_command" "command_ok steal_command" "command_ok pet_command"
  "0 < clk_now demo_env" "0 < clk_now lost_ack_env"
  by (simp_all add: demo_defs command_ok_def)

lemma outbox_neq: "length (outbox t) \<noteq> length (outbox s) \<Longrightarrow> t \<noteq> s"
  by auto

lemma demo_effects:
  "snd (commitFarmOnce plain_committer demo_command lost_ack_env demo_db) \<noteq> demo_db"
  "snd (commitFarmOnce plain_committer steal_command demo_env demo_db) \<noteq> demo_db"
  "snd (commitFarmOnce plain_committer pet_command demo_env demo_db) \<noteq> demo_db"
  by (rule outbox_neq, code_simp)+

end
