(* ===== verification/FarmWitnesses.thy ===== *)
theory FarmWitnesses
  imports Fixtures
begin

text \<open>Each property of the farm component applied to the concrete shard of Fixtures.\<close>

lemma demo_read: "read_snapshot demo_db 7 = Inr (demo_snapshot, Some (900 * second))"
  by code_simp

theorem farm_commit_refines_apply_witness:
  "\<exists>snap nxt ar snap' nxt'.
     read_snapshot demo_db (cmd_FarmID demo_command) = Inr (snap, nxt)
     \<and> applyCmd snap demo_command (clk_now lost_ack_env) = Inr (ar, snap')
     \<and> read_snapshot (snd (commitFarmOnce plain_committer demo_command lost_ack_env demo_db)) (cmd_FarmID demo_command)
         = Inr (snap'\<lparr>snap_Version := i64 (snap_Version snap + 1)\<rparr>, nxt')
     \<and> (\<forall>k. k \<noteq> cmd_FarmID demo_command \<longrightarrow>
          read_snapshot (snd (commitFarmOnce plain_committer demo_command lost_ack_env demo_db)) k = read_snapshot demo_db k)"
  by (rule farm_commit_refines_apply [OF demo_effects(1) demo_wf(1,2) demo_command_ok(1,5)])

theorem farm_commit_stale_rejected_witness:
  "snd (commitFarmOnce plain_committer (demo_command\<lparr>cmd_RouteEpoch := 1\<rparr>) demo_env demo_db) = demo_db
   \<and> is_err (fst (commitFarmOnce plain_committer (demo_command\<lparr>cmd_RouteEpoch := 1\<rparr>) demo_env demo_db))"
proof -
  have "\<not> farm_applied (demo_command\<lparr>cmd_RouteEpoch := 1\<rparr>) demo_db"
    by (simp add: demo_defs farm_applied_def requiresCommandReceipt_def find_receipt_def)
  moreover have "read_snapshot demo_db (cmd_FarmID (demo_command\<lparr>cmd_RouteEpoch := 1\<rparr>))
      = Inr (demo_snapshot, Some (900 * second))"
    using demo_read by (simp add: demo_command_def)
  moreover have "cmd_RouteEpoch (demo_command\<lparr>cmd_RouteEpoch := 1\<rparr>) \<noteq> snap_RouteEpoch demo_snapshot"
    by (simp add: demo_snapshot_def)
  ultimately show ?thesis
    using farm_commit_stale_rejected [of demo_db "demo_command\<lparr>cmd_RouteEpoch := 1\<rparr>" demo_snapshot
        "Some (900 * second)" plain_committer demo_env] by blast
qed

theorem farm_commit_other_tables_witness:
  "\<exists>snap nxt ar snap' row.
     read_snapshot demo_db (cmd_FarmID steal_command) = Inr (snap, nxt)
     \<and> applyCmd snap steal_command (clk_now demo_env) = Inr (ar, snap')
     \<and> (\<forall>k. quantity (snd (commitFarmOnce plain_committer steal_command demo_env demo_db)) k
            = quantity demo_db k + side_delta plain_committer steal_command ar (cmd_FarmID steal_command) k)
     \<and> outbox (snd (commitFarmOnce plain_committer steal_command demo_env demo_db)) = outbox demo_db @ [row]
     \<and> ob_event_id row = fresh_id demo_env"
  using farm_commit_other_tables [OF demo_effects(2) demo_wf(3)] by blast

theorem farm_commit_keeps_invariants_witness:
  "wf_db (snd (commitFarmOnce plain_committer demo_command lost_ack_env demo_db))
   \<and> snapshots_ok (snd (commitFarmOnce plain_committer demo_command lost_ack_env demo_db))"
  by (rule farm_commit_keeps_invariants [OF demo_wf(1,2) demo_command_ok(1,5)])

theorem steal_is_bounded_witness:
  "\<exists>snap nxt p ar snap'.
     read_snapshot demo_db (cmd_FarmID steal_command) = Inr (snap, nxt)
     \<and> map_of (snap_Plots snap) (cmd_PlotID steal_command) = Some p
     \<and> applyCmd snap steal_command (clk_now demo_env) = Inr (ar, snap')
     \<and> ar_stolenAmount ar = harvestYieldForCrop (CropID p) div 5
     \<and> 1 \<le> RemainingYield (ar_changedPlot ar)"
  using steal_is_bounded [OF demo_effects(2) _ demo_wf(1,2)]
  by (fastforce simp: steal_command_def)

theorem pet_harvest_guarded_witness:
  "\<exists>snap t r'.
     read_snapshot demo_db (cmd_FarmID pet_command) = Inr (snap, Some t) \<and> t \<le> clk_now demo_env
     \<and> pet_enabled demo_db (cmd_FarmID pet_command)
     \<and> map_of (farms (snd (commitFarmOnce plain_committer pet_command demo_env demo_db))) (cmd_FarmID pet_command) = Some r'
     \<and> fr_next_pet r' = Some (datetime3 (clk_now demo_env + 30 * second))"
proof -
  have "cmd_Type pet_command = CmdPetAutoHarvest" by (simp add: pet_command_def)
  from pet_harvest_guarded [OF demo_effects(3) this demo_wf(1,2)] show ?thesis by blast
qed

theorem stranger_can_water_witness:
  "commitFarmOnce plain_committer (stranger_command\<lparr>cmd_Type := CmdHelpWater\<rparr>) demo_env demo_db
     = (Inl (New SocialNotFriend), demo_db)
   \<and> (\<exists>res s'. commitFarmOnce plain_committer (stranger_command\<lparr>cmd_Type := CmdWater\<rparr>) demo_env demo_db = (Inr res, s')
        \<and> s' \<noteq> demo_db
        \<and> patch_Plots (cr_Patch res) = [waterByGrowthStage (target_plot demo_snapshot stranger_command) (clk_now demo_env)])"
proof (rule stranger_can_water)
  show "read_snapshot demo_db (cmd_FarmID stranger_command) = Inr (demo_snapshot, Some (900 * second))"
    using demo_read by (simp add: stranger_command_def demo_command_def)
  show "\<not> are_friends plain_committer demo_db (cmd_ActorUser stranger_command) (snap_OwnerID demo_snapshot)"
    by (simp add: demo_defs are_friends_def friend_pair_def)
  show "Status (target_plot demo_snapshot stranger_command) = PlotGrowing"
    by (simp add: demo_defs target_plot_def plot_at_def)
qed (simp_all add: demo_defs)

definition demo_run :: "(command \<times> gotime) list" where
  "demo_run =
     [(steal_command, demo_now), (steal_command\<lparr>cmd_PlotID := 2\<rparr>, demo_now), (demo_command, demo_now),
      (demo_command\<lparr>cmd_Type := CmdPlant, cmd_CropID := ''2''\<rparr>, demo_now + second),
      (demo_command\<lparr>cmd_Type := CmdWater\<rparr>, demo_now + 2 * second)]"

lemma demo_run_pos: "\<forall>(cmd, now) \<in> set demo_run. 0 < now"
  by (simp add: demo_run_def demo_now_def)

theorem run_keeps_plots_ok_witness: "snapshot_ok (run_cmds demo_snapshot demo_run)"
  by (rule run_keeps_plots_ok [OF demo_snapshot_ok(1) demo_run_pos])

theorem yield_conservation_witness:
  "standing (run_cmds demo_snapshot demo_run) + run_sum (\<lambda>_. handed_out) demo_snapshot demo_run
     = standing demo_snapshot + run_sum newly_planted demo_snapshot demo_run
   \<and> run_sum (\<lambda>_. handed_out) demo_snapshot demo_run = 5"
  using yield_conservation [OF demo_snapshot_ok(1) demo_run_pos] by (intro conjI) (assumption, code_simp)

theorem harvest_not_before_witness:
  "\<exists>ar snap' p. applyCmd demo_snapshot demo_command demo_now = Inr (ar, snap')
     \<and> map_of (snap_Plots demo_snapshot) (cmd_PlotID demo_command) = Some p
     \<and> PlantedAt p + growth_of (CropID p) - 2 * minute \<le> demo_now
     \<and> 1 \<le> ar_harvestedYield ar"
proof -
  have "\<not> is_err (applyCmd demo_snapshot demo_command demo_now)" by code_simp
  then obtain ar snap' where a: "applyCmd demo_snapshot demo_command demo_now = Inr (ar, snap')"
    by (auto simp: not_is_err)
  have t: "cmd_Type demo_command = CmdHarvest \<or> cmd_Type demo_command = CmdPetAutoHarvest"
    by (simp add: demo_command_def)
  from harvest_not_before [OF a demo_snapshot_ok(1) t] a show ?thesis by blast
qed

end
