(* ===== verification/Economy.thy ===== *)
theory Economy
  imports FarmCommitProps
begin

text \<open>
  The economic commands of committer_mysql.go: buying seeds and selling crops in one transaction over
  wallet, inventory and ledger, with the ledger's unique key as the durable idempotency credential;
  and CommitFarmCommand, the retried entry point of both kinds of command.
\<close>

section \<open>Translation\<close>

definition economyOperation :: "command_type \<Rightarrow> string" where
  "economyOperation t = (if t = CmdPurchaseSeed then ''purchase'' else ''sell'')"

definition economyBizType :: "command_type \<Rightarrow> string" where
  "economyBizType t = (if t = CmdPurchaseSeed then ''SHOP_PURCHASE'' else ''FARM_SELL'')"

text \<open>The idempotency query compares the stored BINARY(16) with UNHEX of the id.\<close>

definition checkEconomyTransaction :: "env \<Rightarrow> int \<Rightarrow> string \<Rightarrow> string \<Rightarrow> (db, commit_result option) tx" where
  "checkEconomyTransaction env userID bizType bizID =
     stmt env ''check_economy''
       (tx_get (\<lambda>s. case unhex bizID of
            None \<Rightarrow> None
          | Some h \<Rightarrow>
              (case ledger s (userID, bizType, h) of
                 Some r \<Rightarrow> if lg_committed r
                           then Some (zero_result\<lparr>cr_CoinBalance := lg_after r, cr_Replayed := True\<rparr>)
                           else None
               | None \<Rightarrow> None)))"

definition loadWalletForUpdate :: "env \<Rightarrow> int \<Rightarrow> (db, int) tx" where
  "loadWalletForUpdate env userID =
     stmt env ''load_wallet''
       (\<lambda>s. case wallets s userID of None \<Rightarrow> Inl (New Internal) | Some b \<Rightarrow> Inr (b, s))"

definition setWalletBalance :: "env \<Rightarrow> int \<Rightarrow> int \<Rightarrow> (db, unit) tx" where
  "setWalletBalance env userID newBalance =
     stmt env ''set_wallet''
       (\<lambda>s. if wallets s userID = None then Inr ((), s)
            else if newBalance < 0 then Inl check_violation
            else Inr ((), s\<lparr>wallets := (wallets s)(userID \<mapsto> newBalance)\<rparr>))"

definition insertEconomyTransaction ::
  "env \<Rightarrow> int \<Rightarrow> string \<Rightarrow> string \<Rightarrow> string \<Rightarrow> int \<Rightarrow> int \<Rightarrow> int \<Rightarrow> string \<Rightarrow> (db, unit) tx" where
  "insertEconomyTransaction env userID bizType bizID currency before delta after source =
     stmt env ''insert_economy''
       (tx_bind (lift_sum (binary16 bizID)) (\<lambda>h.
          (\<lambda>s. if ledger s (userID, bizType, h) \<noteq> None then Inl dup_key
               else if before < 0 \<or> after < 0 then Inl check_violation
               else Inr ((), s\<lparr>ledger := (ledger s)((userID, bizType, h) \<mapsto>
                 \<lparr>lg_currency = currency, lg_before = before, lg_delta = delta, lg_after = after,
                  lg_source = source, lg_committed = True\<rparr>)\<rparr>))))"

definition purchase_seed :: "env \<Rightarrow> command \<Rightarrow> crop_config \<Rightarrow> string \<Rightarrow> int \<Rightarrow> (db, int) tx" where
  "purchase_seed env cmd cfg bizType itemID =
     (let price = i64 (SeedPrice cfg * cmd_Quantity cmd) in
      tx_bind (loadWalletForUpdate env (cmd_ActorUser cmd)) (\<lambda>balance.
        tx_seq (tx_guard (\<not> balance < price) (New EconomyInsufficient))
        (let newBalance = i64 (balance - price) in
         tx_seq (setWalletBalance env (cmd_ActorUser cmd) newBalance)
         (tx_seq (addInventoryItem env (cmd_ActorUser cmd) ''SEED'' itemID (cmd_Quantity cmd))
         (tx_seq (insertEconomyTransaction env (cmd_ActorUser cmd) bizType (cmd_CmdID cmd) ''COIN''
                    balance (i64 (- price)) newBalance ''PURCHASE'')
           (tx_return newBalance))))))"

definition sell_crop :: "env \<Rightarrow> command \<Rightarrow> crop_config \<Rightarrow> string \<Rightarrow> int \<Rightarrow> (db, int) tx" where
  "sell_crop env cmd cfg bizType itemID =
     (let gain = i64 (SellPrice cfg * cmd_Quantity cmd) in
      tx_bind (loadWalletForUpdate env (cmd_ActorUser cmd)) (\<lambda>balance.
        tx_bind (deductInventoryItem env (cmd_ActorUser cmd) ''CROP'' itemID (cmd_Quantity cmd)) (\<lambda>ok.
        tx_seq (tx_guard ok (New EconomyInsufficient))
        (let newBalance = i64 (balance + gain) in
         tx_seq (setWalletBalance env (cmd_ActorUser cmd) newBalance)
         (tx_seq (insertEconomyTransaction env (cmd_ActorUser cmd) bizType (cmd_CmdID cmd) ''COIN''
                    balance gain newBalance ''SELL'')
           (tx_return newBalance))))))"

definition check_quantity :: "int \<Rightarrow> (db, unit) tx" where
  "check_quantity q =
     tx_seq (tx_guard (\<not> q < 1) (New CommonInvalidArgument))
       (tx_guard (\<not> MaxEconomyQuantity < q) (New CommonInvalidArgument))"

definition economic_body :: "env \<Rightarrow> command \<Rightarrow> (db, commit_result ended) tx" where
  "economic_body env cmd =
     (let bizType = economyBizType (cmd_Type cmd) in
      tx_bind (checkEconomyTransaction env (cmd_ActorUser cmd) bizType (cmd_CmdID cmd)) (\<lambda>replay.
        case replay of Some res \<Rightarrow> tx_return (NoCommit res) | None \<Rightarrow>
        tx_bind (lift_sum (getCropConfig (cmd_CropID cmd))) (\<lambda>cfg.
        tx_seq (check_quantity (cmd_Quantity cmd))
        (tx_bind
           (case cmd_Type cmd of
              CmdPurchaseSeed \<Rightarrow> purchase_seed env cmd cfg bizType (cropIDToItemID (cmd_CropID cmd))
            | CmdSellCrop \<Rightarrow> sell_crop env cmd cfg bizType (cropIDToItemID (cmd_CropID cmd))
            | _ \<Rightarrow> tx_return 0)
           (\<lambda>balance. tx_return (Committed
              (zero_result\<lparr>cr_EventID := fresh_id env, cr_CoinBalance := balance\<rparr>)))))))"

text \<open>The quantity is checked before a connection is taken; a deadline while waiting for one is reported
  as overload.\<close>

definition commitEconomicTx :: "command \<Rightarrow> env \<Rightarrow> db \<Rightarrow> (go_error + commit_result) \<times> db" where
  "commitEconomicTx cmd env s =
     (if cmd_Quantity cmd < 1 then (Inl (New CommonInvalidArgument), s)
      else if MaxEconomyQuantity < cmd_Quantity cmd then (Inl (New CommonInvalidArgument), s)
      else
        (case fault env ''acquire_conn'' of
           Some e \<Rightarrow>
             (Inl (if errors_is e CtxDeadline then NewReason ResourceExhausted ''db_pool_wait'' else e), s)
         | None \<Rightarrow> run_tx env (economic_body env cmd) s))"

definition is_economic :: "command_type \<Rightarrow> bool" where
  "is_economic t \<longleftrightarrow> t = CmdPurchaseSeed \<or> t = CmdSellCrop"

definition commitFarmCommandOnce :: "committer \<Rightarrow> command \<Rightarrow> env \<Rightarrow> db \<Rightarrow> (go_error + commit_result) \<times> db" where
  "commitFarmCommandOnce c cmd env s =
     (if is_economic (cmd_Type cmd) then commitEconomicTx cmd env s else commitFarmOnce c cmd env s)"

definition CommitFarmCommand ::
  "(nat \<Rightarrow> go_error option) \<Rightarrow> (nat \<Rightarrow> env) \<Rightarrow> committer \<Rightarrow> command \<Rightarrow> db \<Rightarrow> (go_error + commit_result) \<times> db" where
  "CommitFarmCommand wait envs c cmd s =
     (let durableKey = is_economic (cmd_Type cmd) \<or> requiresCommandReceipt (cmd_Type cmd) in
      retry_value wait (\<lambda>err. IsTransient err \<or> durableKey \<and> IsDuplicateKey err)
        (\<lambda>n. commitFarmCommandOnce c cmd (envs n)) s)"

text \<open>The labels of the transaction metrics: the outcome of an economic command and the class of an
  internal error.\<close>

definition economyResult :: "go_error option \<Rightarrow> bool \<Rightarrow> string" where
  "economyResult err replayed =
     (if replayed then ''replayed''
      else
        (case err of
           None \<Rightarrow> ''ok''
         | Some e \<Rightarrow>
             (case err_code e of
                Some c \<Rightarrow>
                  if c \<in> {EconomyInsufficient, EconomyItemNotFound, FarmCropNotFound, CommonInvalidArgument}
                  then ''business_error'' else ''error''
              | None \<Rightarrow> ''error'')))"

definition internalErrorCode :: "go_error \<Rightarrow> string" where
  "internalErrorCode e =
     (case as_mysql e of
        Some n \<Rightarrow> if n \<in> {1062, 1205, 1213} then ''mysql_'' @ format_int (int n) else ''mysql_other''
      | None \<Rightarrow>
          if errors_is e CtxDeadline then ''context_deadline''
          else if errors_is e CtxCanceled then ''context_canceled''
          else
            (case err_code e of
               Some c \<Rightarrow> if c = Internal then ''application_internal'' else ''business_error''
             | None \<Rightarrow> ''other''))"

section \<open>Inversion\<close>

lemma loadWalletForUpdate_Inr [tx_inv]:
  "loadWalletForUpdate env u s = Inr (b, s') \<longleftrightarrow>
     fault env ''load_wallet'' = None \<and> wallets s u = Some b \<and> s' = s"
  by (auto simp: loadWalletForUpdate_def tx_inv split: option.splits)

lemma setWalletBalance_Inr [tx_inv]:
  "setWalletBalance env u b s = Inr (x, s') \<longleftrightarrow>
     fault env ''set_wallet'' = None
     \<and> (if wallets s u = None then s' = s
        else 0 \<le> b \<and> s' = s\<lparr>wallets := (wallets s)(u \<mapsto> b)\<rparr>)"
  by (auto simp: setWalletBalance_def tx_inv)

definition ledger_entry :: "string \<Rightarrow> int \<Rightarrow> int \<Rightarrow> int \<Rightarrow> string \<Rightarrow> ledger_row" where
  "ledger_entry currency before delta after source =
     \<lparr>lg_currency = currency, lg_before = before, lg_delta = delta, lg_after = after,
      lg_source = source, lg_committed = True\<rparr>"

lemma insertEconomyTransaction_Inr [tx_inv]:
  "insertEconomyTransaction env u t i cur b d a src s = Inr (x, s') \<longleftrightarrow>
     fault env ''insert_economy'' = None
     \<and> (\<exists>h. binary16 i = Inr h \<and> ledger s (u, t, h) = None \<and> 0 \<le> b \<and> 0 \<le> a
          \<and> s' = s\<lparr>ledger := (ledger s)((u, t, h) \<mapsto> ledger_entry cur b d a src)\<rparr>)"
  by (auto simp: insertEconomyTransaction_def ledger_entry_def tx_inv)

lemma check_quantity_Inr [tx_inv]:
  "check_quantity q s = Inr (x, s') \<longleftrightarrow> 1 \<le> q \<and> q \<le> MaxEconomyQuantity \<and> s' = s"
  by (auto simp: check_quantity_def tx_inv)

definition econ_key :: "command \<Rightarrow> string \<Rightarrow> int \<times> string \<times> string" where
  "econ_key cmd h = (cmd_ActorUser cmd, economyBizType (cmd_Type cmd), h)"

text \<open>What a committed purchase or sale did, over unbounded integers.\<close>

definition econ_delta :: "command \<Rightarrow> crop_config \<Rightarrow> int" where
  "econ_delta cmd cfg =
     (if cmd_Type cmd = CmdPurchaseSeed then - (SeedPrice cfg * cmd_Quantity cmd)
      else SellPrice cfg * cmd_Quantity cmd)"

definition econ_items :: "command \<Rightarrow> int \<times> string \<times> int \<Rightarrow> int" where
  "econ_items cmd k =
     (if cmd_Type cmd = CmdPurchaseSeed
      then (if k = seed_key (cmd_ActorUser cmd) (cmd_CropID cmd) then cmd_Quantity cmd else 0)
      else (if k = crop_key (cmd_ActorUser cmd) (cmd_CropID cmd) then - cmd_Quantity cmd else 0))"

definition econ_source :: "command \<Rightarrow> string" where
  "econ_source cmd = (if cmd_Type cmd = CmdPurchaseSeed then ''PURCHASE'' else ''SELL'')"

end
