(* ===== verification/EconomyProps.thy ===== *)
theory EconomyProps
  imports Economy Fixtures
begin

text \<open>
  Properties of the economic commands: exact amounts without overflow, rejection with nothing
  changed, at-most-once through the ledger, and the same for the retried entry point.
\<close>

section \<open>What a committed economic transaction did\<close>

definition econ_after :: "command \<Rightarrow> crop_config \<Rightarrow> int \<Rightarrow> string \<Rightarrow> inventory_map \<Rightarrow> db \<Rightarrow> db" where
  "econ_after cmd cfg b h iv s =
     s\<lparr>wallets := (wallets s)(cmd_ActorUser cmd \<mapsto> b + econ_delta cmd cfg),
       inventory := iv,
       ledger := (ledger s)(econ_key cmd h \<mapsto>
         ledger_entry ''COIN'' b (econ_delta cmd cfg) (b + econ_delta cmd cfg) (econ_source cmd))\<rparr>"

definition econ_spec :: "command \<Rightarrow> crop_config \<Rightarrow> int \<Rightarrow> db \<Rightarrow> db \<Rightarrow> bool" where
  "econ_spec cmd cfg b s s' \<longleftrightarrow>
     wallets s (cmd_ActorUser cmd) = Some b \<and> 0 \<le> b + econ_delta cmd cfg
     \<and> b + econ_delta cmd cfg \<le> max_int64
     \<and> (\<exists>h iv. binary16 (cmd_CmdID cmd) = Inr h \<and> ledger s (econ_key cmd h) = None
          \<and> inv_change (econ_items cmd) (inventory s) iv
          \<and> s' = econ_after cmd cfg b h iv s)"

lemma wallet_range: "coins_ok s \<Longrightarrow> wallets s u = Some b \<Longrightarrow> 0 \<le> b \<and> b \<le> max_int64"
  by (simp add: coins_ok_def)

lemma purchase_effect:
  assumes "purchase_seed env cmd cfg (economyBizType (cmd_Type cmd)) (cropIDToItemID (cmd_CropID cmd)) s = Inr (nb, s')"
    "cmd_Type cmd = CmdPurchaseSeed" "getCropConfig (cmd_CropID cmd) = Inr cfg"
    "1 \<le> cmd_Quantity cmd" "cmd_Quantity cmd \<le> MaxEconomyQuantity" "coins_ok s"
  shows "\<exists>b. econ_spec cmd cfg b s s' \<and> nb = b + econ_delta cmd cfg"
proof -
  let ?q = "cmd_Quantity cmd" and ?u = "cmd_ActorUser cmd"
  let ?price = "SeedPrice cfg * ?q"
  note p = price_quantity_exact [OF assms(3-5)]
  have neg: "i64 (- ?price) = - ?price"
    using p by (intro i64_id) (simp add: in_i64_def min_int64_def max_int64_def)
  obtain b s1 where b: "wallets s ?u = Some b" "\<not> b < ?price"
    and 1: "addInventoryItem env ?u ''SEED'' (cropIDToItemID (cmd_CropID cmd)) ?q
        (s\<lparr>wallets := (wallets s)(?u \<mapsto> i64 (b - ?price))\<rparr>) = Inr ((), s1)"
    and 2: "insertEconomyTransaction env ?u (economyBizType (cmd_Type cmd)) (cmd_CmdID cmd) ''COIN''
        b (- ?price) (i64 (b - ?price)) ''PURCHASE'' s1 = Inr ((), s')"
    and nb: "nb = i64 (b - ?price)"
    using assms(1) unfolding purchase_seed_def Let_def tx_bind_Inr tx_guard_Inr loadWalletForUpdate_Inr
      setWalletBalance_Inr tx_return_Inr p(1) neg by (auto split: if_splits)
  have exact: "i64 (b - ?price) = b - ?price"
    using p b wallet_range [OF assms(6) b(1)]
    by (intro i64_id) (simp add: in_i64_def min_int64_def max_int64_def)
  obtain iv where iv: "s1 = s\<lparr>wallets := (wallets s)(?u \<mapsto> b - ?price), inventory := iv\<rparr>"
    "inv_change (econ_items cmd) (inventory s) iv"
    using add_inventory_effect [OF 1, of "econ_items cmd"] assms(2) exact
    by (auto simp: econ_items_def seed_key_def)
  have "\<exists>h. binary16 (cmd_CmdID cmd) = Inr h \<and> ledger s (econ_key cmd h) = None
      \<and> s' = s1\<lparr>ledger := (ledger s)(econ_key cmd h \<mapsto> ledger_entry ''COIN'' b (- ?price) (b - ?price) ''PURCHASE'')\<rparr>"
    using 2 iv(1) exact by (auto simp: insertEconomyTransaction_Inr econ_key_def)
  then show ?thesis
    using iv b nb exact p wallet_range [OF assms(6) b(1)] assms(2)
    by (auto simp: econ_spec_def econ_after_def econ_delta_def econ_source_def)
qed

lemma sell_effect:
  assumes "sell_crop env cmd cfg (economyBizType (cmd_Type cmd)) (cropIDToItemID (cmd_CropID cmd)) s = Inr (nb, s')"
    "cmd_Type cmd = CmdSellCrop" "getCropConfig (cmd_CropID cmd) = Inr cfg"
    "1 \<le> cmd_Quantity cmd" "cmd_Quantity cmd \<le> MaxEconomyQuantity" "coins_ok s" "inventory_ok s"
  shows "\<exists>b. econ_spec cmd cfg b s s' \<and> nb = b + econ_delta cmd cfg"
proof -
  let ?q = "cmd_Quantity cmd" and ?u = "cmd_ActorUser cmd"
  let ?gain = "SellPrice cfg * ?q"
  note p = price_quantity_exact [OF assms(3-5)]
  obtain b s1 where b: "wallets s ?u = Some b"
    and 1: "deductInventoryItem env ?u ''CROP'' (cropIDToItemID (cmd_CropID cmd)) ?q s = Inr (True, s1)"
    and 2: "\<exists>s2. setWalletBalance env ?u (i64 (b + ?gain)) s1 = Inr ((), s2)
      \<and> insertEconomyTransaction env ?u (economyBizType (cmd_Type cmd)) (cmd_CmdID cmd) ''COIN''
        b ?gain (i64 (b + ?gain)) ''SELL'' s2 = Inr ((), s')"
    and nb: "nb = i64 (b + ?gain)"
    using assms(1) unfolding sell_crop_def Let_def tx_bind_Inr tx_guard_Inr loadWalletForUpdate_Inr
      tx_return_Inr p(2) by auto
  obtain iv where iv: "s1 = s\<lparr>inventory := iv\<rparr>" "inv_change (econ_items cmd) (inventory s) iv"
    using deduct_inventory_effect [OF 1, of "econ_items cmd"] assms(2,4,7)
    by (auto simp: econ_items_def crop_key_def)
  have nonneg: "0 \<le> i64 (b + ?gain)"
    using 2 iv(1) b by (auto simp: setWalletBalance_Inr)
  have exact: "i64 (b + ?gain) = b + ?gain \<and> b + ?gain \<le> max_int64"
  proof (rule ccontr)
    assume not: "\<not> ?thesis"
    have r: "0 \<le> b" "b \<le> max_int64" "0 < ?gain" "?gain \<le> 300000"
      using wallet_range [OF assms(6) b] p by simp_all
    have "max_int64 < b + ?gain"
    proof (rule ccontr)
      assume le: "\<not> max_int64 < b + ?gain"
      then have "in_i64 (b + ?gain)" using r(1,3) by (simp add: in_i64_def min_int64_def)
      with le not show False by (simp add: i64_id)
    qed
    then have "i64 (b + ?gain) = b + ?gain - 18446744073709551616"
      using r unfolding i64_def max_int64_def
      by (subst mod_pos_geq) (simp_all add: mod_pos_pos_trivial)
    then show False using nonneg r by (simp add: max_int64_def)
  qed
  have "\<exists>h. binary16 (cmd_CmdID cmd) = Inr h \<and> ledger s (econ_key cmd h) = None
      \<and> s' = econ_after cmd cfg b h iv s"
    using 2 iv(1) b exact assms(2)
    by (auto simp: insertEconomyTransaction_Inr setWalletBalance_Inr econ_key_def econ_after_def
        econ_delta_def econ_source_def)
  moreover have "econ_delta cmd cfg = ?gain" using assms(2) by (simp add: econ_delta_def)
  ultimately show ?thesis
    using iv(2) b nb exact nonneg by (auto simp: econ_spec_def)
qed

lemma economic_body_committed:
  assumes "economic_body env cmd s = Inr (Committed res, s')" "is_economic (cmd_Type cmd)"
    "coins_ok s" "inventory_ok s"
  shows "\<exists>cfg b. getCropConfig (cmd_CropID cmd) = Inr cfg
     \<and> 1 \<le> cmd_Quantity cmd \<and> cmd_Quantity cmd \<le> MaxEconomyQuantity
     \<and> econ_spec cmd cfg b s s' \<and> cr_CoinBalance res = b + econ_delta cmd cfg \<and> \<not> cr_Replayed res"
proof -
  obtain cfg nb where c: "getCropConfig (cmd_CropID cmd) = Inr cfg"
    "1 \<le> cmd_Quantity cmd" "cmd_Quantity cmd \<le> MaxEconomyQuantity"
    and body: "(case cmd_Type cmd of
              CmdPurchaseSeed \<Rightarrow> purchase_seed env cmd cfg (economyBizType (cmd_Type cmd)) (cropIDToItemID (cmd_CropID cmd))
            | CmdSellCrop \<Rightarrow> sell_crop env cmd cfg (economyBizType (cmd_Type cmd)) (cropIDToItemID (cmd_CropID cmd))
            | _ \<Rightarrow> tx_return 0) s = Inr (nb, s')"
    and res: "res = zero_result\<lparr>cr_EventID := fresh_id env, cr_CoinBalance := nb\<rparr>"
    using assms(1)
    by (auto simp: economic_body_def checkEconomyTransaction_def Let_def tx_bind_Inr stmt_Inr tx_get_Inr
        lift_sum_Inr check_quantity_Inr tx_return_Inr split: option.splits)
  have "\<exists>b. econ_spec cmd cfg b s s' \<and> nb = b + econ_delta cmd cfg"
    using assms(2) body purchase_effect [OF _ _ c assms(3)] sell_effect [OF _ _ c assms(3,4)]
    by (auto simp: is_economic_def)
  with c res show ?thesis by (auto simp: zero_result_def)
qed

lemma economic_took_effect:
  assumes "snd (commitEconomicTx cmd env s) \<noteq> s" "is_economic (cmd_Type cmd)" "coins_ok s" "inventory_ok s"
  obtains cfg b where "getCropConfig (cmd_CropID cmd) = Inr cfg"
    "1 \<le> cmd_Quantity cmd" "cmd_Quantity cmd \<le> MaxEconomyQuantity"
    "econ_spec cmd cfg b s (snd (commitEconomicTx cmd env s))"
    "coins_ok (snd (commitEconomicTx cmd env s))" "inventory_ok (snd (commitEconomicTx cmd env s))"
proof -
  have run: "snd (commitEconomicTx cmd env s) = snd (run_tx env (economic_body env cmd) s)"
    using assms(1) by (auto simp: commitEconomicTx_def split: if_splits option.splits)
  obtain res s' where "economic_body env cmd s = Inr (Committed res, s')"
    and s': "snd (commitEconomicTx cmd env s) = s'"
    using assms(1) run by (cases rule: run_tx_cases [of env "economic_body env cmd" s]) auto
  from economic_body_committed [OF this(1) assms(2-4)] obtain cfg b where
    e: "getCropConfig (cmd_CropID cmd) = Inr cfg" "1 \<le> cmd_Quantity cmd"
       "cmd_Quantity cmd \<le> MaxEconomyQuantity" "econ_spec cmd cfg b s s'" by blast
  have "coins_ok s'" "inventory_ok s'"
    using e(4) assms(3,4)
    by (auto simp: econ_spec_def econ_after_def coins_ok_def inventory_ok_def inv_change_def split: if_splits)
  with e s' that show ?thesis by blast
qed

section \<open>The ledger as the credential\<close>

definition ledger_ok :: "db \<Rightarrow> bool" where
  "ledger_ok s \<longleftrightarrow> (\<forall>u t h. ledger s (u, t, h) \<noteq> None \<longrightarrow> length h = 32)"

definition econ_inv :: "db \<Rightarrow> bool" where
  "econ_inv s \<longleftrightarrow> coins_ok s \<and> inventory_ok s \<and> ledger_ok s"

definition econ_applied :: "command \<Rightarrow> db \<Rightarrow> bool" where
  "econ_applied cmd s \<longleftrightarrow>
     (\<exists>h. binary16 (cmd_CmdID cmd) = Inr h \<and> ledger s (econ_key cmd h) \<noteq> None)"

lemma binary16_length: "binary16 i = Inr h \<Longrightarrow> length h = 32"
  by (auto simp: binary16_def split: option.splits if_splits)

lemma unhex_binary16: "unhex i = Some h \<Longrightarrow> length h = 32 \<Longrightarrow> binary16 i = Inr h"
  by (simp add: binary16_def)

lemma econ_after_ledger_ok:
  assumes "ledger_ok s" "length h = 32"
  shows "ledger_ok (econ_after cmd cfg b h iv s)"
  using assms by (auto simp: ledger_ok_def econ_after_def econ_key_def)

lemma econ_effect_applied:
  assumes "econ_inv s" "snd (commitEconomicTx cmd env s) \<noteq> s" "is_economic (cmd_Type cmd)"
  shows "econ_inv (snd (commitEconomicTx cmd env s)) \<and> econ_applied cmd (snd (commitEconomicTx cmd env s))
    \<and> \<not> econ_applied cmd s \<and> farms (snd (commitEconomicTx cmd env s)) = farms s
    \<and> receipts (snd (commitEconomicTx cmd env s)) = receipts s"
proof -
  have i: "coins_ok s" "inventory_ok s" "ledger_ok s" using assms(1) by (simp_all add: econ_inv_def)
  obtain cfg b where e: "econ_spec cmd cfg b s (snd (commitEconomicTx cmd env s))"
    "coins_ok (snd (commitEconomicTx cmd env s))" "inventory_ok (snd (commitEconomicTx cmd env s))"
    using economic_took_effect [OF assms(2,3) i(1,2)] by blast
  then obtain h iv where h: "binary16 (cmd_CmdID cmd) = Inr h" "ledger s (econ_key cmd h) = None"
    "snd (commitEconomicTx cmd env s) = econ_after cmd cfg b h iv s"
    unfolding econ_spec_def by blast
  have "ledger_ok (snd (commitEconomicTx cmd env s))"
    using econ_after_ledger_ok [OF i(3) binary16_length [OF h(1)]] h(3) by simp
  with e h show ?thesis by (auto simp: econ_inv_def econ_applied_def econ_after_def)
qed

lemma econ_success_applied:
  assumes "econ_inv s" "fst (commitEconomicTx cmd env s) = Inr res" "is_economic (cmd_Type cmd)"
  shows "econ_applied cmd (snd (commitEconomicTx cmd env s))"
proof -
  have i: "coins_ok s" "inventory_ok s" "ledger_ok s" using assms(1) by (simp_all add: econ_inv_def)
  obtain s' where "run_tx env (economic_body env cmd) s = (Inr res, s')"
    and s': "snd (commitEconomicTx cmd env s) = s'"
    using assms(2) by (cases "run_tx env (economic_body env cmd) s")
      (auto simp: commitEconomicTx_def split: if_splits option.splits)
  from run_tx_ok [OF this(1)] show ?thesis
  proof
    assume "economic_body env cmd s = Inr (Committed res, s')"
    from economic_body_committed [OF this assms(3) i(1,2)] show ?thesis
      by (auto simp: s' econ_spec_def econ_applied_def econ_after_def)
  next
    assume "\<exists>t. economic_body env cmd s = Inr (NoCommit res, t) \<and> s' = s"
    then obtain h r where "unhex (cmd_CmdID cmd) = Some h" "ledger s (econ_key cmd h) = Some r" "s' = s"
      by (auto simp: economic_body_def checkEconomyTransaction_def Let_def tx_bind_Inr stmt_Inr tx_get_Inr
          tx_return_Inr econ_key_def split: option.splits if_splits)
    moreover from this i(3) have "length h = 32" by (auto simp: ledger_ok_def econ_key_def)
    ultimately show ?thesis using unhex_binary16 by (auto simp: s' econ_applied_def)
  qed
qed

section \<open>Both kinds of command\<close>

definition cmd_inv :: "db \<Rightarrow> bool" where
  "cmd_inv s \<longleftrightarrow> farm_inv s \<and> econ_inv s"

definition cmd_applied :: "command \<Rightarrow> db \<Rightarrow> bool" where
  "cmd_applied cmd s = (if is_economic (cmd_Type cmd) then econ_applied cmd s else farm_applied cmd s)"

lemma farm_commit_frame:
  assumes "inventory_ok s"
  shows "wallets (snd (commitFarmOnce c cmd env s)) = wallets s \<and> ledger (snd (commitFarmOnce c cmd env s)) = ledger s"
proof (cases "snd (commitFarmOnce c cmd env s) = s")
  case False
  then show ?thesis using assms by (rule farm_took_effect) simp
qed simp

lemma cmd_inv_kept:
  assumes "cmd_inv s"
  shows "cmd_inv (snd (commitFarmCommandOnce c cmd env s))"
proof (cases "is_economic (cmd_Type cmd)")
  case True
  then show ?thesis
    using assms econ_effect_applied [of s cmd env]
    by (cases "snd (commitEconomicTx cmd env s) = s")
      (auto simp: commitFarmCommandOnce_def cmd_inv_def econ_inv_def farm_inv_def farms_ok_def)
next
  case False
  have "farm_inv (snd (commitFarmOnce c cmd env s))"
    using assms farm_once.inv_kept by (simp add: cmd_inv_def)
  with False assms farm_commit_frame [of s c cmd env] show ?thesis
    by (simp add: commitFarmCommandOnce_def cmd_inv_def econ_inv_def farm_inv_def coins_ok_def ledger_ok_def)
qed

interpretation cmd_once: durable_once cmd_inv "commitFarmCommandOnce c cmd" "cmd_applied cmd" for c cmd
proof (standard, goal_cases)
  case (1 s e)
  then show ?case by (rule cmd_inv_kept)
next
  case (2 s e)
  then show ?case
    using econ_effect_applied [of s cmd e] farm_once.replay [of s cmd c e]
    by (auto simp: commitFarmCommandOnce_def cmd_inv_def cmd_applied_def split: if_splits)
next
  case (3 s e)
  then show ?case
    using econ_effect_applied [of s cmd e] farm_once.effect_leaves_credential [of s c cmd e]
    by (auto simp: commitFarmCommandOnce_def cmd_inv_def cmd_applied_def)
next
  case (4 s e r)
  then show ?case
    using econ_success_applied [of s cmd e r] farm_once.success_means_applied [of s c cmd e r]
    by (auto simp: commitFarmCommandOnce_def cmd_inv_def cmd_applied_def split: if_splits)
qed

text \<open>The retried entry point, in an environment per attempt and an oracle for the waits.\<close>

definition commit_call :: "committer \<Rightarrow> command \<Rightarrow> (nat \<Rightarrow> go_error option) \<times> (nat \<Rightarrow> env) \<Rightarrow> db
    \<Rightarrow> (go_error + commit_result) \<times> db" where
  "commit_call c cmd e s = CommitFarmCommand (fst e) (snd e) c cmd s"

interpretation call_once: durable_once cmd_inv "commit_call c cmd" "cmd_applied cmd" for c cmd
proof (standard, goal_cases)
  case (1 s e)
  then show ?case unfolding commit_call_def CommitFarmCommand_def Let_def by (rule cmd_once.retry_inv)
next
  case (2 s e)
  then show ?case unfolding commit_call_def CommitFarmCommand_def Let_def by (rule cmd_once.retry_replay)
next
  case (3 s e)
  then show ?case unfolding commit_call_def CommitFarmCommand_def Let_def by (rule cmd_once.retry_effect)
next
  case (4 s e r)
  then show ?case unfolding commit_call_def CommitFarmCommand_def Let_def by (rule cmd_once.retry_success)
qed

section \<open>Properties\<close>

text \<open>C3: an economic transaction that takes effect moves exactly price times quantity, computed without
  overflow: the wallet changes by the amount the new ledger row records and stays in range, the
  items change by the quantity, and no other row or table changes.\<close>

theorem economic_commit_exact:
  assumes "snd (commitEconomicTx cmd env s) \<noteq> s" "is_economic (cmd_Type cmd)" "coins_ok s" "inventory_ok s"
  shows "\<exists>cfg b h iv. getCropConfig (cmd_CropID cmd) = Inr cfg
     \<and> 1 \<le> cmd_Quantity cmd \<and> cmd_Quantity cmd \<le> 10000
     \<and> wallets s (cmd_ActorUser cmd) = Some b \<and> binary16 (cmd_CmdID cmd) = Inr h
     \<and> ledger s (econ_key cmd h) = None
     \<and> (\<forall>k. qty iv k = quantity s k + econ_items cmd k)
     \<and> snd (commitEconomicTx cmd env s) = econ_after cmd cfg b h iv s
     \<and> coins_ok (snd (commitEconomicTx cmd env s)) \<and> inventory_ok (snd (commitEconomicTx cmd env s))"
  using assms
  by (rule economic_took_effect)
    (auto simp: econ_spec_def MaxEconomyQuantity_def quantity_def dest: inv_change_qty)

text \<open>C12: an economic command that asks for too much, for an unknown crop, or that the player cannot
  afford, changes nothing, and is an error unless it replays an earlier success.\<close>

theorem economic_rejections:
  assumes "is_economic (cmd_Type cmd)" "econ_inv s"
    and "cmd_Quantity cmd < 1 \<or> 10000 < cmd_Quantity cmd \<or> is_err (getCropConfig (cmd_CropID cmd))
       \<or> (\<exists>cfg b. getCropConfig (cmd_CropID cmd) = Inr cfg \<and> cmd_Type cmd = CmdPurchaseSeed
            \<and> wallets s (cmd_ActorUser cmd) = Some b \<and> b < SeedPrice cfg * cmd_Quantity cmd)
       \<or> (cmd_Type cmd = CmdSellCrop
            \<and> quantity s (crop_key (cmd_ActorUser cmd) (cmd_CropID cmd)) < cmd_Quantity cmd)"
  shows "snd (commitEconomicTx cmd env s) = s
    \<and> (econ_applied cmd s \<or> is_err (fst (commitEconomicTx cmd env s)))"
proof -
  have i: "coins_ok s" "inventory_ok s" using assms(2) by (simp_all add: econ_inv_def)
  have same: "snd (commitEconomicTx cmd env s) = s"
  proof (rule ccontr)
    assume "snd (commitEconomicTx cmd env s) \<noteq> s"
    from this assms(1) i show False
    proof (rule economic_took_effect)
      fix cfg b
      assume e: "getCropConfig (cmd_CropID cmd) = Inr cfg" "1 \<le> cmd_Quantity cmd"
        "cmd_Quantity cmd \<le> MaxEconomyQuantity" "econ_spec cmd cfg b s (snd (commitEconomicTx cmd env s))"
      then obtain iv where "inv_change (econ_items cmd) (inventory s) iv"
        by (auto simp: econ_spec_def)
      then have "inv_ok iv" "qty iv (crop_key (cmd_ActorUser cmd) (cmd_CropID cmd))
          = quantity s (crop_key (cmd_ActorUser cmd) (cmd_CropID cmd))
            + econ_items cmd (crop_key (cmd_ActorUser cmd) (cmd_CropID cmd))"
        using i(2) by (auto simp: inv_change_def inventory_ok_def quantity_def crop_key_def)
      moreover have "0 \<le> qty iv k" if "inv_ok iv" for k
        using that unfolding inv_ok_def qty_def by (metis opt_or_simps order_refl not_None_eq)
      ultimately have "0 \<le> quantity s (crop_key (cmd_ActorUser cmd) (cmd_CropID cmd))
          + econ_items cmd (crop_key (cmd_ActorUser cmd) (cmd_CropID cmd))"
        by metis
      then have "cmd_Type cmd = CmdSellCrop \<Longrightarrow>
          cmd_Quantity cmd \<le> quantity s (crop_key (cmd_ActorUser cmd) (cmd_CropID cmd))"
        by (simp add: econ_items_def)
      with assms(3) e show False
        by (auto simp: MaxEconomyQuantity_def econ_spec_def econ_delta_def)
    qed
  qed
  moreover have "econ_applied cmd s \<or> is_err (fst (commitEconomicTx cmd env s))"
    using econ_success_applied [OF assms(2) _ assms(1), of env] same by (auto simp: not_is_err)
  ultimately show ?thesis by blast
qed

type_synonym call_env = "(nat \<Rightarrow> go_error option) \<times> (nat \<Rightarrow> env)"

lemma econ_keeps_ledger:
  assumes "cmd_inv s" "ledger s k \<noteq> None"
  shows "ledger (snd (commitFarmCommandOnce c cmd env s)) k \<noteq> None"
proof (cases "is_economic (cmd_Type cmd)")
  case True
  have i: "coins_ok s" "inventory_ok s" using assms(1) by (simp_all add: cmd_inv_def econ_inv_def)
  show ?thesis
  proof (cases "snd (commitEconomicTx cmd env s) = s")
    case False
    from False True i show ?thesis
      by (rule economic_took_effect)
        (use True assms(2) in \<open>auto simp: commitFarmCommandOnce_def econ_spec_def econ_after_def\<close>)
  qed (use True assms(2) in \<open>simp add: commitFarmCommandOnce_def\<close>)
next
  case False
  then show ?thesis
    using assms farm_commit_frame [of s c cmd env]
    by (simp add: commitFarmCommandOnce_def cmd_inv_def farm_inv_def)
qed

lemma econ_keeps_receipts:
  assumes "cmd_inv s" "find_receipt (receipts s) u k \<noteq> None"
  shows "find_receipt (receipts (snd (commitFarmCommandOnce c cmd env s))) u k \<noteq> None"
proof (cases "is_economic (cmd_Type cmd)")
  case True
  then show ?thesis
    using assms econ_effect_applied [of s cmd env]
    by (cases "snd (commitEconomicTx cmd env s) = s") (auto simp: commitFarmCommandOnce_def cmd_inv_def)
next
  case False
  then show ?thesis
    using assms other_commit_keeps_receipt [of s u k c cmd env]
    by (simp add: commitFarmCommandOnce_def cmd_inv_def)
qed

lemma other_call_keeps:
  assumes "cmd_inv s" "cmd_applied cmd s" "is_economic (cmd_Type cmd) \<or> requiresCommandReceipt (cmd_Type cmd)"
  shows "cmd_inv (snd (commit_call c cmd' e s)) \<and> cmd_applied cmd (snd (commit_call c cmd' e s))"
  unfolding commit_call_def CommitFarmCommand_def Let_def
proof (rule retry_value_invariant [where P = "\<lambda>t. cmd_inv t \<and> cmd_applied cmd t"])
  fix n t
  assume t: "cmd_inv t \<and> cmd_applied cmd t"
  have "cmd_applied cmd (snd (commitFarmCommandOnce c cmd' (snd e n) t))"
  proof (cases "is_economic (cmd_Type cmd)")
    case True
    with t show ?thesis
      unfolding cmd_applied_def econ_applied_def by (metis econ_keeps_ledger)
  next
    case False
    with t assms(3) show ?thesis
      unfolding cmd_applied_def farm_applied_def by (simp add: econ_keeps_receipts)
  qed
  with t show "cmd_inv (snd (commitFarmCommandOnce c cmd' (snd e n) t))
    \<and> cmd_applied cmd (snd (commitFarmCommandOnce c cmd' (snd e n) t))"
    using cmd_inv_kept by blast
qed (use assms in blast)

section \<open>Witnesses\<close>

definition buy_command :: command where
  "buy_command = demo_command\<lparr>cmd_CmdID := ''0123456789abcdef0123456789ABCDEF'', cmd_Type := CmdPurchaseSeed,
     cmd_CropID := ''WHEAT'', cmd_Quantity := 12\<rparr>"

definition demo_call :: call_env where
  "demo_call = (\<lambda>_. None, \<lambda>n. if n = 1 then demo_env\<lparr>fault := (\<lambda>l. if l = ''set_wallet'' then Some (MySQLErr 1213) else None)\<rparr>
     else lost_ack_env)"

lemma demo_econ: "econ_inv demo_db" "cmd_inv demo_db"
proof -
  show "econ_inv demo_db"
    using demo_wf by (simp add: econ_inv_def wf_db_def ledger_ok_def demo_db_def empty_db_def)
  with demo_wf show "cmd_inv demo_db" by (simp add: cmd_inv_def)
qed

theorem economic_commit_exact_witness:
  "\<exists>cfg b h iv. getCropConfig (cmd_CropID buy_command) = Inr cfg
     \<and> wallets demo_db (cmd_ActorUser buy_command) = Some b
     \<and> (\<forall>k. qty iv k = quantity demo_db k + econ_items buy_command k)
     \<and> snd (commitEconomicTx buy_command lost_ack_env demo_db) = econ_after buy_command cfg b h iv demo_db"
proof -
  have "wallets (snd (commitEconomicTx buy_command lost_ack_env demo_db)) 7 = Some 380" by code_simp
  then have "snd (commitEconomicTx buy_command lost_ack_env demo_db) \<noteq> demo_db"
    by (auto simp: demo_db_def)
  moreover have "is_economic (cmd_Type buy_command)" by (simp add: buy_command_def is_economic_def)
  ultimately show ?thesis
    using economic_commit_exact [of buy_command lost_ack_env demo_db] demo_econ(1)
    unfolding econ_inv_def by blast
qed

theorem economic_rejections_witness:
  "snd (commitEconomicTx (buy_command\<lparr>cmd_Quantity := 10001\<rparr>) demo_env demo_db) = demo_db"
  using economic_rejections [of "buy_command\<lparr>cmd_Quantity := 10001\<rparr>" demo_db demo_env] demo_econ(1)
  by (simp add: buy_command_def is_economic_def)

end
