(* ===== verification/OutboxRelay.thy ===== *)
theory OutboxRelay
  imports Schema
begin

text \<open>
  internal/farm/infrastructure/outbox_relay.go and event_publisher.go: the relay that carries
  pending outbox rows to the message bus.  The world of the relay is a shard's database and the log
  of messages the broker has accepted.  kafka.Writer is third-party code: it is a parameter, and the
  contract \<^verbatim>\<open>event_publisher\<close> of the sources (a nil error means that the broker holds the message)
  is a locale.
\<close>

section \<open>Publishers\<close>

record message =
  msg_Topic :: string
  msg_Key :: string
  msg_Payload :: envelope

text \<open>One Publish call: whether the broker holds the message afterwards, and the reported error.\<close>

type_synonym send_result = "bool \<times> go_error option"

text \<open>ScanAndPublish tests for the optional batch interface, so a publisher is one or the other.
  A batch call reports a list of errors next to what the broker really stored.\<close>

datatype publisher =
    SinglePublisher "nat \<Rightarrow> message \<Rightarrow> send_result"
  | BatchPublisher "message list \<Rightarrow> bool list \<times> go_error option list"

definition mem_Publish :: "go_error option \<Rightarrow> message \<Rightarrow> send_result" where
  "mem_Publish configured m = (case configured of Some e \<Rightarrow> (False, Some e) | None \<Rightarrow> (True, None))"

text \<open>What kafka.Writer.WriteMessages returns: nil, one error per message, or one error for the call.\<close>

datatype write_result = WriteOK | WriteErrors "go_error option list" | WriteError go_error

definition kafka_PublishBatch ::
  "(message list \<Rightarrow> bool list \<times> write_result) \<Rightarrow> message list \<Rightarrow> bool list \<times> go_error option list" where
  "kafka_PublishBatch writeMessages messages =
     (if messages = [] then ([], [])
      else
        (let (stored, err) = writeMessages messages in
         (stored,
          (case err of
             WriteOK \<Rightarrow> replicate (length messages) None
           | WriteErrors es \<Rightarrow>
               if length es = length messages then es
               else replicate (length messages) (Some (PlainErr ''write''))
           | WriteError e \<Rightarrow> replicate (length messages) (Some e)))))"

section \<open>The relay\<close>

record relay =
  rl_workerID :: string
  rl_batchSize :: nat
  rl_maxRetry :: int
  rl_lockTTL :: duration
  rl_topic :: string

record relay_config =
  rcfg_BatchSize :: int
  rcfg_MaxRetry :: int
  rcfg_LockTTL :: duration
  rcfg_Topic :: string

definition NewOutboxRelay :: "string \<Rightarrow> relay_config \<Rightarrow> relay" where
  "NewOutboxRelay workerID cfg =
     \<lparr>rl_workerID = workerID,
      rl_batchSize = (if rcfg_BatchSize cfg > 0 then nat (rcfg_BatchSize cfg) else 50),
      rl_maxRetry = (if rcfg_MaxRetry cfg > 0 then rcfg_MaxRetry cfg else 5),
      rl_lockTTL = (if rcfg_LockTTL cfg > 0 then rcfg_LockTTL cfg else 30 * second),
      rl_topic = (if rcfg_Topic cfg \<noteq> '''' then rcfg_Topic cfg else ''farm-events'')\<rparr>"

definition backoffBase :: duration where "backoffBase = 5 * second"

text \<open>outboxRow: the columns a claim reads.\<close>

record claimed_row =
  cl_outboxID :: nat
  cl_eventID :: string
  cl_partitionKey :: string
  cl_eventType :: string
  cl_payload :: envelope
  cl_retryCount :: int

definition scan_row :: "outbox_row \<Rightarrow> claimed_row" where
  "scan_row r = \<lparr>cl_outboxID = ob_id r, cl_eventID = ob_event_id r, cl_partitionKey = ob_partition_key r,
     cl_eventType = ob_event_type r, cl_payload = ob_payload r, cl_retryCount = ob_retry r\<rparr>"

text \<open>UPDATE outbox_events SET f WHERE p.\<close>

definition update_outbox :: "(outbox_row \<Rightarrow> bool) \<Rightarrow> (outbox_row \<Rightarrow> outbox_row) \<Rightarrow> db \<Rightarrow> db" where
  "update_outbox p f s = s\<lparr>outbox := map (\<lambda>r. if p r then f r else r) (outbox s)\<rparr>"

definition unlock_row :: "outbox_status \<Rightarrow> outbox_row \<Rightarrow> outbox_row" where
  "unlock_row st r = r\<lparr>ob_status := st, ob_locked_by := None, ob_locked_until := None\<rparr>"

definition reclaimStale :: "env \<Rightarrow> gotime \<Rightarrow> (db, unit) tx" where
  "reclaimStale env now =
     stmt env ''reclaim'' (tx_modify (update_outbox
       (\<lambda>r. ob_status r = OPublishing \<and> (case ob_locked_until r of Some u \<Rightarrow> u < now | None \<Rightarrow> False))
       (unlock_row OPending)))"

text \<open>SELECT ... ORDER BY outbox_id LIMIT n FOR UPDATE SKIP LOCKED: \<^verbatim>\<open>skip\<close> are the rows another
  open transaction has locked.\<close>

definition due_rows :: "nat list \<Rightarrow> gotime \<Rightarrow> db \<Rightarrow> outbox_row list" where
  "due_rows skip now s =
     filter (\<lambda>r. ob_status r = OPending \<and> ob_available r \<le> now \<and> ob_id r \<notin> set skip) (outbox s)"

definition claim_body :: "relay \<Rightarrow> nat list \<Rightarrow> env \<Rightarrow> gotime \<Rightarrow> (db, claimed_row list ended) tx" where
  "claim_body r skip env now =
     tx_bind (stmt env ''select_pending'' (tx_get (\<lambda>s. take (rl_batchSize r) (due_rows skip now s)))) (\<lambda>rows.
       if rows = [] then tx_return (NoCommit [])
       else
         tx_seq (stmt env ''claim_update'' (tx_modify (update_outbox
             (\<lambda>x. ob_id x \<in> set (map ob_id rows))
             (\<lambda>x. x\<lparr>ob_status := OPublishing, ob_locked_by := Some (rl_workerID r),
                     ob_locked_until := Some (datetime3 (now + rl_lockTTL r))\<rparr>))))
           (tx_return (Committed (map scan_row rows))))"

definition claimBatch :: "relay \<Rightarrow> nat list \<Rightarrow> env \<Rightarrow> gotime \<Rightarrow> db \<Rightarrow> (go_error + claimed_row list) \<times> db" where
  "claimBatch r skip env now s = run_tx env (claim_body r skip env now) s"

type_synonym world = "db \<times> message list"

definition row_message :: "relay \<Rightarrow> claimed_row \<Rightarrow> message" where
  "row_message r row = \<lparr>msg_Topic = rl_topic r, msg_Key = cl_partitionKey row, msg_Payload = cl_payload row\<rparr>"

definition mark_published :: "env \<Rightarrow> claimed_row \<Rightarrow> gotime \<Rightarrow> (db, unit) tx" where
  "mark_published env row now =
     stmt env ''mark_published'' (tx_modify (update_outbox
       (\<lambda>x. ob_id x = cl_outboxID row)
       (\<lambda>x. (unlock_row OPublished x)\<lparr>ob_published_at := Some (datetime3 now)\<rparr>)))"

definition publishOne :: "relay \<Rightarrow> (message \<Rightarrow> send_result) \<Rightarrow> env \<Rightarrow> claimed_row \<Rightarrow> gotime
    \<Rightarrow> world \<Rightarrow> (go_error + unit) \<times> world" where
  "publishOne r send env row now w =
     (let (stored, err) = send (row_message r row);
          log = snd w @ (if stored then [row_message r row] else []) in
      case err of
        Some e \<Rightarrow> (Inl e, fst w, log)
      | None \<Rightarrow> (let (res, s') = run_auto env (mark_published env row now) (fst w) in (res, s', log)))"

definition markPublishedBatch :: "relay \<Rightarrow> env \<Rightarrow> claimed_row list \<Rightarrow> gotime \<Rightarrow> (db, nat) tx" where
  "markPublishedBatch r env rows now =
     stmt env ''mark_published_batch''
       (\<lambda>s. let p = (\<lambda>x. ob_status x = OPublishing \<and> ob_locked_by x = Some (rl_workerID r)
                        \<and> ob_id x \<in> set (map cl_outboxID rows)) in
            Inr (length (filter p (outbox s)),
                 update_outbox p (\<lambda>x. (unlock_row OPublished x)\<lparr>ob_published_at := Some (datetime3 now)\<rparr>) s))"

definition markRetryOrDead :: "relay \<Rightarrow> env \<Rightarrow> claimed_row \<Rightarrow> gotime \<Rightarrow> (db, unit) tx" where
  "markRetryOrDead r env row now =
     (let nextCount = i64 (cl_retryCount row + 1) in
      if nextCount > rl_maxRetry r
      then stmt env ''mark_dead'' (tx_modify (update_outbox (\<lambda>x. ob_id x = cl_outboxID row)
             (\<lambda>x. (unlock_row ODead x)\<lparr>ob_retry := nextCount\<rparr>)))
      else stmt env ''mark_retry'' (tx_modify (update_outbox (\<lambda>x. ob_id x = cl_outboxID row)
             (\<lambda>x. (unlock_row OPending x)\<lparr>ob_retry := nextCount,
                     ob_available := datetime3 (now + i64 (nextCount * backoffBase))\<rparr>))))"

text \<open>The environment of one scan: one for each database call, the rows locked elsewhere, and the
  clock reading.\<close>

record scan_env =
  se_now :: gotime
  se_reclaim :: env
  se_claim :: env
  se_skip :: "nat list"
  se_mark :: "nat \<Rightarrow> env"
  se_ack :: "nat \<Rightarrow> env"
  se_batch :: env

fun publish_rows :: "relay \<Rightarrow> (nat \<Rightarrow> message \<Rightarrow> send_result) \<Rightarrow> scan_env \<Rightarrow> nat \<Rightarrow> claimed_row list
    \<Rightarrow> world \<Rightarrow> nat \<times> world" where
  "publish_rows r send se i [] w = (0, w)"
| "publish_rows r send se i (row # rows) w =
     (case publishOne r (send i) (se_mark se i) row (se_now se) w of
        (Inr _, w') \<Rightarrow>
          (let (published, w'') = publish_rows r send se (Suc i) rows w' in (Suc published, w''))
      | (Inl _, w') \<Rightarrow>
          publish_rows r send se (Suc i) rows
            (snd (run_auto (se_ack se i) (markRetryOrDead r (se_ack se i) row (se_now se)) (fst w')), snd w'))"

text \<open>The failed rows of a batch are requeued in order.\<close>

fun requeue_failed :: "relay \<Rightarrow> scan_env \<Rightarrow> nat \<Rightarrow> (claimed_row \<times> go_error option) list \<Rightarrow> db \<Rightarrow> db" where
  "requeue_failed r se i [] s = s"
| "requeue_failed r se i ((row, None) # rest) s = requeue_failed r se (Suc i) rest s"
| "requeue_failed r se i ((row, Some _) # rest) s =
     requeue_failed r se (Suc i) rest
       (snd (run_auto (se_ack se i) (markRetryOrDead r (se_ack se i) row (se_now se)) s))"

definition stored_messages :: "message list \<Rightarrow> bool list \<Rightarrow> message list" where
  "stored_messages ms stored = map fst (filter snd (zip ms stored))"

definition publishClaimedBatch :: "relay \<Rightarrow> (message list \<Rightarrow> bool list \<times> go_error option list) \<Rightarrow> scan_env
    \<Rightarrow> claimed_row list \<Rightarrow> world \<Rightarrow> (go_error + nat) \<times> world" where
  "publishClaimedBatch r sendAll se rows w =
     (let messages = map (row_message r) rows;
          (stored, results) = sendAll messages;
          log = snd w @ stored_messages messages stored in
      if length results \<noteq> length rows then (Inl (PlainErr ''publish_batch''), fst w, log)
      else
        (let succeeded = map fst (filter (\<lambda>x. snd x = None) (zip rows results));
             s1 = requeue_failed r se 0 (zip rows results) (fst w) in
         if succeeded = [] then (Inr 0, s1, log)
         else
           (case run_auto (se_batch se) (markPublishedBatch r (se_batch se) succeeded (se_now se)) s1 of
              (Inl e, s2) \<Rightarrow> (Inl e, s2, log)
            | (Inr updated, s2) \<Rightarrow>
                if updated \<noteq> length succeeded then (Inl (PlainErr ''mark_published_batch''), s2, log)
                else (Inr (length succeeded), s2, log))))"

definition ScanAndPublish :: "relay \<Rightarrow> publisher \<Rightarrow> scan_env \<Rightarrow> world \<Rightarrow> (go_error + nat) \<times> world" where
  "ScanAndPublish r pub se w =
     (case run_auto (se_reclaim se) (reclaimStale (se_reclaim se) (se_now se)) (fst w) of
        (Inl e, s1) \<Rightarrow> (Inl e, s1, snd w)
      | (Inr _, s1) \<Rightarrow>
          (case claimBatch r (se_skip se) (se_claim se) (se_now se) s1 of
             (Inl e, s2) \<Rightarrow> (Inl e, s2, snd w)
           | (Inr rows, s2) \<Rightarrow>
               if rows = [] then (Inr 0, s2, snd w)
               else
                 (case pub of
                    BatchPublisher sendAll \<Rightarrow> publishClaimedBatch r sendAll se rows (s2, snd w)
                  | SinglePublisher send \<Rightarrow>
                      (let (published, w') = publish_rows r send se 0 rows (s2, snd w)
                       in (Inr published, w')))))"

end
