(* ===== verification/OutboxRelayProps.thy ===== *)
theory OutboxRelayProps
  imports OutboxRelay
begin

text \<open>
  Properties of the relay: the contract of publishers, the step relation of several concurrent
  workers with its invariants, the refinement of ScanAndPublish to runs of steps, and what a scan
  does when nothing fails.
\<close>

section \<open>The contract of publishers\<close>

text \<open>\<^verbatim>\<open>honest\<close>: a nil error means that the broker holds the message.\<close>

definition honest :: "publisher \<Rightarrow> bool" where
  "honest pub \<longleftrightarrow>
     (case pub of
        SinglePublisher send \<Rightarrow> \<forall>i m. snd (send i m) = None \<longrightarrow> fst (send i m)
      | BatchPublisher sendAll \<Rightarrow>
          \<forall>ms. length (fst (sendAll ms)) = length ms
             \<and> (length (snd (sendAll ms)) = length ms \<longrightarrow>
                 (\<forall>i<length ms. snd (sendAll ms) ! i = None \<longrightarrow> fst (sendAll ms) ! i)))"

text \<open>The documented behaviour of kafka.Writer.WriteMessages: nil when everything was written; a
  WriteErrors value has a nil entry for each message that was written.\<close>

definition writer_ok :: "(message list \<Rightarrow> bool list \<times> write_result) \<Rightarrow> bool" where
  "writer_ok w \<longleftrightarrow>
     (\<forall>ms. length (fst (w ms)) = length ms
        \<and> (snd (w ms) = WriteOK \<longrightarrow> fst (w ms) = replicate (length ms) True)
        \<and> (\<forall>es i. snd (w ms) = WriteErrors es \<longrightarrow> length es = length ms \<longrightarrow> i < length ms
              \<longrightarrow> es ! i = None \<longrightarrow> fst (w ms) ! i))"

locale event_publisher =
  fixes pub :: publisher
  assumes nil_means_stored: "honest pub"

interpretation mem_publisher: event_publisher "SinglePublisher (\<lambda>_. mem_Publish configured)" for configured
  by unfold_locales (simp add: honest_def mem_Publish_def split: option.split)

lemma kafka_honest:
  assumes "writer_ok w"
  shows "honest (BatchPublisher (kafka_PublishBatch w))"
proof -
  have "length (fst (kafka_PublishBatch w ms)) = length ms
     \<and> (\<forall>i<length ms. snd (kafka_PublishBatch w ms) ! i = None \<longrightarrow> fst (kafka_PublishBatch w ms) ! i)" for ms
    using assms [unfolded writer_ok_def, rule_format, of ms]
    by (auto simp: kafka_PublishBatch_def split: prod.splits write_result.splits)
  then show ?thesis by (simp add: honest_def)
qed

section \<open>Updates of the table\<close>

lemma outbox_update [db_simps]: "outbox (update_outbox p f s) = map (\<lambda>r. if p r then f r else r) (outbox s)"
  by (simp add: update_outbox_def)

text \<open>The columns no relay statement writes.\<close>

definition ident :: "outbox_row \<Rightarrow> nat \<times> string \<times> string \<times> int \<times> string \<times> string \<times> envelope" where
  "ident r = (ob_id r, ob_event_id r, ob_aggregate_type r, ob_aggregate_id r, ob_partition_key r,
     ob_event_type r, ob_payload r)"

definition keeps_ident :: "(outbox_row \<Rightarrow> outbox_row) \<Rightarrow> bool" where
  "keeps_ident f \<longleftrightarrow> (\<forall>r. ident (f r) = ident r)"

lemma ident_update: "keeps_ident f \<Longrightarrow> map ident (outbox (update_outbox p f s)) = map ident (outbox s)"
  by (simp add: update_outbox_def keeps_ident_def)

lemma keeps_ident_unlock [simp]: "keeps_ident (unlock_row st)"
  by (simp add: keeps_ident_def ident_def unlock_row_def)

text \<open>The effect of each statement, whatever the environment does.\<close>

definition requeue_row :: "relay \<Rightarrow> claimed_row \<Rightarrow> gotime \<Rightarrow> outbox_row \<Rightarrow> outbox_row" where
  "requeue_row r row now x =
     (let n = i64 (cl_retryCount row + 1) in
      if n > rl_maxRetry r then (unlock_row ODead x)\<lparr>ob_retry := n\<rparr>
      else (unlock_row OPending x)\<lparr>ob_retry := n, ob_available := datetime3 (now + i64 (n * backoffBase))\<rparr>)"

definition publish_row :: "gotime \<Rightarrow> outbox_row \<Rightarrow> outbox_row" where
  "publish_row now x = (unlock_row OPublished x)\<lparr>ob_published_at := Some (datetime3 now)\<rparr>"

definition claim_row :: "relay \<Rightarrow> gotime \<Rightarrow> outbox_row \<Rightarrow> outbox_row" where
  "claim_row r now x = x\<lparr>ob_status := OPublishing, ob_locked_by := Some (rl_workerID r),
     ob_locked_until := Some (datetime3 (now + rl_lockTTL r))\<rparr>"

definition expired :: "gotime \<Rightarrow> outbox_row \<Rightarrow> bool" where
  "expired now r \<longleftrightarrow> ob_status r = OPublishing \<and> (case ob_locked_until r of Some u \<Rightarrow> u < now | None \<Rightarrow> False)"

lemmas row_defs = requeue_row_def publish_row_def claim_row_def unlock_row_def Let_def

lemma reclaim_effect: "reclaimStale env now s = Inr (u, s') \<Longrightarrow> s' = update_outbox (expired now) (unlock_row OPending) s"
  by (simp add: reclaimStale_def tx_inv expired_def [abs_def])

lemma mark_published_effect:
  "mark_published env row now s = Inr (u, s') \<Longrightarrow>
     s' = update_outbox (\<lambda>x. ob_id x = cl_outboxID row) (publish_row now) s"
  by (simp add: mark_published_def tx_inv publish_row_def [abs_def])

lemma requeue_effect:
  "markRetryOrDead r env row now s = Inr (u, s') \<Longrightarrow>
     s' = update_outbox (\<lambda>x. ob_id x = cl_outboxID row) (requeue_row r row now) s"
  by (auto simp: markRetryOrDead_def tx_inv requeue_row_def [abs_def] Let_def split: if_splits)

definition batch_hit :: "relay \<Rightarrow> claimed_row list \<Rightarrow> outbox_row \<Rightarrow> bool" where
  "batch_hit r rows x \<longleftrightarrow> ob_status x = OPublishing \<and> ob_locked_by x = Some (rl_workerID r)
     \<and> ob_id x \<in> set (map cl_outboxID rows)"

lemma mark_batch_effect:
  "markPublishedBatch r env rows now s = Inr (n, s') \<Longrightarrow>
     s' = update_outbox (batch_hit r rows) (publish_row now) s \<and> n = length (filter (batch_hit r rows) (outbox s))"
  by (simp add: markPublishedBatch_def tx_inv publish_row_def [abs_def] batch_hit_def [abs_def] Let_def)

lemma claim_effect:
  assumes "claim_body r skip env now s = Inr (Committed rows, s')"
  shows "\<exists>xs. xs = take (rl_batchSize r) (due_rows skip now s) \<and> xs \<noteq> [] \<and> rows = map scan_row xs
    \<and> s' = update_outbox (\<lambda>x. ob_id x \<in> set (map ob_id xs)) (claim_row r now) s"
  using assms by (auto simp: claim_body_def tx_inv claim_row_def [abs_def] split: if_splits)

lemma claim_ok:
  assumes "claimBatch r skip env now s = (Inr rows, s')"
  shows "rows = [] \<and> s' = s
    \<or> (\<exists>xs. xs = take (rl_batchSize r) (due_rows skip now s) \<and> rows = map scan_row xs
        \<and> s' = update_outbox (\<lambda>x. ob_id x \<in> set (map ob_id xs)) (claim_row r now) s)"
proof -
  from run_tx_ok [OF assms [unfolded claimBatch_def]] show ?thesis
  proof
    assume "claim_body r skip env now s = Inr (Committed rows, s')"
    from claim_effect [OF this] show ?thesis by blast
  next
    assume "\<exists>t. claim_body r skip env now s = Inr (NoCommit rows, t) \<and> s' = s"
    then show ?thesis by (auto simp: claim_body_def tx_inv split: if_splits)
  qed
qed

lemma claim_any:
  assumes "snd (claimBatch r skip env now s) \<noteq> s"
  shows "\<exists>xs. xs = take (rl_batchSize r) (due_rows skip now s)
    \<and> snd (claimBatch r skip env now s) = update_outbox (\<lambda>x. ob_id x \<in> set (map ob_id xs)) (claim_row r now) s"
  using assms unfolding claimBatch_def
  by (cases rule: run_tx_cases [of env "claim_body r skip env now" s]) (auto dest: claim_effect)

lemma keeps_ident_rows [simp]:
  "keeps_ident (requeue_row r row now)" "keeps_ident (publish_row now)" "keeps_ident (claim_row r now)"
  by (simp_all add: keeps_ident_def ident_def row_defs)

section \<open>Several workers\<close>

text \<open>
  What a worker holds between its statements: a claimed row and how far it is.  A step of the system
  is one statement or one send of some worker, the death of a worker (its hands are gone), or the
  insertion of an event by a business transaction.  Every database step may fail, or be carried out
  with the acknowledgement lost.
\<close>

datatype phase = InHand | Sent | SendFailed

type_synonym hand = "relay \<times> claimed_row \<times> gotime \<times> phase"
type_synonym system = "db \<times> message list \<times> hand set"

inductive relay_step :: "system \<Rightarrow> system \<Rightarrow> bool" where
  reclaim: "relay_step (s, l, h) (snd (run_auto env (reclaimStale env now) s), l, h)"
| claim: "claimBatch r skip env now s = (Inr rows, s') \<Longrightarrow>
    relay_step (s, l, h) (s', l, h \<union> (\<lambda>row. (r, row, now, InHand)) ` set rows)"
| claim_failed: "claimBatch r skip env now s = (Inl e, s') \<Longrightarrow> relay_step (s, l, h) (s', l, h)"
| send_ok: "(r, row, now, InHand) \<in> h \<Longrightarrow>
    relay_step (s, l, h)
      (s, l @ [row_message r row], h - {(r, row, now, InHand)} \<union> {(r, row, now, Sent)})"
| send_error: "(r, row, now, InHand) \<in> h \<Longrightarrow> ms = [] \<or> ms = [row_message r row] \<Longrightarrow>
    relay_step (s, l, h) (s, l @ ms, h - {(r, row, now, InHand)} \<union> {(r, row, now, SendFailed)})"
| mark: "(r, row, now, Sent) \<in> h \<Longrightarrow> run_auto env (mark_published env row now) s = (Inr u, s') \<Longrightarrow>
    relay_step (s, l, h) (s', l, h - {(r, row, now, Sent)})"
| mark_failed: "(r, row, now, Sent) \<in> h \<Longrightarrow> run_auto env (mark_published env row now) s = (Inl e, s') \<Longrightarrow>
    relay_step (s, l, h) (s', l, h - {(r, row, now, Sent)} \<union> {(r, row, now, SendFailed)})"
| mark_batch: "(\<lambda>row. (r, row, now, Sent)) ` set rows \<subseteq> h \<Longrightarrow>
    relay_step (s, l, h) (snd (run_auto env (markPublishedBatch r env rows now) s), l,
      h - (\<lambda>row. (r, row, now, Sent)) ` set rows)"
| requeue: "(r, row, now, SendFailed) \<in> h \<Longrightarrow>
    relay_step (s, l, h) (snd (run_auto env (markRetryOrDead r env row now) s), l,
      h - {(r, row, now, SendFailed)})"
| crash: "h' \<subseteq> h \<Longrightarrow> relay_step (s, l, h) (s, l, h')"
| insert: "insert_outbox_row x s = Inr (u, s') \<Longrightarrow> ob_status x = OPending \<Longrightarrow> ob_retry x = 0 \<Longrightarrow>
    relay_step (s, l, h) (s', l, h)"

section \<open>Invariants\<close>

definition message_of :: "string \<Rightarrow> outbox_row \<Rightarrow> message" where
  "message_of topic x = \<lparr>msg_Topic = topic, msg_Key = ob_partition_key x, msg_Payload = ob_payload x\<rparr>"

definition row_sent :: "message list \<Rightarrow> outbox_row \<Rightarrow> bool" where
  "row_sent l x \<longleftrightarrow> (\<exists>topic. message_of topic x \<in> set l)"

definition reads_row :: "claimed_row \<Rightarrow> outbox_row \<Rightarrow> bool" where
  "reads_row c x \<longleftrightarrow> cl_outboxID c = ob_id x \<and> cl_partitionKey c = ob_partition_key x \<and> cl_payload c = ob_payload x"

text \<open>Every hand belongs to a row of the table, a hand past its send has its message in the log, and a
  published row has its message in the log.\<close>

definition hand_ok :: "db \<Rightarrow> message list \<Rightarrow> hand \<Rightarrow> bool" where
  "hand_ok s l = (\<lambda>(r, row, now, ph). (\<exists>x\<in>set (outbox s). reads_row row x)
     \<and> (ph = Sent \<longrightarrow> row_message r row \<in> set l))"

definition system_ok :: "system \<Rightarrow> bool" where
  "system_ok = (\<lambda>(s, l, h). outbox_ok s \<and> (\<forall>x\<in>set (outbox s). ob_status x = OPublished \<longrightarrow> row_sent l x)
     \<and> (\<forall>d\<in>h. hand_ok s l d))"

lemma row_message_of: "reads_row row x \<Longrightarrow> row_message r row = message_of (rl_topic r) x"
  by (simp add: reads_row_def row_message_def message_of_def)

lemma row_sent_append: "row_sent l x \<Longrightarrow> row_sent (l @ m) x"
  by (auto simp: row_sent_def)

lemma hand_ok_append: "hand_ok s l d \<Longrightarrow> hand_ok s (l @ m) d"
  by (auto simp: hand_ok_def)

text \<open>A statement of the relay rewrites rows without touching their identity.\<close>

lemma update_keeps_outbox_ok:
  assumes "keeps_ident f" "outbox_ok s"
  shows "outbox_ok (update_outbox p f s)"
proof -
  have *: "map ob_id (outbox t) = map fst (map ident (outbox t))"
    "map ob_event_id (outbox t) = map (fst \<circ> snd) (map ident (outbox t))" for t :: db
    by (simp_all add: ident_def comp_def)
  show ?thesis using assms(2) unfolding outbox_ok_def * ident_update [OF assms(1)] .
qed

lemma ident_eq:
  assumes "keeps_ident f"
  shows "ob_id (f x) = ob_id x" "ob_partition_key (f x) = ob_partition_key x" "ob_payload (f x) = ob_payload x"
  using assms by (simp_all add: keeps_ident_def ident_def)

lemma update_keeps_hand:
  assumes "keeps_ident f" "hand_ok s l d"
  shows "hand_ok (update_outbox p f s) l d"
proof -
  obtain r row now ph where d: "d = (r, row, now, ph)" by (cases d)
  obtain x where x: "x \<in> set (outbox s)" "reads_row row x" using assms(2) d by (auto simp: hand_ok_def)
  have "(if p x then f x else x) \<in> set (outbox (update_outbox p f s))"
    using x(1) unfolding outbox_update set_map by (rule imageI)
  moreover have "reads_row row (if p x then f x else x)"
    using x(2) ident_eq [OF assms(1)] by (simp add: reads_row_def)
  ultimately show ?thesis using assms(2) d unfolding hand_ok_def by auto
qed

lemma row_sent_ident: "keeps_ident f \<Longrightarrow> row_sent l (f x) = row_sent l x"
  by (simp add: row_sent_def message_of_def ident_eq)

text \<open>Statements that publish nothing.\<close>

lemma update_ok:
  assumes "keeps_ident f" "system_ok (s, l, h)"
    and "\<And>x. x \<in> set (outbox s) \<Longrightarrow> p x \<Longrightarrow> ob_status (f x) = OPublished \<Longrightarrow> row_sent l x"
  shows "system_ok (update_outbox p f s, l, h)"
  unfolding system_ok_def prod.case
proof (intro conjI ballI impI)
  fix y assume y: "y \<in> set (outbox (update_outbox p f s))" "ob_status y = OPublished"
  then obtain x where x: "x \<in> set (outbox s)" "y = (if p x then f x else x)"
    by (auto simp: outbox_update)
  show "row_sent l y"
    using x y(2) assms(2,3) row_sent_ident [OF assms(1)]
    by (cases "p x") (auto simp: system_ok_def)
qed (use assms update_keeps_outbox_ok update_keeps_hand in \<open>auto simp: system_ok_def\<close>)

lemma system_ok_hands: "system_ok (s, l, h) \<Longrightarrow> h' \<subseteq> h \<Longrightarrow> system_ok (s, l, h')"
  by (auto simp: system_ok_def)

lemma unpublished_simps [simp]:
  "ob_status (unlock_row st x) = st" "ob_status (claim_row r now x) = OPublishing"
  "ob_status (requeue_row r row now x) \<noteq> OPublished" "ob_status (publish_row now x) = OPublished"
  by (simp_all add: row_defs)

lemma run_update_ok:
  assumes "system_ok (s, l, h)" "keeps_ident f"
    and "\<And>a s'. m s = Inr (a, s') \<Longrightarrow> s' = update_outbox p f s"
    and "\<And>x. x \<in> set (outbox s) \<Longrightarrow> p x \<Longrightarrow> ob_status (f x) = OPublished \<Longrightarrow> row_sent l x"
  shows "system_ok (snd (run_auto env m s), l, h)"
proof (cases rule: run_auto_cases [of env m s])
  case unchanged
  with assms(1) show ?thesis by simp
next
  case (applied a s')
  have "system_ok (update_outbox p f s, l, h)" using assms(2,1,4) by (rule update_ok)
  with applied assms(3) [OF applied(1)] show ?thesis by simp
qed

lemma claim_hand_ok:
  assumes "x \<in> set (take n (due_rows skip now s))" "keeps_ident f"
  shows "hand_ok (update_outbox p f s) l (r, scan_row x, now', InHand)"
proof -
  have "x \<in> set (outbox s)" using assms(1) set_take_subset by (fastforce simp: due_rows_def)
  then have "hand_ok s l (r, scan_row x, now', InHand)"
    by (auto simp: hand_ok_def reads_row_def scan_row_def)
  then show ?thesis using update_keeps_hand [OF assms(2)] by blast
qed

lemma claim_system_ok:
  assumes "system_ok (s, l, h)"
  shows "system_ok (snd (claimBatch r skip env now s), l, h)"
proof (cases "snd (claimBatch r skip env now s) = s")
  case False
  then show ?thesis using claim_any [OF False] update_ok [OF keeps_ident_rows(3) assms] by auto
qed (use assms in simp)

lemma sent_row:
  assumes "system_ok (s, l, h)" "(r, row, now, Sent) \<in> h" "x \<in> set (outbox s)" "ob_id x = cl_outboxID row"
  shows "row_sent l x"
proof -
  obtain y where y: "y \<in> set (outbox s)" "reads_row row y" "row_message r row \<in> set l"
    using assms(1,2) by (auto simp: system_ok_def hand_ok_def)
  have "outbox_ok s" using assms(1) by (simp add: system_ok_def)
  then have "x = y" using assms(3,4) y unfolding outbox_ok_def reads_row_def
    by (auto simp: distinct_map dest: inj_onD)
  then show ?thesis using y row_message_of unfolding row_sent_def by metis
qed

lemma relay_step_keeps_ok:
  assumes "relay_step w w'" "system_ok w"
  shows "system_ok w'"
  using assms
proof (induction rule: relay_step.induct)
  case (reclaim s l h env now)
  show ?case
    by (rule run_update_ok [OF reclaim keeps_ident_unlock reclaim_effect]) auto
next
  case (claim r skip env now s rows s' l h)
  have "system_ok (s', l, h)" using claim_system_ok [OF claim(2), of r skip env now] claim(1) by simp
  moreover have "hand_ok s' l (r, row, now, InHand)" if "row \<in> set rows" for row
    using claim_ok [OF claim(1)] that claim_hand_ok [OF _ keeps_ident_rows(3)] by auto
  ultimately show ?case by (auto simp: system_ok_def)
next
  case (claim_failed r skip env now s e s' l h)
  then show ?case using claim_system_ok [of s l h r skip env now] by simp
next
  case (send_ok r row now h s l)
  then have "hand_ok s (l @ [row_message r row]) (r, row, now, Sent)"
    by (auto simp: system_ok_def hand_ok_def)
  with send_ok(2) show ?case
    using row_sent_append hand_ok_append unfolding system_ok_def by (auto 0 3)
next
  case (send_error r row now h ms s l)
  then have "hand_ok s (l @ ms) (r, row, now, SendFailed)"
    by (auto simp: system_ok_def hand_ok_def)
  with send_error(3) show ?case
    using row_sent_append hand_ok_append unfolding system_ok_def by (auto 0 3)
next
  case (mark r row now h env s u s' l)
  have "system_ok (snd (run_auto env (mark_published env row now) s), l, h)"
    by (rule run_update_ok [OF mark(3) keeps_ident_rows(2) mark_published_effect])
      (use sent_row [OF mark(3,1)] in auto)
  with mark(2) show ?case by (auto intro: system_ok_hands)
next
  case (mark_failed r row now h env s e s' l)
  have "system_ok (snd (run_auto env (mark_published env row now) s), l, h)"
    by (rule run_update_ok [OF mark_failed(3) keeps_ident_rows(2) mark_published_effect])
      (use sent_row [OF mark_failed(3,1)] in auto)
  then have s': "system_ok (s', l, h)" using mark_failed(2) by simp
  then have "hand_ok s' l (r, row, now, SendFailed)"
    using mark_failed(1) by (auto simp: system_ok_def hand_ok_def)
  with s' show ?case by (auto simp: system_ok_def)
next
  case (mark_batch r now rows h s l env)
  have "system_ok (snd (run_auto env (markPublishedBatch r env rows now) s), l, h)"
    by (rule run_update_ok [OF mark_batch(2) keeps_ident_rows(2) conjunct1 [OF mark_batch_effect]])
      (use sent_row [OF mark_batch(2)] mark_batch(1) in \<open>auto simp: batch_hit_def\<close>)
  then show ?case by (auto intro: system_ok_hands)
next
  case (requeue r row now h s l env)
  have "system_ok (snd (run_auto env (markRetryOrDead r env row now) s), l, h)"
    by (rule run_update_ok [OF requeue(2) keeps_ident_rows(1) requeue_effect]) auto
  then show ?case by (auto intro: system_ok_hands)
next
  case (crash h' h s l)
  then show ?case by (blast intro: system_ok_hands)
next
  case (insert x s u s' l h)
  have 1: "outbox_ok s'" using insert(1,4) insert_outbox_row_ok by (auto simp: system_ok_def)
  have 2: "outbox s' = outbox s @ [x\<lparr>ob_id := next_outbox_id s\<rparr>]" using insert(1) by (simp add: tx_inv)
  have "hand_ok s' l d" if "hand_ok s l d" for d
    using that 2 by (auto simp: hand_ok_def)
  with 1 2 insert(2,4) show ?case by (auto simp: system_ok_def)
qed

section \<open>A scan is a run of steps\<close>

definition others :: "relay \<Rightarrow> hand set \<Rightarrow> hand set" where
  "others r h = {d \<in> h. fst d \<noteq> r}"

lemma others_simps [simp]:
  "others r (h \<union> {(r, x)}) = others r h" "others r (insert (r, x) h) = others r h"
  "others r (h - {(r, x)}) = others r h" "others r (h - (\<lambda>y. (r, g y)) ` A) = others r h"
  "others r (h \<union> (\<lambda>y. (r, g y)) ` A) = others r h"
  by (auto simp: others_def)

text \<open>From one world to another by steps that leave the other workers' hands alone.\<close>

definition reaches :: "relay \<Rightarrow> world \<Rightarrow> hand set \<Rightarrow> world \<Rightarrow> bool" where
  "reaches r w h w' \<longleftrightarrow>
     (\<exists>h'. relay_step\<^sup>*\<^sup>* (fst w, snd w, h) (fst w', snd w', h') \<and> others r h' = others r h)"

lemma reaches_refl: "reaches r w h w"
  unfolding reaches_def by blast

lemma reaches_step:
  assumes "relay_step (s, l, h) (s1, l1, h1)" "others r h1 = others r h" "reaches r (s1, l1) h1 w'"
  shows "reaches r (s, l) h w'"
proof -
  obtain h' where "relay_step\<^sup>*\<^sup>* (s1, l1, h1) (fst w', snd w', h')" "others r h' = others r h1"
    using assms(3) unfolding reaches_def by auto
  with converse_rtranclp_into_rtranclp [of relay_step, OF assms(1) this(1)] assms(2)
  show ?thesis unfolding reaches_def by auto
qed

lemma reaches_steps:
  assumes "relay_step\<^sup>*\<^sup>* (s, l, h) (s1, l1, h1)" "others r h1 = others r h" "reaches r (s1, l1) h1 w'"
  shows "reaches r (s, l) h w'"
proof -
  obtain h' where "relay_step\<^sup>*\<^sup>* (s1, l1, h1) (fst w', snd w', h')" "others r h' = others r h1"
    using assms(3) unfolding reaches_def by auto
  with rtranclp_trans [OF assms(1) this(1)] assms(2) show ?thesis unfolding reaches_def by auto
qed

lemma publish_rows_steps:
  assumes "honest (SinglePublisher send)" "distinct rows"
    "(\<lambda>row. (r, row, se_now se, InHand)) ` set rows \<subseteq> h"
  shows "reaches r w h (snd (publish_rows r send se i rows w))"
  using assms(2,3)
proof (induction rows arbitrary: i w h)
  case (Cons row rows)
  obtain s l where w: "w = (s, l)" by (cases w)
  obtain b err where send: "send i (row_message r row) = (b, err)" by (cases "send i (row_message r row)")
  let ?me = "\<lambda>ph. (r, row, se_now se, ph)"
  let ?ack = "\<lambda>t. snd (run_auto (se_ack se i) (markRetryOrDead r (se_ack se i) row (se_now se)) t)"
  have mine: "?me InHand \<in> h" using Cons.prems(2) by simp
  have IH: "reaches r w' h' (snd (publish_rows r send se (Suc i) rows w'))"
    if "h - {?me InHand} \<subseteq> h' \<union> {?me SendFailed, ?me Sent}" for w' h'
    by (rule Cons.IH) (use that Cons.prems in auto)
  show ?case
  proof (cases err)
    case (Some e)
    let ?l = "l @ (if b then [row_message r row] else [])"
    let ?h = "h - {?me InHand} \<union> {?me SendFailed}"
    have 1: "relay_step (s, l, h) (s, ?l, ?h)"
      using mine by (rule relay_step.send_error) simp
    have 2: "relay_step (s, ?l, ?h) (?ack s, ?l, ?h - {?me SendFailed})"
      by (rule relay_step.requeue) simp
    have 3: "reaches r (?ack s, ?l) (?h - {?me SendFailed})
        (snd (publish_rows r send se (Suc i) rows (?ack s, ?l)))"
      by (rule IH) auto
    have "reaches r (s, ?l) ?h (snd (publish_rows r send se (Suc i) rows (?ack s, ?l)))"
      using 2 _ 3 by (rule reaches_step) simp
    with 1 _ have "reaches r (s, l) h (snd (publish_rows r send se (Suc i) rows (?ack s, ?l)))"
      by (rule reaches_step) simp
    then show ?thesis by (simp add: w send Some publishOne_def Let_def)
  next
    case None
    then have b: "b" using assms(1) send unfolding honest_def publisher.case
      by (metis fst_conv snd_conv)
    let ?l = "l @ [row_message r row]"
    let ?h = "h - {?me InHand} \<union> {?me Sent}"
    have 1: "relay_step (s, l, h) (s, ?l, ?h)" using mine by (rule relay_step.send_ok)
    obtain res s' where mark: "run_auto (se_mark se i) (mark_published (se_mark se i) row (se_now se)) s = (res, s')"
      by (cases "run_auto (se_mark se i) (mark_published (se_mark se i) row (se_now se)) s")
    show ?thesis
    proof (cases res)
      case (Inr u)
      have 2: "relay_step (s, ?l, ?h) (s', ?l, ?h - {?me Sent})"
        by (rule relay_step.mark) (use mark Inr in auto)
      have 3: "reaches r (s', ?l) (?h - {?me Sent}) (snd (publish_rows r send se (Suc i) rows (s', ?l)))"
        by (rule IH) auto
      have "reaches r (s, ?l) ?h (snd (publish_rows r send se (Suc i) rows (s', ?l)))"
        using 2 _ 3 by (rule reaches_step) simp
      with 1 _ have "reaches r (s, l) h (snd (publish_rows r send se (Suc i) rows (s', ?l)))"
        by (rule reaches_step) simp
      then show ?thesis using b by (simp add: w send None publishOne_def Let_def mark Inr case_prod_unfold)
    next
      case (Inl e)
      let ?g = "?h - {?me Sent} \<union> {?me SendFailed}"
      have 2: "relay_step (s, ?l, ?h) (s', ?l, ?g)"
        by (rule relay_step.mark_failed) (use mark Inl in auto)
      have 3: "relay_step (s', ?l, ?g) (?ack s', ?l, ?g - {?me SendFailed})"
        by (rule relay_step.requeue) simp
      have 4: "reaches r (?ack s', ?l) (?g - {?me SendFailed})
          (snd (publish_rows r send se (Suc i) rows (?ack s', ?l)))"
        by (rule IH) auto
      have "reaches r (s', ?l) ?g (snd (publish_rows r send se (Suc i) rows (?ack s', ?l)))"
        using 3 _ 4 by (rule reaches_step) simp
      with 2 _ have "reaches r (s, ?l) ?h (snd (publish_rows r send se (Suc i) rows (?ack s', ?l)))"
        by (rule reaches_step) simp
      with 1 _ have "reaches r (s, l) h (snd (publish_rows r send se (Suc i) rows (?ack s', ?l)))"
        by (rule reaches_step) simp
      then show ?thesis using b by (simp add: w send None publishOne_def Let_def mark Inl)
    qed
  qed
qed (simp add: reaches_refl)

text \<open>The sends of a batch call, as the broker saw them.\<close>

definition sent_phase :: "go_error option \<Rightarrow> phase" where
  "sent_phase e = (if e = None then Sent else SendFailed)"

lemma send_steps:
  assumes "\<forall>(row, b, e)\<in>set xs. e = None \<longrightarrow> b" "distinct (map fst xs)"
    "(\<lambda>x. (r, fst x, now, InHand)) ` set xs \<subseteq> h"
  shows "\<exists>h'. relay_step\<^sup>*\<^sup>* (s, l, h)
      (s, l @ stored_messages (map (row_message r \<circ> fst) xs) (map (fst \<circ> snd) xs), h')
    \<and> others r h' = others r h \<and> (\<forall>(row, b, e)\<in>set xs. (r, row, now, sent_phase e) \<in> h')
    \<and> (\<forall>row ph. (r, row, now, ph) \<in> h \<longrightarrow> row \<notin> fst ` set xs \<longrightarrow> (r, row, now, ph) \<in> h')"
  using assms
proof (induction xs arbitrary: l h)
  case (Cons x xs)
  obtain row b e where x: "x = (row, b, e)" by (cases x)
  let ?l = "l @ (if b then [row_message r row] else [])"
  let ?h = "h - {(r, row, now, InHand)} \<union> {(r, row, now, sent_phase e)}"
  have "(r, row, now, InHand) \<in> h" using Cons.prems(3) x by simp
  then have 1: "relay_step (s, l, h) (s, ?l, ?h)"
    using Cons.prems(1) x
    by (cases e) (auto simp: sent_phase_def dest: relay_step.send_ok relay_step.send_error)
  have sub: "(\<lambda>x. (r, fst x, now, InHand)) ` set xs \<subseteq> ?h"
    using Cons.prems(2,3) x by (auto simp: image_iff)
  have "\<forall>(row, b, e)\<in>set xs. e = None \<longrightarrow> b" "distinct (map fst xs)"
    using Cons.prems(1,2) by auto
  from Cons.IH [OF this sub, of ?l] obtain h' where h':
    "relay_step\<^sup>*\<^sup>* (s, ?l, ?h) (s, ?l @ stored_messages (map (row_message r \<circ> fst) xs) (map (fst \<circ> snd) xs), h')"
    "others r h' = others r ?h" "\<forall>(row, b, e)\<in>set xs. (r, row, now, sent_phase e) \<in> h'"
    "\<forall>row ph. (r, row, now, ph) \<in> ?h \<longrightarrow> row \<notin> fst ` set xs \<longrightarrow> (r, row, now, ph) \<in> h'"
    by blast
  have "(r, row, now, sent_phase e) \<in> h'" using h'(4) Cons.prems(2) x by auto
  moreover have "l @ stored_messages (map (row_message r \<circ> fst) (x # xs)) (map (fst \<circ> snd) (x # xs))
      = ?l @ stored_messages (map (row_message r \<circ> fst) xs) (map (fst \<circ> snd) xs)"
    by (simp add: x stored_messages_def)
  moreover have "(r, row', now, ph) \<in> h'" if "(r, row', now, ph) \<in> h" "row' \<notin> fst ` set (x # xs)" for row' ph
    using h'(4) that x by auto
  ultimately show ?case
    using h'(2,3) x converse_rtranclp_into_rtranclp [of relay_step, OF 1 h'(1)]
    by (intro exI [of _ h']) (auto simp: comp_def)
qed (auto simp: stored_messages_def)

lemma requeue_steps:
  assumes "distinct (map fst xs)" "\<forall>(row, e)\<in>set xs. e \<noteq> None \<longrightarrow> (r, row, se_now se, SendFailed) \<in> h"
  shows "\<exists>h'. relay_step\<^sup>*\<^sup>* (s, l, h) (requeue_failed r se i xs s, l, h')
    \<and> others r h' = others r h \<and> (\<forall>row. (r, row, se_now se, Sent) \<in> h \<longrightarrow> (r, row, se_now se, Sent) \<in> h')"
  using assms
proof (induction r se i xs s arbitrary: h rule: requeue_failed.induct)
  case (1 r se i s)
  then show ?case by auto
next
  case (2 r se i row rest s)
  then show ?case by simp
next
  case (3 r se i row e rest s)
  let ?s = "snd (run_auto (se_ack se i) (markRetryOrDead r (se_ack se i) row (se_now se)) s)"
  let ?h = "h - {(r, row, se_now se, SendFailed)}"
  have 1: "relay_step (s, l, h) (?s, l, ?h)" by (rule relay_step.requeue) (use 3 in auto)
  have "\<forall>(row, e)\<in>set rest. e \<noteq> None \<longrightarrow> (r, row, se_now se, SendFailed) \<in> ?h"
    using 3(2,3) by force
  from 3(1) [OF _ this] 3(2) obtain h' where
    "relay_step\<^sup>*\<^sup>* (?s, l, ?h) (requeue_failed r se (Suc i) rest ?s, l, h')" "others r h' = others r ?h"
    "\<forall>row. (r, row, se_now se, Sent) \<in> ?h \<longrightarrow> (r, row, se_now se, Sent) \<in> h'" by auto
  with 1 show ?case
    by (intro exI [of _ h']) (auto intro: converse_rtranclp_into_rtranclp)
qed

lemma publishClaimedBatch_steps:
  assumes "honest (BatchPublisher sendAll)" "distinct rows"
    "(\<lambda>row. (r, row, se_now se, InHand)) ` set rows \<subseteq> h"
  shows "reaches r (s, l) h (snd (publishClaimedBatch r sendAll se rows (s, l)))"
proof -
  obtain stored results where send: "sendAll (map (row_message r) rows) = (stored, results)"
    by (cases "sendAll (map (row_message r) rows)")
  have len: "length stored = length rows"
    using assms(1) send unfolding honest_def publisher.case by (metis fst_conv length_map)
  let ?l = "l @ stored_messages (map (row_message r) rows) stored"
  define es where "es = (if length results = length rows then results else replicate (length rows) (Some CtxCanceled))"
  have les: "length es = length rows" by (simp add: es_def)
  let ?xs = "zip rows (zip stored es)"
  have proj: "map (row_message r \<circ> fst) ?xs = map (row_message r) rows" "map (fst \<circ> snd) ?xs = stored"
    "map fst ?xs = rows" "fst ` set ?xs = set rows"
    using len les by (simp_all flip: map_map set_map)
  have hon: "\<forall>(row, b, e)\<in>set ?xs. e = None \<longrightarrow> b"
  proof clarify
    fix row b assume "(row, b, None) \<in> set ?xs"
    then obtain i where i: "i < length rows" "stored ! i = b" "es ! i = None"
      using len les by (auto simp: in_set_zip)
    then have "length results = length rows" "results ! i = None"
      by (auto simp: es_def split: if_splits)
    with assms(1) send i show b
      unfolding honest_def publisher.case by (metis fst_conv snd_conv length_map)
  qed
  have "(\<lambda>x. (r, fst x, se_now se, InHand)) ` set ?xs \<subseteq> h"
    using assms(3) unfolding proj(4) [symmetric] by auto
  from send_steps [OF hon _ this, of s l] assms(2) obtain h1 where h1:
    "relay_step\<^sup>*\<^sup>* (s, l, h) (s, ?l, h1)" "others r h1 = others r h"
    "\<forall>(row, b, e)\<in>set ?xs. (r, row, se_now se, sent_phase e) \<in> h1"
    unfolding proj by blast
  show ?thesis
  proof (cases "length results = length rows")
    case False
    with h1(1,2) reaches_refl show ?thesis
      by (auto simp: publishClaimedBatch_def Let_def send intro: reaches_steps)
  next
    case True
    then have es: "es = results" by (simp add: es_def)
    have phases: "(r, row, se_now se, sent_phase e) \<in> h1" if re: "(row, e) \<in> set (zip rows results)" for row e
    proof -
      from re obtain i where "i < length rows" "rows ! i = row" "results ! i = e"
        using True by (auto simp: in_set_zip)
      then have "(row, stored ! i, e) \<in> set ?xs" using len les es by (auto simp: in_set_zip)
      then show ?thesis using h1(3) by blast
    qed
    let ?s1 = "requeue_failed r se 0 (zip rows results) s"
    define succ where "succ = map fst (filter (\<lambda>x. snd x = None) (zip rows results))"
    have dist: "distinct (map fst (zip rows results))" using assms(2) True by simp
    have "\<forall>(row, e)\<in>set (zip rows results). e \<noteq> None \<longrightarrow> (r, row, se_now se, SendFailed) \<in> h1"
      using phases by (fastforce simp: sent_phase_def)
    from requeue_steps [OF dist this, of s ?l 0] obtain h2 where h2: "relay_step\<^sup>*\<^sup>* (s, ?l, h1) (?s1, ?l, h2)" "others r h2 = others r h1"
      "\<forall>row. (r, row, se_now se, Sent) \<in> h1 \<longrightarrow> (r, row, se_now se, Sent) \<in> h2"
      by blast
    have "(\<lambda>row. (r, row, se_now se, Sent)) ` set succ \<subseteq> h2"
      using phases h2(3) by (force simp: succ_def sent_phase_def)
    then have 3: "relay_step (?s1, ?l, h2)
        (snd (run_auto (se_batch se) (markPublishedBatch r (se_batch se) succ (se_now se)) ?s1), ?l,
         h2 - (\<lambda>row. (r, row, se_now se, Sent)) ` set succ)"
      by (rule relay_step.mark_batch)
    have "reaches r (?s1, ?l) h2 (snd (publishClaimedBatch r sendAll se rows (s, l)))"
    proof (cases "succ = []")
      case True
      with \<open>length results = length rows\<close> reaches_refl show ?thesis
        by (simp add: publishClaimedBatch_def Let_def send succ_def)
    next
      case False
      have "reaches r (?s1, ?l) h2
        (snd (run_auto (se_batch se) (markPublishedBatch r (se_batch se) succ (se_now se)) ?s1), ?l)"
        by (rule reaches_step [OF 3 _ reaches_refl]) simp
      moreover have "snd (publishClaimedBatch r sendAll se rows (s, l)) =
          (snd (run_auto (se_batch se) (markPublishedBatch r (se_batch se) succ (se_now se)) ?s1), ?l)"
        using False True
        by (simp add: publishClaimedBatch_def Let_def send succ_def [symmetric] case_prod_unfold
            split: sum.split)
      ultimately show ?thesis by simp
    qed
    with h2(1,2) h1(1,2) show ?thesis by (metis reaches_steps)
  qed
qed

lemma distinct_due: "outbox_ok s \<Longrightarrow> distinct (map scan_row (take n (due_rows skip now s)))"
proof -
  assume "outbox_ok s"
  then have "distinct (map ob_id (due_rows skip now s))"
    unfolding due_rows_def outbox_ok_def by (intro distinct_map_filter) simp
  then have "distinct (take n (map ob_id (due_rows skip now s)))" by (rule distinct_take)
  moreover have "take n (map ob_id (due_rows skip now s))
      = map cl_outboxID (map scan_row (take n (due_rows skip now s)))"
    by (simp add: take_map scan_row_def)
  ultimately show ?thesis by (simp only: distinct_map)
qed

lemma scan_steps:
  assumes "honest pub" "outbox_ok s"
  shows "\<exists>h'. relay_step\<^sup>*\<^sup>* (s, l, h) (fst (snd (ScanAndPublish r pub se (s, l))), snd (snd (ScanAndPublish r pub se (s, l))), h')
    \<and> {d \<in> h'. fst d \<noteq> r} = {d \<in> h. fst d \<noteq> r}"
proof -
  let ?recl = "run_auto (se_reclaim se) (reclaimStale (se_reclaim se) (se_now se)) s"
  obtain res s1 where recl: "?recl = (res, s1)" by (cases ?recl)
  have 1: "relay_step (s, l, h) (s1, l, h)"
    using relay_step.reclaim [of s l h "se_reclaim se" "se_now se"] recl by simp
  have ok1: "outbox_ok s1"
    using run_auto_invariant [of outbox_ok s "reclaimStale (se_reclaim se) (se_now se)" "se_reclaim se"]
      assms(2) update_keeps_outbox_ok reclaim_effect recl keeps_ident_unlock by (metis snd_conv)
  obtain res2 s2 where cl: "claimBatch r (se_skip se) (se_claim se) (se_now se) s1 = (res2, s2)"
    by (cases "claimBatch r (se_skip se) (se_claim se) (se_now se) s1")
  have "reaches r (s1, l) h (snd (ScanAndPublish r pub se (s, l)))" if "res = Inr u" for u
  proof (cases res2)
    case (Inl e)
    have "reaches r (s1, l) h (s2, l)"
      by (rule reaches_step [OF relay_step.claim_failed _ reaches_refl]) (use cl Inl in auto)
    then show ?thesis using that by (simp add: ScanAndPublish_def recl cl Inl)
  next
    case (Inr rows)
    let ?h = "h \<union> (\<lambda>row. (r, row, se_now se, InHand)) ` set rows"
    have 2: "relay_step (s1, l, h) (s2, l, ?h)" by (rule relay_step.claim) (use cl Inr in auto)
    have dist: "distinct rows"
      using claim_ok [OF cl [unfolded Inr]] distinct_due [OF ok1] by auto
    have sub: "(\<lambda>row. (r, row, se_now se, InHand)) ` set rows \<subseteq> ?h" by auto
    have "reaches r (s2, l) ?h (snd (ScanAndPublish r pub se (s, l)))"
    proof (cases "rows = []")
      case True
      then show ?thesis using that reaches_refl by (simp add: ScanAndPublish_def recl cl Inr)
    next
      case False
      show ?thesis
      proof (cases pub)
        case (SinglePublisher send)
        then show ?thesis
          using publish_rows_steps [OF _ dist sub, of send "(s2, l)" 0] assms(1) that False
          by (simp add: ScanAndPublish_def recl cl Inr case_prod_unfold Let_def)
      next
        case (BatchPublisher sendAll)
        then show ?thesis
          using publishClaimedBatch_steps [OF _ dist sub, of sendAll s2 l] assms(1) that False
          by (simp add: ScanAndPublish_def recl cl Inr)
      qed
    qed
    from reaches_step [OF 2 _ this] show ?thesis by simp
  qed
  moreover have "reaches r (s1, l) h (snd (ScanAndPublish r pub se (s, l)))" if "res = Inl e" for e
    using that reaches_refl by (simp add: ScanAndPublish_def recl)
  ultimately have "reaches r (s, l) h (snd (ScanAndPublish r pub se (s, l)))"
    by (cases res) (use 1 in \<open>blast intro: reaches_step\<close>)+
  then show ?thesis unfolding reaches_def others_def by simp
qed

end
