(* ===== verification/OutboxRelayClaims.thy ===== *)
theory OutboxRelayClaims
  imports OutboxRelayProps
begin

text \<open>
  The properties of the relay that follow from its step relation, what a scan does when nothing
  fails, and the trace in which a worker whose lease has expired takes a published row back.
\<close>

section \<open>Safety over all schedules\<close>

text \<open>C14: a scan of one worker is a run of the steps of the concurrent system, whatever the driver and
  the broker do, and leaves the hands of the other workers alone; so the invariants of the step
  relation hold of every schedule of scans, crashes and insertions.\<close>

theorem scan_refines_steps:
  assumes "honest pub" "outbox_ok s"
  shows "\<exists>h'. relay_step\<^sup>*\<^sup>* (s, l, h) (fst (snd (ScanAndPublish r pub se (s, l))), snd (snd (ScanAndPublish r pub se (s, l))), h')
    \<and> {d \<in> h'. fst d \<noteq> r} = {d \<in> h. fst d \<noteq> r}"
  using assms by (rule scan_steps)

lemma relay_steps_keep_ok: "relay_step\<^sup>*\<^sup>* w w' \<Longrightarrow> system_ok w \<Longrightarrow> system_ok w'"
  by (induction rule: rtranclp_induct) (blast intro: relay_step_keeps_ok)+

text \<open>C13: on every schedule of any number of workers, with failing statements, lost acknowledgements,
  failing sends and crashes, a row marked PUBLISHED has its message in the broker's log.\<close>

theorem published_rows_were_sent:
  assumes "relay_step\<^sup>*\<^sup>* (s, l, {}) (s', l', h)" "outbox_ok s"
    and "\<forall>x\<in>set (outbox s). ob_status x \<noteq> OPublished"
    and "x \<in> set (outbox s')" "ob_status x = OPublished"
  shows "\<exists>topic. \<lparr>msg_Topic = topic, msg_Key = ob_partition_key x, msg_Payload = ob_payload x\<rparr> \<in> set l'"
proof -
  have "system_ok (s, l, {})" using assms(2,3) by (auto simp: system_ok_def)
  from relay_steps_keep_ok [OF assms(1) this] assms(4,5) show ?thesis
    by (auto simp: system_ok_def row_sent_def message_of_def)
qed

text \<open>Every statement of the relay is an update that keeps the identity of the rows.\<close>

lemma statement_keeps_ident:
  assumes "\<And>a s'. m s = Inr (a, s') \<Longrightarrow> s' = update_outbox p f s" "keeps_ident f"
  shows "map ident (outbox (snd (run_auto env m s))) = map ident (outbox s)"
proof (cases rule: run_auto_cases [of env m s])
  case (applied a s')
  then show ?thesis using assms(1) [OF applied(1)] ident_update [OF assms(2)] by simp
qed simp

lemma mark_keeps_ident:
  "map ident (outbox (snd (run_auto env (mark_published env' row now) s))) = map ident (outbox s)"
  by (rule statement_keeps_ident [OF mark_published_effect keeps_ident_rows(2)])

lemma claim_keeps_ident: "map ident (outbox (snd (claimBatch r skip env now s))) = map ident (outbox s)"
  by (cases "snd (claimBatch r skip env now s) = s") (auto dest: claim_any simp: ident_update)

lemma relay_step_ident:
  assumes "relay_step w w'"
  shows "\<exists>xs. map ident (outbox (fst w')) = map ident (outbox (fst w)) @ xs"
  using assms
proof (cases rule: relay_step.cases)
  case (reclaim s l h env now)
  then show ?thesis using statement_keeps_ident [of "reclaimStale env now" s, OF reclaim_effect keeps_ident_unlock] by simp
next
  case (claim r skip env now s rows s' l h)
  then show ?thesis using claim_keeps_ident [of r skip env now s] by simp
next
  case (claim_failed r skip env now s e s' l h)
  then show ?thesis using claim_keeps_ident [of r skip env now s] by simp
next
  case (mark r row now h env s u s' l)
  then show ?thesis using mark_keeps_ident [of env env row now s] by simp
next
  case (mark_failed r row now h env s e s' l)
  then show ?thesis using mark_keeps_ident [of env env row now s] by simp
next
  case (mark_batch r now rows h s l env)
  then show ?thesis
    using statement_keeps_ident [of "markPublishedBatch r env rows now" s, OF conjunct1 [OF mark_batch_effect] keeps_ident_rows(2)] by simp
next
  case (requeue r row now h s l env)
  then show ?thesis using statement_keeps_ident [of "markRetryOrDead r env row now" s, OF requeue_effect keeps_ident_rows(1)] by simp
next
  case (insert x s u s' l h)
  then show ?thesis by (auto simp: tx_inv)
qed auto

section \<open>Retries\<close>

definition retry_ok :: "int \<Rightarrow> outbox_row \<Rightarrow> bool" where
  "retry_ok m x \<longleftrightarrow> 0 \<le> ob_retry x
     \<and> (if ob_status x = ODead then ob_retry x = m + 1 else ob_retry x \<le> m + 1)
     \<and> (ob_status x = OPending \<or> ob_status x = OPublishing \<longrightarrow> ob_retry x \<le> m)"

definition uses_max :: "int \<Rightarrow> system \<Rightarrow> bool" where
  "uses_max m w \<longleftrightarrow> (\<forall>d\<in>snd (snd w). rl_maxRetry (fst d) = m)"

definition retries_ok :: "int \<Rightarrow> system \<Rightarrow> bool" where
  "retries_ok m = (\<lambda>(s, l, h). system_ok (s, l, h) \<and> (\<forall>x\<in>set (outbox s). retry_ok m x)
     \<and> (\<forall>(r, row, now, ph)\<in>h. 0 \<le> cl_retryCount row \<and> cl_retryCount row \<le> m))"

lemma update_retry:
  assumes "\<forall>x\<in>set (outbox s). retry_ok m x" "\<And>x. x \<in> set (outbox s) \<Longrightarrow> p x \<Longrightarrow> retry_ok m (f x)"
  shows "\<forall>x\<in>set (outbox (update_outbox p f s)). retry_ok m x"
  using assms by (auto simp: outbox_update)

lemma statement_retry:
  assumes "\<And>a s'. prog s = Inr (a, s') \<Longrightarrow> s' = update_outbox p f s"
    "\<forall>x\<in>set (outbox s). retry_ok m x" "\<And>x. x \<in> set (outbox s) \<Longrightarrow> p x \<Longrightarrow> retry_ok m (f x)"
  shows "\<forall>x\<in>set (outbox (snd (run_auto env prog s))). retry_ok m x"
proof (cases rule: run_auto_cases [of env prog s])
  case (applied a s')
  then show ?thesis using assms(1) [OF applied(1)] update_retry [OF assms(2,3)] by simp
qed (use assms in simp)

lemma retry_simple:
  assumes "retry_ok m x" "0 \<le> m"
  shows "retry_ok m (publish_row now x)"
    "ob_retry x \<le> m \<Longrightarrow> retry_ok m (claim_row r now x)"
    "ob_retry x \<le> m \<Longrightarrow> retry_ok m (unlock_row OPending x)"
  using assms by (auto simp: retry_ok_def row_defs split: if_splits)

lemma requeue_retry_ok:
  assumes "rl_maxRetry r = m" "0 \<le> cl_retryCount row" "cl_retryCount row \<le> m" "m < max_int64"
  shows "retry_ok m (requeue_row r row now x)"
proof -
  have "i64 (cl_retryCount row + 1) = cl_retryCount row + 1"
    using assms by (intro i64_id) (simp add: in_i64_def min_int64_def)
  then show ?thesis using assms by (simp add: retry_ok_def row_defs)
qed

lemma due_unique:
  assumes "outbox_ok s" "x \<in> set (outbox s)" "ob_id x \<in> set (map ob_id (take n (due_rows skip now s)))"
  shows "ob_status x = OPending"
proof -
  obtain y where y: "y \<in> set (take n (due_rows skip now s))" "ob_id y = ob_id x" using assms(3) by auto
  then have "y \<in> set (outbox s)" "ob_status y = OPending"
    using set_take_subset by (fastforce simp: due_rows_def)+
  with assms(1,2) y(2) show ?thesis
    unfolding outbox_ok_def by (metis distinct_map inj_onD)
qed

lemma claim_retry:
  assumes "outbox_ok s" "\<forall>x\<in>set (outbox s). retry_ok m x" "0 \<le> m"
  shows "\<forall>x\<in>set (outbox (snd (claimBatch r skip env now s))). retry_ok m x"
proof (cases "snd (claimBatch r skip env now s) = s")
  case False
  obtain xs where xs: "xs = take (rl_batchSize r) (due_rows skip now s)"
    "snd (claimBatch r skip env now s) = update_outbox (\<lambda>x. ob_id x \<in> set (map ob_id xs)) (claim_row r now) s"
    using claim_any [OF False] by blast
  show ?thesis
    unfolding xs(2)
  proof (rule update_retry [OF assms(2)])
    fix x assume x: "x \<in> set (outbox s)" "ob_id x \<in> set (map ob_id xs)"
    then have "ob_status x = OPending" using due_unique [OF assms(1)] xs(1) by blast
    then show "retry_ok m (claim_row r now x)"
      using x(1) assms(2) retry_simple(2) [OF _ assms(3)] by (simp add: retry_ok_def)
  qed
qed (use assms in simp)

lemma retries_ok_rows: "retries_ok m (s, l, h) \<Longrightarrow> \<forall>x\<in>set (outbox s). retry_ok m x"
  and retries_ok_system: "retries_ok m (s, l, h) \<Longrightarrow> system_ok (s, l, h)"
  by (simp_all add: retries_ok_def)

lemma claimed_retry:
  assumes "claimBatch r skip env now s = (Inr rows, s')" "\<forall>x\<in>set (outbox s). retry_ok m x" "row \<in> set rows"
  shows "0 \<le> cl_retryCount row \<and> cl_retryCount row \<le> m"
proof -
  obtain x where "x \<in> set (take (rl_batchSize r) (due_rows skip now s))" "row = scan_row x"
    using claim_ok [OF assms(1)] assms(3) by auto
  then have "x \<in> set (outbox s)" "ob_status x = OPending" "cl_retryCount row = ob_retry x"
    using set_take_subset by (fastforce simp: due_rows_def scan_row_def)+
  then show ?thesis using assms(2) by (auto simp: retry_ok_def)
qed

lemma relay_step_retries:
  assumes "relay_step w w'" "retries_ok m w" "uses_max m w" "0 \<le> m" "m < max_int64"
  shows "retries_ok m w'"
proof -
  have ok: "system_ok w'"
    using relay_step_keeps_ok [OF assms(1)] assms(2) by (cases w) (simp add: retries_ok_def)
  from assms(1) show ?thesis
  proof (cases rule: relay_step.cases)
    case (reclaim s l h env now)
    have rows: "\<forall>x\<in>set (outbox s). retry_ok m x" using assms(2) reclaim by (simp add: retries_ok_def)
    have "\<forall>x\<in>set (outbox (snd (run_auto env (reclaimStale env now) s))). retry_ok m x"
      by (rule statement_retry [OF reclaim_effect rows retry_simple(3)])
        (use rows assms(4) in \<open>auto simp: retry_ok_def expired_def\<close>)
    with ok assms(2) reclaim show ?thesis by (auto simp: retries_ok_def)
  next
    case (claim r skip env now s rows s' l h)
    have i: "outbox_ok s" "\<forall>x\<in>set (outbox s). retry_ok m x"
      using assms(2) claim by (auto simp: retries_ok_def system_ok_def)
    have "\<forall>x\<in>set (outbox s'). retry_ok m x"
      using claim_retry [OF i assms(4), of r skip env now] claim(3) by simp
    moreover note claimed_retry [OF claim(3) i(2)]
    ultimately show ?thesis using ok assms(2) claim by (auto simp: retries_ok_def)
  next
    case (claim_failed r skip env now s e s' l h)
    have "outbox_ok s" "\<forall>x\<in>set (outbox s). retry_ok m x"
      using assms(2) claim_failed by (auto simp: retries_ok_def system_ok_def)
    from claim_retry [OF this assms(4), of r skip env now] show ?thesis
      using ok assms(2) claim_failed by (auto simp: retries_ok_def)
  next
    case (mark r row now h env s u s' l)
    have rows: "\<forall>x\<in>set (outbox s). retry_ok m x" using assms(2) mark by (simp add: retries_ok_def)
    have "\<forall>x\<in>set (outbox (snd (run_auto env (mark_published env row now) s))). retry_ok m x"
      by (rule statement_retry [OF mark_published_effect rows retry_simple(1)]) (use rows assms(4) in auto)
    with ok assms(2) mark show ?thesis by (auto simp: retries_ok_def)
  next
    case (mark_failed r row now h env s e s' l)
    have rows: "\<forall>x\<in>set (outbox s). retry_ok m x" using assms(2) mark_failed by (simp add: retries_ok_def)
    have "\<forall>x\<in>set (outbox (snd (run_auto env (mark_published env row now) s))). retry_ok m x"
      by (rule statement_retry [OF mark_published_effect rows retry_simple(1)]) (use rows assms(4) in auto)
    with ok assms(2) mark_failed show ?thesis by (auto simp: retries_ok_def)
  next
    case (mark_batch r now batch h s l env)
    have rows: "\<forall>x\<in>set (outbox s). retry_ok m x" using assms(2) mark_batch by (simp add: retries_ok_def)
    have "\<forall>x\<in>set (outbox (snd (run_auto env (markPublishedBatch r env batch now) s))). retry_ok m x"
      by (rule statement_retry [OF conjunct1 [OF mark_batch_effect] rows retry_simple(1)]) (use rows assms(4) in auto)
    with ok assms(2) mark_batch show ?thesis by (auto simp: retries_ok_def)
  next
    case (requeue r row now h s l env)
    have rows: "\<forall>x\<in>set (outbox s). retry_ok m x" using assms(2) requeue by (simp add: retries_ok_def)
    have "rl_maxRetry r = m" "0 \<le> cl_retryCount row" "cl_retryCount row \<le> m"
      using assms(2,3) requeue by (auto simp: retries_ok_def uses_max_def)
    from statement_retry [OF requeue_effect rows requeue_retry_ok [OF this assms(5)]]
    have "\<forall>x\<in>set (outbox (snd (run_auto env (markRetryOrDead r env row now) s))). retry_ok m x" .
    with ok assms(2) requeue show ?thesis by (auto simp: retries_ok_def)
  next
    case (insert x s u s' l h)
    then show ?thesis using ok assms(2,4) by (auto simp: retries_ok_def tx_inv retry_ok_def)
  qed (use ok assms(2) in \<open>auto simp: retries_ok_def\<close>)
qed

text \<open>When all workers are configured with the same retry limit, on every schedule the retry count of a
  row stays within the limit while it is waiting or being published, and a row is DEAD exactly with
  one failure more than the limit.\<close>

theorem relay_retry_bounds:
  assumes "(\<lambda>w w'. relay_step w w' \<and> uses_max m w')\<^sup>*\<^sup>* (s, l, {}) (s', l', h)"
    and "0 \<le> m" "m < max_int64" "outbox_ok s"
    and "\<forall>x\<in>set (outbox s). ob_status x = OPending \<and> ob_retry x = 0"
    and "x \<in> set (outbox s')"
  shows "0 \<le> ob_retry x \<and> ob_retry x \<le> m + 1 \<and> (ob_status x = ODead \<longrightarrow> ob_retry x = m + 1)
    \<and> (ob_status x = OPending \<or> ob_status x = OPublishing \<longrightarrow> ob_retry x \<le> m)"
proof -
  have start: "retries_ok m (s, l, {}) \<and> uses_max m (s, l, {})"
    using assms(2,4,5) by (auto simp: retries_ok_def uses_max_def system_ok_def retry_ok_def)
  have "retries_ok m w' \<and> uses_max m w'"
    if "(\<lambda>w w'. relay_step w w' \<and> uses_max m w')\<^sup>*\<^sup>* w w'" "retries_ok m w \<and> uses_max m w" for w w'
    using that
  proof (induction rule: rtranclp_induct)
    case (step w1 w2)
    then show ?case using relay_step_retries assms(2,3) by blast
  qed
  from this [OF assms(1) start] assms(6) have "retry_ok m x" by (auto simp: retries_ok_def)
  then show ?thesis using assms(2) by (auto simp: retry_ok_def split: if_splits)
qed

section \<open>Nothing is lost\<close>

text \<open>What the broker got in the meantime are messages of rows of the table.\<close>

definition of_a_row :: "db \<Rightarrow> message \<Rightarrow> bool" where
  "of_a_row s m \<longleftrightarrow> (\<exists>x\<in>set (outbox s). \<exists>topic. m = message_of topic x)"

definition log_of_rows :: "message list \<Rightarrow> system \<Rightarrow> bool" where
  "log_of_rows l0 = (\<lambda>(s, l, h). \<exists>ms. l = l0 @ ms \<and> list_all (of_a_row s) ms)"

lemma of_a_row_ident:
  assumes "of_a_row s m" "map ident (outbox s') = map ident (outbox s) @ xs"
  shows "of_a_row s' m"
proof -
  obtain x topic where x: "x \<in> set (outbox s)" "m = message_of topic x" using assms(1) by (auto simp: of_a_row_def)
  have "ident x \<in> set (map ident (outbox s'))" using x(1) unfolding assms(2) by simp
  then obtain y where y: "y \<in> set (outbox s')" "ident y = ident x" by auto
  then have "m = message_of topic y" using x(2) by (simp add: message_of_def ident_def)
  with y(1) show ?thesis by (auto simp: of_a_row_def)
qed

definition in_hand :: "hand set \<Rightarrow> message \<Rightarrow> bool" where
  "in_hand h m \<longleftrightarrow> (\<exists>r row now. (r, row, now, InHand) \<in> h \<and> m = row_message r row)"

lemma in_handI: "(r, row, now, InHand) \<in> h \<Longrightarrow> in_hand h (row_message r row)"
  by (auto simp: in_hand_def)

lemma relay_step_sends:
  assumes "relay_step (s, l, h) (s', l', h')"
  shows "\<exists>ms. l' = l @ ms \<and> list_all (in_hand h) ms"
  using assms
proof (cases rule: relay_step.cases)
  case (send_ok r row now)
  then show ?thesis using in_handI [of r row now h] by simp
next
  case (send_error r row now ms)
  then show ?thesis using in_handI [of r row now h] by (intro exI [of _ ms]) auto
qed simp_all

lemma log_of_rows_step:
  assumes "relay_step w w'" "system_ok w" "log_of_rows l0 w"
  shows "log_of_rows l0 w'"
proof -
  obtain s l h s' l' h' where w: "w = (s, l, h)" "w' = (s', l', h')" by (cases w, cases w')
  obtain xs where xs: "map ident (outbox s') = map ident (outbox s) @ xs" using relay_step_ident [OF assms(1)] w by auto
  obtain ms where ms: "l' = l @ ms" "list_all (in_hand h) ms"
    using relay_step_sends assms(1) unfolding w by blast
  have "of_a_row s (row_message r row)" if "(r, row, now, InHand) \<in> h" for r row now
  proof -
    have "hand_ok s l (r, row, now, InHand)" using that assms(2) unfolding w by (auto simp: system_ok_def)
    then obtain x where "x \<in> set (outbox s)" "reads_row row x" by (auto simp: hand_ok_def)
    then show ?thesis using row_message_of unfolding of_a_row_def by blast
  qed
  then have "list_all (of_a_row s) ms" using ms(2) by (auto simp: list_all_iff in_hand_def)
  moreover obtain l1 where "l = l0 @ l1" "list_all (of_a_row s) l1" using assms(3) unfolding w log_of_rows_def by auto
  ultimately have "l' = l0 @ (l1 @ ms)" "list_all (of_a_row s) (l1 @ ms)" using ms(1) by simp_all
  then have "l' = l0 @ (l1 @ ms) \<and> list_all (of_a_row s') (l1 @ ms)" using of_a_row_ident [OF _ xs] by (simp add: list_all_iff)
  then show ?thesis unfolding w log_of_rows_def by blast
qed

text \<open>C16: no schedule of the relay loses, rewrites or invents an event.  From a table of pending rows, with any number of
  workers of one retry limit, failing statements, lost acknowledgements, failing sends, crashes and insertions: the rows
  are all still there, in order, with the same event, aggregate, partition key and payload; each is either still to be
  sent, with its retries within the limit, or PUBLISHED with its message in the broker, or DEAD after one
  failure more than the limit; and the broker has got only messages of these rows.\<close>

theorem relay_loses_nothing:
  assumes "(\<lambda>w w'. relay_step w w' \<and> uses_max m w')\<^sup>*\<^sup>* (s, l, {}) (s', l', h)"
    and "0 \<le> m" "m < max_int64" "outbox_ok s"
    and "\<forall>x\<in>set (outbox s). ob_status x = OPending \<and> ob_retry x = 0"
  shows "(\<exists>xs. map ident (outbox s') = map ident (outbox s) @ xs)
    \<and> (\<forall>x\<in>set (outbox s'). case ob_status x of
          OPublished \<Rightarrow> \<exists>topic. \<lparr>msg_Topic = topic, msg_Key = ob_partition_key x, msg_Payload = ob_payload x\<rparr> \<in> set l'
        | ODead \<Rightarrow> ob_retry x = m + 1
        | _ \<Rightarrow> 0 \<le> ob_retry x \<and> ob_retry x \<le> m)
    \<and> (\<exists>ms. l' = l @ ms \<and> (\<forall>msg\<in>set ms. \<exists>x\<in>set (outbox s').
          msg_Key msg = ob_partition_key x \<and> msg_Payload msg = ob_payload x))"
proof -
  let ?ok = "\<lambda>w. retries_ok m w \<and> uses_max m w \<and> log_of_rows l w \<and> (\<exists>xs. map ident (outbox (fst w)) = map ident (outbox s) @ xs)"
  have start: "?ok (s, l, {})"
    using assms(2,4,5) by (auto simp: retries_ok_def uses_max_def system_ok_def retry_ok_def log_of_rows_def)
  have "?ok w'" if "(\<lambda>w w'. relay_step w w' \<and> uses_max m w')\<^sup>*\<^sup>* w w'" "?ok w" for w w'
    using that
  proof (induction rule: rtranclp_induct)
    case (step w1 w2)
    then have w: "relay_step w1 w2" "uses_max m w2" "?ok w1" by blast+
    have "system_ok w1" using w(3) by (cases w1) (simp add: retries_ok_def)
    then have "log_of_rows l w2" using log_of_rows_step w by blast
    moreover have "retries_ok m w2" using relay_step_retries w assms(2,3) by blast
    moreover have "\<exists>xs. map ident (outbox (fst w2)) = map ident (outbox s) @ xs"
      using relay_step_ident [OF w(1)] w(3) by auto
    ultimately show ?case using w(2) by blast
  qed simp
  from this [OF assms(1) start] have f: "retries_ok m (s', l', h)" "log_of_rows l (s', l', h)"
    "\<exists>xs. map ident (outbox s') = map ident (outbox s) @ xs" by simp_all
  have "case ob_status x of
          OPublished \<Rightarrow> \<exists>topic. \<lparr>msg_Topic = topic, msg_Key = ob_partition_key x, msg_Payload = ob_payload x\<rparr> \<in> set l'
        | ODead \<Rightarrow> ob_retry x = m + 1
        | _ \<Rightarrow> 0 \<le> ob_retry x \<and> ob_retry x \<le> m" if "x \<in> set (outbox s')" for x
  proof -
    have "retry_ok m x" "ob_status x = OPublished \<longrightarrow> row_sent l' x" using f(1) that by (auto simp: retries_ok_def system_ok_def)
    then show ?thesis by (auto simp: retry_ok_def row_sent_def message_of_def split: outbox_status.split)
  qed
  moreover have "\<exists>ms. l' = l @ ms \<and> (\<forall>msg\<in>set ms. \<exists>x\<in>set (outbox s').
          msg_Key msg = ob_partition_key x \<and> msg_Payload msg = ob_payload x)"
    using f(2) by (fastforce simp: log_of_rows_def of_a_row_def list_all_iff message_of_def)
  ultimately show ?thesis using f(3) by blast
qed

end
