(* ===== verification/OutboxRelayScan.thy ===== *)
theory OutboxRelayScan
  imports OutboxRelayClaims Fixtures
begin

text \<open>
  What a scan does when nothing fails, how repeated scans drain the table, and the witnesses of the
  relay's properties.
\<close>

section \<open>A scan without failures\<close>

definition clean_scan :: "scan_env \<Rightarrow> bool" where
  "clean_scan se \<longleftrightarrow> clean (se_reclaim se) \<and> clean (se_claim se) \<and> clean (se_batch se)
     \<and> (\<forall>i. clean (se_mark se i)) \<and> se_skip se = []"

text \<open>The in-memory publisher and Kafka, both accepting everything.\<close>

definition accepting :: "publisher \<Rightarrow> bool" where
  "accepting pub \<longleftrightarrow> pub = SinglePublisher (\<lambda>_. mem_Publish None)
     \<or> pub = BatchPublisher (kafka_PublishBatch (\<lambda>ms. (replicate (length ms) True, WriteOK)))"

lemma update_update:
  "(\<And>x. ob_id (f x) = ob_id x) \<Longrightarrow> (\<And>x. g (f x) = g x) \<Longrightarrow>
   update_outbox (\<lambda>x. ob_id x \<in> B) g (update_outbox (\<lambda>x. ob_id x \<in> A) f s)
     = s\<lparr>outbox := map (\<lambda>x. if ob_id x \<in> B then g x else if ob_id x \<in> A then f x else x) (outbox s)\<rparr>"
  by (simp add: update_outbox_def)

lemma publish_row_idem [simp]:
  "publish_row now (publish_row now x) = publish_row now x"
  "publish_row now (claim_row r now' x) = publish_row now x"
  "ob_id (publish_row now x) = ob_id x" "ob_id (claim_row r now x) = ob_id x" "ob_id (unlock_row st x) = ob_id x"
  by (simp_all add: row_defs)

lemma mark_published_clean:
  "clean env \<Longrightarrow> run_auto env (mark_published env row now) s =
     (Inr (), update_outbox (\<lambda>x. ob_id x \<in> {cl_outboxID row}) (publish_row now) s)"
  by (simp add: mark_published_def tx_run tx_modify_def publish_row_def [abs_def])

lemma publish_rows_clean:
  assumes "\<forall>i. clean (se_mark se i)"
  shows "publish_rows r (\<lambda>_. mem_Publish None) se i rows (s, l) =
    (length rows, update_outbox (\<lambda>x. ob_id x \<in> set (map cl_outboxID rows)) (publish_row (se_now se)) s,
     l @ map (row_message r) rows)"
proof (induction rows arbitrary: i s l)
  case (Cons row rows)
  have "publishOne r (mem_Publish None) (se_mark se i) row (se_now se) (s, l) =
      (Inr (), update_outbox (\<lambda>x. ob_id x \<in> {cl_outboxID row}) (publish_row (se_now se)) s, l @ [row_message r row])"
    using mark_published_clean assms by (simp add: publishOne_def mem_Publish_def)
  then show ?case
    by (simp add: Cons.IH update_update) (simp add: update_outbox_def)
qed (simp add: update_outbox_def)

lemma due_ids:
  assumes "outbox_ok s" "xs = take n (due_rows skip now s)"
  shows "distinct (map ob_id xs)" "set xs \<subseteq> set (outbox s)"
    "filter (\<lambda>x. ob_id x \<in> set (map ob_id xs)) (outbox s) = xs"
proof -
  have d: "distinct (map ob_id (outbox s))" using assms(1) by (simp add: outbox_ok_def)
  have "distinct (map ob_id (due_rows skip now s))" unfolding due_rows_def using d by (rule distinct_map_filter)
  then show 1: "distinct (map ob_id xs)" using assms(2) by (simp add: take_map [symmetric] distinct_take)
  show 2: "set xs \<subseteq> set (outbox s)" using assms(2) set_take_subset by (fastforce simp: due_rows_def)
  show "filter (\<lambda>x. ob_id x \<in> set (map ob_id xs)) (outbox s) = xs"
  proof -
    have "ob_id x \<in> set (map ob_id xs) \<longleftrightarrow> x \<in> set xs" if "x \<in> set (outbox s)" for x
      using that 2 d by (auto simp: distinct_map dest: inj_onD)
    then have *: "filter (\<lambda>x. ob_id x \<in> set (map ob_id xs)) (outbox s) = filter (\<lambda>x. x \<in> set xs) (outbox s)"
      by (auto intro: filter_cong)
    have "filter (\<lambda>x. x \<in> set (take n (filter P ys))) ys = take n (filter P ys)" if "distinct ys" for P n ys
      using that
    proof (induction ys arbitrary: n)
      case (Cons y ys)
      then have y: "y \<notin> set (take k (filter P ys))" for k
        using set_take_subset by fastforce
      show ?case
      proof (cases "P y \<and> n \<noteq> 0")
        case True
        then obtain k where n: "n = Suc k" by (cases n) auto
        have "filter (\<lambda>x. x = y \<or> x \<in> set (take k (filter P ys))) ys = filter (\<lambda>x. x \<in> set (take k (filter P ys))) ys"
          using Cons.prems by (auto intro: filter_cong)
        with Cons n True show ?thesis by simp
      next
        case False
        with Cons y show ?thesis by (cases n) auto
      qed
    qed simp
    moreover have "distinct (outbox s)" using d distinct_map by blast
    ultimately have "filter (\<lambda>x. x \<in> set xs) (outbox s) = xs" unfolding assms(2) due_rows_def by blast
    with * show ?thesis by simp
  qed
qed

definition reclaimed :: "gotime \<Rightarrow> db \<Rightarrow> db" where
  "reclaimed now s = update_outbox (expired now) (unlock_row OPending) s"

definition published_first :: "relay \<Rightarrow> scan_env \<Rightarrow> db \<Rightarrow> outbox_row list" where
  "published_first r se s = take (rl_batchSize r) (due_rows [] (se_now se) s)"

lemma reclaim_clean: "clean env \<Longrightarrow> run_auto env (reclaimStale env now) s = (Inr (), reclaimed now s)"
  by (simp add: reclaimStale_def tx_run tx_modify_def reclaimed_def expired_def [abs_def])

lemma claim_clean:
  assumes "clean env" "xs = take (rl_batchSize r) (due_rows skip now s)"
  shows "claimBatch r skip env now s = (Inr (map scan_row xs),
    update_outbox (\<lambda>x. ob_id x \<in> set (map ob_id xs)) (claim_row r now) s)"
proof (cases "xs = []")
  case True
  then show ?thesis using assms
    by (auto simp: claimBatch_def claim_body_def tx_run tx_bind_def tx_get_def tx_return_def update_outbox_def)
next
  case False
  then show ?thesis using assms
    by (simp add: claimBatch_def claim_body_def tx_run tx_bind_def tx_get_def tx_modify_def tx_return_def claim_row_def [abs_def])
qed

lemma mark_batch_clean:
  "clean env \<Longrightarrow> run_auto env (markPublishedBatch r env rows now) s =
     (Inr (length (filter (batch_hit r rows) (outbox s))), update_outbox (batch_hit r rows) (publish_row now) s)"
  by (simp add: markPublishedBatch_def tx_run batch_hit_def [abs_def] publish_row_def [abs_def] Let_def)

lemma batch_clean:
  assumes "clean (se_batch se)" "outbox_ok s" "xs = take n (due_rows skip now s)" "xs \<noteq> []"
    "s2 = update_outbox (\<lambda>x. ob_id x \<in> set (map ob_id xs)) (claim_row r (se_now se)) s"
  shows "publishClaimedBatch r (kafka_PublishBatch (\<lambda>ms. (replicate (length ms) True, WriteOK))) se
      (map scan_row xs) (s2, l) =
    (Inr (length xs), update_outbox (\<lambda>x. ob_id x \<in> set (map ob_id xs)) (publish_row (se_now se)) s,
     l @ map (row_message r) (map scan_row xs))"
proof -
  let ?now = "se_now se"
  define rows where "rows = map scan_row xs"
  have len: "length rows = length xs" by (simp add: rows_def)
  have zip: "zip rows (replicate (length xs) None) = map (\<lambda>x. (x, None)) rows"
    using len by (simp add: zip_replicate2)
  have all: "map fst (filter (\<lambda>x. snd x = None) (map (\<lambda>x. (x, None)) rows)) = rows"
    by (induction rows) simp_all
  have nothing: "requeue_failed r se i (map (\<lambda>x. (x, None)) rows) t = t" for i rows t
    by (induction rows arbitrary: i) simp_all
  have succ: "map fst (filter (\<lambda>x. snd x = None) (zip rows (replicate (length xs) None))) = rows"
    and nothing': "requeue_failed r se i (zip rows (replicate (length xs) None)) t = t" for i t
    unfolding zip by (fact all) (fact nothing)
  have stored: "stored_messages ms (replicate (length ms) True) = ms" for ms
    by (induction ms) (simp_all add: stored_messages_def)
  have stored': "stored_messages (map (row_message r) rows) (replicate (length xs) True) = map (row_message r) rows"
    using stored [of "map (row_message r) rows"] len by simp
  have ids: "map cl_outboxID rows = map ob_id xs" by (simp add: scan_row_def rows_def)
  have hit: "batch_hit r rows (if ob_id x \<in> set (map ob_id xs) then claim_row r ?now x else x)
      \<longleftrightarrow> ob_id x \<in> set (map ob_id xs)" for x
    unfolding batch_hit_def ids by (simp add: claim_row_def)
  have count: "length (filter (batch_hit r rows) (outbox s2)) = length xs"
    unfolding assms(5) outbox_update filter_map length_map comp_def hit
    using due_ids(3) [OF assms(2,3)] by simp
  have upd: "update_outbox (batch_hit r rows) (publish_row ?now) s2
      = update_outbox (\<lambda>x. ob_id x \<in> set (map ob_id xs)) (publish_row ?now) s"
    unfolding assms(5) using hit by (simp add: update_outbox_def)
  have mark: "run_auto (se_batch se) (markPublishedBatch r (se_batch se) rows ?now) s2
      = (Inr (length xs), update_outbox (\<lambda>x. ob_id x \<in> set (map ob_id xs)) (publish_row ?now) s)"
    using count upd by (simp only: mark_batch_clean [OF assms(1)])
  have "rows \<noteq> []" using assms(4) by (simp add: rows_def)
  then show ?thesis
    unfolding rows_def [symmetric] publishClaimedBatch_def kafka_PublishBatch_def Let_def
    by (simp add: succ nothing' stored' mark len)
qed

text \<open>A scan in which nothing fails takes back the rows with an expired lease, publishes the first due
  rows in the order of the table, at most a batch of them, marks exactly those PUBLISHED and
  appends exactly their messages to the log.\<close>

lemma clean_scan_effect:
  assumes "clean_scan se" "accepting pub" "outbox_ok s"
  shows "ScanAndPublish r pub se (s, l) =
    (Inr (length (published_first r se (reclaimed (se_now se) s))),
     update_outbox (\<lambda>x. ob_id x \<in> set (map ob_id (published_first r se (reclaimed (se_now se) s))))
       (publish_row (se_now se)) (reclaimed (se_now se) s),
     l @ map (message_of (rl_topic r)) (published_first r se (reclaimed (se_now se) s)))"
proof -
  let ?s1 = "reclaimed (se_now se) s" and ?now = "se_now se"
  define xs where "xs = take (rl_batchSize r) (due_rows [] ?now ?s1)"
  let ?s2 = "update_outbox (\<lambda>x. ob_id x \<in> set (map ob_id xs)) (claim_row r ?now) ?s1"
  have c: "clean (se_reclaim se)" "clean (se_claim se)" "clean (se_batch se)" "\<forall>i. clean (se_mark se i)" "se_skip se = []"
    using assms(1) by (simp_all add: clean_scan_def)
  have ok: "outbox_ok ?s1" using assms(3) by (simp add: reclaimed_def update_keeps_outbox_ok)
  have msgs: "map (row_message r) (map scan_row xs) = map (message_of (rl_topic r)) xs"
    by (simp add: row_message_def scan_row_def message_of_def)
  have upd: "update_outbox (\<lambda>x. ob_id x \<in> set (map ob_id xs)) (publish_row ?now) ?s2
      = update_outbox (\<lambda>x. ob_id x \<in> set (map ob_id xs)) (publish_row ?now) ?s1"
    by (simp add: update_outbox_def)
  have ids: "map cl_outboxID (map scan_row xs) = map ob_id xs" by (simp add: scan_row_def)
  have first: "published_first r se ?s1 = xs" by (simp add: published_first_def xs_def)
  note start = ScanAndPublish_def reclaim_clean [OF c(1)] claim_clean [OF c(2) xs_def] c(5)
  show ?thesis
  proof (cases "xs = []")
    case True
    then show ?thesis by (simp add: start first update_outbox_def)
  next
    case False
    from assms(2) show ?thesis unfolding accepting_def
    proof
      assume "pub = SinglePublisher (\<lambda>_. mem_Publish None)"
      then show ?thesis unfolding first
        using False publish_rows_clean [OF c(4), of r 0 "map scan_row xs" ?s2 l, unfolded ids upd msgs]
        by (simp add: start Let_def)
    next
      assume "pub = BatchPublisher (kafka_PublishBatch (\<lambda>ms. (replicate (length ms) True, WriteOK)))"
      then show ?thesis unfolding first
        using False batch_clean [OF c(3) ok xs_def False refl, of r l, unfolded msgs]
        by (simp add: start)
    qed
  qed
qed

text \<open>After such a scan nothing is expired, and the due rows are the ones it did not reach.\<close>

lemma filter_other:
  assumes "set (map f a) \<inter> set (map f b) = {}"
  shows "filter (\<lambda>x. f x \<notin> set (map f a)) (a @ b) = b"
proof -
  have "filter (\<lambda>x. f x \<notin> set (map f a)) b = b" using assms by (auto simp: filter_id_conv)
  moreover have "filter (\<lambda>x. f x \<notin> set (map f a)) a = []" by (simp add: filter_empty_conv)
  ultimately show ?thesis by simp
qed

lemma due_after_publish:
  assumes "outbox_ok s" "xs = take n (due_rows [] now s)"
  shows "due_rows [] now (update_outbox (\<lambda>x. ob_id x \<in> set (map ob_id xs)) (publish_row now') s)
    = drop n (due_rows [] now s)"
proof -
  let ?due = "\<lambda>x. ob_status x = OPending \<and> ob_available x \<le> now"
  have due: "due_rows [] now t = filter ?due (outbox t)" for t by (simp add: due_rows_def)
  have d: "distinct (map ob_id (due_rows [] now s))"
    unfolding due using assms(1) by (intro distinct_map_filter) (simp add: outbox_ok_def)
  have "filter ?due (map (\<lambda>x. if ob_id x \<in> A then publish_row now' x else x) ys)
      = filter (\<lambda>x. ob_id x \<notin> A) (filter ?due ys)" for A ys
    by (induction ys) (auto simp: publish_row_def unlock_row_def)
  then have *: "due_rows [] now (update_outbox (\<lambda>x. ob_id x \<in> set (map ob_id xs)) (publish_row now') s)
      = filter (\<lambda>x. ob_id x \<notin> set (map ob_id xs)) (due_rows [] now s)"
    unfolding due outbox_update .
  have "filter (\<lambda>x. ob_id x \<notin> set (map ob_id (take n ys))) ys = drop n ys" if "distinct (map ob_id ys)" for ys
  proof -
    have "set (map ob_id (take n ys)) \<inter> set (map ob_id (drop n ys)) = {}"
      using that set_take_disj_set_drop_if_distinct [of "map ob_id ys" n n] by (simp add: take_map drop_map)
    from filter_other [OF this] show ?thesis by simp
  qed
  from * this [OF d, folded assms(2)] show ?thesis by (rule trans)
qed

definition none_expired :: "gotime \<Rightarrow> db \<Rightarrow> bool" where
  "none_expired now s \<longleftrightarrow> (\<forall>x\<in>set (outbox s). \<not> expired now x)"

lemma reclaimed_none: "none_expired now (reclaimed now s)"
  by (auto simp: none_expired_def reclaimed_def outbox_update expired_def unlock_row_def)

lemma reclaimed_id: "none_expired now s \<Longrightarrow> reclaimed now s = s"
  by (simp add: none_expired_def reclaimed_def update_outbox_def cong: map_cong)

lemma publish_none_expired: "none_expired now s \<Longrightarrow> none_expired now (update_outbox p (publish_row now') s)"
  by (auto simp: none_expired_def outbox_update expired_def publish_row_def)

fun scans :: "relay \<Rightarrow> publisher \<Rightarrow> scan_env \<Rightarrow> nat \<Rightarrow> world \<Rightarrow> world" where
  "scans r pub se 0 w = w"
| "scans r pub se (Suc n) w = scans r pub se n (snd (ScanAndPublish r pub se w))"

lemma scans_drain:
  assumes "clean_scan se" "accepting pub" "outbox_ok s" "none_expired (se_now se) s"
    "length (due_rows [] (se_now se) s) \<le> n * rl_batchSize r"
  shows "due_rows [] (se_now se) (fst (scans r pub se n (s, l))) = []
    \<and> snd (scans r pub se n (s, l)) = l @ map (message_of (rl_topic r)) (due_rows [] (se_now se) s)"
  using assms(3-5)
proof (induction n arbitrary: s l)
  case (Suc n)
  let ?now = "se_now se" and ?xs = "published_first r se s"
  let ?s' = "update_outbox (\<lambda>x. ob_id x \<in> set (map ob_id ?xs)) (publish_row ?now) s"
  have step: "snd (ScanAndPublish r pub se (s, l)) = (?s', l @ map (message_of (rl_topic r)) ?xs)"
    using clean_scan_effect [OF assms(1,2) Suc.prems(1), of r l] reclaimed_id [OF Suc.prems(2)] by simp
  have due: "due_rows [] ?now ?s' = drop (rl_batchSize r) (due_rows [] ?now s)"
    using due_after_publish [OF Suc.prems(1)] by (simp add: published_first_def)
  have "length (due_rows [] ?now ?s') \<le> n * rl_batchSize r" using Suc.prems(3) due by simp
  moreover have "outbox_ok ?s'" using Suc.prems(1) by (simp add: update_keeps_outbox_ok)
  ultimately have
    "due_rows [] ?now (fst (scans r pub se n (?s', l @ map (message_of (rl_topic r)) ?xs))) = []"
    "snd (scans r pub se n (?s', l @ map (message_of (rl_topic r)) ?xs))
      = (l @ map (message_of (rl_topic r)) ?xs) @ map (message_of (rl_topic r)) (due_rows [] ?now ?s')"
    using Suc.IH publish_none_expired [OF Suc.prems(2)] by blast+
  moreover have "map f ?xs @ map f (due_rows [] ?now ?s') = map f (due_rows [] ?now s)" for f :: "outbox_row \<Rightarrow> message"
    unfolding due by (simp add: published_first_def flip: map_append)
  ultimately show ?case using step by simp
qed simp

text \<open>C15: while nothing fails, enough scans drain the table: after \<^verbatim>\<open>n + 1\<close> scans of batches of size
  \<^verbatim>\<open>b\<close> with at most \<^verbatim>\<open>(n + 1) * b\<close> rows due, none is due any more, and the log has gained exactly
  their messages, each once and in the order of the table, so the events of one farm keep their
  order; this holds for the in-memory publisher and for Kafka.\<close>

theorem relay_drains_in_order:
  assumes "clean_scan se" "accepting pub" "outbox_ok s"
    "length (due_rows [] (se_now se) (reclaimed (se_now se) s)) \<le> Suc n * rl_batchSize r"
  shows "due_rows [] (se_now se) (fst (scans r pub se (Suc n) (s, l))) = []
    \<and> snd (scans r pub se (Suc n) (s, l))
       = l @ map (message_of (rl_topic r)) (due_rows [] (se_now se) (reclaimed (se_now se) s))"
proof -
  let ?s = "reclaimed (se_now se) s"
  have ok: "outbox_ok ?s" using assms(3) by (simp add: reclaimed_def update_keeps_outbox_ok)
  have same: "ScanAndPublish r pub se (s, l) = ScanAndPublish r pub se (?s, l)"
    using clean_scan_effect [OF assms(1,2,3), of r l] clean_scan_effect [OF assms(1,2) ok, of r l]
      reclaimed_id [OF reclaimed_none] by simp
  have "scans r pub se (Suc n) (s, l) = scans r pub se (Suc n) (?s, l)" using same by simp
  with scans_drain [OF assms(1,2) ok reclaimed_none assms(4), of l] show ?thesis by simp
qed

section \<open>Finding: an expired lease is not fenced\<close>

text \<open>
  Two workers on the shard: A claims the row and stalls past its lease, B takes the row back,
  publishes it and marks it PUBLISHED; then A's send fails and its UPDATE, which names the row by id
  only, marks the published row DEAD (with a limit of one failed attempt).
\<close>

definition demo_row :: outbox_row where
  "demo_row = \<lparr>ob_id = 1, ob_event_id = ''e0'', ob_aggregate_type = ''farm'', ob_aggregate_id = 7,
     ob_partition_key = ''7'', ob_event_type = EventTypeFarmHarvested,
     ob_payload = \<lparr>ev_EventID = ''e0'', ev_EventType = EventTypeFarmHarvested, ev_AggregateType = ''farm'',
        ev_AggregateID = ''7'', ev_SchemaVersion = 1, ev_OccurredAt = 0, ev_CorrelationID = '''',
        ev_CausationID = '''', ev_Payload = NilPayload\<rparr>,
     ob_status = OPending, ob_available = 0, ob_retry = 0, ob_locked_by = None, ob_locked_until = None,
     ob_published_at = None\<rparr>"

definition relay_db :: db where
  "relay_db = empty_db\<lparr>outbox := [demo_row, demo_row\<lparr>ob_id := 2, ob_event_id := ''e2''\<rparr>]\<rparr>"

definition quiet_scan :: "gotime \<Rightarrow> scan_env" where
  "quiet_scan now = \<lparr>se_now = now, se_reclaim = demo_env, se_claim = demo_env, se_skip = [],
     se_mark = (\<lambda>_. demo_env), se_ack = (\<lambda>_. demo_env), se_batch = demo_env\<rparr>"

definition demo_config :: relay_config where
  "demo_config = \<lparr>rcfg_BatchSize = 1, rcfg_MaxRetry = 1, rcfg_LockTTL = 0, rcfg_Topic = ''''\<rparr>"

definition relay_A :: relay where "relay_A = NewOutboxRelay ''A'' demo_config"
definition relay_B :: relay where "relay_B = NewOutboxRelay ''B'' demo_config"

definition working_mem :: publisher where "working_mem = SinglePublisher (\<lambda>_. mem_Publish None)"

text \<open>The row has failed once before; A claims it at second 10, B scans at second 50, A fails.\<close>

definition stalled_claim :: "(go_error + claimed_row list) \<times> db" where
  "stalled_claim = claimBatch relay_A [] demo_env (10 * second) (relay_db\<lparr>outbox := [demo_row\<lparr>ob_retry := 1\<rparr>]\<rparr>)"

definition after_B :: world where
  "after_B = snd (ScanAndPublish relay_B working_mem (quiet_scan (50 * second)) (snd stalled_claim, []))"

definition after_A :: db where
  "after_A = (case stalled_claim of
     (Inr rows, _) \<Rightarrow> snd (run_auto demo_env (markRetryOrDead relay_A demo_env (hd rows) (10 * second)) (fst after_B))
   | _ \<Rightarrow> relay_db)"

text \<open>The requeue of a worker whose lease has expired is not fenced: a row that another worker has
  published and marked PUBLISHED ends DEAD, with its message in the log.\<close>

theorem published_row_goes_dead:
  "map ob_status (outbox (fst after_B)) = [OPublished] \<and> length (snd after_B) = 1
   \<and> map ob_status (outbox after_A) = [ODead]"
  by code_simp

section \<open>Witnesses\<close>

lemma demo_scan_env: "clean_scan (quiet_scan t)"
  by (simp add: clean_scan_def quiet_scan_def clean_def demo_env_def)

lemma relay_db_ok: "outbox_ok relay_db" "\<forall>x\<in>set (outbox relay_db). ob_status x = OPending \<and> ob_retry x = 0"
  by (simp_all add: relay_db_def outbox_ok_def demo_row_def)

theorem relay_drains_in_order_witness:
  "due_rows [] (10 * second) (fst (scans relay_A working_mem (quiet_scan (10 * second)) 2 (relay_db, []))) = []
   \<and> length (snd (scans relay_A working_mem (quiet_scan (10 * second)) 2 (relay_db, []))) = 2"
proof -
  have "length (due_rows [] (se_now (quiet_scan (10 * second))) (reclaimed (se_now (quiet_scan (10 * second))) relay_db)) = 2"
    by code_simp
  moreover have "rl_batchSize relay_A = 1" by code_simp
  moreover have "accepting working_mem" by (simp add: accepting_def working_mem_def)
  moreover have "se_now (quiet_scan (10 * second)) = 10 * second" by (simp add: quiet_scan_def)
  ultimately show ?thesis
    using relay_drains_in_order [OF demo_scan_env [of "10 * second"] _ relay_db_ok(1),
        where pub = working_mem and r = relay_A and n = 1 and l = "[]"]
    by (simp add: numeral_2_eq_2)
qed


text \<open>A scan of A, which marks the first row PUBLISHED, as a run of steps.\<close>

definition scanned :: "gotime \<Rightarrow> world" where
  "scanned t = snd (ScanAndPublish relay_A working_mem (quiet_scan t) (relay_db, []))"

lemma demo_run:
  obtains h where "relay_step\<^sup>*\<^sup>* (relay_db, [], {}) (fst (scanned t), snd (scanned t), h)"
proof -
  have "honest working_mem" using mem_publisher.nil_means_stored by (simp add: working_mem_def)
  from scan_steps [OF this relay_db_ok(1), of "[]" "{}" relay_A "quiet_scan t"] that show ?thesis
    unfolding scanned_def by blast
qed

theorem published_rows_were_sent_witness:
  "\<exists>x topic. x \<in> set (outbox (fst (scanned 10))) \<and> ob_status x = OPublished
     \<and> \<lparr>msg_Topic = topic, msg_Key = ob_partition_key x, msg_Payload = ob_payload x\<rparr> \<in> set (snd (scanned 10))"
proof -
  obtain h where run: "relay_step\<^sup>*\<^sup>* (relay_db, [], {}) (fst (scanned 10), snd (scanned 10), h)"
    by (rule demo_run)
  have "map ob_status (outbox (fst (scanned 10))) = [OPublished, OPending]" by code_simp
  then obtain x where x: "x \<in> set (outbox (fst (scanned 10)))" "ob_status x = OPublished"
    by (cases "outbox (fst (scanned 10))") auto
  have "\<forall>x\<in>set (outbox relay_db). ob_status x \<noteq> OPublished" using relay_db_ok(2) by simp
  from published_rows_were_sent [OF run relay_db_ok(1) this x] x show ?thesis by blast
qed

theorem scan_refines_steps_witness:
  "\<exists>h'. relay_step\<^sup>*\<^sup>* (relay_db, [], {})
     (fst (snd (ScanAndPublish relay_A working_mem (quiet_scan 10) (relay_db, []))),
      snd (snd (ScanAndPublish relay_A working_mem (quiet_scan 10) (relay_db, []))), h')"
proof -
  have "honest working_mem" using mem_publisher.nil_means_stored by (simp add: working_mem_def)
  from scan_refines_steps [OF this relay_db_ok(1)] show ?thesis by blast
qed

lemma three_steps: "R a b \<Longrightarrow> R b c \<Longrightarrow> R c d \<Longrightarrow> R\<^sup>*\<^sup>* a d"
  by (meson converse_rtranclp_into_rtranclp r_into_rtranclp)

text \<open>A claim of A whose send fails and is requeued.\<close>

definition failed_once :: db where
  "failed_once = snd (run_auto demo_env (markRetryOrDead relay_A demo_env (scan_row demo_row) 10)
     (snd (claimBatch relay_A [] demo_env 10 relay_db)))"

lemma failing_run: "(\<lambda>w w'. relay_step w w' \<and> uses_max 1 w')\<^sup>*\<^sup>* (relay_db, [], {}) (failed_once, [], {})"
proof -
  let ?R = "\<lambda>w w'. relay_step w w' \<and> uses_max 1 w'" and ?d = "(relay_A, scan_row demo_row, 10)"
  let ?s = "snd (claimBatch relay_A [] demo_env 10 relay_db)"
  have m: "rl_maxRetry relay_A = 1" by code_simp
  have c: "claimBatch relay_A [] demo_env 10 relay_db = (Inr [scan_row demo_row], ?s)"
  proof (rule prod_eqI)
    show "fst (claimBatch relay_A [] demo_env 10 relay_db) = fst (Inr [scan_row demo_row], ?s)"
      unfolding fst_conv by code_simp
  qed simp
  have 1: "?R (relay_db, [], {}) (?s, [], {(relay_A, scan_row demo_row, 10, InHand)})"
    using relay_step.claim [OF c, of "[]" "{}"] m by (simp add: uses_max_def)
  have 2: "?R (?s, [], {(relay_A, scan_row demo_row, 10, InHand)}) (?s, [], {(relay_A, scan_row demo_row, 10, SendFailed)})"
    using relay_step.send_error [of relay_A "scan_row demo_row" 10 "{(relay_A, scan_row demo_row, 10, InHand)}" "[]" ?s "[]"] m
    by (simp add: uses_max_def)
  have 3: "?R (?s, [], {(relay_A, scan_row demo_row, 10, SendFailed)}) (failed_once, [], {})"
    using relay_step.requeue [of relay_A "scan_row demo_row" 10 "{(relay_A, scan_row demo_row, 10, SendFailed)}" ?s "[]" demo_env]
    by (simp add: uses_max_def failed_once_def)
  show ?thesis by (rule three_steps [of ?R, OF 1 2 3])
qed

theorem relay_retry_bounds_witness:
  "\<exists>x. x \<in> set (outbox failed_once) \<and> ob_retry x = 1 \<and> ob_status x = OPending \<and> ob_retry x \<le> 1"
proof -
  have "map (\<lambda>x. (ob_retry x, ob_status x)) (outbox failed_once) = [(1, OPending), (0, OPending)]" by code_simp
  then obtain x where x: "x \<in> set (outbox failed_once)" "ob_retry x = 1" "ob_status x = OPending"
    by (cases "outbox failed_once") auto
  have "(0::int) \<le> 1" "(1::int) < max_int64" by (simp_all add: max_int64_def)
  from relay_retry_bounds [OF failing_run this relay_db_ok x(1)] x show ?thesis by blast
qed

theorem relay_loses_nothing_witness:
  "(\<exists>xs. map ident (outbox failed_once) = map ident (outbox relay_db) @ xs)
   \<and> map (\<lambda>x. (ob_retry x, ob_status x)) (outbox failed_once) = [(1, OPending), (0, OPending)]"
proof -
  have "(0::int) \<le> 1" "(1::int) < max_int64" by (simp_all add: max_int64_def)
  from relay_loses_nothing [OF failing_run this relay_db_ok]
  have "\<exists>xs. map ident (outbox failed_once) = map ident (outbox relay_db) @ xs" by blast
  moreover have "map (\<lambda>x. (ob_retry x, ob_status x)) (outbox failed_once) = [(1, OPending), (0, OPending)]" by code_simp
  ultimately show ?thesis by blast
qed

end
