(* ===== verification/ActorRuntime.thy ===== *)
theory ActorRuntime
  imports FarmCommit "HOL-Library.Word"
begin

unbundle bit_operations_syntax

text \<open>
  internal/farm/actor/runtime.go: one logical actor per farm on a bounded shared runtime.  Channels are
  lists with a capacity, the goroutines are the schedulers of the shards and the workers, and the
  state is what they share.  A Go pointer to an actorState is a number that a fresh allocation
  increases, so that the comparison of complete is a comparison of numbers; the snapshot that a work
  item points to is used by one goroutine at a time, so it is a value.  The result channel of a task
  holds one outcome and a second send is dropped.  Slices of fixed length are functions from an
  index, and the metrics observer is left out.
\<close>

section \<open>Data\<close>

record actor_config =
  ac_SchedulerShards :: int
  ac_IngressCap :: int
  ac_FarmQueueCap :: int
  ac_ReadyCap :: int
  ac_Workers :: int
  ac_MaxActiveActors :: int
  ac_EnqueueWait :: duration
  ac_RetryAfter :: duration
  ac_ExecutionTimeout :: duration
  ac_IdleTTL :: duration

definition DefaultConfig :: actor_config where
  "DefaultConfig = \<lparr>ac_SchedulerShards = 64, ac_IngressCap = 256, ac_FarmQueueCap = 8, ac_ReadyCap = 128,
     ac_Workers = 64, ac_MaxActiveActors = 100000, ac_EnqueueWait = 5 * millisecond,
     ac_RetryAfter = 50 * millisecond, ac_ExecutionTimeout = 3 * second, ac_IdleTTL = 5 * minute\<rparr>"

definition pos_or :: "int \<Rightarrow> int \<Rightarrow> int" where
  "pos_or x d = (if x \<le> 0 then d else x)"

definition fill_config :: "actor_config \<Rightarrow> actor_config" where
  "fill_config c = \<lparr>
     ac_SchedulerShards = pos_or (ac_SchedulerShards c) (ac_SchedulerShards DefaultConfig),
     ac_IngressCap = pos_or (ac_IngressCap c) (ac_IngressCap DefaultConfig),
     ac_FarmQueueCap = pos_or (ac_FarmQueueCap c) (ac_FarmQueueCap DefaultConfig),
     ac_ReadyCap = pos_or (ac_ReadyCap c) (ac_ReadyCap DefaultConfig),
     ac_Workers = pos_or (ac_Workers c) (ac_Workers DefaultConfig),
     ac_MaxActiveActors = pos_or (ac_MaxActiveActors c) (ac_MaxActiveActors DefaultConfig),
     ac_EnqueueWait = pos_or (ac_EnqueueWait c) (ac_EnqueueWait DefaultConfig),
     ac_RetryAfter = pos_or (ac_RetryAfter c) (ac_RetryAfter DefaultConfig),
     ac_ExecutionTimeout = pos_or (ac_ExecutionTimeout c) (ac_ExecutionTimeout DefaultConfig),
     ac_IdleTTL = pos_or (ac_IdleTTL c) (ac_IdleTTL DefaultConfig)\<rparr>"

record actor_task =
  tk_id :: nat
  tk_cmd :: command

type_synonym commit_outcome_t = "go_error + commit_result"

record actor_state =
  as_ptr :: nat
  as_farmID :: int
  as_snapshot :: "snapshot option"
  as_running :: bool
  as_inflight :: "actor_task option"
  as_queue :: "actor_task list"
  as_lastUsed :: gotime

record completion =
  cp_state :: nat
  cp_farmID :: int
  cp_task :: actor_task
  cp_snapshot :: "snapshot option"
  cp_out :: commit_outcome_t

record work_item =
  wi_shard :: nat
  wi_state :: nat
  wi_farmID :: int
  wi_task :: actor_task
  wi_snapshot :: "snapshot option"

text \<open>A scheduler is in its select, or inside complete with a work item that ready has no room for.\<close>

record shard_state =
  ss_inbox :: "actor_task list"
  ss_completed :: "completion list"
  ss_actors :: "(int \<times> actor_state) list"
  ss_blocked :: "work_item option"

text \<open>A worker waits on ready, executes an item, or waits to hand its completion to a shard.\<close>

datatype worker = WorkerIdle | WorkerBusy work_item | WorkerDone nat completion

record runtime =
  rt_cfg :: actor_config
  rt_shards :: "nat \<Rightarrow> shard_state"
  rt_ready :: "work_item list"
  rt_waiters :: "nat list"
  rt_workers :: "nat \<Rightarrow> worker"
  rt_activeActors :: int
  rt_queued :: int
  rt_results :: "nat \<Rightarrow> commit_outcome_t option"
  rt_next :: nat

definition empty_shard :: shard_state where
  "empty_shard = \<lparr>ss_inbox = [], ss_completed = [], ss_actors = [], ss_blocked = None\<rparr>"

definition NewRuntimeWithConfig :: "actor_config \<Rightarrow> runtime" where
  "NewRuntimeWithConfig cfg =
     \<lparr>rt_cfg = fill_config cfg, rt_shards = (\<lambda>_. empty_shard), rt_ready = [], rt_waiters = [], rt_workers = (\<lambda>_. WorkerIdle),
      rt_activeActors = 0, rt_queued = 0, rt_results = (\<lambda>_. None), rt_next = 0\<rparr>"

text \<open>The shard of a farm: FNV-1a over the eight little-endian bytes of its id.\<close>

definition fnv32a :: "8 word list \<Rightarrow> 32 word" where
  "fnv32a bs = foldl (\<lambda>h b. (h XOR ucast b) * 16777619) 2166136261 bs"

definition le_bytes :: "int \<Rightarrow> 8 word list" where
  "le_bytes x = map (\<lambda>i. word_of_int (x div 2 ^ (8 * i))) [0..<8]"

definition shardFor :: "runtime \<Rightarrow> int \<Rightarrow> nat" where
  "shardFor rt farmID = unat (fnv32a (le_bytes farmID)) mod nat (ac_SchedulerShards (rt_cfg rt))"

section \<open>Operations\<close>

definition backpressure :: "runtime \<Rightarrow> go_error" where
  "backpressure rt = NewRetry ResourceExhausted (ac_RetryAfter (rt_cfg rt))"

definition deliver :: "actor_task \<Rightarrow> commit_outcome_t \<Rightarrow> runtime \<Rightarrow> runtime" where
  "deliver t out rt =
     (if rt_results rt (tk_id t) = None then rt\<lparr>rt_results := (rt_results rt)(tk_id t := Some out)\<rparr> else rt)"

definition set_shard :: "nat \<Rightarrow> shard_state \<Rightarrow> runtime \<Rightarrow> runtime" where
  "set_shard i s rt = rt\<lparr>rt_shards := (rt_shards rt)(i := s)\<rparr>"

definition get_actor :: "runtime \<Rightarrow> nat \<Rightarrow> int \<Rightarrow> actor_state option" where
  "get_actor rt i f = map_of (ss_actors (rt_shards rt i)) f"

definition set_actor :: "nat \<Rightarrow> actor_state \<Rightarrow> runtime \<Rightarrow> runtime" where
  "set_actor i st rt =
     set_shard i ((rt_shards rt i)\<lparr>ss_actors := AList.update (as_farmID st) st (ss_actors (rt_shards rt i))\<rparr>) rt"

definition delete_actor :: "nat \<Rightarrow> int \<Rightarrow> runtime \<Rightarrow> runtime" where
  "delete_actor i f rt =
     set_shard i ((rt_shards rt i)\<lparr>ss_actors := AList.delete f (ss_actors (rt_shards rt i))\<rparr>) rt"

definition work_of :: "nat \<Rightarrow> actor_state \<Rightarrow> actor_task \<Rightarrow> work_item" where
  "work_of i st t = \<lparr>wi_shard = i, wi_state = as_ptr st, wi_farmID = as_farmID st, wi_task = t, wi_snapshot = as_snapshot st\<rparr>"

definition ready_full :: "runtime \<Rightarrow> bool" where
  "ready_full rt \<longleftrightarrow> int (length (rt_ready rt)) \<ge> ac_ReadyCap (rt_cfg rt)"

text \<open>tryDispatch: the new state when the item fits into ready.\<close>

definition tryDispatch :: "nat \<Rightarrow> actor_state \<Rightarrow> actor_task \<Rightarrow> gotime \<Rightarrow> runtime \<Rightarrow> runtime option" where
  "tryDispatch i st t now rt =
     (if ready_full rt then None
      else Some (set_actor i (st\<lparr>as_running := True, as_inflight := Some t, as_lastUsed := now\<rparr>)
             (rt\<lparr>rt_ready := rt_ready rt @ [work_of i st t]\<rparr>)))"

definition tryActorAdd :: "runtime \<Rightarrow> runtime option" where
  "tryActorAdd rt =
     (if rt_activeActors rt \<ge> ac_MaxActiveActors (rt_cfg rt) then None
      else Some (rt\<lparr>rt_activeActors := rt_activeActors rt + 1\<rparr>))"

definition new_actor :: "runtime \<Rightarrow> int \<Rightarrow> gotime \<Rightarrow> actor_state" where
  "new_actor rt f now = \<lparr>as_ptr = rt_next rt, as_farmID = f, as_snapshot = None, as_running = False,
     as_inflight = None, as_queue = [], as_lastUsed = now\<rparr>"

definition accept_existing :: "nat \<Rightarrow> actor_state \<Rightarrow> bool \<Rightarrow> actor_task \<Rightarrow> gotime \<Rightarrow> runtime \<Rightarrow> runtime" where
  "accept_existing i st created t now rt =
     (if as_running st
      then
        (if int (length (as_queue st)) \<ge> ac_FarmQueueCap (rt_cfg rt)
         then deliver t (Inl (backpressure rt)) rt
         else (set_actor i (st\<lparr>as_queue := as_queue st @ [t]\<rparr>) rt)\<lparr>rt_queued := rt_queued rt + 1\<rparr>)
      else
        (case tryDispatch i st t now rt of
           Some rt' \<Rightarrow> rt'
         | None \<Rightarrow>
             (let rt' = deliver t (Inl (backpressure rt)) rt in
              if created then (delete_actor i (as_farmID st) rt')\<lparr>rt_activeActors := rt_activeActors rt - 1\<rparr>
              else rt')))"

definition accept :: "nat \<Rightarrow> actor_task \<Rightarrow> gotime \<Rightarrow> runtime \<Rightarrow> runtime" where
  "accept i t now rt =
     (let f = cmd_FarmID (tk_cmd t) in
      case get_actor rt i f of
        Some st \<Rightarrow> accept_existing i st False t now rt
      | None \<Rightarrow>
          (case tryActorAdd rt of
             None \<Rightarrow> deliver t (Inl (backpressure rt)) rt
           | Some rt1 \<Rightarrow>
               (let st = new_actor rt1 f now in
                accept_existing i st True t now (set_actor i st (rt1\<lparr>rt_next := rt_next rt1 + 1\<rparr>)))))"

text \<open>The blocking hand-over at the end of complete: done when ready has room, otherwise the scheduler
  stays in it.\<close>

definition hand_over :: "nat \<Rightarrow> work_item \<Rightarrow> runtime \<Rightarrow> runtime" where
  "hand_over i w rt =
     (case get_actor rt i (wi_farmID w) of
        Some st \<Rightarrow> set_actor i (st\<lparr>as_running := True, as_inflight := Some (wi_task w)\<rparr>)
                     (rt\<lparr>rt_ready := rt_ready rt @ [w]\<rparr>)
      | None \<Rightarrow> rt\<lparr>rt_ready := rt_ready rt @ [w]\<rparr>)"

definition block_scheduler :: "nat \<Rightarrow> work_item option \<Rightarrow> runtime \<Rightarrow> runtime" where
  "block_scheduler i w rt = set_shard i ((rt_shards rt i)\<lparr>ss_blocked := w\<rparr>) rt"

definition complete :: "nat \<Rightarrow> completion \<Rightarrow> gotime \<Rightarrow> runtime \<Rightarrow> runtime" where
  "complete i c now rt =
     (case get_actor rt i (cp_farmID c) of
        None \<Rightarrow> deliver (cp_task c) (cp_out c) rt
      | Some st \<Rightarrow>
          if as_ptr st \<noteq> cp_state c then deliver (cp_task c) (cp_out c) rt
          else
            (let st1 = st\<lparr>as_running := False, as_inflight := None, as_snapshot := cp_snapshot c, as_lastUsed := now\<rparr> in
             (case as_queue st of
                [] \<Rightarrow> deliver (cp_task c) (cp_out c) (set_actor i st1 rt)
              | t # q \<Rightarrow>
                  (let rt1 = (deliver (cp_task c) (cp_out c) (set_actor i (st1\<lparr>as_queue := q\<rparr>) rt))
                               \<lparr>rt_queued := rt_queued rt - 1\<rparr>;
                       w = work_of i (st1\<lparr>as_queue := q\<rparr>) t in
                   if ready_full rt1
                   then (block_scheduler i (Some w) rt1)\<lparr>rt_waiters := rt_waiters rt1 @ [i]\<rparr>
                   else hand_over i w rt1))))"

text \<open>A worker receives from ready.  A Go channel serves its waiting senders in order: the item of the
  first waiting scheduler moves into the room at once, and that scheduler finishes its complete.\<close>

definition receive_ready :: "nat \<Rightarrow> work_item \<Rightarrow> work_item list \<Rightarrow> runtime \<Rightarrow> runtime" where
  "receive_ready k wi rest rt =
     (let rt1 = rt\<lparr>rt_ready := rest, rt_workers := (rt_workers rt)(k := WorkerBusy wi)\<rparr> in
      case rt_waiters rt of
        [] \<Rightarrow> rt1
      | j # js \<Rightarrow>
          (case ss_blocked (rt_shards rt j) of
             Some w \<Rightarrow> hand_over j w (block_scheduler j None (rt1\<lparr>rt_waiters := js\<rparr>))
           | None \<Rightarrow> rt1\<lparr>rt_waiters := js\<rparr>))"

definition evictable :: "runtime \<Rightarrow> gotime \<Rightarrow> actor_state \<Rightarrow> bool" where
  "evictable rt now st \<longleftrightarrow>
     \<not> as_running st \<and> as_queue st = [] \<and> time_sub now (as_lastUsed st) \<ge> ac_IdleTTL (rt_cfg rt)"

definition evictIdle :: "nat \<Rightarrow> gotime \<Rightarrow> runtime \<Rightarrow> runtime" where
  "evictIdle i now rt =
     (let actors = ss_actors (rt_shards rt i);
          kept = filter (\<lambda>(id, st). \<not> evictable rt now st) actors in
      (set_shard i ((rt_shards rt i)\<lparr>ss_actors := kept\<rparr>) rt)
        \<lparr>rt_activeActors := rt_activeActors rt - (int (length actors) - int (length kept))\<rparr>)"

text \<open>The end of a shard: every task it holds gets the error.\<close>

definition deliver_all :: "actor_task list \<Rightarrow> commit_outcome_t \<Rightarrow> runtime \<Rightarrow> runtime" where
  "deliver_all ts out rt = fold (\<lambda>t. deliver t out) ts rt"

definition actor_tasks :: "actor_state \<Rightarrow> actor_task list" where
  "actor_tasks st = (case as_inflight st of Some t \<Rightarrow> [t] | None \<Rightarrow> []) @ as_queue st"

definition failAll :: "nat \<Rightarrow> go_error \<Rightarrow> runtime \<Rightarrow> runtime" where
  "failAll i e rt =
     (let s = rt_shards rt i;
          rt1 = deliver_all (concat (map (actor_tasks \<circ> snd) (ss_actors s)) @ ss_inbox s) (Inl e) rt in
      (set_shard i (s\<lparr>ss_inbox := []\<rparr>) rt1)
        \<lparr>rt_activeActors := rt_activeActors rt - int (length (ss_actors s)),
         rt_queued := rt_queued rt - int (length (concat (map (as_queue \<circ> snd) (ss_actors s))))\<rparr>)"

section \<open>Execution\<close>

text \<open>The ports a worker calls; each acts on the world behind it.  Absent ports are nil interfaces.\<close>

record 'w services =
  sv_commit :: "(command \<Rightarrow> 'w \<Rightarrow> (go_error + commit_result) \<times> 'w) option"
  sv_load :: "(int \<Rightarrow> 'w \<Rightarrow> (go_error + snapshot) \<times> 'w) option"
  sv_fence :: "(int \<Rightarrow> int \<Rightarrow> 'w \<Rightarrow> (go_error + unit) \<times> 'w) option"

definition preValidate :: "snapshot \<Rightarrow> command \<Rightarrow> go_error option" where
  "preValidate s cmd =
     (if cmd_RouteEpoch cmd \<noteq> snap_RouteEpoch s then Some (New RoutingFenced)
      else if cmd_Type cmd \<noteq> CmdPetAutoHarvest \<and> cmd_BaseVersion cmd \<noteq> snap_Version s
           then Some (New FarmVersionConflict) else None)"

definition applyPatchToSnapshot :: "snapshot \<Rightarrow> patch \<Rightarrow> int \<Rightarrow> snapshot" where
  "applyPatchToSnapshot s p version =
     s\<lparr>snap_Version := version,
       snap_Plots := fold (\<lambda>q. AList.update (PlotID q) q) (patch_Plots p) (snap_Plots s)\<rparr>"

definition coldLoad :: "'w services \<Rightarrow> int \<Rightarrow> int \<Rightarrow> 'w \<Rightarrow> (go_error + snapshot) \<times> 'w" where
  "coldLoad sv farmID routeEpoch w =
     (let (fenced, w1) =
        (case sv_fence sv of
           Some fence \<Rightarrow> if routeEpoch > 0 then fence farmID routeEpoch w else (Inr (), w)
         | None \<Rightarrow> (Inr (), w)) in
      case fenced of
        Inl e \<Rightarrow> (Inl e, w1)
      | Inr _ \<Rightarrow>
          (case sv_load sv of
             None \<Rightarrow> (Inr \<lparr>snap_FarmID = farmID, snap_OwnerID = farmID, snap_Version = 0,
                          snap_RouteEpoch = routeEpoch, snap_Plots = []\<rparr>, w1)
           | Some load \<Rightarrow> load farmID w1))"

definition completion_of :: "work_item \<Rightarrow> snapshot option \<Rightarrow> commit_outcome_t \<Rightarrow> completion" where
  "completion_of wi snap out = \<lparr>cp_state = wi_state wi, cp_farmID = wi_farmID wi, cp_task = wi_task wi,
     cp_snapshot = snap, cp_out = out\<rparr>"

definition commit_step :: "'w services \<Rightarrow> work_item \<Rightarrow> snapshot \<Rightarrow> 'w \<Rightarrow> completion \<times> 'w" where
  "commit_step sv wi snap w =
     (let cmd = tk_cmd (wi_task wi) in
      case sv_commit sv of
        None \<Rightarrow> (completion_of wi (Some snap) (Inl (PlainErr ''committer not wired'')), w)
      | Some commit \<Rightarrow>
          (case (if cmd_CmdID cmd = [] then preValidate snap cmd else None) of
             Some e \<Rightarrow> (completion_of wi (Some snap) (Inl e), w)
           | None \<Rightarrow>
               (let (out, w') = commit cmd w;
                    snap' = (case out of
                       Inr res \<Rightarrow> if cr_Replayed res then snap
                                  else applyPatchToSnapshot snap (cr_Patch res) (cr_NewVersion res)
                     | Inl _ \<Rightarrow> snap) in
                (completion_of wi (Some snap') out, w'))))"

definition execute :: "'w services \<Rightarrow> work_item \<Rightarrow> 'w \<Rightarrow> completion \<times> 'w" where
  "execute sv wi w =
     (let cmd = tk_cmd (wi_task wi);
          cold = (case wi_snapshot wi of None \<Rightarrow> True | Some s \<Rightarrow> cmd_RouteEpoch cmd > snap_RouteEpoch s) in
      if cold
      then
        (case coldLoad sv (cmd_FarmID cmd) (cmd_RouteEpoch cmd) w of
           (Inl e, w1) \<Rightarrow> (completion_of wi None (Inl e), w1)
         | (Inr snap, w1) \<Rightarrow> commit_step sv wi snap w1)
      else commit_step sv wi (the (wi_snapshot wi)) w)"

end
