(* ===== verification/ActorRuntimeProps.thy ===== *)
theory ActorRuntimeProps
  imports ActorRuntime "HOL-Library.Multiset"
begin

text \<open>
  The actor runtime as a system of goroutines: each step is one case of a select or one blocking
  channel operation of a scheduler, a worker or a Submit.  The invariant says where the one token of
  a busy farm is; from it follow the serial, first-in first-out execution of each farm's commands and
  the bounds, and a state is exhibited in which schedulers and workers wait for each other.
\<close>

section \<open>Steps\<close>

datatype actor_event = Accepted int nat | Executed int nat

text \<open>The guards of accept: whether it takes the task in.\<close>

definition admitted :: "nat \<Rightarrow> actor_task \<Rightarrow> runtime \<Rightarrow> bool" where
  "admitted i t rt \<longleftrightarrow>
     (case get_actor rt i (cmd_FarmID (tk_cmd t)) of
        Some st \<Rightarrow> if as_running st then int (length (as_queue st)) < ac_FarmQueueCap (rt_cfg rt) else \<not> ready_full rt
      | None \<Rightarrow> rt_activeActors rt < ac_MaxActiveActors (rt_cfg rt) \<and> \<not> ready_full rt)"

definition pop_inbox :: "nat \<Rightarrow> runtime \<Rightarrow> runtime" where
  "pop_inbox i rt = set_shard i ((rt_shards rt i)\<lparr>ss_inbox := tl (ss_inbox (rt_shards rt i))\<rparr>) rt"

definition pop_completed :: "nat \<Rightarrow> runtime \<Rightarrow> runtime" where
  "pop_completed i rt = set_shard i ((rt_shards rt i)\<lparr>ss_completed := tl (ss_completed (rt_shards rt i))\<rparr>) rt"

definition push_inbox :: "nat \<Rightarrow> actor_task \<Rightarrow> runtime \<Rightarrow> runtime" where
  "push_inbox i t rt = set_shard i ((rt_shards rt i)\<lparr>ss_inbox := ss_inbox (rt_shards rt i) @ [t]\<rparr>) rt"

definition push_completed :: "nat \<Rightarrow> completion \<Rightarrow> runtime \<Rightarrow> runtime" where
  "push_completed i c rt = set_shard i ((rt_shards rt i)\<lparr>ss_completed := ss_completed (rt_shards rt i) @ [c]\<rparr>) rt"

definition set_worker :: "nat \<Rightarrow> worker \<Rightarrow> runtime \<Rightarrow> runtime" where
  "set_worker k x rt = rt\<lparr>rt_workers := (rt_workers rt)(k := x)\<rparr>"

definition n_workers :: "runtime \<Rightarrow> nat" where
  "n_workers rt = nat (ac_Workers (rt_cfg rt))"

type_synonym 'w config = "runtime \<times> 'w"

inductive actor_step :: "'w config \<Rightarrow> actor_event list \<Rightarrow> 'w config \<Rightarrow> bool" where
  submit: "i = shardFor rt (cmd_FarmID cmd) \<Longrightarrow> int (length (ss_inbox (rt_shards rt i))) < ac_IngressCap (rt_cfg rt) \<Longrightarrow>
    actor_step (rt, w) [] ((push_inbox i \<lparr>tk_id = rt_next rt, tk_cmd = cmd\<rparr> rt)\<lparr>rt_next := rt_next rt + 1\<rparr>, w)"
| accept: "ss_blocked (rt_shards rt i) = None \<Longrightarrow> ss_inbox (rt_shards rt i) = t # rest \<Longrightarrow>
    actor_step (rt, w) (if admitted i t rt then [Accepted (cmd_FarmID (tk_cmd t)) (tk_id t)] else [])
      (accept i t now (pop_inbox i rt), w)"
| complete: "ss_blocked (rt_shards rt i) = None \<Longrightarrow> ss_completed (rt_shards rt i) = c # rest \<Longrightarrow>
    actor_step (rt, w) [] (complete i c now (pop_completed i rt), w)"
| tick: "ss_blocked (rt_shards rt i) = None \<Longrightarrow> actor_step (rt, w) [] (evictIdle i now rt, w)"
| take: "k < n_workers rt \<Longrightarrow> rt_workers rt k = WorkerIdle \<Longrightarrow> rt_ready rt = wi # rest \<Longrightarrow>
    actor_step (rt, w) [] (receive_ready k wi rest rt, w)"
| exec: "k < n_workers rt \<Longrightarrow> rt_workers rt k = WorkerBusy wi \<Longrightarrow> execute sv wi w = (c, w') \<Longrightarrow>
    actor_step (rt, w) [Executed (wi_farmID wi) (tk_id (wi_task wi))]
      (set_worker k (WorkerDone (wi_shard wi) c) rt, w')"
| hand_in: "k < n_workers rt \<Longrightarrow> rt_workers rt k = WorkerDone i c \<Longrightarrow>
    length (ss_completed (rt_shards rt i)) < n_workers rt \<Longrightarrow>
    actor_step (rt, w) [] (push_completed i c (set_worker k WorkerIdle rt), w)"

inductive actor_run :: "'w config \<Rightarrow> actor_event list \<Rightarrow> 'w config \<Rightarrow> bool" where
  run_start: "actor_run x [] x"
| run_next: "actor_run x tr y \<Longrightarrow> actor_step y es z \<Longrightarrow> actor_run x (tr @ es) z"

section \<open>Views of the state\<close>

text \<open>A token is a pointer to the actor with the id of a task.  \<^verbatim>\<open>U\<close> holds the tokens of a farm on the
  way to execution, \<^verbatim>\<open>E\<close> those on the way back.\<close>

definition wtok :: "work_item \<Rightarrow> nat \<times> nat" where "wtok w = (wi_state w, tk_id (wi_task w))"
definition ctok :: "completion \<Rightarrow> nat \<times> nat" where "ctok c = (cp_state c, tk_id (cp_task c))"

definition at_key :: "nat \<Rightarrow> int \<Rightarrow> work_item \<Rightarrow> bool" where
  "at_key i f w \<longleftrightarrow> wi_shard w = i \<and> wi_farmID w = f"

definition busy_tok :: "nat \<Rightarrow> int \<Rightarrow> worker \<Rightarrow> (nat \<times> nat) multiset" where
  "busy_tok i f x = (case x of WorkerBusy w \<Rightarrow> if at_key i f w then {#wtok w#} else {#} | _ \<Rightarrow> {#})"

definition done_tok :: "nat \<Rightarrow> int \<Rightarrow> worker \<Rightarrow> (nat \<times> nat) multiset" where
  "done_tok i f x = (case x of WorkerDone j c \<Rightarrow> if j = i \<and> cp_farmID c = f then {#ctok c#} else {#} | _ \<Rightarrow> {#})"

definition U :: "runtime \<Rightarrow> nat \<Rightarrow> int \<Rightarrow> (nat \<times> nat) multiset" where
  "U rt i f = mset (map wtok (filter (at_key i f) (rt_ready rt)))
     + (\<Sum>k<n_workers rt. busy_tok i f (rt_workers rt k))"

definition E :: "runtime \<Rightarrow> nat \<Rightarrow> int \<Rightarrow> (nat \<times> nat) multiset" where
  "E rt i f = mset (map ctok (filter (\<lambda>c. cp_farmID c = f) (ss_completed (rt_shards rt i))))
     + (\<Sum>k<n_workers rt. done_tok i f (rt_workers rt k))"

lemma sum_upd:
  fixes g :: "nat \<Rightarrow> 'a multiset"
  assumes "k < n"
  shows "(\<Sum>j<n. if j = k then v else g j) + g k = (\<Sum>j<n. g j) + v"
proof -
  have *: "(\<Sum>j<n. h j) = h k + (\<Sum>j\<in>{..<n} - {k}. h j)" for h :: "nat \<Rightarrow> 'a multiset"
    using assms by (intro sum.remove) auto
  have "(\<Sum>j\<in>{..<n} - {k}. if j = k then v else g j) = (\<Sum>j\<in>{..<n} - {k}. g j)"
    by (rule sum.cong) auto
  then show ?thesis
    unfolding * [of g] * [of "\<lambda>j. if j = k then v else g j"] by simp
qed

lemma get_set_actor [simp]:
  "get_actor (set_actor i st rt) j f = (if j = i \<and> f = as_farmID st then Some st else get_actor rt j f)"
  by (simp add: get_actor_def set_actor_def set_shard_def)

lemma get_delete_actor [simp]:
  "get_actor (delete_actor i g rt) j f = (if j = i \<and> f = g then None else get_actor rt j f)"
  by (simp add: get_actor_def delete_actor_def set_shard_def delete_conv')

text \<open>Each helper changes one part of the state.\<close>

lemma parts_deliver [simp]:
  "rt_cfg (deliver t out rt) = rt_cfg rt" "rt_shards (deliver t out rt) = rt_shards rt"
  "rt_ready (deliver t out rt) = rt_ready rt" "rt_workers (deliver t out rt) = rt_workers rt"
  "rt_next (deliver t out rt) = rt_next rt" "rt_activeActors (deliver t out rt) = rt_activeActors rt"
  by (simp_all add: deliver_def)

lemma parts_set_shard [simp]:
  "rt_cfg (set_shard i s rt) = rt_cfg rt" "rt_ready (set_shard i s rt) = rt_ready rt"
  "rt_workers (set_shard i s rt) = rt_workers rt" "rt_next (set_shard i s rt) = rt_next rt"
  "rt_shards (set_shard i s rt) j = (if j = i then s else rt_shards rt j)"
  "rt_activeActors (set_shard i s rt) = rt_activeActors rt"
  by (simp_all add: set_shard_def)

lemma parts_set_actor [simp]:
  "rt_cfg (set_actor i st rt) = rt_cfg rt" "rt_ready (set_actor i st rt) = rt_ready rt"
  "rt_workers (set_actor i st rt) = rt_workers rt" "rt_next (set_actor i st rt) = rt_next rt"
  "ss_inbox (rt_shards (set_actor i st rt) j) = ss_inbox (rt_shards rt j)"
  "ss_completed (rt_shards (set_actor i st rt) j) = ss_completed (rt_shards rt j)"
  "ss_blocked (rt_shards (set_actor i st rt) j) = ss_blocked (rt_shards rt j)"
  "rt_activeActors (set_actor i st rt) = rt_activeActors rt"
  by (simp_all add: set_actor_def)

lemma parts_delete_actor [simp]:
  "rt_cfg (delete_actor i f rt) = rt_cfg rt" "rt_ready (delete_actor i f rt) = rt_ready rt"
  "rt_workers (delete_actor i f rt) = rt_workers rt" "rt_next (delete_actor i f rt) = rt_next rt"
  "ss_inbox (rt_shards (delete_actor i f rt) j) = ss_inbox (rt_shards rt j)"
  "ss_completed (rt_shards (delete_actor i f rt) j) = ss_completed (rt_shards rt j)"
  "ss_blocked (rt_shards (delete_actor i f rt) j) = ss_blocked (rt_shards rt j)"
  "rt_activeActors (delete_actor i f rt) = rt_activeActors rt"
  by (simp_all add: delete_actor_def)

lemma get_actor_cong: "ss_actors (rt_shards a i) = ss_actors (rt_shards b i) \<Longrightarrow> get_actor a i f = get_actor b i f"
  by (simp add: get_actor_def)

lemma get_actor_same [simp]:
  "get_actor (deliver t out rt) i f = get_actor rt i f"
  "get_actor (rt\<lparr>rt_ready := q\<rparr>) i f = get_actor rt i f"
  "get_actor (rt\<lparr>rt_next := n\<rparr>) i f = get_actor rt i f"
  "get_actor (rt\<lparr>rt_queued := q2\<rparr>) i f = get_actor rt i f"
  "get_actor (rt\<lparr>rt_activeActors := q2\<rparr>) i f = get_actor rt i f"
  "get_actor (rt\<lparr>rt_waiters := q3\<rparr>) i f = get_actor rt i f"
  "get_actor (block_scheduler j b rt) i f = get_actor rt i f"
  "get_actor (pop_inbox j rt) i f = get_actor rt i f"
  "get_actor (pop_completed j rt) i f = get_actor rt i f"
  "get_actor (push_inbox j t rt) i f = get_actor rt i f"
  "get_actor (push_completed j c rt) i f = get_actor rt i f"
  "get_actor (set_worker k x rt) i f = get_actor rt i f"
  by (auto intro!: get_actor_cong simp: block_scheduler_def pop_inbox_def pop_completed_def push_inbox_def
      push_completed_def set_worker_def)

text \<open>The tokens only depend on ready, the workers and the completions.\<close>

lemma U_cong: "rt_ready a = rt_ready b \<Longrightarrow> rt_workers a = rt_workers b \<Longrightarrow> rt_cfg a = rt_cfg b \<Longrightarrow> U a i f = U b i f"
  by (simp add: U_def n_workers_def)

lemma E_cong:
  "ss_completed (rt_shards a i) = ss_completed (rt_shards b i) \<Longrightarrow> rt_workers a = rt_workers b \<Longrightarrow> rt_cfg a = rt_cfg b
   \<Longrightarrow> E a i f = E b i f"
  by (simp add: E_def n_workers_def)

lemma U_push_ready: "U (rt\<lparr>rt_ready := rt_ready rt @ [w]\<rparr>) i f = U rt i f + (if at_key i f w then {#wtok w#} else {#})"
  by (simp add: U_def n_workers_def)

lemma U_take:
  assumes "k < n_workers rt" "rt_workers rt k = WorkerIdle" "rt_ready rt = w # rest"
  shows "U (set_worker k (WorkerBusy w) (rt\<lparr>rt_ready := rest\<rparr>)) i f = U rt i f"
proof -
  have "(\<Sum>j<n_workers rt. busy_tok i f (if j = k then WorkerBusy w else rt_workers rt j))
      = (\<Sum>j<n_workers rt. busy_tok i f (rt_workers rt j)) + busy_tok i f (WorkerBusy w)"
    using sum_upd [OF assms(1), of "busy_tok i f (WorkerBusy w)" "\<lambda>j. busy_tok i f (rt_workers rt j)"] assms(2)
    by (simp add: if_distrib [of "busy_tok i f"] busy_tok_def [of _ _ WorkerIdle] cong: if_cong)
  then show ?thesis using assms(3)
    by (simp add: U_def set_worker_def n_workers_def busy_tok_def [of _ _ "WorkerBusy w"])
qed

lemma sum_idle:
  fixes tok :: "worker \<Rightarrow> 'a multiset" and k n :: nat
  assumes "k < n"
  shows "(\<Sum>j<n. tok (if j = k then x else g j)) + tok (g k) = (\<Sum>j<n. tok (g j)) + tok x"
  using sum_upd [OF assms, of "tok x" "\<lambda>j. tok (g j)"] by (simp add: if_distrib [of tok])

lemma U_worker: "k < n_workers rt \<Longrightarrow>
    U (set_worker k x rt) i f + busy_tok i f (rt_workers rt k) = U rt i f + busy_tok i f x"
  using sum_idle [of k "n_workers rt" "busy_tok i f" x "rt_workers rt"]
  by (simp add: U_def set_worker_def n_workers_def ac_simps)

lemma E_worker: "k < n_workers rt \<Longrightarrow>
    E (set_worker k x rt) i f + done_tok i f (rt_workers rt k) = E rt i f + done_tok i f x"
  using sum_idle [of k "n_workers rt" "done_tok i f" x "rt_workers rt"]
  by (simp add: E_def set_worker_def n_workers_def ac_simps)

lemma E_push: "E (push_completed j c rt) i f = E rt i f + (if j = i \<and> cp_farmID c = f then {#ctok c#} else {#})"
  by (simp add: E_def push_completed_def n_workers_def)

lemma E_pop:
  "ss_completed (rt_shards rt j) = c # rest \<Longrightarrow>
   E rt i f = E (pop_completed j rt) i f + (if j = i \<and> cp_farmID c = f then {#ctok c#} else {#})"
  by (simp add: E_def pop_completed_def n_workers_def)

definition blk :: "runtime \<Rightarrow> nat \<Rightarrow> int \<Rightarrow> work_item option" where
  "blk rt i f = (case ss_blocked (rt_shards rt i) of Some w \<Rightarrow> if wi_farmID w = f then Some w else None | None \<Rightarrow> None)"

lemma blk_cong: "ss_blocked (rt_shards a i) = ss_blocked (rt_shards b i) \<Longrightarrow> blk a i f = blk b i f"
  by (simp add: blk_def)

section \<open>The invariant\<close>

text \<open>What the state knows of one farm: the actor's busy task is exactly the one token, and an actor that
  is neither running nor being handed over has no queue.\<close>

definition expected :: "actor_state option \<Rightarrow> (nat \<times> nat) multiset" where
  "expected a = (case a of
     Some st \<Rightarrow> if as_running st then (case as_inflight st of Some t \<Rightarrow> {#(as_ptr st, tk_id t)#} | None \<Rightarrow> {#}) else {#}
   | None \<Rightarrow> {#})"

definition view_ok :: "bool \<Rightarrow> nat \<Rightarrow> int \<Rightarrow> (nat \<times> nat) multiset \<Rightarrow> (nat \<times> nat) multiset \<Rightarrow> actor_state option
    \<Rightarrow> work_item option \<Rightarrow> bool" where
  "view_ok home i f u e a b \<longleftrightarrow> u + e = expected a
     \<and> (\<forall>st. a = Some st \<longrightarrow> home \<and> as_farmID st = f \<and> (as_running st \<longrightarrow> as_inflight st \<noteq> None)
          \<and> (\<not> as_running st \<and> b = None \<longrightarrow> as_queue st = []))
     \<and> (\<forall>w. b = Some w \<longrightarrow> wi_shard w = i \<and> wi_farmID w = f
          \<and> (\<exists>st. a = Some st \<and> \<not> as_running st \<and> as_ptr st = wi_state w))"

definition waits :: "(nat \<times> nat) multiset \<Rightarrow> actor_state option \<Rightarrow> work_item option \<Rightarrow> nat list" where
  "waits u a b =
     (if u = {#} then [] else (case a of Some st \<Rightarrow> (case as_inflight st of Some t \<Rightarrow> [tk_id t] | None \<Rightarrow> []) | None \<Rightarrow> []))
     @ (case b of Some w \<Rightarrow> [tk_id (wi_task w)] | None \<Rightarrow> [])
     @ (case a of Some st \<Rightarrow> map tk_id (as_queue st) | None \<Rightarrow> [])"

fun accepted :: "int \<Rightarrow> actor_event list \<Rightarrow> nat list" where
  "accepted f [] = []"
| "accepted f (Accepted g n # es) = (if g = f then [n] else []) @ accepted f es"
| "accepted f (Executed g n # es) = accepted f es"

fun executed :: "int \<Rightarrow> actor_event list \<Rightarrow> nat list" where
  "executed f [] = []"
| "executed f (Accepted g n # es) = executed f es"
| "executed f (Executed g n # es) = (if g = f then [n] else []) @ executed f es"

lemma accepted_append [simp]: "accepted f (a @ b) = accepted f a @ accepted f b"
  by (induction f a rule: accepted.induct) auto

lemma executed_append [simp]: "executed f (a @ b) = executed f a @ executed f b"
  by (induction f a rule: executed.induct) auto

definition key_ok :: "runtime \<Rightarrow> nat \<Rightarrow> int \<Rightarrow> bool" where
  "key_ok rt i f = view_ok (shardFor rt f = i) i f (U rt i f) (E rt i f) (get_actor rt i f) (blk rt i f)"

definition waiting :: "runtime \<Rightarrow> nat \<Rightarrow> int \<Rightarrow> nat list" where
  "waiting rt i f = waits (U rt i f) (get_actor rt i f) (blk rt i f)"

definition fifo_ok :: "runtime \<Rightarrow> actor_event list \<Rightarrow> int \<Rightarrow> bool" where
  "fifo_ok rt tr f \<longleftrightarrow> accepted f tr = executed f tr @ waiting rt (shardFor rt f) f"

definition ids_ok :: "runtime \<Rightarrow> actor_event list \<Rightarrow> bool" where
  "ids_ok rt tr \<longleftrightarrow>
     (\<forall>i. distinct (map tk_id (ss_inbox (rt_shards rt i)))
        \<and> (\<forall>t\<in>set (ss_inbox (rt_shards rt i)). tk_id t < rt_next rt \<and> shardFor rt (cmd_FarmID (tk_cmd t)) = i
             \<and> (\<forall>g. shardFor rt g = i \<longrightarrow> tk_id t \<notin> set (accepted g tr))))
     \<and> (\<forall>g. distinct (accepted g tr) \<and> (\<forall>x\<in>set (accepted g tr). x < rt_next rt))"

definition runtime_inv :: "runtime \<Rightarrow> actor_event list \<Rightarrow> bool" where
  "runtime_inv rt tr \<longleftrightarrow> (\<forall>i f. key_ok rt i f) \<and> (\<forall>f. fifo_ok rt tr f) \<and> ids_ok rt tr
     \<and> (\<forall>i. unique_keys (ss_actors (rt_shards rt i)))"

lemma shardFor_cong: "rt_cfg a = rt_cfg b \<Longrightarrow> shardFor a f = shardFor b f"
  by (simp add: shardFor_def)

text \<open>A step that only touches one key preserves the views of all others.\<close>

definition same_view :: "runtime \<Rightarrow> runtime \<Rightarrow> nat \<Rightarrow> int \<Rightarrow> bool" where
  "same_view a b i f \<longleftrightarrow> U a i f = U b i f \<and> E a i f = E b i f \<and> get_actor a i f = get_actor b i f \<and> blk a i f = blk b i f"

lemma views_kept:
  assumes "\<forall>i f. key_ok rt i f" "\<forall>f. fifo_ok rt tr f" "rt_cfg rt' = rt_cfg rt"
    and "\<And>i f. (i, f) \<noteq> (i0, f0) \<Longrightarrow> same_view rt' rt i f"
    and "\<And>f. f \<noteq> f0 \<Longrightarrow> accepted f es = [] \<and> executed f es = []"
    and "key_ok rt' i0 f0"
    and "shardFor rt f0 = i0 \<Longrightarrow> waiting rt i0 f0 @ accepted f0 es = executed f0 es @ waiting rt' i0 f0"
    and "shardFor rt f0 \<noteq> i0 \<Longrightarrow> es = []"
  shows "(\<forall>i f. key_ok rt' i f) \<and> (\<forall>f. fifo_ok rt' (tr @ es) f)"
proof -
  have sh: "shardFor rt' f = shardFor rt f" for f using assms(3) by (rule shardFor_cong)
  have "key_ok rt' i f" for i f
    using assms(1,4,6) sh by (cases "(i, f) = (i0, f0)") (auto simp: key_ok_def same_view_def)
  moreover have "fifo_ok rt' (tr @ es) f" for f
  proof (cases "f = f0 \<and> shardFor rt f0 = i0")
    case True
    then show ?thesis using assms(2) assms(7) by (simp add: fifo_ok_def sh)
  next
    case False
    then have "same_view rt' rt (shardFor rt f) f" using assms(4) [of "shardFor rt f" f] by auto
    moreover have "accepted f es = [] \<and> executed f es = []" using False assms(5,8) by (cases "f = f0") auto
    ultimately show ?thesis using assms(2) by (simp add: fifo_ok_def waiting_def same_view_def sh)
  qed
  ultimately show ?thesis by blast
qed

section \<open>Each step keeps the invariant\<close>

lemma same_view_refl [simp]: "same_view rt rt i f" by (simp add: same_view_def)

text \<open>Parts of the state that the views do not read.\<close>

lemma same_view_cong:
  assumes "rt_cfg a = rt_cfg b" "rt_ready a = rt_ready b" "rt_workers a = rt_workers b"
    "ss_completed (rt_shards a i) = ss_completed (rt_shards b i)"
    "ss_blocked (rt_shards a i) = ss_blocked (rt_shards b i)" "get_actor a i f = get_actor b i f"
  shows "same_view a b i f"
  using assms U_cong [of a b i f] E_cong [of a i b f] blk_cong [of a i b f] by (simp add: same_view_def)

lemma views_same:
  assumes "\<forall>i f. key_ok rt i f" "\<forall>f. fifo_ok rt tr f" "rt_cfg rt' = rt_cfg rt" "\<And>i f. same_view rt' rt i f"
  shows "(\<forall>i f. key_ok rt' i f) \<and> (\<forall>f. fifo_ok rt' (tr @ []) f)"
proof -
  have sh: "shardFor rt' f = shardFor rt f" for f using assms(3) by (rule shardFor_cong)
  show ?thesis using assms(1,2,4) by (simp add: key_ok_def fifo_ok_def waiting_def same_view_def sh)
qed

text \<open>A dispatch puts the token of an idle actor into ready.\<close>

lemma dispatch_views:
  assumes "\<forall>i f. key_ok rt i f" "\<forall>f. fifo_ok rt tr f"
    and "rt_cfg rt' = rt_cfg rt" "rt_workers rt' = rt_workers rt" "rt_ready rt' = rt_ready rt @ [w]"
    and "\<And>j. ss_completed (rt_shards rt' j) = ss_completed (rt_shards rt j)"
    and "\<And>j. j \<noteq> i0 \<Longrightarrow> ss_blocked (rt_shards rt' j) = ss_blocked (rt_shards rt j)"
    and "\<And>j g. (j, g) \<noteq> (i0, f0) \<Longrightarrow> get_actor rt' j g = get_actor rt j g"
    and "\<And>g. g \<noteq> f0 \<Longrightarrow> blk rt' i0 g = blk rt i0 g"
    and "get_actor rt' i0 f0 = Some st" "as_farmID st = f0" "as_running st" "as_inflight st = Some (wi_task w)"
    and "wi_shard w = i0" "wi_farmID w = f0" "wi_state w = as_ptr st" "shardFor rt f0 = i0"
    and "U rt i0 f0 + E rt i0 f0 = {#}" "blk rt' i0 f0 = None"
    and "waiting rt i0 f0 @ accepted f0 es = tk_id (wi_task w) # map tk_id (as_queue st)" "executed f0 es = []"
    and "\<And>g. g \<noteq> f0 \<Longrightarrow> accepted g es = [] \<and> executed g es = []"
  shows "(\<forall>i f. key_ok rt' i f) \<and> (\<forall>f. fifo_ok rt' (tr @ es) f)"
proof (rule views_kept [OF assms(1-3), where ?i0.0 = i0 and ?f0.0 = f0])
  have key: "at_key i f w \<longleftrightarrow> (i, f) = (i0, f0)" for i f using assms(14,15) by (auto simp: at_key_def)
  have nw: "n_workers rt' = n_workers rt" by (simp add: n_workers_def assms(3))
  have U: "U rt' i f = U rt i f + (if (i, f) = (i0, f0) then {#wtok w#} else {#})" for i f
    using assms(4,5) key [of i f] by (simp add: U_def nw)
  have E: "E rt' i f = E rt i f" for i f using assms(3,4,6) by (intro E_cong) auto
  show "same_view rt' rt i f" if "(i, f) \<noteq> (i0, f0)" for i f
    using that U E assms(8) assms(9) blk_cong [of rt' i rt f] assms(7)
    by (cases "i = i0") (auto simp: same_view_def)
  have sh: "shardFor rt' f = shardFor rt f" for f using assms(3) by (rule shardFor_cong)
  have tok: "wtok w = (as_ptr st, tk_id (wi_task w))" using assms(16) by (simp add: wtok_def)
  have zero: "U rt i0 f0 = {#}" "E rt i0 f0 = {#}" using assms(18) by simp_all
  show "key_ok rt' i0 f0"
    using U [of i0 f0] E [of i0 f0] zero assms(10-13,17,19) tok
    by (simp add: key_ok_def view_ok_def expected_def sh)
  show "waiting rt i0 f0 @ accepted f0 es = executed f0 es @ waiting rt' i0 f0"
    using U [of i0 f0] zero assms(10,13,19-21) by (simp add: waiting_def waits_def)
qed (use assms in auto)

lemma key_okD:
  assumes "key_ok rt i f"
  shows "U rt i f + E rt i f = expected (get_actor rt i f)"
    "get_actor rt i f = Some st \<Longrightarrow> shardFor rt f = i \<and> as_farmID st = f
       \<and> (as_running st \<longrightarrow> as_inflight st \<noteq> None) \<and> (\<not> as_running st \<and> blk rt i f = None \<longrightarrow> as_queue st = [])"
    "blk rt i f = Some w \<Longrightarrow> wi_shard w = i \<and> wi_farmID w = f
       \<and> (\<exists>st. get_actor rt i f = Some st \<and> \<not> as_running st \<and> as_ptr st = wi_state w)"
  using assms by (simp_all add: key_ok_def view_ok_def)

lemma idle_tokens:
  assumes "key_ok rt i f" "get_actor rt i f = None \<or> (\<exists>st. get_actor rt i f = Some st \<and> \<not> as_running st)"
  shows "U rt i f + E rt i f = {#}"
  using key_okD(1) [OF assms(1)] assms(2) by (auto simp: expected_def)

lemma parts_more [simp]:
  "rt_cfg (pop_inbox i rt) = rt_cfg rt" "rt_ready (pop_inbox i rt) = rt_ready rt"
  "rt_workers (pop_inbox i rt) = rt_workers rt" "rt_next (pop_inbox i rt) = rt_next rt"
  "ss_completed (rt_shards (pop_inbox i rt) j) = ss_completed (rt_shards rt j)"
  "ss_blocked (rt_shards (pop_inbox i rt) j) = ss_blocked (rt_shards rt j)"
  "rt_activeActors (pop_inbox i rt) = rt_activeActors rt"
  "rt_cfg (push_inbox i t rt) = rt_cfg rt" "rt_ready (push_inbox i t rt) = rt_ready rt"
  "rt_workers (push_inbox i t rt) = rt_workers rt"
  "ss_completed (rt_shards (push_inbox i t rt) j) = ss_completed (rt_shards rt j)"
  "ss_blocked (rt_shards (push_inbox i t rt) j) = ss_blocked (rt_shards rt j)"
  "ss_inbox (rt_shards (push_inbox i t rt) j) = (if j = i then ss_inbox (rt_shards rt i) @ [t] else ss_inbox (rt_shards rt j))"
  "rt_cfg (pop_completed i rt) = rt_cfg rt" "rt_ready (pop_completed i rt) = rt_ready rt"
  "rt_workers (pop_completed i rt) = rt_workers rt" "rt_next (pop_completed i rt) = rt_next rt"
  "ss_inbox (rt_shards (pop_completed i rt) j) = ss_inbox (rt_shards rt j)"
  "ss_blocked (rt_shards (pop_completed i rt) j) = ss_blocked (rt_shards rt j)"
  "rt_activeActors (pop_completed i rt) = rt_activeActors rt"
  "rt_cfg (block_scheduler i b rt) = rt_cfg rt" "rt_ready (block_scheduler i b rt) = rt_ready rt"
  "rt_workers (block_scheduler i b rt) = rt_workers rt" "rt_next (block_scheduler i b rt) = rt_next rt"
  "ss_inbox (rt_shards (block_scheduler i b rt) j) = ss_inbox (rt_shards rt j)"
  "ss_completed (rt_shards (block_scheduler i b rt) j) = ss_completed (rt_shards rt j)"
  "ss_blocked (rt_shards (block_scheduler i b rt) j) = (if j = i then b else ss_blocked (rt_shards rt j))"
  "rt_activeActors (block_scheduler i b rt) = rt_activeActors rt"
  by (simp_all add: pop_inbox_def push_inbox_def pop_completed_def block_scheduler_def)

lemma ready_full_cong: "rt_cfg a = rt_cfg b \<Longrightarrow> rt_ready a = rt_ready b \<Longrightarrow> ready_full a = ready_full b"
  by (simp add: ready_full_def)

lemma blk_none: "ss_blocked (rt_shards rt i) = None \<Longrightarrow> blk rt i f = None"
  by (simp add: blk_def)

lemma accept_existing_views:
  assumes "\<forall>i f. key_ok rt i f" "\<forall>f. fifo_ok rt tr f" "ss_blocked (rt_shards rt i) = None"
    "f = cmd_FarmID (tk_cmd t)" "shardFor rt f = i" "get_actor rt i f = Some st"
  shows "(\<forall>j g. key_ok (accept i t now (pop_inbox i rt)) j g)
    \<and> (\<forall>g. fifo_ok (accept i t now (pop_inbox i rt)) (tr @ (if admitted i t rt then [Accepted f (tk_id t)] else [])) g)"
proof -
  let ?rt' = "accept i t now (pop_inbox i rt)"
  have acc: "?rt' = accept_existing i st False t now (pop_inbox i rt)"
    using assms(4,6) by (simp add: accept_def)
  have k: "key_ok rt i f" using assms(1) by blast
  have full: "ready_full (pop_inbox i rt) = ready_full rt" by (rule ready_full_cong) simp_all
  note st = key_okD(2) [OF k assms(6)] and nb = blk_none [OF assms(3)]
  show ?thesis
  proof (cases "as_running st")
    case True
    show ?thesis
    proof (cases "int (length (as_queue st)) < ac_FarmQueueCap (rt_cfg rt)")
      case True
      then have adm: "admitted i t rt" using assms(4,6) \<open>as_running st\<close> by (simp add: admitted_def)
      let ?st = "st\<lparr>as_queue := as_queue st @ [t]\<rparr>"
      have rt': "?rt' = (set_actor i ?st (pop_inbox i rt))\<lparr>rt_queued := rt_queued (pop_inbox i rt) + 1\<rparr>"
        using acc True \<open>as_running st\<close> by (simp add: accept_existing_def)
      have U: "U ?rt' j g = U rt j g" "E ?rt' j g = E rt j g" "blk ?rt' j g = blk rt j g" for j g
        unfolding rt' by (rule U_cong E_cong blk_cong; simp)+
      have sh: "shardFor ?rt' g = shardFor rt g" for g by (rule shardFor_cong) (simp add: rt')
      have rt_get: "get_actor ?rt' i f = Some ?st" using st by (simp add: rt')
      have "(\<forall>j g. key_ok ?rt' j g) \<and> (\<forall>g. fifo_ok ?rt' (tr @ [Accepted f (tk_id t)]) g)"
      proof (rule views_kept [OF assms(1,2), where ?i0.0 = i and ?f0.0 = f])
        show "key_ok ?rt' i f"
          using k assms(6) st \<open>as_running st\<close> U nb
          by (auto simp: key_ok_def view_ok_def sh rt_get expected_def split: option.split)
        show "waiting rt i f @ accepted f [Accepted f (tk_id t)] = executed f [Accepted f (tk_id t)] @ waiting ?rt' i f"
          using U assms(6) st nb by (simp add: waiting_def waits_def rt_get)
      qed (use U st assms in \<open>auto simp: same_view_def rt'\<close>)
      then show ?thesis using adm by simp
    next
      case False
      then have "\<not> admitted i t rt" "?rt' = deliver t (Inl (backpressure (pop_inbox i rt))) (pop_inbox i rt)"
        using acc assms(4,6) \<open>as_running st\<close> by (simp_all add: admitted_def accept_existing_def)
      then show ?thesis
        using views_same [OF assms(1,2), of ?rt'] same_view_cong [of ?rt' rt] by simp
    qed
  next
    case False
    have q: "as_queue st = []" using st False nb by simp
    show ?thesis
    proof (cases "ready_full rt")
      case True
      then have "\<not> admitted i t rt" "?rt' = deliver t (Inl (backpressure (pop_inbox i rt))) (pop_inbox i rt)"
        using acc assms(4,6) False full by (simp_all add: admitted_def accept_existing_def tryDispatch_def Let_def)
      then show ?thesis
        using views_same [OF assms(1,2), of ?rt'] same_view_cong [of ?rt' rt] by simp
    next
      case nf: False
      then have adm: "admitted i t rt" using assms(4,6) False by (simp add: admitted_def)
      let ?st = "st\<lparr>as_running := True, as_inflight := Some t, as_lastUsed := now\<rparr>"
      have rt': "?rt' = set_actor i ?st ((pop_inbox i rt)\<lparr>rt_ready := rt_ready rt @ [work_of i st t]\<rparr>)"
        using acc False nf full by (simp add: accept_existing_def tryDispatch_def)
      have zero: "U rt i f + E rt i f = {#}" using idle_tokens [OF k] assms(6) False by blast
      have w0: "waiting rt i f = []"
        using zero assms(6) nb q by (simp add: waiting_def waits_def)
      have "(\<forall>j g. key_ok ?rt' j g) \<and> (\<forall>g. fifo_ok ?rt' (tr @ [Accepted f (tk_id t)]) g)"
        unfolding rt'
        by (rule dispatch_views [OF assms(1,2), where ?i0.0 = i and ?f0.0 = f and w = "work_of i st t" and st = ?st])
          (use assms st q zero w0 blk_cong nb in \<open>auto simp: work_of_def blk_def\<close>)
      then show ?thesis using adm by simp
    qed
  qed
qed

lemma accept_new_views:
  assumes "\<forall>i f. key_ok rt i f" "\<forall>f. fifo_ok rt tr f" "ss_blocked (rt_shards rt i) = None"
    "f = cmd_FarmID (tk_cmd t)" "shardFor rt f = i" "get_actor rt i f = None"
  shows "(\<forall>j g. key_ok (accept i t now (pop_inbox i rt)) j g)
    \<and> (\<forall>g. fifo_ok (accept i t now (pop_inbox i rt)) (tr @ (if admitted i t rt then [Accepted f (tk_id t)] else [])) g)"
proof -
  let ?rt' = "accept i t now (pop_inbox i rt)" and ?p = "pop_inbox i rt"
  have k: "key_ok rt i f" using assms(1) by blast
  have nb: "blk rt i g = None" for g using assms(3) by (rule blk_none)
  let ?rt1 = "?p\<lparr>rt_activeActors := rt_activeActors rt + 1\<rparr>"
  let ?st = "new_actor ?rt1 f now"
  let ?rt2 = "set_actor i ?st (?rt1\<lparr>rt_next := rt_next ?rt1 + 1\<rparr>)"
  have full: "ready_full ?rt2 = ready_full rt" by (rule ready_full_cong) simp_all
  have fid: "as_farmID ?st = f" "\<not> as_running ?st" "as_queue ?st = []" by (simp_all add: new_actor_def)
  show ?thesis
  proof (cases "rt_activeActors rt < ac_MaxActiveActors (rt_cfg rt)")
    case False
    then have "\<not> admitted i t rt" "?rt' = deliver t (Inl (backpressure ?p)) ?p"
      using assms(4,6) by (simp_all add: admitted_def accept_def tryActorAdd_def Let_def)
    then show ?thesis
      using views_same [OF assms(1,2), of ?rt'] same_view_cong [of ?rt' rt] by simp
  next
    case True
    have acc: "?rt' = accept_existing i ?st True t now ?rt2"
      using True assms(4,6) by (simp add: accept_def tryActorAdd_def Let_def)
    show ?thesis
    proof (cases "ready_full rt")
      case True
      have rt': "?rt' = (delete_actor i f (deliver t (Inl (backpressure ?rt2)) ?rt2))\<lparr>rt_activeActors := rt_activeActors ?rt2 - 1\<rparr>"
        unfolding acc using True full fid by (simp add: accept_existing_def tryDispatch_def Let_def)
      have "\<not> admitted i t rt" using assms(4,6) True by (simp add: admitted_def)
      moreover have "get_actor ?rt' j g = get_actor rt j g" for j g
        unfolding rt' using assms(6) fid by auto
      moreover have "rt_cfg ?rt' = rt_cfg rt" "rt_ready ?rt' = rt_ready rt" "rt_workers ?rt' = rt_workers rt"
        "ss_completed (rt_shards ?rt' j) = ss_completed (rt_shards rt j)"
        "ss_blocked (rt_shards ?rt' j) = ss_blocked (rt_shards rt j)" for j
        unfolding rt' by simp_all
      ultimately show ?thesis
        using views_same [OF assms(1,2), of ?rt'] same_view_cong [of ?rt' rt] by simp
    next
      case nf: False
      have adm: "admitted i t rt" using assms(4,6) True nf by (simp add: admitted_def)
      let ?st' = "?st\<lparr>as_running := True, as_inflight := Some t, as_lastUsed := now\<rparr>"
      have rt': "?rt' = set_actor i ?st' (?rt2\<lparr>rt_ready := rt_ready ?rt2 @ [work_of i ?st t]\<rparr>)"
        unfolding acc using nf full fid by (simp add: accept_existing_def tryDispatch_def)
      have zero: "U rt i f + E rt i f = {#}" using idle_tokens [OF k] assms(6) by blast
      have w0: "waiting rt i f = []"
        using zero assms(6) nb by (simp add: waiting_def waits_def)
      have "(\<forall>j g. key_ok ?rt' j g) \<and> (\<forall>g. fifo_ok ?rt' (tr @ [Accepted f (tk_id t)]) g)"
        unfolding rt'
        by (rule dispatch_views [OF assms(1,2), where ?i0.0 = i and ?f0.0 = f and w = "work_of i ?st t" and st = ?st'])
          (use assms fid zero w0 nb in \<open>auto simp: work_of_def blk_def\<close>)
      then show ?thesis using adm by simp
    qed
  qed
qed

text \<open>The completion of a task: the pointer comparison always succeeds, the token comes home, and the head
  of the queue is handed over.\<close>

lemma popped_token:
  assumes "key_ok rt i f" "ss_completed (rt_shards rt i) = c # rest" "cp_farmID c = f"
  shows "\<exists>st t. get_actor rt i f = Some st \<and> as_running st \<and> as_inflight st = Some t \<and> as_ptr st = cp_state c
    \<and> tk_id t = tk_id (cp_task c) \<and> U rt i f = {#} \<and> E (pop_completed i rt) i f = {#}"
proof -
  have "E rt i f = E (pop_completed i rt) i f + {#ctok c#}" using E_pop [OF assms(2), of i f] assms(3) by simp
  then have sum: "U rt i f + E (pop_completed i rt) i f + {#ctok c#} = expected (get_actor rt i f)"
    using key_okD(1) [OF assms(1)] by (simp add: ac_simps)
  then have "expected (get_actor rt i f) \<noteq> {#}" by (metis union_eq_empty add_mset_not_empty)
  then obtain st t where st: "get_actor rt i f = Some st" "as_running st" "as_inflight st = Some t"
    by (auto simp: expected_def split: option.splits if_splits)
  then have "U rt i f + E (pop_completed i rt) i f + {#ctok c#} = {#(as_ptr st, tk_id t)#}"
    using sum by (simp add: expected_def)
  then have "ctok c = (as_ptr st, tk_id t)" "U rt i f = {#}" "E (pop_completed i rt) i f = {#}"
    by (auto simp: union_is_single add_mset_eq_single)
  with st show ?thesis by (auto simp: ctok_def)
qed

lemma complete_views:
  assumes "\<forall>i f. key_ok rt i f" "\<forall>f. fifo_ok rt tr f" "ss_blocked (rt_shards rt i) = None"
    "ss_completed (rt_shards rt i) = c # rest" "f = cp_farmID c"
  shows "(\<forall>j g. key_ok (complete i c now (pop_completed i rt)) j g)
    \<and> (\<forall>g. fifo_ok (complete i c now (pop_completed i rt)) (tr @ []) g)"
proof -
  let ?p = "pop_completed i rt" and ?rt' = "complete i c now (pop_completed i rt)"
  have k: "key_ok rt i f" using assms(1) by blast
  obtain st t where st: "get_actor rt i f = Some st" "as_running st" "as_inflight st = Some t"
    "as_ptr st = cp_state c" "U rt i f = {#}" "E ?p i f = {#}"
    using popped_token [OF k assms(4)] assms(5) by blast
  note loc = key_okD(2) [OF k st(1)]
  have nb: "blk rt i g = None" for g using assms(3) by (rule blk_none)
  have full: "ready_full (deliver u out (set_actor i s ?p)) = ready_full rt" for u out s
    by (rule ready_full_cong) simp_all
  let ?st1 = "st\<lparr>as_running := False, as_inflight := None, as_snapshot := cp_snapshot c, as_lastUsed := now\<rparr>"
  have others: "same_view rt' rt j g"
    if "(j, g) \<noteq> (i, f)" "rt_cfg rt' = rt_cfg rt" "rt_workers rt' = rt_workers rt" "rt_ready rt' = rt_ready rt @ ws"
      "\<forall>w\<in>set ws. at_key i f w" "ss_completed (rt_shards rt' j) = ss_completed (rt_shards ?p j)"
      "get_actor rt' j g = get_actor rt j g" "blk rt' j g = blk rt j g" for rt' ws j g
  proof -
    have "filter (at_key j g) ws = []" using that(1,5) by (auto simp: filter_empty_conv at_key_def)
    then have "U rt' j g = U rt j g" using that by (simp add: U_def n_workers_def)
    moreover have "E rt' j g = E ?p j g" using that by (intro E_cong) simp_all
    moreover have "E ?p j g = E rt j g"
      using E_pop [OF assms(4), of j g] that(1) assms(5) by (auto simp: E_def n_workers_def split: if_splits)
    ultimately show ?thesis using that by (simp add: same_view_def)
  qed
  show ?thesis
  proof (cases "as_queue st")
    case Nil
    have rt': "?rt' = deliver (cp_task c) (cp_out c) (set_actor i ?st1 ?p)"
      using st assms(5) Nil by (simp add: complete_def Let_def)
    have v: "U ?rt' i f = {#}" "E ?rt' i f = {#}" "get_actor ?rt' i f = Some ?st1" "blk ?rt' i f = None"
      using st(5,6) loc nb U_cong [of ?rt' rt i f] E_cong [of ?rt' i ?p f] blk_cong [of ?rt' i rt f]
      by (simp_all add: rt')
    show ?thesis
    proof (rule views_kept [OF assms(1,2), where ?i0.0 = i and ?f0.0 = f])
      show "same_view ?rt' rt j g" if "(j, g) \<noteq> (i, f)" for j g
        by (rule others [where ws = "[]"]) (use that loc in \<open>auto simp: rt' intro: blk_cong\<close>)
      show "key_ok ?rt' i f"
        using v loc Nil by (simp add: key_ok_def view_ok_def expected_def shardFor_def rt')
      show "waiting rt i f @ accepted f [] = executed f [] @ waiting ?rt' i f"
        using v st Nil nb by (simp add: waiting_def waits_def)
    qed (simp_all add: rt')
  next
    case (Cons u q)
    let ?st2 = "?st1\<lparr>as_queue := q\<rparr>" and ?w = "work_of i (?st1\<lparr>as_queue := q\<rparr>) u"
    let ?rt1 = "(deliver (cp_task c) (cp_out c) (set_actor i ?st2 ?p))\<lparr>rt_queued := rt_queued ?p - 1\<rparr>"
    have full': "ready_full ?rt1 = ready_full rt" by (rule ready_full_cong) simp_all
    have base: "?rt' = (if ready_full rt then (block_scheduler i (Some ?w) ?rt1)\<lparr>rt_waiters := rt_waiters ?rt1 @ [i]\<rparr> else hand_over i ?w ?rt1)"
      using st assms(5) Cons full' by (simp add: complete_def Let_def)
    show ?thesis
    proof (cases "ready_full rt")
      case True
      have rt': "?rt' = (block_scheduler i (Some ?w) ?rt1)\<lparr>rt_waiters := rt_waiters ?rt1 @ [i]\<rparr>" using base True by simp
      have v: "U ?rt' i f = {#}" "E ?rt' i f = {#}" "get_actor ?rt' i f = Some ?st2" "blk ?rt' i f = Some ?w"
        using st(5,6) loc U_cong [of ?rt' rt i f] E_cong [of ?rt' i ?p f]
        by (simp_all add: rt' blk_def work_of_def)
      show ?thesis
      proof (rule views_kept [OF assms(1,2), where ?i0.0 = i and ?f0.0 = f])
        show "same_view ?rt' rt j g" if "(j, g) \<noteq> (i, f)" for j g
          by (rule others [where ws = "[]"])
            (use that loc nb in \<open>auto simp: rt' blk_def work_of_def\<close>)
        show "key_ok ?rt' i f"
          using v loc by (simp add: key_ok_def view_ok_def expected_def shardFor_def rt' work_of_def)
        show "waiting rt i f @ accepted f [] = executed f [] @ waiting ?rt' i f"
          using v st(1,5) Cons nb by (simp add: waiting_def waits_def work_of_def)
      qed (simp_all add: rt')
    next
      case False
      let ?st3 = "?st2\<lparr>as_running := True, as_inflight := Some u\<rparr>"
      have wt: "wi_task ?w = u" "wi_farmID ?w = f" "wi_shard ?w = i" "wtok ?w = (as_ptr st, tk_id u)"
        using loc by (simp_all add: work_of_def wtok_def)
      have rt': "?rt' = set_actor i ?st3 (?rt1\<lparr>rt_ready := rt_ready ?rt1 @ [?w]\<rparr>)"
        using base False wt loc by (simp add: hand_over_def)
      have v: "U ?rt' i f = {#wtok ?w#}" "E ?rt' i f = {#}" "get_actor ?rt' i f = Some ?st3" "blk ?rt' i f = None"
        using st(5,6) loc nb wt E_cong [of ?rt' i ?p f] blk_cong [of ?rt' i rt f]
        by (simp_all add: rt' U_def n_workers_def at_key_def)
      show ?thesis
      proof (rule views_kept [OF assms(1,2), where ?i0.0 = i and ?f0.0 = f])
        show "same_view ?rt' rt j g" if "(j, g) \<noteq> (i, f)" for j g
          by (rule others [where ws = "[?w]"])
            (use that loc wt in \<open>auto simp: rt' at_key_def intro: blk_cong\<close>)
        show "key_ok ?rt' i f"
          using v loc wt by (simp add: key_ok_def view_ok_def expected_def shardFor_def rt')
        show "waiting rt i f @ accepted f [] = executed f [] @ waiting ?rt' i f"
          using v st(1,5) Cons nb by (simp add: waiting_def waits_def)
      qed (simp_all add: rt')
    qed
  qed
qed

lemma unblock_views:
  assumes "\<forall>i f. key_ok rt i f" "\<forall>f. fifo_ok rt tr f" "ss_blocked (rt_shards rt i) = Some w"
  shows "(\<forall>j g. key_ok (hand_over i w (block_scheduler i None rt)) j g)
    \<and> (\<forall>g. fifo_ok (hand_over i w (block_scheduler i None rt)) (tr @ []) g)"
proof -
  let ?f = "wi_farmID w" and ?rt' = "hand_over i w (block_scheduler i None rt)"
  have k: "key_ok rt i ?f" using assms(1) by blast
  have b: "blk rt i ?f = Some w" using assms(3) by (simp add: blk_def)
  obtain st where st: "get_actor rt i ?f = Some st" "\<not> as_running st" "as_ptr st = wi_state w" "wi_shard w = i"
    using key_okD(3) [OF k b] by blast
  note loc = key_okD(2) [OF k st(1)]
  have zero: "U rt i ?f + E rt i ?f = {#}" using idle_tokens [OF k] st by blast
  let ?st = "st\<lparr>as_running := True, as_inflight := Some (wi_task w)\<rparr>"
  have rt': "?rt' = set_actor i ?st ((block_scheduler i None rt)\<lparr>rt_ready := rt_ready rt @ [w]\<rparr>)"
    using st by (simp add: hand_over_def)
  have w0: "waiting rt i ?f = tk_id (wi_task w) # map tk_id (as_queue st)"
    using zero st b by (simp add: waiting_def waits_def)
  show ?thesis
    unfolding rt'
    by (rule dispatch_views [OF assms(1,2), where ?i0.0 = i and ?f0.0 = ?f and w = w and st = ?st])
      (use assms(3) st loc zero w0 in \<open>auto simp: blk_def\<close>)
qed

lemma get_evict:
  assumes "unique_keys (ss_actors (rt_shards rt i))"
  shows "get_actor (evictIdle i now rt) j g = (if j = i then (case get_actor rt i g of
      Some st \<Rightarrow> if evictable rt now st then None else Some st | None \<Rightarrow> None) else get_actor rt j g)"
proof -
    have "map_of (filter (\<lambda>(id, st). \<not> P st) m) g = (case map_of m g of Some st \<Rightarrow> if P st then None else Some st | None \<Rightarrow> None)"
      if "unique_keys m" for P and m :: "(int \<times> actor_state) list"
      using that
    proof (induction m)
      case (Cons x m)
      then show ?case
        by (cases x) (auto simp: unique_keys_def map_of_eq_None_iff split: option.splits if_splits)
    qed simp
    from this [OF assms] show ?thesis by (simp add: evictIdle_def get_actor_def Let_def)
  qed

lemma tick_views:
  assumes "\<forall>i f. key_ok rt i f" "\<forall>f. fifo_ok rt tr f" "ss_blocked (rt_shards rt i) = None"
    "unique_keys (ss_actors (rt_shards rt i))"
  shows "(\<forall>j g. key_ok (evictIdle i now rt) j g) \<and> (\<forall>g. fifo_ok (evictIdle i now rt) (tr @ []) g)"
proof -
  let ?rt' = "evictIdle i now rt"
  note get = get_evict [OF assms(4), of now]
  have parts: "U ?rt' j g = U rt j g" "E ?rt' j g = E rt j g" "blk ?rt' j g = blk rt j g" "shardFor ?rt' g = shardFor rt g" for j g
    by (rule U_cong E_cong blk_cong shardFor_cong; simp add: evictIdle_def Let_def)+
  have gone: "waits (U rt i g) (Some st) (blk rt i g) = [] \<and> expected (Some st) = {#} \<and> blk rt i g = None"
    if "get_actor rt i g = Some st" "evictable rt now st" for g st
  proof -
    have "key_ok rt i g" using assms(1) by blast
    from idle_tokens [OF this] that have "U rt i g + E rt i g = {#}" by (auto simp: evictable_def)
    with that blk_none [OF assms(3)] show ?thesis by (simp add: waits_def evictable_def expected_def)
  qed
  have both: "key_ok ?rt' j g \<and> waiting ?rt' j g = waiting rt j g" for j g
  proof (cases "\<exists>st. j = i \<and> get_actor rt i g = Some st \<and> evictable rt now st")
    case True
    then obtain st where st: "j = i" "get_actor rt i g = Some st" "evictable rt now st" by blast
    have new: "get_actor ?rt' i g = None" using get st by simp
    have "U rt i g + E rt i g = {#}"
      using idle_tokens [of rt i g] assms(1) st by (auto simp: evictable_def)
    then show ?thesis
      using gone [OF st(2,3)] st(1,2) unfolding key_ok_def waiting_def parts
      by (simp add: view_ok_def expected_def waits_def new)
  next
    case False
    then have "get_actor ?rt' j g = get_actor rt j g"
      using get [of j g] by (cases "j = i"; cases "get_actor rt i g") auto
    then show ?thesis using assms(1) unfolding key_ok_def waiting_def parts by simp
  qed
  then show ?thesis using assms(2) by (simp add: fifo_ok_def parts)
qed

lemma take_views:
  assumes "\<forall>i f. key_ok rt i f" "\<forall>f. fifo_ok rt tr f" "k < n_workers rt" "rt_workers rt k = WorkerIdle" "rt_ready rt = w # rest"
  shows "(\<forall>j g. key_ok (set_worker k (WorkerBusy w) (rt\<lparr>rt_ready := rest\<rparr>)) j g)
    \<and> (\<forall>g. fifo_ok (set_worker k (WorkerBusy w) (rt\<lparr>rt_ready := rest\<rparr>)) (tr @ []) g)"
proof (rule views_same [OF assms(1,2)])
  let ?rt' = "set_worker k (WorkerBusy w) (rt\<lparr>rt_ready := rest\<rparr>)"
  have "E ?rt' j g = E rt j g" for j g
    using E_worker [of k "rt\<lparr>rt_ready := rest\<rparr>" "WorkerBusy w" j g] assms(3,4)
    by (simp add: n_workers_def done_tok_def E_def)
  moreover have "blk ?rt' j g = blk rt j g" for j g by (rule blk_cong) (simp add: set_worker_def)
  ultimately show "same_view ?rt' rt j g" for j g
    using U_take [OF assms(3-5)] by (simp add: same_view_def)
qed (simp add: set_worker_def)

lemma receive_alt:
  "receive_ready k wi rest rt =
     (let rt1 = set_worker k (WorkerBusy wi) (rt\<lparr>rt_ready := rest\<rparr>) in
      case rt_waiters rt of
        [] \<Rightarrow> rt1
      | j # js \<Rightarrow>
          (case ss_blocked (rt_shards rt j) of
             Some w \<Rightarrow> hand_over j w (block_scheduler j None (rt1\<lparr>rt_waiters := js\<rparr>))
           | None \<Rightarrow> rt1\<lparr>rt_waiters := js\<rparr>))"
  by (simp add: receive_ready_def set_worker_def)

lemma receive_views:
  assumes "\<forall>i f. key_ok rt i f" "\<forall>f. fifo_ok rt tr f" "k < n_workers rt" "rt_workers rt k = WorkerIdle" "rt_ready rt = w # rest"
  shows "(\<forall>j g. key_ok (receive_ready k w rest rt) j g) \<and> (\<forall>g. fifo_ok (receive_ready k w rest rt) (tr @ []) g)"
proof -
  let ?rt1 = "set_worker k (WorkerBusy w) (rt\<lparr>rt_ready := rest\<rparr>)"
  have 1: "\<forall>j g. key_ok ?rt1 j g" "\<forall>g. fifo_ok ?rt1 tr g" using take_views [OF assms] by simp_all
  have 2: "\<forall>j g. key_ok (?rt1\<lparr>rt_waiters := js\<rparr>) j g" "\<forall>g. fifo_ok (?rt1\<lparr>rt_waiters := js\<rparr>) tr g" for js
    using views_same [OF 1, of "?rt1\<lparr>rt_waiters := js\<rparr>"] same_view_cong [of "?rt1\<lparr>rt_waiters := js\<rparr>" ?rt1] by simp_all
  show ?thesis
  proof (cases "rt_waiters rt")
    case (Cons j js)
    have b: "ss_blocked (rt_shards (?rt1\<lparr>rt_waiters := js\<rparr>) j) = ss_blocked (rt_shards rt j)"
      by (simp add: set_worker_def)
    show ?thesis
      using Cons 2 [of js] unblock_views [OF 2, of js j] b
      by (cases "ss_blocked (rt_shards rt j)") (simp_all add: receive_alt)
  qed (use 1 in \<open>simp add: receive_alt\<close>)
qed

lemma hand_in_views:
  assumes "\<forall>i f. key_ok rt i f" "\<forall>f. fifo_ok rt tr f" "k < n_workers rt" "rt_workers rt k = WorkerDone i c"
  shows "(\<forall>j g. key_ok (push_completed i c (set_worker k WorkerIdle rt)) j g)
    \<and> (\<forall>g. fifo_ok (push_completed i c (set_worker k WorkerIdle rt)) (tr @ []) g)"
proof (rule views_same [OF assms(1,2)])
  let ?rt' = "push_completed i c (set_worker k WorkerIdle rt)"
  have "U ?rt' j g = U rt j g" for j g
    using U_worker [OF assms(3), of WorkerIdle j g] assms(4) U_cong [of ?rt' "set_worker k WorkerIdle rt" j g]
    by (simp add: busy_tok_def push_completed_def)
  moreover have "E ?rt' j g = E rt j g" for j g
    using E_worker [OF assms(3), of WorkerIdle j g] assms(4) by (simp add: E_push done_tok_def)
  moreover have "blk ?rt' j g = blk rt j g" for j g
    by (rule blk_cong) (simp add: set_worker_def push_completed_def)
  ultimately show "same_view ?rt' rt j g" for j g by (simp add: same_view_def)
qed (simp add: set_worker_def push_completed_def)

lemma execute_token:
  assumes "execute sv wi w = (c, w')"
  shows "cp_state c = wi_state wi \<and> cp_farmID c = wi_farmID wi \<and> cp_task c = wi_task wi"
  using assms
  by (auto simp: execute_def commit_step_def completion_of_def Let_def split: option.splits if_splits prod.splits sum.splits)

lemma exec_views:
  assumes "\<forall>i f. key_ok rt i f" "\<forall>f. fifo_ok rt tr f" "k < n_workers rt" "rt_workers rt k = WorkerBusy wi"
    "execute sv wi w = (c, w')"
  shows "(\<forall>j g. key_ok (set_worker k (WorkerDone (wi_shard wi) c) rt) j g)
    \<and> (\<forall>g. fifo_ok (set_worker k (WorkerDone (wi_shard wi) c) rt) (tr @ [Executed (wi_farmID wi) (tk_id (wi_task wi))]) g)"
proof (rule views_kept [OF assms(1,2), where ?i0.0 = "wi_shard wi" and ?f0.0 = "wi_farmID wi"])
  let ?rt' = "set_worker k (WorkerDone (wi_shard wi) c) rt" and ?i = "wi_shard wi" and ?f = "wi_farmID wi"
  have tok: "ctok c = wtok wi" "cp_farmID c = ?f" using execute_token [OF assms(5)] by (simp_all add: ctok_def wtok_def)
  have U: "U ?rt' j g + (if at_key j g wi then {#wtok wi#} else {#}) = U rt j g" for j g
    using U_worker [OF assms(3), of "WorkerDone ?i c" j g] assms(4) by (simp add: busy_tok_def)
  have E: "E ?rt' j g = E rt j g + (if at_key j g wi then {#wtok wi#} else {#})" for j g
    using E_worker [OF assms(3), of "WorkerDone ?i c" j g] assms(4) tok by (simp add: done_tok_def at_key_def)
  have rest: "blk ?rt' j g = blk rt j g" for j g by (rule blk_cong) (simp add: set_worker_def)
  show "same_view ?rt' rt j g" if "(j, g) \<noteq> (?i, ?f)" for j g
    using U [of j g] E [of j g] rest that by (auto simp: same_view_def at_key_def split: if_splits)
  have here: "U ?rt' ?i ?f + {#wtok wi#} = U rt ?i ?f" "E ?rt' ?i ?f = E rt ?i ?f + {#wtok wi#}"
    using U [of ?i ?f] E [of ?i ?f] by (simp_all add: at_key_def)
  have k: "key_ok rt ?i ?f" using assms(1) by blast
  have "expected (get_actor rt ?i ?f) \<noteq> {#}"
    using key_okD(1) [OF k] here(1) by (metis union_eq_empty add_mset_not_empty)
  then obtain st t where st: "get_actor rt ?i ?f = Some st" "as_running st" "as_inflight st = Some t"
    by (auto simp: expected_def split: option.splits if_splits)
  have "U ?rt' ?i ?f + {#wtok wi#} + E rt ?i ?f = {#(as_ptr st, tk_id t)#}"
    using key_okD(1) [OF k] here(1) st by (simp add: expected_def)
  then have one: "U ?rt' ?i ?f = {#}" "wtok wi = (as_ptr st, tk_id t)" "E rt ?i ?f = {#}"
    by (auto simp: union_is_single add_mset_eq_single)
  note loc = key_okD(2) [OF k st(1)]
  have nb: "blk rt ?i ?f = None"
    using key_okD(3) [OF k] st by (cases "blk rt ?i ?f") auto
  have sh: "shardFor ?rt' g = shardFor rt g" for g by (rule shardFor_cong) (simp add: set_worker_def)
  show "key_ok ?rt' ?i ?f"
    using one here st loc nb rest by (simp add: key_ok_def view_ok_def expected_def sh)
  show "waiting rt ?i ?f @ accepted ?f [Executed ?f (tk_id (wi_task wi))]
      = executed ?f [Executed ?f (tk_id (wi_task wi))] @ waiting ?rt' ?i ?f"
    using one here(1) [symmetric] st nb rest by (simp add: waiting_def waits_def wtok_def)
  show "[Executed ?f (tk_id (wi_task wi))] = []" if "shardFor rt ?f \<noteq> ?i"
    using loc that by simp
qed (simp_all add: set_worker_def)

section \<open>Ids, keys and bounds\<close>

lemma unique_filter: "unique_keys m \<Longrightarrow> unique_keys (filter P m)"
  by (simp add: unique_keys_def distinct_map_filter)

lemma unique_delete: "unique_keys m \<Longrightarrow> unique_keys (AList.delete k m)"
  by (simp add: unique_keys_def distinct_delete)

lemma unique_set_actor: "unique_keys (ss_actors (rt_shards rt j)) \<Longrightarrow> unique_keys (ss_actors (rt_shards (set_actor i st rt) j))"
  by (cases "j = i") (simp_all add: set_actor_def)

lemma unique_delete_actor: "unique_keys (ss_actors (rt_shards rt j)) \<Longrightarrow> unique_keys (ss_actors (rt_shards (delete_actor i f rt) j))"
  by (cases "j = i") (simp_all add: delete_actor_def unique_delete)

lemma actors_same [simp]:
  "ss_actors (rt_shards (pop_inbox i rt) j) = ss_actors (rt_shards rt j)"
  "ss_actors (rt_shards (pop_completed i rt) j) = ss_actors (rt_shards rt j)"
  "ss_actors (rt_shards (push_inbox i t rt) j) = ss_actors (rt_shards rt j)"
  "ss_actors (rt_shards (push_completed i c rt) j) = ss_actors (rt_shards rt j)"
  "ss_actors (rt_shards (block_scheduler i b rt) j) = ss_actors (rt_shards rt j)"
  "rt_shards (set_worker k x rt) = rt_shards rt"
  by (simp_all add: pop_inbox_def pop_completed_def push_inbox_def push_completed_def block_scheduler_def set_worker_def)

lemmas accept_unfold = accept_def accept_existing_def tryDispatch_def tryActorAdd_def Let_def

lemma accept_parts:
  "ss_inbox (rt_shards (accept i t now rt) j) = ss_inbox (rt_shards rt j)"
  "rt_cfg (accept i t now rt) = rt_cfg rt" "rt_next rt \<le> rt_next (accept i t now rt)"
  "(\<And>j. unique_keys (ss_actors (rt_shards rt j))) \<Longrightarrow> unique_keys (ss_actors (rt_shards (accept i t now rt) j))"
  by (auto simp: accept_unfold unique_set_actor unique_delete_actor split: option.split)

lemma complete_parts:
  "ss_inbox (rt_shards (complete i c now rt) j) = ss_inbox (rt_shards rt j)"
  "rt_cfg (complete i c now rt) = rt_cfg rt" "rt_next (complete i c now rt) = rt_next rt"
  "(\<And>j. unique_keys (ss_actors (rt_shards rt j))) \<Longrightarrow> unique_keys (ss_actors (rt_shards (complete i c now rt) j))"
  by (auto simp: complete_def hand_over_def Let_def unique_set_actor split: option.split list.split)

lemma hand_over_parts:
  "ss_inbox (rt_shards (hand_over i w rt) j) = ss_inbox (rt_shards rt j)"
  "rt_cfg (hand_over i w rt) = rt_cfg rt" "rt_next (hand_over i w rt) = rt_next rt"
  "(\<And>j. unique_keys (ss_actors (rt_shards rt j))) \<Longrightarrow> unique_keys (ss_actors (rt_shards (hand_over i w rt) j))"
  by (auto simp: hand_over_def unique_set_actor split: option.split)

lemma receive_parts:
  "ss_inbox (rt_shards (receive_ready k wi rest rt) j) = ss_inbox (rt_shards rt j)"
  "rt_cfg (receive_ready k wi rest rt) = rt_cfg rt" "rt_next (receive_ready k wi rest rt) = rt_next rt"
  "(\<And>j. unique_keys (ss_actors (rt_shards rt j))) \<Longrightarrow> unique_keys (ss_actors (rt_shards (receive_ready k wi rest rt) j))"
  by (auto simp: receive_ready_def hand_over_def Let_def unique_set_actor split: option.split list.split)

lemma evict_parts:
  "ss_inbox (rt_shards (evictIdle i now rt) j) = ss_inbox (rt_shards rt j)"
  "rt_cfg (evictIdle i now rt) = rt_cfg rt" "rt_next (evictIdle i now rt) = rt_next rt"
  "(\<And>j. unique_keys (ss_actors (rt_shards rt j))) \<Longrightarrow> unique_keys (ss_actors (rt_shards (evictIdle i now rt) j))"
  by (auto simp: evictIdle_def Let_def unique_filter)

lemma ids_same:
  assumes "ids_ok rt tr" "\<And>j. ss_inbox (rt_shards rt' j) = ss_inbox (rt_shards rt j)" "rt_cfg rt' = rt_cfg rt"
    "rt_next rt \<le> rt_next rt'" "\<And>g. accepted g es = []"
  shows "ids_ok rt' (tr @ es)"
  using assms by (fastforce simp: ids_ok_def shardFor_cong [of rt' rt])

lemma ids_pop:
  assumes "ids_ok rt tr" "ss_inbox (rt_shards rt i) = t # rest"
    "\<And>j. ss_inbox (rt_shards rt' j) = ss_inbox (rt_shards (pop_inbox i rt) j)" "rt_cfg rt' = rt_cfg rt"
    "rt_next rt \<le> rt_next rt'" "es = [] \<or> es = [Accepted (cmd_FarmID (tk_cmd t)) (tk_id t)]"
  shows "ids_ok rt' (tr @ es)"
proof -
  have sh: "shardFor rt' g = shardFor rt g" for g using assms(4) by (rule shardFor_cong)
  have box: "ss_inbox (rt_shards rt' j) = (if j = i then rest else ss_inbox (rt_shards rt j))" for j
    using assms(2,3) by (simp add: pop_inbox_def)
  have t: "tk_id t < rt_next rt" "shardFor rt (cmd_FarmID (tk_cmd t)) = i" "tk_id t \<notin> tk_id ` set rest"
    "\<And>g. shardFor rt g = i \<Longrightarrow> tk_id t \<notin> set (accepted g tr)"
    using assms(1) [unfolded ids_ok_def, THEN conjunct1, rule_format, of i] assms(2) by auto
  show ?thesis
    unfolding ids_ok_def
  proof (intro conjI allI ballI)
    fix j show "distinct (map tk_id (ss_inbox (rt_shards rt' j)))"
      using assms(1) [unfolded ids_ok_def, THEN conjunct1, rule_format, of j] assms(2) box by (cases "j = i") auto
  next
    fix j u assume u: "u \<in> set (ss_inbox (rt_shards rt' j))"
    then have "u \<in> set (ss_inbox (rt_shards rt j))" using box assms(2) by (auto split: if_splits)
    then have ok: "tk_id u < rt_next rt" "shardFor rt (cmd_FarmID (tk_cmd u)) = j"
      "\<forall>g. shardFor rt g = j \<longrightarrow> tk_id u \<notin> set (accepted g tr)"
      using assms(1) [unfolded ids_ok_def, THEN conjunct1, rule_format, of j] by simp_all
    show "tk_id u < rt_next rt'" using ok assms(5) by simp
    show "shardFor rt' (cmd_FarmID (tk_cmd u)) = j" using ok sh by simp
    fix g show "shardFor rt' g = j \<longrightarrow> tk_id u \<notin> set (accepted g (tr @ es))"
    proof
      assume "shardFor rt' g = j"
      then have g: "shardFor rt g = j" by (simp add: sh)
      have "tk_id u \<notin> set (accepted g es)"
      proof (cases "accepted g es = []")
        case False
        then have *: "accepted g es = [tk_id t]" "g = cmd_FarmID (tk_cmd t)" using assms(6) by (auto split: if_splits)
        then have "u \<in> set rest" using t(2) g u box by simp
        then have "tk_id u \<in> tk_id ` set rest" by (rule imageI)
        then show ?thesis using * t(3) by auto
      qed simp
      then show "tk_id u \<notin> set (accepted g (tr @ es))" using ok(3) g by simp
    qed
  next
    fix g show "distinct (accepted g (tr @ es))"
      using assms(1) [unfolded ids_ok_def, THEN conjunct2, rule_format, of g] assms(6) t(2,4) by auto
    fix x assume "x \<in> set (accepted g (tr @ es))"
    then have "x \<in> set (accepted g tr) \<or> x = tk_id t" using assms(6) by (auto split: if_splits)
    then have "x < rt_next rt"
      using assms(1) [unfolded ids_ok_def, THEN conjunct2, rule_format, of g] t(1) by auto
    then show "x < rt_next rt'" using assms(5) by simp
  qed
qed

lemma step_keeps_inv:
  assumes "actor_step x es y" "runtime_inv (fst x) tr"
  shows "runtime_inv (fst y) (tr @ es)"
proof -
  have i: "\<forall>i f. key_ok (fst x) i f" "\<forall>f. fifo_ok (fst x) tr f" "ids_ok (fst x) tr"
    "\<And>i. unique_keys (ss_actors (rt_shards (fst x) i))"
    using assms(2) by (simp_all add: runtime_inv_def)
  from assms(1) show ?thesis
  proof (cases rule: actor_step.cases)
    case (submit i rt cmd w)
    let ?rt' = "(push_inbox i \<lparr>tk_id = rt_next rt, tk_cmd = cmd\<rparr> rt)\<lparr>rt_next := rt_next rt + 1\<rparr>"
    have "(\<forall>i f. key_ok ?rt' i f) \<and> (\<forall>f. fifo_ok ?rt' (tr @ []) f)"
      by (rule views_same) (use i(1,2) submit in \<open>auto intro!: same_view_cong\<close>)
    moreover have "ids_ok ?rt' tr"
    proof -
      have sh: "shardFor ?rt' g = shardFor rt g" for g by (rule shardFor_cong) simp
      have fresh: "rt_next rt \<notin> tk_id ` set (ss_inbox (rt_shards rt j))" "rt_next rt \<notin> set (accepted g tr)" for j g
        using i(3) submit(1) unfolding ids_ok_def by fastforce+
      show ?thesis
        using i(3) submit(1-4) fresh unfolding ids_ok_def sh by (auto intro: less_SucI)
    qed
    ultimately show ?thesis using i(4) submit by (simp add: runtime_inv_def)
  next
    case (accept rt i t rest w now)
    let ?f = "cmd_FarmID (tk_cmd t)" and ?p = "pop_inbox i rt"
    have home: "shardFor rt ?f = i" using i(3) accept by (simp add: ids_ok_def)
    have "(\<forall>j g. key_ok (accept i t now ?p) j g)
      \<and> (\<forall>g. fifo_ok (accept i t now ?p) (tr @ (if admitted i t rt then [Accepted ?f (tk_id t)] else [])) g)"
      using i(1,2) accept(1,4) home accept_existing_views [of rt tr i ?f t _ now] accept_new_views [of rt tr i ?f t now]
      by (cases "get_actor rt i ?f") auto
    moreover have "ids_ok (accept i t now ?p) (tr @ (if admitted i t rt then [Accepted ?f (tk_id t)] else []))"
      by (rule ids_pop [of rt tr i t rest]) (use i(3) accept accept_parts(1-3) [where rt = ?p] in auto)
    ultimately show ?thesis using i(4) accept accept_parts(4) [where rt = ?p] by (simp add: runtime_inv_def)
  next
    case (complete rt i c rest w now)
    let ?rt' = "complete i c now (pop_completed i rt)"
    have "(\<forall>j g. key_ok ?rt' j g) \<and> (\<forall>g. fifo_ok ?rt' (tr @ []) g)"
      using complete_views i(1,2) complete by simp
    moreover have "ids_ok ?rt' (tr @ [])"
      by (rule ids_same) (use i(3) complete complete_parts(1-3) in auto)
    ultimately show ?thesis using i(4) complete complete_parts(4) [where rt = "pop_completed i rt"]
      by (simp add: runtime_inv_def)
  next
    case (tick rt i w now)
    have "(\<forall>j g. key_ok (evictIdle i now rt) j g) \<and> (\<forall>g. fifo_ok (evictIdle i now rt) (tr @ []) g)"
      using tick_views i(1,2,4) tick by simp
    moreover have "ids_ok (evictIdle i now rt) (tr @ [])"
      by (rule ids_same) (use i(3) tick evict_parts(1-3) in auto)
    ultimately show ?thesis using i(4) tick evict_parts(4) [where rt = rt] by (simp add: runtime_inv_def)
  next
    case (take k rt wi rest w)
    have views: "(\<forall>j g. key_ok (receive_ready k wi rest rt) j g) \<and> (\<forall>g. fifo_ok (receive_ready k wi rest rt) (tr @ []) g)"
      using receive_views i(1,2) take by simp
    have "ids_ok (receive_ready k wi rest rt) (tr @ [])"
      by (rule ids_same [of rt]) (use i(3) take receive_parts in auto)
    with views show ?thesis using i(4) take receive_parts(4) [where rt = rt] by (simp add: runtime_inv_def)
  next
    case (exec k rt wi sv w c w')
    let ?rt' = "set_worker k (WorkerDone (wi_shard wi) c) rt" and ?es = "[Executed (wi_farmID wi) (tk_id (wi_task wi))]"
    have "(\<forall>j g. key_ok ?rt' j g) \<and> (\<forall>g. fifo_ok ?rt' (tr @ ?es) g)"
      using exec_views i(1,2) exec by simp
    moreover have "ids_ok ?rt' (tr @ ?es)"
      by (rule ids_same [of rt]) (use i(3) exec in \<open>simp_all add: set_worker_def\<close>)
    ultimately show ?thesis using i(4) exec by (simp add: runtime_inv_def)
  next
    case (hand_in k rt i' c w)
    let ?rt' = "push_completed i' c (set_worker k WorkerIdle rt)"
    have "(\<forall>j g. key_ok ?rt' j g) \<and> (\<forall>g. fifo_ok ?rt' (tr @ []) g)"
      using hand_in_views i(1,2) hand_in by simp
    moreover have "ids_ok ?rt' (tr @ [])"
      by (rule ids_same [of rt]) (use i(3) hand_in in \<open>simp_all add: set_worker_def push_completed_def\<close>)
    ultimately show ?thesis using i(4) hand_in by (simp add: runtime_inv_def)
  qed
qed

end
