(* ===== verification/ActorRuntimeClaims.thy ===== *)
theory ActorRuntimeClaims
  imports ActorRuntimeProps Fixtures
begin

text \<open>
  The guarantees of the actor runtime: serial first-in first-out execution per farm, its bounds, what a
  shutdown answers, and the state in which schedulers and workers wait for each other for ever.
\<close>

section \<open>Runs\<close>

lemma sum_busy_empty: "(\<Sum>k<n::nat. {#} :: 'a multiset) = {#}" by simp

lemma init_inv: "runtime_inv (NewRuntimeWithConfig cfg) []"
proof -
  have "U (NewRuntimeWithConfig cfg) i f = {#}" "E (NewRuntimeWithConfig cfg) i f = {#}"
    "get_actor (NewRuntimeWithConfig cfg) i f = None" "blk (NewRuntimeWithConfig cfg) i f = None" for i f
    by (simp_all add: NewRuntimeWithConfig_def U_def E_def busy_tok_def done_tok_def get_actor_def blk_def empty_shard_def)
  then show ?thesis
    by (simp add: runtime_inv_def key_ok_def view_ok_def expected_def fifo_ok_def waiting_def waits_def ids_ok_def)
      (simp add: NewRuntimeWithConfig_def empty_shard_def)
qed

lemma run_inv: "actor_run x tr y \<Longrightarrow> runtime_inv (fst x) [] \<Longrightarrow> runtime_inv (fst y) tr"
  by (induction rule: actor_run.induct) (auto intro: step_keeps_inv)

lemma two_busy:
  assumes "j < n" "k < n" "j \<noteq> k" "g j \<noteq> {#}" "g k \<noteq> {#}"
  shows "2 \<le> size (\<Sum>i<n::nat. g i :: 'a multiset)"
proof -
  have "(\<Sum>i<n. g i) = g j + (\<Sum>i\<in>{..<n} - {j}. g i)"
    using assms(1) by (intro sum.remove) auto
  also have "(\<Sum>i\<in>{..<n} - {j}. g i) = g k + (\<Sum>i\<in>{..<n} - {j} - {k}. g i)"
    using assms(2,3) by (intro sum.remove) auto
  finally have "size (\<Sum>i<n. g i) \<ge> size (g j) + size (g k)" by simp
  moreover have "1 \<le> size (g j)" "1 \<le> size (g k)"
    using assms(4,5) by (simp_all add: Suc_le_eq nonempty_has_size)
  ultimately show ?thesis by linarith
qed

lemma one_worker:
  assumes "key_ok rt i f" "j < n_workers rt" "k < n_workers rt" "rt_workers rt j = WorkerBusy v"
    "rt_workers rt k = WorkerBusy w" "at_key i f v" "at_key i f w"
  shows "j = k"
proof (rule ccontr)
  assume "j \<noteq> k"
  with assms have "2 \<le> size (\<Sum>m<n_workers rt. busy_tok i f (rt_workers rt m))"
    by (intro two_busy [of j _ k]) (simp_all add: busy_tok_def)
  then have "2 \<le> size (U rt i f + E rt i f)" by (simp add: U_def)
  moreover have "size (expected (get_actor rt i f)) \<le> 1"
    by (simp add: expected_def split: option.split)
  ultimately show False using key_okD(1) [OF assms(1)] by simp
qed

definition home_ok :: "runtime \<Rightarrow> bool" where
  "home_ok rt \<longleftrightarrow> (\<forall>k w. k < n_workers rt \<longrightarrow> rt_workers rt k = WorkerBusy w \<longrightarrow> wi_shard w = shardFor rt (wi_farmID w))"

lemma busy_home:
  assumes "\<forall>i f. key_ok rt i f"
  shows "home_ok rt"
  unfolding home_ok_def
proof (intro allI impI)
  fix k w assume k: "k < n_workers rt" "rt_workers rt k = WorkerBusy w"
  let ?i = "wi_shard w" and ?f = "wi_farmID w"
  have "(\<Sum>m<n_workers rt. busy_tok ?i ?f (rt_workers rt m)) \<noteq> {#}"
    using k sum.remove [of "{..<n_workers rt}" k "\<lambda>m. busy_tok ?i ?f (rt_workers rt m)"]
    by (simp add: busy_tok_def [of _ _ "WorkerBusy w"] at_key_def)
  then have "U rt ?i ?f \<noteq> {#}" by (simp add: U_def)
  then have "expected (get_actor rt ?i ?f) \<noteq> {#}"
    using key_okD(1) [of rt ?i ?f] assms by (metis union_eq_empty)
  then obtain st where "get_actor rt ?i ?f = Some st" by (auto simp: expected_def split: option.splits)
  then show "wi_shard w = shardFor rt ?f" using key_okD(2) [of rt ?i ?f st] assms by simp
qed

text \<open>C17: on every schedule of submits, schedulers and workers, the commands of one farm are executed one
  at a time, each at most once, and in the order in which they were admitted: what has been executed
  of a farm is a prefix of what was admitted, and no two workers hold commands of one farm.\<close>

theorem actor_serial_fifo:
  assumes "actor_run (NewRuntimeWithConfig cfg, w0) tr (rt, w)"
  shows "(\<exists>rest. accepted f tr = executed f tr @ rest) \<and> distinct (accepted f tr)
    \<and> (\<forall>j k u v. j < n_workers rt \<and> k < n_workers rt \<and> rt_workers rt j = WorkerBusy u \<and> rt_workers rt k = WorkerBusy v
          \<and> wi_farmID u = wi_farmID v \<longrightarrow> j = k)"
proof -
  have inv: "runtime_inv rt tr" using run_inv [OF assms] init_inv by simp
  then have "fifo_ok rt tr f" "distinct (accepted f tr)" by (simp_all add: runtime_inv_def ids_ok_def)
  moreover have "j = k" if "j < n_workers rt" "k < n_workers rt" "rt_workers rt j = WorkerBusy u"
    "rt_workers rt k = WorkerBusy v" "wi_farmID u = wi_farmID v" for j k u v
  proof -
    have keys: "\<forall>i f. key_ok rt i f" using inv by (simp add: runtime_inv_def)
    have "wi_shard u = wi_shard v" using busy_home [OF keys] that by (auto simp: home_ok_def)
    with that one_worker [of rt "wi_shard u" "wi_farmID u" j k u v] keys show ?thesis by (simp add: at_key_def)
  qed
  ultimately show ?thesis by (auto simp: fifo_ok_def)
qed

section \<open>Bounds\<close>

definition bounds_ok :: "runtime \<Rightarrow> bool" where
  "bounds_ok rt \<longleftrightarrow> int (length (rt_ready rt)) \<le> ac_ReadyCap (rt_cfg rt)
     \<and> rt_activeActors rt \<le> ac_MaxActiveActors (rt_cfg rt)
     \<and> (\<forall>i. int (length (ss_inbox (rt_shards rt i))) \<le> ac_IngressCap (rt_cfg rt)
          \<and> length (ss_completed (rt_shards rt i)) \<le> n_workers rt)
     \<and> (\<forall>i f st. get_actor rt i f = Some st \<longrightarrow> int (length (as_queue st)) \<le> ac_FarmQueueCap (rt_cfg rt))"

lemma fill_positive:
  "0 < ac_ReadyCap (fill_config c)" "0 < ac_MaxActiveActors (fill_config c)" "0 < ac_IngressCap (fill_config c)"
  "0 < ac_FarmQueueCap (fill_config c)" "0 < ac_Workers (fill_config c)" "0 < ac_SchedulerShards (fill_config c)"
  by (simp_all add: fill_config_def pos_or_def DefaultConfig_def)

lemma bounds_queue: "bounds_ok rt \<Longrightarrow> get_actor rt i f = Some st \<Longrightarrow> int (length (as_queue st)) \<le> ac_FarmQueueCap (rt_cfg rt)"
  unfolding bounds_ok_def by blast

lemma n_workers_cong: "rt_cfg a = rt_cfg b \<Longrightarrow> n_workers a = n_workers b"
  by (simp add: n_workers_def)

lemma bounds_set_actor:
  assumes "bounds_ok rt" "int (length (as_queue st)) \<le> ac_FarmQueueCap (rt_cfg rt)"
  shows "bounds_ok (set_actor i st rt)"
  using assms by (auto simp: bounds_ok_def n_workers_def)

lemma bounds_delete_actor: "bounds_ok rt \<Longrightarrow> bounds_ok (delete_actor i f rt)"
  by (auto simp: bounds_ok_def n_workers_def split: if_splits)

lemma bounds_deliver: "bounds_ok rt \<Longrightarrow> bounds_ok (deliver t out rt)"
  by (simp add: bounds_ok_def n_workers_def)

lemma bounds_counters:
  "bounds_ok rt \<Longrightarrow> bounds_ok (rt\<lparr>rt_queued := x\<rparr>)" "bounds_ok rt \<Longrightarrow> bounds_ok (rt\<lparr>rt_next := n\<rparr>)"
  "bounds_ok rt \<Longrightarrow> bounds_ok (rt\<lparr>rt_waiters := ws\<rparr>)"
  "bounds_ok rt \<Longrightarrow> y \<le> ac_MaxActiveActors (rt_cfg rt) \<Longrightarrow> bounds_ok (rt\<lparr>rt_activeActors := y\<rparr>)"
  by (auto simp: bounds_ok_def n_workers_def)

lemma bounds_active: "bounds_ok rt \<Longrightarrow> rt_activeActors rt \<le> ac_MaxActiveActors (rt_cfg rt)"
  by (simp add: bounds_ok_def)

lemma bounds_push: "bounds_ok rt \<Longrightarrow> \<not> ready_full rt \<Longrightarrow> bounds_ok (rt\<lparr>rt_ready := rt_ready rt @ [w]\<rparr>)"
  by (auto simp: bounds_ok_def n_workers_def ready_full_def)

lemma bounds_accept_existing:
  assumes "bounds_ok rt" "int (length (as_queue st)) \<le> ac_FarmQueueCap (rt_cfg rt)"
  shows "bounds_ok (accept_existing i st created t now rt)"
proof -
  have 1: "bounds_ok (set_actor i st' (rt\<lparr>rt_ready := rt_ready rt @ [w]\<rparr>))"
    if "\<not> ready_full rt" "as_queue st' = as_queue st" for st' w
    using bounds_set_actor [OF bounds_push [OF assms(1) that(1)]] assms(2) that(2) by simp
  have 2: "bounds_ok ((set_actor i (st\<lparr>as_queue := as_queue st @ [t]\<rparr>) rt)\<lparr>rt_queued := q\<rparr>)"
    if "\<not> ac_FarmQueueCap (rt_cfg rt) \<le> int (length (as_queue st))" for q
    using that by (intro bounds_counters(1) bounds_set_actor assms(1)) simp
  have 3: "bounds_ok ((delete_actor i f (deliver t out rt))\<lparr>rt_activeActors := rt_activeActors rt - 1\<rparr>)" for f out
    using bounds_active [OF assms(1)] by (intro bounds_counters(4) bounds_delete_actor bounds_deliver assms(1)) simp
  show ?thesis
    using 1 2 3 bounds_deliver [OF assms(1)] unfolding accept_existing_def tryDispatch_def Let_def by simp
qed

lemma int_pred: "int n \<le> c \<Longrightarrow> int (n - Suc 0) \<le> c" by linarith

lemma bounds_pop: "bounds_ok rt \<Longrightarrow> bounds_ok (pop_inbox i rt)" "bounds_ok rt \<Longrightarrow> bounds_ok (pop_completed i rt)"
  by (simp_all add: bounds_ok_def n_workers_def pop_inbox_def pop_completed_def get_actor_def int_pred
      le_trans [OF diff_le_self])

lemma bounds_accept:
  assumes "bounds_ok rt" "0 < ac_FarmQueueCap (rt_cfg rt)"
  shows "bounds_ok (accept i t now rt)"
proof (cases "get_actor rt i (cmd_FarmID (tk_cmd t))")
  case (Some st)
  then show ?thesis using bounds_accept_existing [OF assms(1)] bounds_queue [OF assms(1)] by (simp add: accept_def Let_def)
next
  case None
  show ?thesis
  proof (cases "rt_activeActors rt \<ge> ac_MaxActiveActors (rt_cfg rt)")
    case False
    let ?rt1 = "rt\<lparr>rt_activeActors := rt_activeActors rt + 1\<rparr>"
    have "bounds_ok ?rt1" using False by (intro bounds_counters(4) assms(1)) simp
    then have "bounds_ok (set_actor i (new_actor ?rt1 f now) (?rt1\<lparr>rt_next := n\<rparr>))" for f n
      using assms(2) by (intro bounds_set_actor bounds_counters(2)) (simp_all add: new_actor_def)
    then show ?thesis
      using None False assms(2)
      by (simp add: accept_def tryActorAdd_def Let_def bounds_accept_existing new_actor_def)
  qed (use None assms(1) in \<open>simp add: accept_def tryActorAdd_def Let_def bounds_deliver\<close>)
qed

lemma bounds_block: "bounds_ok rt \<Longrightarrow> bounds_ok (block_scheduler i b rt)"
  by (simp add: bounds_ok_def n_workers_def)

lemma bounds_hand_over:
  assumes "bounds_ok rt" "\<not> ready_full rt"
  shows "bounds_ok (hand_over i w rt)"
proof (cases "get_actor rt i (wi_farmID w)")
  case (Some st)
  then show ?thesis
    using bounds_set_actor [OF bounds_push [OF assms]] bounds_queue [OF assms(1) Some] by (simp add: hand_over_def)
qed (use bounds_push [OF assms] in \<open>simp add: hand_over_def\<close>)

lemma bounds_complete:
  assumes "bounds_ok rt"
  shows "bounds_ok (complete i c now rt)"
proof (cases "get_actor rt i (cp_farmID c)")
  case (Some st)
  note q = bounds_queue [OF assms Some]
  let ?st1 = "st\<lparr>as_running := False, as_inflight := None, as_snapshot := cp_snapshot c, as_lastUsed := now\<rparr>"
  show ?thesis
  proof (cases "as_queue st")
    case Nil
    have "bounds_ok (deliver (cp_task c) (cp_out c) (set_actor i ?st1 rt))"
      using q by (intro bounds_deliver bounds_set_actor assms) simp
    then show ?thesis using Some Nil bounds_deliver [OF assms] by (simp add: complete_def Let_def)
  next
    case (Cons u us)
    have "bounds_ok ((deliver (cp_task c) (cp_out c) (set_actor i (?st1\<lparr>as_queue := us\<rparr>) rt))\<lparr>rt_queued := rt_queued rt - 1\<rparr>)"
      using q Cons by (intro bounds_counters(1) bounds_deliver bounds_set_actor assms) simp
    then show ?thesis
      using Some Cons bounds_deliver [OF assms] bounds_hand_over bounds_counters(3) [OF bounds_block]
      by (simp add: complete_def Let_def)
  qed
qed (use bounds_deliver [OF assms] in \<open>simp add: complete_def\<close>)

lemma bounds_receive:
  assumes "bounds_ok rt" "rt_ready rt = w # rest"
  shows "bounds_ok (receive_ready k w rest rt)"
proof -
  let ?rt1 = "rt\<lparr>rt_ready := rest, rt_workers := (rt_workers rt)(k := WorkerBusy w)\<rparr>"
  have 1: "bounds_ok ?rt1" "\<not> ready_full ?rt1"
    using assms by (auto simp: bounds_ok_def ready_full_def n_workers_def get_actor_def)
  then have "bounds_ok (?rt1\<lparr>rt_waiters := js\<rparr>)" "\<not> ready_full (?rt1\<lparr>rt_waiters := js\<rparr>)" for js
    using bounds_counters(3) by (blast, simp add: ready_full_def)
  then have "bounds_ok (hand_over j v (block_scheduler j None (?rt1\<lparr>rt_waiters := js\<rparr>)))" for j v js
    by (intro bounds_hand_over bounds_block) (auto simp: ready_full_def)
  then show ?thesis using 1 bounds_counters(3) [OF 1(1)]
    by (simp add: receive_ready_def Let_def split: list.split option.split)
qed

lemma step_cfg: "actor_step x es y \<Longrightarrow> rt_cfg (fst y) = rt_cfg (fst x)"
  by (cases rule: actor_step.cases, assumption)
    (simp_all add: accept_parts complete_parts evict_parts receive_parts set_worker_def push_completed_def)

lemma bounds_step:
  assumes "actor_step x es y" "bounds_ok (fst x)" "0 < ac_FarmQueueCap (rt_cfg (fst x))"
    "\<And>i. unique_keys (ss_actors (rt_shards (fst x) i))"
  shows "bounds_ok (fst y)"
  using assms(1)
proof (cases rule: actor_step.cases)
  case (submit i rt cmd w)
  then show ?thesis using assms(2) by (auto simp: bounds_ok_def n_workers_def push_inbox_def get_actor_def)
next
  case (accept rt i t rest w now)
  then show ?thesis using bounds_accept bounds_pop(1) assms by simp
next
  case (complete rt i c rest w now)
  then show ?thesis using bounds_complete bounds_pop(2) assms by simp
next
  case (tick rt i w now)
  have "length (filter P xs) \<le> length xs" for P and xs :: "(int \<times> actor_state) list" by simp
  then have "rt_activeActors (evictIdle i now rt) \<le> rt_activeActors rt" by (simp add: evictIdle_def Let_def)
  moreover have "get_actor rt j f = Some st" if "get_actor (evictIdle i now rt) j f = Some st" for j f st
    using that get_evict [of rt i now j f] assms(4) [of i] tick by (auto split: if_splits option.splits)
  moreover have "rt_cfg (evictIdle i now rt) = rt_cfg rt" "rt_ready (evictIdle i now rt) = rt_ready rt"
    "ss_inbox (rt_shards (evictIdle i now rt) j) = ss_inbox (rt_shards rt j)"
    "ss_completed (rt_shards (evictIdle i now rt) j) = ss_completed (rt_shards rt j)" for j
    by (simp_all add: evictIdle_def Let_def)
  ultimately have "bounds_ok (evictIdle i now rt)"
    using assms(2) tick unfolding bounds_ok_def n_workers_def by fastforce
  then show ?thesis using tick by simp
next
  case (take k rt wi rest w)
  then show ?thesis using bounds_receive assms by simp
next
  case (exec k rt wi sv w c w')
  then show ?thesis using assms by (simp add: bounds_ok_def n_workers_def set_worker_def get_actor_def)
next
  case (hand_in k rt i c w)
  then show ?thesis using assms
    by (simp add: bounds_ok_def n_workers_def set_worker_def push_completed_def get_actor_def)
qed


text \<open>The actors that are in the maps of the shards, which is what the counter has to count.\<close>

definition actors :: "runtime \<Rightarrow> (nat \<times> int) set" where
  "actors rt = {(i, f). get_actor rt i f \<noteq> None}"

definition count_ok :: "runtime \<Rightarrow> bool" where
  "count_ok rt \<longleftrightarrow> finite (actors rt) \<and> int (card (actors rt)) = rt_activeActors rt"

definition named_ok :: "runtime \<Rightarrow> bool" where
  "named_ok rt \<longleftrightarrow> (\<forall>i f st. get_actor rt i f = Some st \<longrightarrow> as_farmID st = f)"

lemma named_okD: "named_ok rt \<Longrightarrow> get_actor rt i f = Some st \<Longrightarrow> as_farmID st = f"
  by (auto simp: named_ok_def)

lemma count_same:
  assumes "count_ok rt" "rt_activeActors rt' = rt_activeActors rt" "\<And>i f. get_actor rt' i f = None \<longleftrightarrow> get_actor rt i f = None"
  shows "count_ok rt'"
proof -
  have "actors rt' = actors rt" using assms(3) by (auto simp: actors_def)
  then show ?thesis using assms(1,2) by (simp add: count_ok_def)
qed

lemma actors_set: "actors (set_actor i st rt) = insert (i, as_farmID st) (actors rt)"
  by (auto simp: actors_def)

lemma count_accept_existing:
  assumes "count_ok rt" "get_actor rt i (as_farmID st) \<noteq> None"
  shows "count_ok (accept_existing i st created t now rt)"
proof -
  have here: "(i, as_farmID st) \<in> actors rt" using assms(2) by (simp add: actors_def)
  have del: "count_ok ((delete_actor i (as_farmID st) (deliver t out rt))\<lparr>rt_activeActors := rt_activeActors rt - 1\<rparr>)" for out
  proof -
    let ?r = "(delete_actor i (as_farmID st) (deliver t out rt))\<lparr>rt_activeActors := rt_activeActors rt - 1\<rparr>"
    have a: "actors ?r = actors rt - {(i, as_farmID st)}" by (auto simp: actors_def split: if_splits)
    have "card (actors rt) = Suc (card (actors rt - {(i, as_farmID st)}))"
      using assms(1) here by (intro card.remove) (simp_all add: count_ok_def)
    then show ?thesis using assms(1) unfolding count_ok_def a by simp
  qed
  have others: "count_ok r" if "rt_activeActors r = rt_activeActors rt" "actors r = actors rt" for r
    using assms(1) that by (simp add: count_ok_def)
  have eqs: "actors (set_actor i (st\<lparr>as_running := True, as_inflight := Some t, as_lastUsed := now\<rparr>) (rt\<lparr>rt_ready := q\<rparr>)) = actors rt"
    "actors ((set_actor i (st\<lparr>as_queue := as_queue st @ [t]\<rparr>) rt)\<lparr>rt_queued := n\<rparr>) = actors rt"
    "actors (deliver t out rt) = actors rt" for q n out
    using here by (auto simp: actors_def split: if_splits)
  show ?thesis
    unfolding accept_existing_def tryDispatch_def Let_def using del others eqs by simp
qed

lemma count_accept:
  assumes "count_ok rt" "named_ok rt"
  shows "count_ok (accept i t now rt)"
proof (cases "get_actor rt i (cmd_FarmID (tk_cmd t))")
  case (Some st)
  then have "get_actor rt i (as_farmID st) \<noteq> None" using named_okD [OF assms(2) Some] by simp
  then show ?thesis using Some count_accept_existing [OF assms(1)] by (simp add: accept_def Let_def)
next
  case None
  have d: "count_ok (deliver t out rt)" for out by (rule count_same [OF assms(1)]) simp_all
  show ?thesis
  proof (cases "rt_activeActors rt \<ge> ac_MaxActiveActors (rt_cfg rt)")
    case False
    let ?rt1 = "rt\<lparr>rt_activeActors := rt_activeActors rt + 1\<rparr>"
    let ?st = "new_actor ?rt1 (cmd_FarmID (tk_cmd t)) now"
    let ?rt2 = "set_actor i ?st (?rt1\<lparr>rt_next := rt_next ?rt1 + 1\<rparr>)"
    have st: "as_farmID ?st = cmd_FarmID (tk_cmd t)" by (simp add: new_actor_def)
    have "actors ?rt2 = insert (i, cmd_FarmID (tk_cmd t)) (actors rt)"
      unfolding actors_set st by (auto simp: actors_def)
    moreover have "(i, cmd_FarmID (tk_cmd t)) \<notin> actors rt" using None by (simp add: actors_def)
    ultimately have "count_ok ?rt2" using assms(1) by (simp add: count_ok_def)
    then have "count_ok (accept_existing i ?st True t now ?rt2)" by (rule count_accept_existing) (simp add: st)
    then show ?thesis using None False by (simp add: accept_def tryActorAdd_def Let_def)
  qed (use None d in \<open>simp add: accept_def tryActorAdd_def Let_def\<close>)
qed

lemma get_hand_over: "named_ok rt \<Longrightarrow> get_actor (hand_over i w rt) j f = None \<longleftrightarrow> get_actor rt j f = None"
  by (auto simp: hand_over_def dest: named_okD split: option.splits if_splits)

lemma active_kept:
  "rt_activeActors (hand_over i w rt) = rt_activeActors rt" "rt_activeActors (block_scheduler i b rt) = rt_activeActors rt"
  "rt_activeActors (complete i c now rt) = rt_activeActors rt" "rt_activeActors (receive_ready k wi rest rt) = rt_activeActors rt"
  by (simp_all add: hand_over_def block_scheduler_def complete_def receive_ready_def Let_def split: option.splits list.splits)

lemma count_complete:
  assumes "count_ok rt" "named_ok rt"
  shows "count_ok (complete i c now rt)"
proof (rule count_same [OF assms(1)])
  fix j f
  show "get_actor (complete i c now rt) j f = None \<longleftrightarrow> get_actor rt j f = None"
  proof (cases "get_actor rt i (cp_farmID c)")
    case (Some st)
    have n: "as_farmID st = cp_farmID c" using named_okD [OF assms(2) Some] .
    let ?st1 = "st\<lparr>as_running := False, as_inflight := None, as_snapshot := cp_snapshot c, as_lastUsed := now\<rparr>"
    have "named_ok ((deliver (cp_task c) (cp_out c) (set_actor i (?st1\<lparr>as_queue := q\<rparr>) rt))\<lparr>rt_queued := m\<rparr>)" for q m
      using assms(2) n by (auto simp: named_ok_def)
    from get_hand_over [OF this] Some n show ?thesis
      by (auto simp: complete_def Let_def simp del: not_None_eq split: list.splits if_splits)
  qed (simp add: complete_def)
qed (simp_all add: active_kept)

lemma count_receive:
  assumes "count_ok rt" "named_ok rt"
  shows "count_ok (receive_ready k wi rest rt)"
proof (rule count_same [OF assms(1)])
  fix j f
  have g: "get_actor (rt\<lparr>rt_ready := rest, rt_workers := ws\<rparr>) i g = get_actor rt i g"
    "get_actor (rt\<lparr>rt_ready := rest, rt_workers := ws, rt_waiters := js\<rparr>) i g = get_actor rt i g" for ws js i g
    by (simp_all add: get_actor_def)
  then have "named_ok (block_scheduler x None (rt\<lparr>rt_ready := rest, rt_workers := ws, rt_waiters := js\<rparr>))" for x ws js
    using assms(2) by (simp add: named_ok_def)
  from get_hand_over [OF this] show "get_actor (receive_ready k wi rest rt) j f = None \<longleftrightarrow> get_actor rt j f = None"
    by (simp add: receive_ready_def Let_def g split: list.splits option.splits)
qed (simp_all add: active_kept)

lemma count_evict:
  assumes "count_ok rt" "unique_keys (ss_actors (rt_shards rt i))"
  shows "count_ok (evictIdle i now rt)"
proof -
  let ?m = "ss_actors (rt_shards rt i)"
  let ?kept = "filter (\<lambda>(id, st). \<not> evictable rt now st) ?m"
  let ?gone = "(\<lambda>f. (i, f)) ` fst ` set (filter (\<lambda>(id, st). evictable rt now st) ?m)"
  note get = get_evict [OF assms(2), of now]
  have key: "map_of ?m f = Some st \<longleftrightarrow> (f, st) \<in> set ?m" for f st using assms(2) by (simp add: unique_keys_def)
  have act: "actors (evictIdle i now rt) = actors rt - ?gone"
  proof (rule set_eqI)
    fix x :: "nat \<times> int"
    obtain j f where x: "x = (j, f)" by (cases x)
    have "(j, f) \<in> ?gone \<longleftrightarrow> j = i \<and> (\<exists>st. get_actor rt i f = Some st \<and> evictable rt now st)"
      by (auto simp: get_actor_def key image_iff)
    then show "x \<in> actors (evictIdle i now rt) \<longleftrightarrow> x \<in> actors rt - ?gone"
      unfolding x actors_def by (auto simp: get split: option.splits if_splits)
  qed
  have sub: "?gone \<subseteq> actors rt" by (auto simp: actors_def get_actor_def key)
  have "distinct (map fst (filter (\<lambda>(id, st). evictable rt now st) ?m))"
    using assms(2) unfolding unique_keys_def by (rule distinct_map_filter)
  then have "card (fst ` set (filter (\<lambda>(id, st). evictable rt now st) ?m)) = length (filter (\<lambda>(id, st). evictable rt now st) ?m)"
    using distinct_card by (metis length_map set_map)
  then have card: "card ?gone = length (filter (\<lambda>(id, st). evictable rt now st) ?m)"
    by (subst card_image) (auto simp: inj_on_def)
  have len: "length ?m = length (filter (\<lambda>(id, st). evictable rt now st) ?m) + length ?kept"
    using sum_length_filter_compl [of "\<lambda>(id, st). evictable rt now st" ?m] by (simp add: case_prod_unfold)
  have fin: "finite (actors rt)" using assms(1) by (simp add: count_ok_def)
  have "card (actors rt - ?gone) = card (actors rt) - card ?gone" "card ?gone \<le> card (actors rt)"
    using sub fin by (simp_all add: card_Diff_subset finite_subset card_mono)
  then have "int (card (actors rt - ?gone)) = int (card (actors rt)) - int (length ?m - length ?kept)"
    using card len by simp
  moreover have "rt_activeActors (evictIdle i now rt) = rt_activeActors rt - (int (length ?m) - int (length ?kept))"
    by (simp add: evictIdle_def Let_def)
  ultimately show ?thesis using assms(1) len unfolding count_ok_def act by auto
qed

lemma count_pop:
  "count_ok rt \<Longrightarrow> count_ok (pop_inbox i rt)" "count_ok rt \<Longrightarrow> count_ok (pop_completed i rt)"
  "count_ok rt \<Longrightarrow> count_ok (push_inbox i t rt)" "count_ok rt \<Longrightarrow> count_ok (push_completed i c rt)"
  "count_ok rt \<Longrightarrow> count_ok (set_worker k x rt)" "count_ok rt \<Longrightarrow> count_ok (rt\<lparr>rt_next := n\<rparr>)"
  by (erule count_same; simp add: pop_inbox_def pop_completed_def push_inbox_def push_completed_def set_worker_def
      get_actor_same [unfolded pop_inbox_def pop_completed_def push_inbox_def push_completed_def set_worker_def])+

lemma named_pop: "named_ok rt \<Longrightarrow> named_ok (pop_inbox i rt)" "named_ok rt \<Longrightarrow> named_ok (pop_completed i rt)"
  by (simp_all add: named_ok_def)

lemma count_step:
  assumes "actor_step x es y" "count_ok (fst x)" "named_ok (fst x)" "\<And>i. unique_keys (ss_actors (rt_shards (fst x) i))"
  shows "count_ok (fst y)"
  using assms(1)
proof (cases rule: actor_step.cases)
  case (accept rt i t rest w now)
  then show ?thesis using count_accept [OF count_pop(1) named_pop(1)] assms(2,3) by simp
next
  case (complete rt i c rest w now)
  then show ?thesis using count_complete [OF count_pop(2) named_pop(2)] assms(2,3) by simp
next
  case (tick rt i w now)
  then show ?thesis using count_evict assms(2,4) by simp
next
  case (take k rt wi rest w)
  then show ?thesis using count_receive assms(2,3) by simp
qed (use assms(2) count_pop in simp_all)

lemma named_from_inv: "runtime_inv rt tr \<Longrightarrow> named_ok rt"
  unfolding named_ok_def runtime_inv_def by (metis key_okD(2))

text \<open>C18: the memory of the runtime is bounded whatever is submitted.  On every schedule the counter of active actors is
  the number of actors in the maps of the shards and stays within the configured (or default) maximum; so does the queue
  of every actor, and with it the number of commands that wait in all queues; the channels stay within their capacities.\<close>

theorem actor_bounds:
  assumes "actor_run (NewRuntimeWithConfig cfg, w0) tr (rt, w)"
  shows "finite (actors rt) \<and> int (card (actors rt)) = rt_activeActors rt
    \<and> rt_activeActors rt \<le> ac_MaxActiveActors (fill_config cfg)
    \<and> (\<forall>i f st. get_actor rt i f = Some st \<longrightarrow> int (length (as_queue st)) \<le> ac_FarmQueueCap (fill_config cfg))
    \<and> (\<Sum>(i, f)\<in>actors rt. int (length (as_queue (the (get_actor rt i f)))))
        \<le> ac_MaxActiveActors (fill_config cfg) * ac_FarmQueueCap (fill_config cfg)
    \<and> int (length (rt_ready rt)) \<le> ac_ReadyCap (fill_config cfg)
    \<and> (\<forall>i. int (length (ss_inbox (rt_shards rt i))) \<le> ac_IngressCap (fill_config cfg)
         \<and> int (length (ss_completed (rt_shards rt i))) \<le> ac_Workers (fill_config cfg))"
proof -
  have "bounds_ok (fst y) \<and> count_ok (fst y) \<and> rt_cfg (fst y) = rt_cfg (fst x) \<and> runtime_inv (fst y) tr"
    if "actor_run x tr y" "bounds_ok (fst x)" "count_ok (fst x)" "0 < ac_FarmQueueCap (rt_cfg (fst x))" "runtime_inv (fst x) []" for x tr y
    using that
  proof (induction rule: actor_run.induct)
    case (run_next x tr y es z)
    then have y: "bounds_ok (fst y)" "count_ok (fst y)" "rt_cfg (fst y) = rt_cfg (fst x)" "runtime_inv (fst y) tr" by blast+
    have u: "\<And>i. unique_keys (ss_actors (rt_shards (fst y) i))" using y(4) by (simp add: runtime_inv_def)
    then have "bounds_ok (fst z)" using bounds_step [OF run_next(2) y(1)] run_next(6) y(3) by simp
    moreover have "count_ok (fst z)" using count_step [OF run_next(2) y(2) named_from_inv [OF y(4)] u] .
    ultimately show ?case using step_cfg [OF run_next(2)] step_keeps_inv [OF run_next(2) y(4)] y(3) by simp
  qed simp
  moreover have "bounds_ok (NewRuntimeWithConfig cfg)" "count_ok (NewRuntimeWithConfig cfg)" "rt_cfg (NewRuntimeWithConfig cfg) = fill_config cfg"
    using fill_positive [of cfg]
    by (simp_all add: NewRuntimeWithConfig_def bounds_ok_def count_ok_def actors_def empty_shard_def get_actor_def n_workers_def)
  ultimately have b: "bounds_ok rt" "count_ok rt" "rt_cfg rt = fill_config cfg"
    using assms init_inv [of cfg] fill_positive(4) [of cfg] by (metis fst_conv)+
  note q = bounds_queue [OF b(1), unfolded b(3)]
  have c: "finite (actors rt)" "int (card (actors rt)) = rt_activeActors rt" "rt_activeActors rt \<le> ac_MaxActiveActors (fill_config cfg)"
    using b by (simp_all add: count_ok_def bounds_ok_def)
  have "(\<Sum>(i, f)\<in>actors rt. int (length (as_queue (the (get_actor rt i f))))) \<le> of_nat (card (actors rt)) * ac_FarmQueueCap (fill_config cfg)"
    using q by (intro sum_bounded_above) (auto simp: actors_def)
  also have "\<dots> \<le> ac_MaxActiveActors (fill_config cfg) * ac_FarmQueueCap (fill_config cfg)"
    using c fill_positive(4) [of cfg] by (intro mult_right_mono) simp_all
  finally have total: "(\<Sum>(i, f)\<in>actors rt. int (length (as_queue (the (get_actor rt i f)))))
    \<le> ac_MaxActiveActors (fill_config cfg) * ac_FarmQueueCap (fill_config cfg)" .
  have "int (length (ss_completed (rt_shards rt i))) \<le> ac_Workers (fill_config cfg)" for i
    using b(1) fill_positive(5) [of cfg] unfolding bounds_ok_def n_workers_def b(3) by (simp add: le_nat_iff)
  then show ?thesis using c q total b(1) unfolding bounds_ok_def b(3) by simp
qed

section \<open>Finding: the completion hand-over can wait for itself\<close>

text \<open>
  A scheduler waits in complete for room in ready, the workers wait for room in that scheduler's
  completions: no worker ever executes anything again.
\<close>

definition stuck :: "runtime \<Rightarrow> bool" where
  "stuck rt \<longleftrightarrow> ready_full rt
     \<and> (\<forall>k<n_workers rt. case rt_workers rt k of
          WorkerDone i c \<Rightarrow> length (ss_completed (rt_shards rt i)) \<ge> n_workers rt \<and> ss_blocked (rt_shards rt i) \<noteq> None
        | _ \<Rightarrow> False)"

lemma stuck_worker:
  assumes "stuck rt" "k < n_workers rt"
  obtains i c where "rt_workers rt k = WorkerDone i c" "length (ss_completed (rt_shards rt i)) \<ge> n_workers rt"
    "ss_blocked (rt_shards rt i) \<noteq> None"
proof -
  have "case rt_workers rt k of
      WorkerDone i c \<Rightarrow> length (ss_completed (rt_shards rt i)) \<ge> n_workers rt \<and> ss_blocked (rt_shards rt i) \<noteq> None
    | _ \<Rightarrow> False"
    using assms by (simp add: stuck_def)
  then show ?thesis using that by (cases "rt_workers rt k") auto
qed

lemma stuck_keep:
  assumes "stuck rt" "rt_cfg rt' = rt_cfg rt" "rt_ready rt' = rt_ready rt" "rt_workers rt' = rt_workers rt"
    "\<And>j. ss_blocked (rt_shards rt j) \<noteq> None \<Longrightarrow> ss_completed (rt_shards rt' j) = ss_completed (rt_shards rt j)
        \<and> ss_blocked (rt_shards rt' j) \<noteq> None"
  shows "stuck rt'"
proof -
  have n: "n_workers rt' = n_workers rt" using assms(2) by (rule n_workers_cong)
  have "ready_full rt'" using assms(1-3) by (simp add: stuck_def ready_full_def)
  moreover have "case rt_workers rt' k of
      WorkerDone i c \<Rightarrow> length (ss_completed (rt_shards rt' i)) \<ge> n_workers rt' \<and> ss_blocked (rt_shards rt' i) \<noteq> None
    | _ \<Rightarrow> False" if k: "k < n_workers rt'" for k
  proof -
    from k have "k < n_workers rt" by (simp add: n)
    from stuck_worker [OF assms(1) this] obtain i c where "rt_workers rt k = WorkerDone i c"
      "length (ss_completed (rt_shards rt i)) \<ge> n_workers rt" "ss_blocked (rt_shards rt i) \<noteq> None" by metis
    then show ?thesis using assms(4) assms(5) [of i] n by simp
  qed
  ultimately show ?thesis by (simp add: stuck_def)
qed

lemma accept_full:
  assumes "ready_full rt"
  shows "rt_cfg (accept i t now rt) = rt_cfg rt \<and> rt_ready (accept i t now rt) = rt_ready rt
    \<and> rt_workers (accept i t now rt) = rt_workers rt
    \<and> (\<forall>j. ss_completed (rt_shards (accept i t now rt) j) = ss_completed (rt_shards rt j)
         \<and> ss_blocked (rt_shards (accept i t now rt) j) = ss_blocked (rt_shards rt j))"
proof -
  have "ready_full (set_actor i st rt')" if "rt_cfg rt' = rt_cfg rt" "rt_ready rt' = rt_ready rt" for st rt'
    using assms that ready_full_cong [of "set_actor i st rt'" rt] by simp
  then show ?thesis
    using assms by (auto simp: accept_unfold split: option.split)
qed

lemma complete_full:
  assumes "ready_full rt"
  shows "rt_cfg (complete i c now rt) = rt_cfg rt \<and> rt_ready (complete i c now rt) = rt_ready rt
    \<and> rt_workers (complete i c now rt) = rt_workers rt
    \<and> (\<forall>j. ss_completed (rt_shards (complete i c now rt) j) = ss_completed (rt_shards rt j)
         \<and> (j \<noteq> i \<longrightarrow> ss_blocked (rt_shards (complete i c now rt) j) = ss_blocked (rt_shards rt j)))"
proof -
  have "ready_full ((deliver t out (set_actor i st rt))\<lparr>rt_queued := q\<rparr>)" for t out st q
    using assms by (simp add: ready_full_def)
  then show ?thesis
    by (auto simp: complete_def Let_def split: option.split list.split)
qed

lemma stuck_step:
  assumes "actor_step x es y" "stuck (fst x)"
  shows "stuck (fst y) \<and> es \<noteq> [Executed f n]"
  using assms(1)
proof (cases rule: actor_step.cases)
  case (submit i rt cmd w)
  then show ?thesis using assms(2) stuck_keep [of rt "fst y"] by simp
next
  case (accept rt i t rest w now)
  have full: "ready_full (pop_inbox i rt)" using assms(2) accept by (simp add: stuck_def ready_full_def)
  then show ?thesis using assms(2) accept accept_full [OF full, of i t now] stuck_keep [of rt "fst y"] by simp
next
  case (complete rt i c rest w now)
  have full: "ready_full (pop_completed i rt)" using assms(2) complete by (simp add: stuck_def ready_full_def)
  have "stuck (complete i c now (pop_completed i rt))"
  proof (rule stuck_keep [of rt])
    show "ss_completed (rt_shards (complete i c now (pop_completed i rt)) j) = ss_completed (rt_shards rt j)
        \<and> ss_blocked (rt_shards (complete i c now (pop_completed i rt)) j) \<noteq> None"
      if "ss_blocked (rt_shards rt j) \<noteq> None" for j
    proof -
      have "j \<noteq> i" using that complete by auto
      then show ?thesis using complete_full [OF full, of i c now] that by (simp add: pop_completed_def)
    qed
  qed (use assms(2) complete complete_full [OF full, of i c now] in simp_all)
  then show ?thesis using complete by simp
next
  case (tick rt i w now)
  have "stuck (evictIdle i now rt)"
  proof (rule stuck_keep [of rt])
    show "ss_completed (rt_shards (evictIdle i now rt) j) = ss_completed (rt_shards rt j)
        \<and> ss_blocked (rt_shards (evictIdle i now rt) j) \<noteq> None"
      if "ss_blocked (rt_shards rt j) \<noteq> None" for j
      using that tick by (cases "j = i") (simp_all add: evictIdle_def Let_def)
  qed (use assms(2) tick in \<open>simp_all add: evictIdle_def Let_def\<close>)
  then show ?thesis using tick by simp
next
  case (take k rt wi rest w)
  then show ?thesis using assms(2) stuck_worker [of rt k] by (metis fst_conv worker.distinct(3))
next
  case (exec k rt wi sv w c w')
  then show ?thesis using assms(2) stuck_worker [of rt k] by (metis fst_conv worker.distinct(5))
next
  case (hand_in k rt i c w)
  then show ?thesis using assms(2) stuck_worker [of rt k] by (metis fst_conv not_le worker.inject(2))
qed

end
