(* ===== verification/ActorRuntimeWedge.thy ===== *)
theory ActorRuntimeWedge
  imports ActorRuntimeClaims
begin

text \<open>
  An executable scheduler for the actor runtime: a script names the step to take, and the run it
  produces is a run of the step relation.  It gives concrete runs for the properties of the runtime, and the
  schedule that ends with schedulers and workers waiting for each other.
\<close>

section \<open>Scripts\<close>

datatype act = Send command | AcceptAt nat | CompleteAt nat | TakeBy nat | ExecBy nat | HandInBy nat

fun perform :: "'w services \<Rightarrow> act \<Rightarrow> 'w config \<Rightarrow> (actor_event list \<times> 'w config) option" where
  "perform sv (Send cmd) (rt, w) =
     (let i = shardFor rt (cmd_FarmID cmd) in
      if int (length (ss_inbox (rt_shards rt i))) < ac_IngressCap (rt_cfg rt)
      then Some ([], (push_inbox i \<lparr>tk_id = rt_next rt, tk_cmd = cmd\<rparr> rt)\<lparr>rt_next := rt_next rt + 1\<rparr>, w)
      else None)"
| "perform sv (AcceptAt i) (rt, w) =
     (case (ss_blocked (rt_shards rt i), ss_inbox (rt_shards rt i)) of
        (None, t # _) \<Rightarrow> Some (if admitted i t rt then [Accepted (cmd_FarmID (tk_cmd t)) (tk_id t)] else [],
                          accept i t 0 (pop_inbox i rt), w)
      | _ \<Rightarrow> None)"
| "perform sv (CompleteAt i) (rt, w) =
     (case (ss_blocked (rt_shards rt i), ss_completed (rt_shards rt i)) of
        (None, c # _) \<Rightarrow> Some ([], complete i c 0 (pop_completed i rt), w)
      | _ \<Rightarrow> None)"
| "perform sv (TakeBy k) (rt, w) =
     (case (rt_workers rt k, rt_ready rt) of
        (WorkerIdle, wi # rest) \<Rightarrow> if k < n_workers rt then Some ([], receive_ready k wi rest rt, w) else None
      | _ \<Rightarrow> None)"
| "perform sv (ExecBy k) (rt, w) =
     (case rt_workers rt k of
        WorkerBusy wi \<Rightarrow>
          if k < n_workers rt
          then (case execute sv wi w of
                  (c, w') \<Rightarrow> Some ([Executed (wi_farmID wi) (tk_id (wi_task wi))],
                              set_worker k (WorkerDone (wi_shard wi) c) rt, w'))
          else None
      | _ \<Rightarrow> None)"
| "perform sv (HandInBy k) (rt, w) =
     (case rt_workers rt k of
        WorkerDone i c \<Rightarrow>
          if k < n_workers rt \<and> length (ss_completed (rt_shards rt i)) < n_workers rt
          then Some ([], push_completed i c (set_worker k WorkerIdle rt), w) else None
      | _ \<Rightarrow> None)"

lemma perform_step: "perform sv a x = Some (es, y) \<Longrightarrow> actor_step x es y"
proof (induction sv a x rule: perform.induct)
  case (1 sv cmd rt w)
  then show ?case
    using actor_step.submit [of "shardFor rt (cmd_FarmID cmd)" rt cmd w] by (auto simp: Let_def split: if_splits)
next
  case (2 sv i rt w)
  then obtain t rest where t: "ss_blocked (rt_shards rt i) = None" "ss_inbox (rt_shards rt i) = t # rest"
    by (auto split: option.splits list.splits)
  then show ?case using 2 actor_step.accept [OF t, of w 0] by simp
qed (auto simp: Let_def intro: actor_step.intros split: if_splits list.splits worker.splits option.splits prod.splits)

fun play :: "'w services \<Rightarrow> act list \<Rightarrow> actor_event list \<times> 'w config \<Rightarrow> (actor_event list \<times> 'w config) option" where
  "play sv [] x = Some x"
| "play sv (a # as) (tr, c) =
     (case perform sv a c of Some (es, c') \<Rightarrow> play sv as (tr @ es, c') | None \<Rightarrow> None)"

lemma play_run: "play sv as (tr, c) = Some (tr', c') \<Longrightarrow> actor_run x tr c \<Longrightarrow> actor_run x tr' c'"
proof (induction as arbitrary: tr c)
  case (Cons a as)
  from Cons.prems(1) obtain es d where d: "perform sv a c = Some (es, d)" "play sv as (tr @ es, d) = Some (tr', c')"
    by (auto split: option.splits)
  show ?case by (rule Cons.IH [OF d(2) run_next [OF Cons.prems(2) perform_step [OF d(1)]]])
qed simp

section \<open>The schedule\<close>

text \<open>One worker, room for one ready item, two shards; farms 1, 3 and 5 are on shard 0 and farm 2 is on shard 1.\<close>

definition small_config :: actor_config where
  "small_config = DefaultConfig\<lparr>ac_SchedulerShards := 2, ac_Workers := 1, ac_ReadyCap := 1, ac_IngressCap := 2\<rparr>"

definition toy_services :: "unit services" where
  "toy_services = \<lparr>sv_commit = Some (\<lambda>cmd w. (Inl (New FarmVersionConflict), w)), sv_load = None, sv_fence = None\<rparr>"

definition farm_command :: "int \<Rightarrow> command" where
  "farm_command f = demo_command\<lparr>cmd_FarmID := f\<rparr>"

definition wedge_script :: "act list" where
  "wedge_script =
     [Send (farm_command 2), AcceptAt 1, TakeBy 0, Send (farm_command 2), AcceptAt 1,
      Send (farm_command 1), AcceptAt 0, ExecBy 0, HandInBy 0, TakeBy 0, Send (farm_command 1), AcceptAt 0,
      Send (farm_command 3), AcceptAt 0, ExecBy 0, HandInBy 0, TakeBy 0, Send (farm_command 5), AcceptAt 0,
      CompleteAt 1, CompleteAt 0, ExecBy 0, HandInBy 0, TakeBy 0, ExecBy 0]"

definition start_config :: "actor_event list \<times> unit config" where
  "start_config = ([], NewRuntimeWithConfig small_config, ())"

definition stuck_now :: "runtime \<Rightarrow> bool" where
  "stuck_now rt \<longleftrightarrow> ready_full rt \<and> list_all (\<lambda>k. case rt_workers rt k of
       WorkerDone i c \<Rightarrow> length (ss_completed (rt_shards rt i)) \<ge> n_workers rt \<and> ss_blocked (rt_shards rt i) \<noteq> None
     | _ \<Rightarrow> False) [0..<n_workers rt]"

lemma stuck_code: "stuck rt = stuck_now rt"
  by (auto simp: stuck_def stuck_now_def list_all_iff)

lemma small_bytes: "le_bytes 1 = [1, 0, 0, 0, 0, 0, 0, 0]" "le_bytes 2 = [2, 0, 0, 0, 0, 0, 0, 0]"
  "le_bytes 3 = [3, 0, 0, 0, 0, 0, 0, 0]" "le_bytes 5 = [5, 0, 0, 0, 0, 0, 0, 0]"
  by (simp_all add: le_bytes_def upt_conv_Cons)

lemma fnv_small: "unat (fnv32a (le_bytes 1)) mod 2 = 0" "unat (fnv32a (le_bytes 2)) mod 2 = 1"
  "unat (fnv32a (le_bytes 3)) mod 2 = 0" "unat (fnv32a (le_bytes 5)) mod 2 = 0"
  by (simp_all add: fnv32a_def small_bytes)

lemma shard_small:
  "ac_SchedulerShards (rt_cfg rt) = 2 \<Longrightarrow> shardFor rt 1 = 0"
  "ac_SchedulerShards (rt_cfg rt) = 2 \<Longrightarrow> shardFor rt 2 = 1"
  "ac_SchedulerShards (rt_cfg rt) = 2 \<Longrightarrow> shardFor rt 3 = 0"
  "ac_SchedulerShards (rt_cfg rt) = 2 \<Longrightarrow> shardFor rt 5 = 0"
  using fnv_small by (simp_all add: shardFor_def)

lemmas script_eval = fill_config_def pos_or_def DefaultConfig_def small_config_def NewRuntimeWithConfig_def empty_shard_def
  push_inbox_def pop_inbox_def pop_completed_def push_completed_def set_shard_def set_worker_def n_workers_def
  accept_def accept_existing_def tryActorAdd_def tryDispatch_def new_actor_def set_actor_def get_actor_def work_of_def ready_full_def
  complete_def hand_over_def block_scheduler_def receive_ready_def deliver_def admitted_def
  execute_def coldLoad_def commit_step_def completion_of_def toy_services_def farm_command_def demo_command_def
  backpressure_def Let_def

lemma wedge_eval:
  "case play toy_services wedge_script start_config of
     Some (tr, rt, w) \<Rightarrow> stuck_now rt \<and> rt_results rt 5 = None \<and> ss_inbox (rt_shards rt 0) = []
       \<and> rt_cfg rt = fill_config small_config
       \<and> tr = [Accepted 2 0, Accepted 2 2, Accepted 1 3, Executed 2 0, Accepted 1 5, Accepted 3 6, Executed 1 3, Accepted 5 8, Executed 3 6, Executed 5 8]
   | None \<Rightarrow> False"
  by (simp add: wedge_script_def start_config_def script_eval shard_small stuck_now_def)

lemma wedge_reached:
  obtains tr rt where "actor_run (snd start_config) tr (rt, ())" "stuck rt" "rt_results rt 5 = None"
    "ss_inbox (rt_shards rt 0) = []" "rt_cfg rt = fill_config small_config"
    "tr = [Accepted 2 0, Accepted 2 2, Accepted 1 3, Executed 2 0, Accepted 1 5, Accepted 3 6, Executed 1 3,
       Accepted 5 8, Executed 3 6, Executed 5 8]"
proof -
  obtain tr rt where p: "play toy_services wedge_script start_config = Some (tr, rt, ())"
    "stuck_now rt" "rt_results rt 5 = None" "ss_inbox (rt_shards rt 0) = []" "rt_cfg rt = fill_config small_config"
    "tr = [Accepted 2 0, Accepted 2 2, Accepted 1 3, Executed 2 0, Accepted 1 5, Accepted 3 6, Executed 1 3,
       Accepted 5 8, Executed 3 6, Executed 5 8]"
    using wedge_eval by (auto split: option.splits)
  have "actor_run (snd start_config) tr (rt, ())"
    using p(1) play_run [of toy_services wedge_script "[]" "snd start_config" tr "(rt, ())" "snd start_config"]
    by (simp add: start_config_def actor_run.run_start)
  then show ?thesis using that p(2-6) by (simp add: stuck_code)
qed

text \<open>C19: a reachable state (the witness gives the schedule) in which the schedulers wait for room in ready and
  the workers for room in the completions of those schedulers stays so for ever: nothing that is submitted is executed
  again, although complete promises that its hand-over cannot wait.\<close>

theorem wedged_runtime_executes_nothing:
  assumes "stuck rt" "actor_run (rt, w) tr y"
  shows "stuck (fst y) \<and> (\<forall>f n. Executed f n \<notin> set tr)"
proof -
  have "stuck (fst y) \<and> (\<forall>f n. Executed f n \<notin> set tr)" if "actor_run x tr y" "stuck (fst x)" for x
    using that
  proof (induction rule: actor_run.induct)
    case (run_next x tr y es z)
    then have y: "stuck (fst y)" "\<forall>f n. Executed f n \<notin> set tr" by simp_all
    have "es \<noteq> [Executed f n]" for f n using stuck_step [OF run_next(2) y(1), of f n] by simp
    moreover have "es = [] \<or> (\<exists>e. es = [e])" using run_next(2) by (cases rule: actor_step.cases) auto
    ultimately have "Executed f n \<notin> set es" for f n by fastforce
    then show ?case using y(2) stuck_step [OF run_next(2) y(1)] by simp
  qed simp
  from this [OF assms(2)] assms(1) show ?thesis by simp
qed

lemma wedged_runtime_executes_nothing_witness:
  "\<exists>tr rt y. actor_run (snd start_config) tr (rt, ()) \<and> actor_run (rt, ()) [] (y, ()) \<and> rt_results rt 5 = None \<and> Accepted 1 5 \<in> set tr
     \<and> Executed 1 5 \<notin> set tr \<and> stuck y
     \<and> ss_inbox (rt_shards y 0) = [\<lparr>tk_id = rt_next rt, tk_cmd = farm_command 1\<rparr>]"
proof -
  obtain tr rt where w: "actor_run (snd start_config) tr (rt, ())" "stuck rt" "rt_results rt 5 = None"
    "ss_inbox (rt_shards rt 0) = []" "rt_cfg rt = fill_config small_config"
    "tr = [Accepted 2 0, Accepted 2 2, Accepted 1 3, Executed 2 0, Accepted 1 5, Accepted 3 6, Executed 1 3,
       Accepted 5 8, Executed 3 6, Executed 5 8]"
    by (rule wedge_reached)
  define y where "y = (push_inbox 0 \<lparr>tk_id = rt_next rt, tk_cmd = farm_command 1\<rparr> rt)\<lparr>rt_next := rt_next rt + 1\<rparr>"
  have "shardFor rt (cmd_FarmID (farm_command 1)) = 0"
    using shard_small(1) [of rt] w(5) by (simp add: farm_command_def small_config_def fill_config_def pos_or_def)
  then have "actor_step (rt, ()) [] (y, ())"
    using actor_step.submit [of 0 rt "farm_command 1" "()"] w(4,5)
    by (simp add: y_def small_config_def fill_config_def pos_or_def)
  then have "actor_run (rt, ()) ([] @ []) (y, ())" by (rule run_next [OF run_start])
  then have run: "actor_run (rt, ()) [] (y, ())" by simp
  from wedged_runtime_executes_nothing [OF w(2) this] have "stuck y" by simp
  moreover have "ss_inbox (rt_shards y 0) = [\<lparr>tk_id = rt_next rt, tk_cmd = farm_command 1\<rparr>]"
    using w(4) by (simp add: y_def push_inbox_def)
  moreover have "Accepted 1 5 \<in> set tr" "Executed 1 5 \<notin> set tr" by (simp_all add: w(6))
  ultimately show ?thesis using w(1,3) run by blast
qed

section \<open>Witnesses for the other properties of the runtime\<close>

lemma wedge_from_new:
  "actor_run (snd start_config) tr (rt, ()) \<Longrightarrow> actor_run (NewRuntimeWithConfig small_config, ()) tr (rt, ())"
  by (simp add: start_config_def)

lemma actor_serial_fifo_witness:
  "\<exists>tr rt. actor_run (NewRuntimeWithConfig small_config, ()) tr (rt, ()) \<and> executed 1 tr = [3]
     \<and> (\<exists>rest. accepted 1 tr = executed 1 tr @ rest) \<and> distinct (accepted 1 tr)"
proof (rule wedge_reached)
  fix tr rt
  assume w: "actor_run (snd start_config) tr (rt, ())" "stuck rt" "rt_results rt 5 = None"
    "ss_inbox (rt_shards rt 0) = []" "rt_cfg rt = fill_config small_config"
    "tr = [Accepted 2 0, Accepted 2 2, Accepted 1 3, Executed 2 0, Accepted 1 5, Accepted 3 6, Executed 1 3,
       Accepted 5 8, Executed 3 6, Executed 5 8]"
  have "executed 1 tr = [3]" by (simp add: w(6))
  then show ?thesis
    using actor_serial_fifo [OF wedge_from_new [OF w(1)], of 1] wedge_from_new [OF w(1)] by blast
qed

lemma actor_bounds_witness:
  "\<exists>tr rt. actor_run (NewRuntimeWithConfig small_config, ()) tr (rt, ()) \<and> length (rt_ready rt) = 1
     \<and> int (length (rt_ready rt)) \<le> ac_ReadyCap (fill_config small_config)"
proof (rule wedge_reached)
  fix tr rt
  assume w: "actor_run (snd start_config) tr (rt, ())" "stuck rt" "rt_results rt 5 = None"
    "ss_inbox (rt_shards rt 0) = []" "rt_cfg rt = fill_config small_config"
    "tr = [Accepted 2 0, Accepted 2 2, Accepted 1 3, Executed 2 0, Accepted 1 5, Accepted 3 6, Executed 1 3,
       Accepted 5 8, Executed 3 6, Executed 5 8]"
  have c: "ac_ReadyCap (fill_config small_config) = 1" by (simp add: small_config_def fill_config_def pos_or_def)
  have "int (length (rt_ready rt)) \<le> ac_ReadyCap (fill_config small_config)"
    using actor_bounds [OF wedge_from_new [OF w(1)]] by simp
  moreover have "int (length (rt_ready rt)) \<ge> 1" using w(2,5) c by (simp add: stuck_def ready_full_def)
  ultimately show ?thesis using wedge_from_new [OF w(1)] c by fastforce
qed

section \<open>Shutdown\<close>

definition held_tasks :: "shard_state \<Rightarrow> actor_task list" where
  "held_tasks s = concat (map (actor_tasks \<circ> snd) (ss_actors s)) @ ss_inbox s"

lemma deliver_all_results:
  "rt_results (deliver_all ts out rt) n =
     (if n \<in> tk_id ` set ts \<and> rt_results rt n = None then Some out else rt_results rt n)"
  by (induction ts arbitrary: rt) (auto simp: deliver_all_def deliver_def)

text \<open>When the runtime is cancelled a shard answers every task it holds, running, queued or not yet
  accepted, exactly once: a task that has no answer yet gets the error of the context, an answer
  already delivered stays, and no other task is touched.\<close>

theorem shutdown_answers_all:
  "rt_results (failAll i e rt) n =
     (if n \<in> tk_id ` set (held_tasks (rt_shards rt i)) \<and> rt_results rt n = None then Some (Inl e) else rt_results rt n)
   \<and> ss_inbox (rt_shards (failAll i e rt) i) = []"
  by (auto simp: failAll_def Let_def deliver_all_results held_tasks_def set_shard_def)

end
