(* ===== verification/Sharding.thy ===== *)
theory Sharding
  imports Strconv ErrCode "HOL-Library.Word" "HOL-Library.List_Lexorder" "HOL-Library.Char_ord" "HOL-Library.Multiset"
begin

unbundle bit_operations_syntax

text \<open>
  pkg/shard and pkg/id: the router from a player to its shard, the generator of global user ids, which
  carry their shard in the low bits, the pools of the shards, and the normal form of UUIDv7
  identifiers.  Go strings are compared as bytes, which is the order of the library on lists of characters.
\<close>

section \<open>The router\<close>

definition shardBits :: nat where "shardBits = 6"
definition nodeBits :: nat where "nodeBits = 8"
definition sequenceBits :: nat where "sequenceBits = 8"
definition maxShardID :: nat where "maxShardID = 2 ^ shardBits - 1"

text \<open>The loop over the names: each is trimmed, must not be empty and must be new.\<close>

fun normalize_names :: "string list \<Rightarrow> string list \<Rightarrow> go_error + string list" where
  "normalize_names seen [] = Inr []"
| "normalize_names seen (raw # raws) =
     (let name = trim_space raw in
      if name = [] then Inl (PlainErr ''shard name must not be empty'')
      else if name \<in> set seen then Inl (PlainErr ''duplicate shard'')
      else (case normalize_names (name # seen) raws of
              Inl e \<Rightarrow> Inl e
            | Inr names \<Rightarrow> Inr (name # names)))"

definition power_of_two :: "nat \<Rightarrow> bool" where
  "power_of_two n \<longleftrightarrow> (of_nat n AND (of_nat n - 1) :: 64 word) = 0"

type_synonym router = "string list"

definition NewRouter :: "string list \<Rightarrow> go_error + router" where
  "NewRouter shards =
     (if length shards < 1 then Inl (PlainErr ''at least one shard is required'')
      else if length shards > maxShardID + 1 \<or> \<not> power_of_two (length shards)
      then Inl (PlainErr ''shard count is unsupported'')
      else (case normalize_names [] shards of
              Inl e \<Rightarrow> Inl e
            | Inr normalized \<Rightarrow> Inr (sort normalized)))"

definition ShardForUserID :: "router \<Rightarrow> int \<Rightarrow> go_error + string" where
  "ShardForUserID r userID =
     (if r = [] then Inl (PlainErr ''router is not configured'')
      else if userID \<le> 0 then Inl (PlainErr ''user_id must be positive'')
      else Inr (r ! unat ((of_int userID :: 64 word) mod of_nat (length r))))"

definition fnv64a :: "char list \<Rightarrow> 64 word" where
  "fnv64a bs = foldl (\<lambda>h b. (h XOR of_char b) * 1099511628211) 14695981039346656037 bs"

definition ShardForKey :: "router \<Rightarrow> string \<Rightarrow> go_error + string" where
  "ShardForKey r key =
     (if r = [] then Inl (PlainErr ''router is not configured'')
      else if key = [] then Inl (PlainErr ''route key must not be empty'')
      else Inr (r ! unat (fnv64a key mod of_nat (length r))))"

section \<open>The pools of the shards\<close>

text \<open>The databases are named by what a pool map gives for a shard name; None is a nil pool.\<close>

definition NewDBProvider :: "router \<Rightarrow> (string \<times> 'db) list \<Rightarrow> go_error + (router \<times> (string \<times> 'db) list)" where
  "NewDBProvider r pools =
     (if list_ex (\<lambda>name. map_of pools name = None) r then Inl (PlainErr ''missing database pool'')
      else if length r \<noteq> length pools then Inl (PlainErr ''database pools contain an unknown shard'')
      else Inr (r, map (\<lambda>name. (name, the (map_of pools name))) r))"

definition DBForUserID :: "router \<times> (string \<times> 'db) list \<Rightarrow> int \<Rightarrow> go_error + (string \<times> 'db)" where
  "DBForUserID p userID =
     (case ShardForUserID (fst p) userID of
        Inl e \<Rightarrow> Inl e
      | Inr name \<Rightarrow> Inr (name, the (map_of (snd p) name)))"

section \<open>Global ids\<close>

record id_generator =
  ig_epochMS :: int
  ig_shard :: "8 word"
  ig_node :: "8 word"
  ig_lastMS :: int
  ig_sequence :: "8 word"

definition NewIDGenerator :: "int \<Rightarrow> 8 word \<Rightarrow> 8 word \<Rightarrow> go_error + id_generator" where
  "NewIDGenerator epochMS shardID nodeID =
     (if unat shardID > maxShardID then Inl (PlainErr ''shard ID exceeds maximum'')
      else Inr \<lparr>ig_epochMS = epochMS, ig_shard = shardID, ig_node = nodeID, ig_lastMS = 0, ig_sequence = 0\<rparr>)"

definition ErrSequenceExhausted :: go_error where
  "ErrSequenceExhausted = PlainErr ''global ID sequence exhausted for millisecond''"

definition pack_id :: "int \<Rightarrow> 8 word \<Rightarrow> 8 word \<Rightarrow> 8 word \<Rightarrow> 64 word" where
  "pack_id ms node seq shard =
     push_bit shardBits (push_bit sequenceBits (push_bit nodeBits (of_int ms) OR ucast node) OR ucast seq) OR ucast shard"

text \<open>Next with the clock at \<^verbatim>\<open>nowMS\<close> (Unix milliseconds).\<close>

definition Next :: "int \<Rightarrow> id_generator \<Rightarrow> (go_error + int) \<times> id_generator" where
  "Next nowMS g =
     (let ms = nowMS - ig_epochMS g in
      if ms < 0 then (Inl (PlainErr ''clock precedes configured ID epoch''), g)
      else if ms = ig_lastMS g \<and> ig_sequence g = NOT 0 then (Inl ErrSequenceExhausted, g)
      else
        (let g' = (if ms = ig_lastMS g then g\<lparr>ig_sequence := ig_sequence g + 1\<rparr>
                   else g\<lparr>ig_lastMS := ms, ig_sequence := 0\<rparr>);
             value = pack_id ms (ig_node g') (ig_sequence g') (ig_shard g') in
         if value > drop_bit 1 (NOT 0) then (Inl (PlainErr ''generated ID exceeds signed int64 range''), g')
         else (Inr (uint value), g')))"

definition ShardIDFromGlobalID :: "int \<Rightarrow> go_error + 8 word" where
  "ShardIDFromGlobalID gid =
     (if gid \<le> 0 then Inl (PlainErr ''global ID must be positive'')
      else Inr (ucast ((of_int gid :: 64 word) AND of_nat maxShardID)))"

section \<open>UUIDv7\<close>

definition to_lower :: "string \<Rightarrow> string" where
  "to_lower s = map (\<lambda>c. let n = (of_char c :: nat) in if 65 \<le> n \<and> n \<le> 90 then char_of (n + 32) else c) s"

definition hex_digit :: "char \<Rightarrow> bool" where
  "hex_digit c \<longleftrightarrow> (let n = (of_char c :: nat) in (48 \<le> n \<and> n \<le> 57) \<or> (97 \<le> n \<and> n \<le> 102) \<or> (65 \<le> n \<and> n \<le> 70))"

definition NormalizeV7 :: "string \<Rightarrow> string option" where
  "NormalizeV7 value =
     (let compact = to_lower (trim_space value) in
      if length compact = 36 \<and> \<not> list_all (\<lambda>i. compact ! i = CHR ''-'') [8, 13, 18, 23] then None
      else
        (let compact = (if length compact = 36 then filter (\<lambda>c. c \<noteq> CHR ''-'') compact else compact) in
         if length compact \<noteq> 32 \<or> compact ! 12 \<noteq> CHR ''7'' \<or> compact ! 16 \<notin> set ''89ab'' then None
         else if \<not> list_all hex_digit compact then None
         else Some compact))"

text \<open>NewV7: the milliseconds of the clock in the first six bytes, ten random bytes, the version and the
  variant bits, in hexadecimal.\<close>

definition hex_char :: "nat \<Rightarrow> char" where
  "hex_char d = (if d < 10 then char_of (48 + d) else char_of (87 + d))"

definition hex_encode :: "8 word list \<Rightarrow> string" where
  "hex_encode bs = concat (map (\<lambda>b. [hex_char (unat b div 16), hex_char (unat b mod 16)]) bs)"

definition NewV7 :: "int \<Rightarrow> 8 word list \<Rightarrow> string" where
  "NewV7 ms rnd =
     (let time = map (\<lambda>k. ucast (drop_bit (8 * k) (of_int ms :: 64 word))) [5, 4, 3, 2, 1, 0];
          tail = rnd[0 := (rnd ! 0 AND 0x0f) OR 0x70, 2 := (rnd ! 2 AND 0x3f) OR 0x80] in
      hex_encode (time @ tail))"

section \<open>Facts\<close>

lemma pack_step:
  fixes a b :: "64 word"
  assumes "unat a < 2 ^ (64 - k)" "unat b < 2 ^ k" "k \<le> 64"
  shows "unat (push_bit k a OR b) = unat a * 2 ^ k + unat b"
proof -
  have b: "\<not> bit b n" if "k \<le> n" for n
  proof -
    have "take_bit k (unat b) = unat b" using assms(2) by (simp add: take_bit_nat_eq_self)
    then have "\<not> bit (unat b) n" using that by (metis bit_take_bit_iff not_le)
    then show ?thesis by (simp add: bit_unsigned_iff)
  qed
  have "push_bit k a AND b = 0" by (rule bit_word_eqI) (auto simp: bit_simps dest: b)
  then have "push_bit k a OR b = push_bit k a + b" by (simp add: disjunctive_add_eq_or)
  moreover have p: "unat (push_bit k a) = unat a * 2 ^ k"
  proof -
    have "unat a * 2 ^ k < 2 ^ (64 - k) * 2 ^ k" using assms(1) by simp
    also have "\<dots> = 2 ^ 64" using assms(3) by (simp flip: power_add)
    finally have "take_bit 64 (unat a * 2 ^ k) = unat a * 2 ^ k" by (rule take_bit_nat_eq_self)
    then show ?thesis unfolding unsigned_push_bit_eq by (simp add: push_bit_eq_mult)
  qed
  moreover have "unat a * 2 ^ k + unat b < 2 ^ 64"
  proof -
    have "unat a * 2 ^ k + unat b < Suc (unat a) * 2 ^ k" using assms(2) by simp
    also have "\<dots> \<le> 2 ^ (64 - k) * 2 ^ k" using assms(1) by (intro mult_le_mono1) (simp only: Suc_le_eq)
    also have "\<dots> = 2 ^ 64" using assms(3) by (simp flip: power_add)
    finally show ?thesis .
  qed
  ultimately show ?thesis by (simp add: unat_word_ariths)
qed

lemma unat8: "unat (x :: 8 word) < 2 ^ 8"
  using unsigned_less [of x] by simp

lemma unat_ucast8: "unat (ucast (x :: 8 word) :: 64 word) = unat x"
proof -
  have "unat x < 2 ^ 64" using unat8 [of x] by simp
  then have "take_bit 64 (unat x) = unat x" by (rule take_bit_nat_eq_self)
  then show ?thesis by (simp add: unsigned_ucast_eq)
qed

lemma pack_value:
  assumes "0 \<le> ms" "ms < 2 ^ 41" "unat shard \<le> maxShardID"
  shows "unat (pack_id ms node seq shard) = ((nat ms * 2 ^ 8 + unat node) * 2 ^ 8 + unat seq) * 2 ^ 6 + unat shard"
proof -
  define w :: "64 word" where "w = of_int ms"
  have "take_bit 64 ms = ms" using assms(1,2) by (intro take_bit_int_eq_self) simp_all
  then have "uint w = ms" by (simp add: w_def uint_word_of_int_eq)
  then have m: "unat w = nat ms" by (simp flip: nat_uint_eq)
  have m': "nat ms < 2 ^ 41" using assms(1,2) by (simp add: nat_less_iff)
  define w1 where "w1 = push_bit 8 w OR ucast node"
  define w2 where "w2 = push_bit 8 w1 OR ucast seq"
  have w1: "unat w1 = nat ms * 2 ^ 8 + unat node"
    unfolding w1_def using pack_step [of w 8 "ucast node"] m m' unat8 [of node] by (simp add: unat_ucast8)
  have w1': "unat w1 < 2 ^ 49" using w1 m' unat8 [of node] by simp
  have w2: "unat w2 = unat w1 * 2 ^ 8 + unat seq"
    unfolding w2_def using pack_step [of w1 8 "ucast seq"] w1' unat8 [of seq] by (simp add: unat_ucast8)
  have w2': "unat w2 < 2 ^ 57" using w2 w1' unat8 [of seq] by simp
  have "unat (push_bit 6 w2 OR ucast shard) = unat w2 * 2 ^ 6 + unat shard"
    using pack_step [of w2 6 "ucast shard"] w2' assms(3) by (simp add: unat_ucast8 maxShardID_def shardBits_def)
  then show ?thesis
    unfolding pack_id_def shardBits_def sequenceBits_def nodeBits_def w1_def [symmetric, unfolded w_def]
      w2_def [symmetric, unfolded w1_def w_def] using w1 w2 by (simp add: w1_def w2_def w_def)
qed

section \<open>Routing\<close>

lemma normalize_names_Inr:
  "normalize_names seen raws = Inr names \<longleftrightarrow>
     names = map trim_space raws \<and> distinct names \<and> [] \<notin> set names \<and> set names \<inter> set seen = {}"
proof (induction raws arbitrary: seen names)
  case (Cons raw raws)
  have "normalize_names (trim_space raw # seen) raws \<noteq> Inl e"
    if "distinct (map trim_space raws) \<and> [] \<notin> trim_space ` set raws \<and> trim_space ` set raws \<inter> set (trim_space raw # seen) = {}" for e
    using that Cons.IH [of "trim_space raw # seen" "map trim_space raws"] by simp
  then show ?case
    by (cases names) (auto simp: Let_def Cons.IH split: sum.split)
qed auto

lemma NewRouter_Inr:
  "NewRouter names = Inr r \<longleftrightarrow>
     1 \<le> length names \<and> length names \<le> 64 \<and> power_of_two (length names)
     \<and> distinct (map trim_space names) \<and> [] \<notin> trim_space ` set names \<and> r = sort (map trim_space names)"
proof (cases "normalize_names [] names")
  case (Inl e)
  then have "\<not> (distinct (map trim_space names) \<and> [] \<notin> trim_space ` set names)"
    using normalize_names_Inr [of "[]" names "map trim_space names"] by auto
  with Inl show ?thesis by (auto simp: NewRouter_def maxShardID_def shardBits_def)
next
  case (Inr ns)
  then show ?thesis
    using normalize_names_Inr [of "[]" names ns]
    by (auto simp: NewRouter_def maxShardID_def shardBits_def not_less Suc_le_eq)
qed

lemma power_of_two_cases: "1 \<le> n \<Longrightarrow> n \<le> 64 \<Longrightarrow> power_of_two n \<Longrightarrow> n \<in> {1, 2, 4, 8, 16, 32, 64}"
proof -
  have *: "list_all (\<lambda>n. power_of_two n \<longrightarrow> n \<in> {1, 2, 4, 8, 16, 32, 64}) [1..<65]"
    by code_simp
  assume "1 \<le> n" "n \<le> 64" "power_of_two n"
  with * show ?thesis by (auto simp: list_all_iff)
qed

lemma router_length_dvd: "NewRouter names = Inr r \<Longrightarrow> length r dvd 64 \<and> 0 < length r"
  using power_of_two_cases [of "length names"] by (auto simp: NewRouter_Inr)

lemma ShardForUserID_pos:
  assumes "r \<noteq> []" "0 < u" "u < 2 ^ 63" "length r \<le> 64"
  shows "ShardForUserID r u = Inr (r ! (nat u mod length r))"
proof -
  have "uint (of_int u :: 64 word) = u"
    using assms(2,3) by (simp add: uint_word_of_int_eq take_bit_int_eq_self)
  then have "unat (of_int u :: 64 word) = nat u" by (simp flip: nat_uint_eq)
  moreover have "unat (of_nat (length r) :: 64 word) = length r"
    using assms(4) by (simp add: unat_of_nat)
  ultimately show ?thesis using assms(1,2) by (simp add: ShardForUserID_def unat_mod_distrib)
qed

text \<open>The order in which the shards are configured does not matter: the same names in any order give
  the same router, so every process routes a player to the same shard.\<close>

theorem router_order_irrelevant:
  assumes "mset names' = mset names"
  shows "NewRouter names = Inr r \<longleftrightarrow> NewRouter names' = Inr r"
proof -
  have l: "length names' = length names" using assms by (rule mset_eq_length)
  have m: "mset (map trim_space names') = mset (map trim_space names)" using assms by simp
  have "distinct (map trim_space names') = distinct (map trim_space names)"
    using m by (rule mset_eq_imp_distinct_iff)
  moreover have "sort (map trim_space names') = sort (map trim_space names)"
    using m by (metis sorted_list_of_multiset_mset)
  moreover have "set names' = set names" using assms by (rule mset_eq_setD)
  ultimately show ?thesis by (simp add: NewRouter_Inr l)
qed

lemma router_order_irrelevant_witness:
  "NewRouter [''b'', ''a''] = Inr [''a'', ''b''] \<and> NewRouter [''a'', ''b''] = Inr [''a'', ''b'']"
proof -
  have "NewRouter [''a'', ''b''] = Inr [''a'', ''b'']" by code_simp
  then show ?thesis using router_order_irrelevant [of "[''b'', ''a'']" "[''a'', ''b'']"] by simp
qed

section \<open>Global ids\<close>

text \<open>The ids that a sequence of clock readings yields.\<close>

fun ids :: "int list \<Rightarrow> id_generator \<Rightarrow> int list" where
  "ids [] g = []"
| "ids (t # ts) g =
     (case Next t g of (Inr gid, g') \<Rightarrow> gid # ids ts g' | (Inl _, g') \<Rightarrow> ids ts g')"

definition in_range :: "int \<Rightarrow> id_generator \<Rightarrow> bool" where
  "in_range t g \<longleftrightarrow> t - ig_epochMS g < 2 ^ 41"

definition id_value :: "id_generator \<Rightarrow> int" where
  "id_value g = ((ig_lastMS g * 2 ^ 8 + uint (ig_node g)) * 2 ^ 8 + uint (ig_sequence g)) * 2 ^ 6 + uint (ig_shard g)"

lemma pack_value_int:
  assumes "0 \<le> ms" "ms < 2 ^ 41" "unat shard \<le> maxShardID"
  shows "uint (pack_id ms node seq shard) = ((ms * 2 ^ 8 + uint node) * 2 ^ 8 + uint seq) * 2 ^ 6 + uint shard"
proof -
  have "uint (pack_id ms node seq shard) = int (unat (pack_id ms node seq shard))" by simp
  also have "\<dots> = ((int (nat ms) * 2 ^ 8 + int (unat node)) * 2 ^ 8 + int (unat seq)) * 2 ^ 6 + int (unat shard)"
    unfolding pack_value [OF assms] by simp
  finally show ?thesis using assms(1) by simp
qed

lemma pack_bound:
  "ms < 2 ^ 41 \<Longrightarrow> n < 2 ^ 8 \<Longrightarrow> q < 2 ^ 8 \<Longrightarrow> s < 2 ^ 6 \<Longrightarrow>
    ((ms * 2 ^ 8 + n) * 2 ^ 8 + q) * 2 ^ 6 + s \<le> (2 ^ 63 - 1 :: int)"
  by simp

lemma uint_succ:
  assumes "(x :: 8 word) \<noteq> NOT 0"
  shows "uint (x + 1) = uint x + 1"
proof -
  have "uint x \<noteq> uint (NOT 0 :: 8 word)" using assms by (simp only: word_uint_eq_iff) simp
  moreover have "uint (NOT 0 :: 8 word) = 255" by code_simp
  moreover have "uint x < 256" using uint_lt2p [of x] by simp
  ultimately show ?thesis using uint_ge_0 [of x] by (simp add: uint_word_ariths)
qed

text \<open>Next as long as the milliseconds fit: it never reports an overflow.\<close>

lemma Next_cases:
  assumes "in_range t g" "unat (ig_shard g) \<le> maxShardID"
  obtains (refused) e where "Next t g = (Inl e, g)"
  | (given) g' where "Next t g = (Inr (id_value g'), g')" "ig_epochMS g' = ig_epochMS g" "ig_shard g' = ig_shard g"
      "ig_node g' = ig_node g" "ig_lastMS g' = t - ig_epochMS g" "0 \<le> ig_lastMS g'"
      "ig_lastMS g' = ig_lastMS g \<Longrightarrow> uint (ig_sequence g') = uint (ig_sequence g) + 1"
proof -
  define ms where "ms = t - ig_epochMS g"
  define g' where "g' = (if ms = ig_lastMS g then g\<lparr>ig_sequence := ig_sequence g + 1\<rparr>
                   else g\<lparr>ig_lastMS := ms, ig_sequence := 0\<rparr>)"
  show thesis
  proof (cases "ms < 0 \<or> ms = ig_lastMS g \<and> ig_sequence g = NOT 0")
    case True
    then have "\<exists>e. Next t g = (Inl e, g)" unfolding Next_def Let_def ms_def [symmetric] by auto
    then show thesis using refused by blast
  next
    case False
    have g': "ig_epochMS g' = ig_epochMS g" "ig_shard g' = ig_shard g" "ig_node g' = ig_node g" "ig_lastMS g' = ms"
      by (simp_all add: g'_def)
    have v: "uint (pack_id ms (ig_node g') (ig_sequence g') (ig_shard g')) = id_value g'"
      using pack_value_int [of ms "ig_shard g'"] False assms g' by (simp add: id_value_def in_range_def ms_def)
    have "uint (ig_node g') < 2 ^ 8" "uint (ig_sequence g') < 2 ^ 8" using uint_lt2p [of "ig_node g'"] uint_lt2p [of "ig_sequence g'"] by simp_all
    moreover have "uint (ig_shard g') < 2 ^ 6"
    proof -
      have "unat (ig_shard g') \<le> 63" using assms(2) g'(2) by (simp add: maxShardID_def shardBits_def)
      then have "uint (ig_shard g') \<le> int 63" by (simp only: nat_le_iff flip: nat_uint_eq)
      then show ?thesis by simp
    qed
    moreover have "ms < 2 ^ 41" using assms(1) by (simp add: in_range_def ms_def)
    ultimately have "id_value g' \<le> 2 ^ 63 - 1" unfolding id_value_def g'(4) by (intro pack_bound)
    moreover have "uint (drop_bit 1 (NOT 0) :: 64 word) = 2 ^ 63 - 1" by code_simp
    ultimately have "\<not> pack_id ms (ig_node g') (ig_sequence g') (ig_shard g') > drop_bit 1 (NOT 0)"
      unfolding word_less_def v by simp
    then have n: "Next t g = (Inr (id_value g'), g')"
      using False v unfolding Next_def Let_def ms_def [symmetric] g'_def [symmetric] by simp
    have "uint (ig_sequence g + 1) = uint (ig_sequence g) + 1" if "ig_sequence g \<noteq> NOT 0"
      using that by (rule uint_succ)
    then have "ig_lastMS g' = ig_lastMS g \<Longrightarrow> uint (ig_sequence g') = uint (ig_sequence g) + 1"
      using False g'(4) by (auto simp: g'_def)
    then show thesis using given [OF n] g' False by (simp add: ms_def)
  qed
qed

lemma field_mod: "0 \<le> s \<Longrightarrow> s < 2 ^ 6 \<Longrightarrow> (y * 2 ^ 6 + s) mod 2 ^ 6 = (s :: int)"
  by simp

lemma field_div:
  assumes "0 \<le> s" "s < 2 ^ 6" "0 \<le> q" "q < 2 ^ 8"
  shows "((y * 2 ^ 8 + q) * 2 ^ 6 + s) div 2 ^ 14 = (y :: int)"
proof -
  have "((y * 2 ^ 8 + q) * 2 ^ 6 + s) div (2 ^ 6 * 2 ^ 8) = ((y * 2 ^ 8 + q) * 2 ^ 6 + s) div 2 ^ 6 div 2 ^ 8"
    by (rule zdiv_zmult2_eq) simp
  also have "\<dots> = (y * 2 ^ 8 + q) div 2 ^ 8" using assms(1,2) by simp
  finally show ?thesis using assms(3,4) by simp
qed

lemma field_node:
  assumes "0 \<le> s" "s < 2 ^ 6" "0 \<le> q" "q < 2 ^ 8" "0 \<le> n" "n < 2 ^ 8"
  shows "(((m * 2 ^ 8 + n) * 2 ^ 8 + q) * 2 ^ 6 + s) div 2 ^ 14 mod 2 ^ 8 = (n :: int)
    \<and> (((m * 2 ^ 8 + n) * 2 ^ 8 + q) * 2 ^ 6 + s) div 2 ^ 22 = m"
proof -
  let ?x = "((m * 2 ^ 8 + n) * 2 ^ 8 + q) * 2 ^ 6 + s"
  have d: "?x div 2 ^ 14 = m * 2 ^ 8 + n" by (rule field_div [OF assms(1-4)])
  have "?x div (2 ^ 14 * 2 ^ 8) = ?x div 2 ^ 14 div 2 ^ 8" by (rule zdiv_zmult2_eq) simp
  also have "\<dots> = m" unfolding d using assms(5,6) by simp
  finally show ?thesis unfolding d using assms(5,6) by simp
qed

lemma id_value_fields:
  assumes "unat (ig_shard g) \<le> maxShardID"
  shows "id_value g mod 2 ^ 6 = uint (ig_shard g)" "id_value g div 2 ^ 14 mod 2 ^ 8 = uint (ig_node g)"
    "id_value g div 2 ^ 22 = ig_lastMS g"
proof -
  have "uint (ig_shard g) \<le> int 63"
    using assms by (simp only: nat_le_iff maxShardID_def shardBits_def flip: nat_uint_eq) simp
  then have b: "0 \<le> uint (ig_shard g)" "uint (ig_shard g) < 2 ^ 6" "0 \<le> uint (ig_node g)" "uint (ig_node g) < 2 ^ 8"
    "0 \<le> uint (ig_sequence g)" "uint (ig_sequence g) < 2 ^ 8"
    using uint_lt2p [of "ig_node g"] uint_lt2p [of "ig_sequence g"] by simp_all
  from field_mod [OF b(1,2)] field_div [OF b(1,2,5,6)] field_node [OF b(1,2,5,6,3,4)] b
  show "id_value g mod 2 ^ 6 = uint (ig_shard g)" "id_value g div 2 ^ 14 mod 2 ^ 8 = uint (ig_node g)"
    "id_value g div 2 ^ 22 = ig_lastMS g"
    unfolding id_value_def by blast+
qed

text \<open>The ids of a generator are larger than everything it handed out before.\<close>

definition gen_ok :: "id_generator \<Rightarrow> bool" where
  "gen_ok g \<longleftrightarrow> unat (ig_shard g) \<le> maxShardID \<and> 0 \<le> ig_lastMS g"

lemma id_value_mono:
  assumes "ig_shard g' = ig_shard g" "ig_node g' = ig_node g" "ig_lastMS g \<le> ig_lastMS g'"
    "ig_lastMS g' = ig_lastMS g \<Longrightarrow> uint (ig_sequence g') = uint (ig_sequence g) + 1"
  shows "id_value g < id_value g'"
proof (cases "ig_lastMS g' = ig_lastMS g")
  case True
  with assms show ?thesis by (simp add: id_value_def)
next
  case False
  have later: "((m * 2 ^ 8 + n) * 2 ^ 8 + q) * 2 ^ 6 + s < ((m' * 2 ^ 8 + n) * 2 ^ 8 + q') * 2 ^ 6 + (s :: int)"
    if "m < m'" "q < 2 ^ 8" "0 \<le> q'" for m m' n q q' s
    using that by simp
  have "ig_lastMS g < ig_lastMS g'" using False assms(3) by simp
  from later [OF this, of "uint (ig_sequence g)" "uint (ig_sequence g')"] show ?thesis
    using uint_lt2p [of "ig_sequence g"] unfolding id_value_def assms(1,2) by simp
qed

lemma ids_props:
  assumes "gen_ok g" "sorted ts" "list_all (\<lambda>t. in_range t g) ts" "ts = [] \<or> ig_epochMS g + ig_lastMS g \<le> hd ts"
  shows "sorted_wrt (<) (ids ts g) \<and> (\<forall>x\<in>set (ids ts g). id_value g < x \<and> x < 2 ^ 63
     \<and> x mod 2 ^ 6 = uint (ig_shard g) \<and> x div 2 ^ 14 mod 2 ^ 8 = uint (ig_node g))"
  using assms
proof (induction ts arbitrary: g)
  case (Cons t ts)
  have t: "in_range t g" "unat (ig_shard g) \<le> maxShardID" "ig_epochMS g + ig_lastMS g \<le> t"
    using Cons.prems by (simp_all add: gen_ok_def)
  show ?case
  proof (cases rule: Next_cases [OF t(1,2)])
    case (1 e)
    have "ts = [] \<or> ig_epochMS g + ig_lastMS g \<le> hd ts" using t(3) Cons.prems(2) by (cases ts) auto
    then show ?thesis using Cons.IH [of g] Cons.prems 1 by simp
  next
    case (2 g')
    have g': "gen_ok g'" "ts = [] \<or> ig_epochMS g' + ig_lastMS g' \<le> hd ts" "list_all (\<lambda>t. in_range t g') ts"
      using Cons.prems 2 by (auto simp: gen_ok_def in_range_def) (cases ts, auto)
    have less: "id_value g < id_value g'" using id_value_mono [of g' g] 2 t(3) by simp
    have mod: "id_value g' mod 2 ^ 6 = uint (ig_shard g)" "id_value g' div 2 ^ 14 mod 2 ^ 8 = uint (ig_node g)"
      using id_value_fields [of g'] g'(1) 2(3,4) by (simp_all add: gen_ok_def)
    have top: "id_value g' < 2 ^ 63"
    proof -
      have "id_value g' div 2 ^ 22 < 2 ^ 41"
        using id_value_fields(3) [of g'] g'(1) 2(5) t(1) by (simp add: gen_ok_def in_range_def)
      then show ?thesis by simp
    qed
    show ?thesis
      using Cons.IH [OF g'(1) _ g'(3,2)] Cons.prems(2) 2(1,3,4) less mod top by fastforce
  qed
qed simp

lemma ShardID_of:
  assumes "0 < x" "x < 2 ^ 63" "x mod 2 ^ 6 = uint (s :: 8 word)"
  shows "ShardIDFromGlobalID x = Inr s"
proof -
  have "uint ((of_int x :: 64 word) AND of_nat maxShardID) = uint s"
  proof -
    have "of_nat maxShardID = (mask 6 :: 64 word)" by (simp add: maxShardID_def shardBits_def mask_eq_exp_minus_1)
    then have "(of_int x :: 64 word) AND of_nat maxShardID = take_bit 6 (of_int x)" by (simp add: take_bit_eq_mask)
    moreover have "uint (take_bit 6 (of_int x :: 64 word)) = take_bit 6 (uint (of_int x :: 64 word))"
      by (rule bit_eqI) (auto simp: bit_simps)
    ultimately have "uint ((of_int x :: 64 word) AND of_nat maxShardID) = take_bit 6 (uint (of_int x :: 64 word))" by simp
    also have "uint (of_int x :: 64 word) = x" using assms(1,2) by (simp add: uint_word_of_int_eq take_bit_int_eq_self)
    finally show ?thesis using assms(3) by (simp add: take_bit_eq_mod)
  qed
  then have "ucast ((of_int x :: 64 word) AND of_nat maxShardID) = s"
    using uint_lt2p [of s] by (simp add: word_uint_eq_iff unsigned_ucast_eq take_bit_int_eq_self_iff)
  then show ?thesis using assms(1) by (simp add: ShardIDFromGlobalID_def)
qed

lemma fresh_generator:
  assumes "NewIDGenerator e s n = Inr g"
  shows "gen_ok g" "ig_epochMS g = e" "ig_lastMS g = 0" "ig_shard g = s" "ig_node g = n" "0 \<le> id_value g"
  using assms by (auto simp: NewIDGenerator_def gen_ok_def id_value_def split: if_splits)

lemma fresh_ids:
  assumes "NewIDGenerator e s n = Inr g" "sorted ts" "list_all (\<lambda>t. e \<le> t \<and> t < e + 2 ^ 41) ts"
  shows "sorted_wrt (<) (ids ts g) \<and> (\<forall>x\<in>set (ids ts g). 0 < x \<and> x < 2 ^ 63
     \<and> x mod 2 ^ 6 = uint s \<and> x div 2 ^ 14 mod 2 ^ 8 = uint n)"
proof -
  note g = fresh_generator [OF assms(1)]
  have "list_all (\<lambda>t. in_range t g) ts" using assms(3) by (auto simp: in_range_def g(2) list_all_iff)
  moreover have "ts = [] \<or> ig_epochMS g + ig_lastMS g \<le> hd ts" using assms(3) g(2,3) by (cases ts) auto
  ultimately have "sorted_wrt (<) (ids ts g) \<and> (\<forall>x\<in>set (ids ts g). id_value g < x \<and> x < 2 ^ 63
     \<and> x mod 2 ^ 6 = uint (ig_shard g) \<and> x div 2 ^ 14 mod 2 ^ 8 = uint (ig_node g))"
    using ids_props [OF g(1) assms(2)] by blast
  then show ?thesis using g(4,5,6) by fastforce
qed

text \<open>C20: while its clock does not run backwards a generator hands out strictly increasing positive ids; each
  id gives back the shard it was made for, the router sends it there for every shard count the
  router accepts, and generators with another shard or node never produce the same id.\<close>

theorem global_ids_route_home:
  assumes "NewIDGenerator e s n = Inr g" "sorted ts" "list_all (\<lambda>t. e \<le> t \<and> t < e + 2 ^ 41) ts"
    and "NewIDGenerator e' s' n' = Inr g'" "sorted ts'" "list_all (\<lambda>t. e' \<le> t \<and> t < e' + 2 ^ 41) ts'"
    and "(s', n') \<noteq> (s, n)" "NewRouter names = Inr r" "unat s < length r"
  shows "sorted_wrt (<) (ids ts g) \<and> set (ids ts g) \<inter> set (ids ts' g') = {}
    \<and> (\<forall>x\<in>set (ids ts g). 0 < x \<and> x < 2 ^ 63 \<and> ShardIDFromGlobalID x = Inr s
         \<and> ShardForUserID r x = Inr (r ! unat s))"
proof -
  note a = fresh_ids [OF assms(1-3)] and b = fresh_ids [OF assms(4-6)]
  have "x \<notin> set (ids ts' g')" if "x \<in> set (ids ts g)" for x
  proof
    assume "x \<in> set (ids ts' g')"
    then have "uint s = uint s'" "uint n = uint n'" using a b that by force+
    then show False using assms(7) by (simp add: word_uint_eq_iff)
  qed
  moreover have "ShardForUserID r x = Inr (r ! unat s)" if "x \<in> set (ids ts g)" for x
  proof -
    have x: "0 < x" "x < 2 ^ 63" "x mod 2 ^ 6 = uint s" using a that by auto
    have dvd: "length r dvd 64" "0 < length r" using router_length_dvd [OF assms(8)] by auto
    then have "r \<noteq> []" "length r \<le> 64" by (auto dest: dvd_imp_le)
    have "nat x mod length r = nat x mod 64 mod length r" using dvd(1) by (simp add: mod_mod_cancel)
    also have "nat x mod 64 = unat s"
    proof -
      have "nat x mod nat 64 = nat (x mod 64)" using x(1) by (intro nat_mod_distrib [symmetric]) simp_all
      then show ?thesis using x(3) by simp
    qed
    finally show ?thesis
      using ShardForUserID_pos [OF \<open>r \<noteq> []\<close> x(1,2) \<open>length r \<le> 64\<close>] assms(9) by simp
  qed
  ultimately show ?thesis using a ShardID_of by blast
qed

lemma global_ids_route_home_witness:
  "\<exists>g g' r x. NewIDGenerator 1000 1 7 = Inr g \<and> NewIDGenerator 1000 1 8 = Inr g' \<and> NewRouter [''b'', ''a''] = Inr r
     \<and> ids [2000, 2000] g = [4194418689, x] \<and> ids [2000] g' \<noteq> [] \<and> 4194418689 < x \<and> ShardForUserID r x = Inr ''b''"
proof -
  let ?gen = "\<lambda>n. \<lparr>ig_epochMS = 1000, ig_shard = 1, ig_node = n, ig_lastMS = 0, ig_sequence = 0\<rparr>"
  have g: "NewIDGenerator 1000 1 7 = Inr (?gen 7)" "NewIDGenerator 1000 1 8 = Inr (?gen 8)"
    by (simp_all add: NewIDGenerator_def maxShardID_def shardBits_def)
  have i: "ids [2000, 2000] (?gen 7) = [4194418689, 4194418753]" "ids [2000] (?gen 8) \<noteq> []"
    by code_simp+
  have r: "NewRouter [''b'', ''a''] = Inr [''a'', ''b'']" by code_simp
  have "sorted [2000, 2000 :: int]" "list_all (\<lambda>t. 1000 \<le> t \<and> t < 1000 + (2 ^ 41 :: int)) [2000, 2000]"
    "sorted [2000 :: int]" "list_all (\<lambda>t. 1000 \<le> t \<and> t < 1000 + (2 ^ 41 :: int)) [2000]" by simp_all
  from global_ids_route_home [OF g(1) this(1,2) g(2) this(3,4) _ r]
  have "ShardForUserID [''a'', ''b''] 4194418753 = Inr ''b''"
    unfolding i(1) by simp
  then show ?thesis
    using g i r by (intro exI [of _ "?gen 7"] exI [of _ "?gen 8"] exI [of _ "[''a'', ''b'']"] exI [of _ 4194418753])
      (simp del: ids.simps)
qed

text \<open>The guarantee ends when the clock is set back: the generator keeps only its last millisecond, so after
  a step back and forth it hands out an id that it has already given to another account.\<close>

theorem ids_repeat_after_clock_step:
  "case NewIDGenerator 0 1 7 of
     Inr g \<Rightarrow> (\<exists>a b. ids [5, 4, 5] g = [a, b, a])
   | Inl _ \<Rightarrow> False"
proof -
  have "ids [5, 4, 5] \<lparr>ig_epochMS = 0, ig_shard = 1, ig_node = 7, ig_lastMS = 0, ig_sequence = 0\<rparr>
      = [21086209, 16891905, 21086209]" by code_simp
  then show ?thesis by (simp add: NewIDGenerator_def maxShardID_def shardBits_def)
qed

section \<open>UUIDv7\<close>

text \<open>The canonical form of a compact identifier.\<close>

definition canonical_form :: "string \<Rightarrow> string" where
  "canonical_form s = take 8 s @ ''-'' @ take 4 (drop 8 s) @ ''-'' @ take 4 (drop 12 s) @ ''-'' @ take 4 (drop 16 s)
     @ ''-'' @ drop 20 s"

definition lower_hex :: "char \<Rightarrow> bool" where
  "lower_hex c \<longleftrightarrow> c \<in> set ''0123456789abcdef''"

definition v7_ok :: "string \<Rightarrow> bool" where
  "v7_ok s \<longleftrightarrow> length s = 32 \<and> list_all lower_hex s \<and> s ! 12 = CHR ''7'' \<and> s ! 16 \<in> set ''89ab''"

lemma lower_hex_fixed: "lower_hex c \<Longrightarrow> hex_digit c \<and> \<not> is_space c \<and> c \<noteq> CHR ''-'' \<and> to_lower [c] = [c]"
  by (auto simp: lower_hex_def hex_digit_def is_space_def to_lower_def Let_def)

lemma dropWhile_hd: "xs \<noteq> [] \<Longrightarrow> \<not> P (hd xs) \<Longrightarrow> dropWhile P xs = xs"
  by (cases xs) simp_all

lemma trim_space_id: "s \<noteq> [] \<Longrightarrow> \<not> is_space (hd s) \<Longrightarrow> \<not> is_space (last s) \<Longrightarrow> trim_space s = s"
  using dropWhile_hd [of s is_space] dropWhile_hd [of "rev s" is_space] by (simp add: trim_space_def hd_rev)

lemma to_lower_id: "list_all (\<lambda>c. to_lower [c] = [c]) s \<Longrightarrow> to_lower s = s"
  by (induction s) (auto simp: to_lower_def)

lemma normalize_lower:
  assumes "s \<noteq> []" "list_all (\<lambda>c. lower_hex c \<or> c = CHR ''-'') s"
  shows "to_lower (trim_space s) = s"
proof -
  have h: "\<not> is_space c \<and> to_lower [c] = [c]" if "lower_hex c \<or> c = CHR ''-''" for c
    using that lower_hex_fixed by (auto simp: is_space_def to_lower_def)
  have "\<not> is_space (hd s)" "\<not> is_space (last s)"
    using assms h hd_in_set [of s] last_in_set [of s] unfolding list_all_iff by blast+
  then have "trim_space s = s" using assms(1) by (intro trim_space_id)
  moreover have "list_all (\<lambda>c. to_lower [c] = [c]) s" using assms(2) h unfolding list_all_iff by blast
  ultimately show ?thesis by (metis to_lower_id)
qed

lemma NormalizeV7_compact:
  assumes "v7_ok s"
  shows "NormalizeV7 s = Some s"
proof -
  have "s \<noteq> []" using assms by (auto simp: v7_ok_def)
  moreover have "list_all (\<lambda>c. lower_hex c \<or> c = CHR ''-'') s" using assms by (auto simp: v7_ok_def list_all_iff)
  ultimately have "to_lower (trim_space s) = s" by (rule normalize_lower)
  moreover have "list_all hex_digit s" using assms lower_hex_fixed by (auto simp: v7_ok_def list_all_iff)
  ultimately show ?thesis using assms by (simp add: NormalizeV7_def Let_def v7_ok_def)
qed

lemma NormalizeV7_canonical:
  assumes "v7_ok s"
  shows "NormalizeV7 (canonical_form s) = Some s"
proof -
  let ?c = "canonical_form s"
  have len: "length s = 32" using assms by (simp add: v7_ok_def)
  then have l: "length ?c = 36" by (simp add: canonical_form_def)
  have parts: "take 8 s @ take 4 (drop 8 s) @ take 4 (drop 12 s) @ take 4 (drop 16 s) @ drop 20 s = s"
    using append_take_drop_id [of 8 s] append_take_drop_id [of 4 "drop 8 s"] append_take_drop_id [of 4 "drop 12 s"]
      append_take_drop_id [of 4 "drop 16 s"] by simp
  have "filter (\<lambda>c. c \<noteq> CHR ''-'') t = t" if "set t \<subseteq> set s" for t
    using that assms lower_hex_fixed by (auto simp: v7_ok_def list_all_iff filter_id_conv)
  then have f: "filter (\<lambda>c. c \<noteq> CHR ''-'') ?c = s"
    using parts by (simp add: canonical_form_def set_take_subset set_drop_subset subset_trans [OF set_take_subset set_drop_subset])
  have "set ?c \<subseteq> set s \<union> {CHR ''-''}"
    by (auto simp: canonical_form_def dest: in_set_takeD in_set_dropD)
  then have "list_all (\<lambda>c. lower_hex c \<or> c = CHR ''-'') ?c" using assms by (auto simp: v7_ok_def list_all_iff)
  then have low: "to_lower (trim_space ?c) = ?c" using l by (intro normalize_lower) auto
  have "?c ! 8 = CHR ''-''" "?c ! 13 = CHR ''-''" "?c ! 18 = CHR ''-''" "?c ! 23 = CHR ''-''"
    using len by (simp_all add: canonical_form_def nth_append)
  moreover have "list_all hex_digit s" using assms lower_hex_fixed by (auto simp: v7_ok_def list_all_iff)
  ultimately show ?thesis
    using assms f l low by (simp add: NormalizeV7_def Let_def v7_ok_def)
qed

text \<open>What NewV7 makes.\<close>

lemma hex_char_lower: "d < 16 \<Longrightarrow> lower_hex (hex_char d)"
proof -
  have "list_all (\<lambda>d. lower_hex (hex_char d)) [0..<16]" by code_simp
  then show "d < 16 \<Longrightarrow> lower_hex (hex_char d)" by (simp add: list_all_iff)
qed

lemma hex_encode_Cons: "hex_encode (b # bs) = hex_char (unat b div 16) # hex_char (unat b mod 16) # hex_encode bs"
  by (simp add: hex_encode_def)

lemma hex_encode_lower: "list_all lower_hex (hex_encode bs)"
proof (induction bs)
  case (Cons b bs)
  have "unat b div 16 < 16" using unat8 [of b] by simp
  then show ?case using Cons by (simp add: hex_encode_Cons hex_char_lower)
qed (simp add: hex_encode_def)

lemma high_nibble: "unat (w :: 8 word) div 16 = unat (drop_bit 4 w)"
  using unat_div [of w 16] by (simp add: drop_bit_eq_div)

lemma two_bits: "(y :: 8 word) AND 3 = 0 \<or> y AND 3 = 1 \<or> y AND 3 = 2 \<or> y AND 3 = 3"
proof -
  have "y AND 3 = y mod 4" using take_bit_eq_mask [of 2 y] by (simp add: mask_eq_exp_minus_1 take_bit_eq_mod)
  moreover have "unat (y mod 4) = unat y mod 4" using unat_mod [of y 4] by simp
  ultimately have u: "unat (y AND 3) < 4" by simp
  define z where "z = y AND 3"
  have "unat z < 4" using u by (simp only: z_def)
  then have "z = 0 \<or> z = 1 \<or> z = 2 \<or> z = 3" unfolding word_unat_eq_iff by simp linarith
  then show ?thesis by (simp only: z_def)
qed

lemma hex_chars: "hex_char 7 = CHR ''7''" "hex_char 8 \<in> set ''89ab''" "hex_char 9 \<in> set ''89ab''"
  "hex_char 10 \<in> set ''89ab''" "hex_char 11 \<in> set ''89ab''"
  by code_simp+

lemma nibbles:
  "hex_char (unat ((x AND 0x0f) OR 0x70 :: 8 word) div 16) = CHR ''7''"
  "hex_char (unat ((x AND 0x3f) OR 0x80 :: 8 word) div 16) \<in> set ''89ab''"
proof -
  have "drop_bit 4 ((x AND 0x0f) OR 0x70 :: 8 word) = drop_bit 4 x AND 0 OR 7"
    unfolding drop_bit_or drop_bit_and by simp
  then show "hex_char (unat ((x AND 0x0f) OR 0x70 :: 8 word) div 16) = CHR ''7''"
    unfolding high_nibble using hex_chars(1) by simp
  have d: "drop_bit 4 ((x AND 0x3f) OR 0x80 :: 8 word) = drop_bit 4 x AND 3 OR 8"
    unfolding drop_bit_or drop_bit_and by simp
  have "unat (drop_bit 4 x AND 3 OR 8) \<in> {8, 9, 10, 11}"
    using two_bits [of "drop_bit 4 x"] by (elim disjE) (simp_all only:, simp_all)
  then show "hex_char (unat ((x AND 0x3f) OR 0x80 :: 8 word) div 16) \<in> set ''89ab''"
    unfolding high_nibble d using hex_chars(2-5) by (elim insertE) (simp_all only:, simp_all)
qed

text \<open>Identifiers survive the trip through their canonical form: what NewV7 makes, in whatever form a
  client sends it back, is normalized to the compact form the database keys hold.\<close>

theorem uuid_roundtrip:
  assumes "length rnd = 10"
  shows "NormalizeV7 (NewV7 ms rnd) = Some (NewV7 ms rnd)
    \<and> NormalizeV7 (canonical_form (NewV7 ms rnd)) = Some (NewV7 ms rnd)"
proof -
  obtain r0 r1 r2 rs where r: "rnd = r0 # r1 # r2 # rs" "length rs = 7"
    using assms by (auto simp: length_Suc_conv numeral_eq_Suc)
  define b where "b k = (ucast (drop_bit (8 * k) (of_int ms :: 64 word)) :: 8 word)" for k :: nat
  have n: "NewV7 ms rnd = hex_encode ([b 5, b 4, b 3, b 2, b 1, b 0, (r0 AND 0x0f) OR 0x70, r1, (r2 AND 0x3f) OR 0x80] @ rs)"
    by (simp add: NewV7_def Let_def r(1) b_def)
  have "length (hex_encode bs) = 2 * length bs" for bs
    by (induction bs) (simp_all add: hex_encode_Cons, simp add: hex_encode_def)
  then have "length (NewV7 ms rnd) = 32" "NewV7 ms rnd ! 12 = CHR ''7''" "NewV7 ms rnd ! 16 \<in> set ''89ab''"
    using nibbles [of r0] nibbles [of r2] r(2) unfolding n by (simp_all add: hex_encode_Cons)
  then have "v7_ok (NewV7 ms rnd)" unfolding v7_ok_def n using hex_encode_lower by blast
  then show ?thesis using NormalizeV7_compact NormalizeV7_canonical by simp
qed

lemma uuid_roundtrip_witness:
  "NewV7 1000 (replicate 10 255) = ''0000000003e87fffbfffffffffffffff''
   \<and> NormalizeV7 ''00000000-03e8-7fff-bfff-ffffffffffff'' = Some ''0000000003e87fffbfffffffffffffff''"
proof -
  have n: "NewV7 1000 (replicate 10 255) = ''0000000003e87fffbfffffffffffffff''" by code_simp
  have "canonical_form ''0000000003e87fffbfffffffffffffff'' = ''00000000-03e8-7fff-bfff-ffffffffffff''"
    by (simp add: canonical_form_def)
  then show ?thesis using uuid_roundtrip [of "replicate 10 255" 1000] n by simp
qed

end
