(* ===== verification/Consumer.thy ===== *)
theory Consumer
  imports Schema Sharding
begin

text \<open>
  internal/farm/infrastructure/event_consumer.go, consumer_failure_store.go and sharded_consumer.go:
  the Kafka consumer, which hands each message to a projector, remembers the events it has handled in
  consumed_events, parks what cannot be handled in consumer_failed_events, and only then commits the
  offset.

  The databases of all shards are one map from the name of a shard; a ConsumerDedup and a
  ConsumerFailureStore are the name of the shard they write to.  What the driver, the clock, the timers and
  the context do during one message is the record \<^verbatim>\<open>msg_env\<close>.
\<close>

type_synonym cluster = "string \<Rightarrow> db"

definition on_shard :: "string \<Rightarrow> (db \<Rightarrow> 'r \<times> db) \<Rightarrow> cluster \<Rightarrow> 'r \<times> cluster" where
  "on_shard d m cl = (let (r, s) = m (cl d) in (r, cl(d := s)))"

section \<open>Projectors\<close>

text \<open>A projector is its name and its Handle, whose driver behaviour is a parameter.\<close>

record 'e projector =
  pj_Name :: string
  pj_Handle :: "'e \<Rightarrow> envelope \<Rightarrow> cluster \<Rightarrow> (go_error + unit) \<times> cluster"

definition LogProjector :: "'e projector" where
  "LogProjector = \<lparr>pj_Name = ''log-projector'', pj_Handle = (\<lambda>e env cl. (Inr (), cl))\<rparr>"

section \<open>ConsumerDedup\<close>

record 'e process_env =
  pe_check :: "go_error option"
  pe_handle :: 'e
  pe_mark :: env
  pe_now :: gotime

definition ErrInvalidEventEnvelope :: go_error where
  "ErrInvalidEventEnvelope = PlainErr ''invalid event envelope''"

definition has_consumed :: "string \<Rightarrow> string \<Rightarrow> db \<Rightarrow> bool" where
  "has_consumed eventID consumerName s \<longleftrightarrow>
     (eventID, consumerName) \<in> set (map (\<lambda>r. (ce_event r, ce_consumer r)) (consumed s))"

definition alreadyConsumed :: "go_error option \<Rightarrow> string \<Rightarrow> string \<Rightarrow> db \<Rightarrow> go_error + bool" where
  "alreadyConsumed flt eventID consumerName s =
     (case flt of Some e \<Rightarrow> Inl e | None \<Rightarrow> Inr (has_consumed eventID consumerName s))"

text \<open>Both keys are VARCHAR(64) with a unique key over the pair.\<close>

definition insert_consumed :: "string \<Rightarrow> string \<Rightarrow> gotime \<Rightarrow> (db, unit) tx" where
  "insert_consumed eventID consumerName now =
     (\<lambda>s. if length eventID > 64 \<or> length consumerName > 64 then Inl (MySQLErr 1406)
          else if has_consumed eventID consumerName s then Inl dup_key
          else Inr ((), s\<lparr>consumed := consumed s
                   @ [\<lparr>ce_event = eventID, ce_consumer = consumerName, ce_processed = datetime3 now\<rparr>]\<rparr>))"

definition markConsumed :: "env \<Rightarrow> string \<Rightarrow> string \<Rightarrow> gotime \<Rightarrow> db \<Rightarrow> (go_error + unit) \<times> db" where
  "markConsumed env eventID consumerName now =
     run_auto env (stmt env ''mark_consumed'' (insert_consumed eventID consumerName now))"

definition ProcessOnce :: "'e process_env \<Rightarrow> string \<Rightarrow> raw \<Rightarrow> 'e projector \<Rightarrow> cluster \<Rightarrow> (go_error + unit) \<times> cluster" where
  "ProcessOnce pe d raw projector cl =
     (case raw of
        NotJSON _ \<Rightarrow> (Inl ErrInvalidEventEnvelope, cl)
      | JSONOf env \<Rightarrow>
          if ev_EventID env = [] then (Inl ErrInvalidEventEnvelope, cl)
          else
            (case alreadyConsumed (pe_check pe) (ev_EventID env) (pj_Name projector) (cl d) of
               Inl e \<Rightarrow> (Inl e, cl)
             | Inr True \<Rightarrow> (Inr (), cl)
             | Inr False \<Rightarrow>
                 (case pj_Handle projector (pe_handle pe) env cl of
                    (Inl e, cl') \<Rightarrow> (Inl e, cl')
                  | (Inr _, cl') \<Rightarrow>
                      on_shard d (markConsumed (pe_mark pe) (ev_EventID env) (pj_Name projector) (pe_now pe)) cl')))"

section \<open>ConsumerFailureStore\<close>

record consumer_failure =
  fl_ConsumerGroup :: string
  fl_ConsumerName :: string
  fl_Topic :: string
  fl_Partition :: int
  fl_Offset :: int
  fl_Key :: string
  fl_EventID :: string
  fl_Payload :: raw
  fl_Attempts :: int
  fl_LastError :: go_error
  fl_FirstFailedAt :: gotime
  fl_LastFailedAt :: gotime

definition truncateConsumerFailureText :: "string \<Rightarrow> nat \<Rightarrow> string" where
  "truncateConsumerFailureText v maxRunes = (if length v \<le> maxRunes then v else take maxRunes v)"

definition failed_of :: "consumer_failure \<Rightarrow> failed_row" where
  "failed_of f = \<lparr>cf_group = truncateConsumerFailureText (fl_ConsumerGroup f) 255,
     cf_name = truncateConsumerFailureText (fl_ConsumerName f) 128,
     cf_topic = truncateConsumerFailureText (fl_Topic f) 255, cf_partition = fl_Partition f, cf_offset = fl_Offset f,
     cf_key = fl_Key f,
     cf_event = (let e = truncateConsumerFailureText (fl_EventID f) 128 in if e = [] then None else Some e),
     cf_payload = fl_Payload f, cf_attempts = fl_Attempts f, cf_error = fl_LastError f,
     cf_first = datetime3 (fl_FirstFailedAt f), cf_last = datetime3 (fl_LastFailedAt f)\<rparr>"

definition position_of :: "failed_row \<Rightarrow> string \<times> string \<times> int \<times> int" where
  "position_of r = (cf_group r, cf_topic r, cf_partition r, cf_offset r)"

text \<open>INSERT ... ON DUPLICATE KEY UPDATE: the row of the position keeps its first failure and its status.\<close>

definition merge_failed :: "failed_row \<Rightarrow> failed_row \<Rightarrow> failed_row" where
  "merge_failed old new = old\<lparr>cf_name := cf_name new, cf_key := cf_key new, cf_event := cf_event new,
     cf_payload := cf_payload new, cf_attempts := max (cf_attempts old) (cf_attempts new),
     cf_error := cf_error new, cf_last := cf_last new\<rparr>"

definition upsert_failed :: "failed_row \<Rightarrow> (db, unit) tx" where
  "upsert_failed new =
     (\<lambda>s. Inr ((), s\<lparr>failed :=
        (if position_of new \<in> position_of ` set (failed s)
         then map (\<lambda>r. if position_of r = position_of new then merge_failed r new else r) (failed s)
         else failed s @ [new])\<rparr>))"

definition Record :: "env \<Rightarrow> consumer_failure \<Rightarrow> db \<Rightarrow> (go_error + unit) \<times> db" where
  "Record env f = run_auto env (stmt env ''record_failure'' (upsert_failed (failed_of f)))"

section \<open>The consumer\<close>

record kafka_message =
  km_Topic :: string
  km_Partition :: int
  km_Offset :: int
  km_Key :: string
  km_Value :: raw

record 'e consumer =
  kc_topic :: string
  kc_groupID :: string
  kc_dedup :: "string option"
  kc_resolveDedup :: "(raw \<Rightarrow> go_error + string option) option"
  kc_projector :: "'e projector"
  kc_failures :: "string option"
  kc_maxTries :: int
  kc_retryMin :: duration
  kc_retryMax :: duration

definition NewKafkaConsumer :: "string \<Rightarrow> string \<Rightarrow> string option \<Rightarrow> 'e projector \<Rightarrow> 'e consumer" where
  "NewKafkaConsumer topic groupID dedup projector =
     \<lparr>kc_topic = topic, kc_groupID = groupID, kc_dedup = dedup, kc_resolveDedup = None,
      kc_projector = projector, kc_failures = dedup, kc_maxTries = 5, kc_retryMin = 250 * millisecond,
      kc_retryMax = 4 * second\<rparr>"

definition WithDedupResolver :: "(raw \<Rightarrow> go_error + string option) \<Rightarrow> 'e consumer \<Rightarrow> 'e consumer" where
  "WithDedupResolver resolver c = c\<lparr>kc_resolveDedup := Some resolver\<rparr>"

definition WithFailurePolicy :: "int \<Rightarrow> duration \<Rightarrow> duration \<Rightarrow> 'e consumer \<Rightarrow> 'e consumer" where
  "WithFailurePolicy maxTries retryMin retryMax c =
     (let c1 = (if maxTries > 0 then c\<lparr>kc_maxTries := maxTries\<rparr> else c) in
      if retryMin > 0 \<and> retryMax \<ge> retryMin then c1\<lparr>kc_retryMin := retryMin, kc_retryMax := retryMax\<rparr> else c1)"

text \<open>retryDelay: the loop from \<^verbatim>\<open>current\<close> on, with the product at 64 bits.\<close>

function delay_loop :: "duration \<Rightarrow> int \<Rightarrow> int \<Rightarrow> duration \<Rightarrow> duration" where
  "delay_loop retryMax attempt current delay =
     (if current < attempt \<and> delay < retryMax
      then (if delay > go_div retryMax 2 then retryMax
            else delay_loop retryMax attempt (current + 1) (i64 (delay * 2)))
      else if delay > retryMax then retryMax else delay)"
  by pat_completeness auto

termination
  by (relation "measure (\<lambda>(retryMax, attempt, current, delay). nat (attempt - current))") auto

declare delay_loop.simps [simp del]

definition retryDelay :: "'e consumer \<Rightarrow> int \<Rightarrow> duration" where
  "retryDelay c attempt = delay_loop (kc_retryMax c) attempt 1 (kc_retryMin c)"

text \<open>
  What happens around one message: the driver during each attempt, the clock at each failure, the driver
  during each try to store the failure; whether the context has ended after such a try; and whether a timer
  of the given delay fires before the context ends.
\<close>

record 'e msg_env =
  me_process :: "int \<Rightarrow> 'e process_env"
  me_failedAt :: "int \<Rightarrow> gotime"
  me_record :: "int \<Rightarrow> env"
  me_ctxDone :: "int \<Rightarrow> bool"
  me_fires :: "int \<Rightarrow> duration \<Rightarrow> bool"
  me_recordFires :: "int \<Rightarrow> duration \<Rightarrow> bool"

datatype ending = Handled | Parked | Stopped "go_error option"

text \<open>recordFailure: it tries until the row is stored or the context ends, so it may run for ever.\<close>

partial_function (option) record_from ::
  "'e consumer \<Rightarrow> 'e msg_env \<Rightarrow> string \<Rightarrow> consumer_failure \<Rightarrow> int \<Rightarrow> cluster \<Rightarrow> (go_error option \<times> cluster) option" where
  "record_from c e d f storeAttempt cl =
     (case on_shard d (Record (me_record e storeAttempt) f) cl of
        (Inr _, cl') \<Rightarrow> Some (None, cl')
      | (Inl _, cl') \<Rightarrow>
          if me_ctxDone e storeAttempt then Some (Some CtxCanceled, cl')
          else if me_recordFires e storeAttempt (retryDelay c storeAttempt)
          then record_from c e d f (storeAttempt + 1) cl'
          else Some (Some CtxCanceled, cl'))"

definition recordFailure ::
  "'e consumer \<Rightarrow> 'e msg_env \<Rightarrow> string option \<Rightarrow> consumer_failure \<Rightarrow> cluster \<Rightarrow> (go_error option \<times> cluster) option" where
  "recordFailure c e recorder f cl =
     (case recorder of
        None \<Rightarrow> Some (Some (PlainErr ''kafka consumer failure recorder is not configured''), cl)
      | Some d \<Rightarrow> record_from c e d f 1 cl)"

text \<open>The store of consumed events for a message, and one attempt at it.\<close>

definition select_dedup :: "'e consumer \<Rightarrow> raw \<Rightarrow> go_error + string option" where
  "select_dedup c raw =
     (case kc_resolveDedup c of None \<Rightarrow> Inr (kc_dedup c) | Some resolve \<Rightarrow> resolve raw)"

definition attempt_message :: "'e consumer \<Rightarrow> 'e process_env \<Rightarrow> kafka_message \<Rightarrow> cluster \<Rightarrow> (go_error + unit) \<times> cluster" where
  "attempt_message c pe m cl =
     (case select_dedup c (km_Value m) of
        Inl e \<Rightarrow> (Inl e, cl)
      | Inr None \<Rightarrow> (Inl (PlainErr ''kafka consumer has no consumer dedup store''), cl)
      | Inr (Some d) \<Rightarrow> ProcessOnce pe d (km_Value m) (kc_projector c) cl)"

definition failure_store :: "'e consumer \<Rightarrow> raw \<Rightarrow> string option" where
  "failure_store c raw =
     (if kc_resolveDedup c = None then kc_failures c
      else (case select_dedup c raw of Inr (Some d) \<Rightarrow> Some d | _ \<Rightarrow> kc_failures c))"

definition failure_of :: "'e consumer \<Rightarrow> kafka_message \<Rightarrow> int \<Rightarrow> go_error \<Rightarrow> gotime \<Rightarrow> gotime \<Rightarrow> consumer_failure" where
  "failure_of c m attempts err firstFailedAt failedAt =
     \<lparr>fl_ConsumerGroup = kc_groupID c, fl_ConsumerName = pj_Name (kc_projector c), fl_Topic = km_Topic m,
      fl_Partition = km_Partition m, fl_Offset = km_Offset m, fl_Key = km_Key m,
      fl_EventID = (case km_Value m of JSONOf env \<Rightarrow> ev_EventID env | NotJSON _ \<Rightarrow> []),
      fl_Payload = km_Value m, fl_Attempts = attempts, fl_LastError = err,
      fl_FirstFailedAt = firstFailedAt, fl_LastFailedAt = failedAt\<rparr>"

definition park :: "'e consumer \<Rightarrow> 'e msg_env \<Rightarrow> kafka_message \<Rightarrow> int \<Rightarrow> go_error \<Rightarrow> gotime \<Rightarrow> cluster \<Rightarrow> (ending \<times> cluster) option" where
  "park c e m attempts err first cl =
     (case recordFailure c e (failure_store c (km_Value m)) (failure_of c m attempts err first (me_failedAt e attempts)) cl of
        None \<Rightarrow> None
      | Some (None, cl') \<Rightarrow> Some (Parked, cl')
      | Some (Some rerr, cl') \<Rightarrow>
          Some (Stopped (if rerr = CtxCanceled \<or> me_ctxDone e 0 then None else Some rerr), cl'))"

text \<open>The loop of run over the attempts at one message; \<^verbatim>\<open>attempts\<close> counts the current one.\<close>

function handle_from ::
  "'e consumer \<Rightarrow> 'e msg_env \<Rightarrow> kafka_message \<Rightarrow> int \<Rightarrow> gotime \<Rightarrow> cluster \<Rightarrow> (ending \<times> cluster) option" where
  "handle_from c e m attempts firstFailedAt cl =
     (case attempt_message c (me_process e attempts) m cl of
        (Inr _, cl') \<Rightarrow> Some (Handled, cl')
      | (Inl err, cl') \<Rightarrow>
          (let first = (if is_zero_time firstFailedAt then me_failedAt e attempts else firstFailedAt) in
           if errors_is err ErrInvalidEventEnvelope \<or> attempts \<ge> kc_maxTries c then park c e m attempts err first cl'
           else if me_fires e attempts (retryDelay c attempts) then handle_from c e m (attempts + 1) first cl'
           else Some (Stopped None, cl')))"
  by pat_completeness auto

termination
  by (relation "measure (\<lambda>(c, e, m, attempts, first, cl). nat (kc_maxTries c - attempts))") auto

declare handle_from.simps [simp del]

definition handle_message :: "'e consumer \<Rightarrow> 'e msg_env \<Rightarrow> kafka_message \<Rightarrow> cluster \<Rightarrow> (ending \<times> cluster) option" where
  "handle_message c e m cl = handle_from c e m 1 0 cl"

section \<open>Shard-aware stores\<close>

text \<open>The user ids that the routing code reads from a payload.\<close>

fun owner_user_id :: "payload \<Rightarrow> string" where
  "owner_user_id (FarmPlanted p) = fp_OwnerUserID p"
| "owner_user_id (FarmHarvested p) = fh_OwnerUserID p"
| "owner_user_id (FarmWatered p) = fw_OwnerUserID p"
| "owner_user_id (FarmStolen p) = fs_OwnerUserID p"
| "owner_user_id _ = []"

fun edge_user_ids :: "payload \<Rightarrow> string \<times> string" where
  "edge_user_ids (FriendEdgeRequested p) = (fe_SourceUserID p, fe_TargetUserID p)"
| "edge_user_ids (FriendEdgeApplied p) = (fe_SourceUserID p, fe_TargetUserID p)"
| "edge_user_ids _ = ([], [])"

fun user_id_a :: "payload \<Rightarrow> string" where
  "user_id_a (FriendAccepted p) = fa_UserIDA p"
| "user_id_a _ = []"

definition routing_user :: "envelope \<Rightarrow> string" where
  "routing_user env =
     (if ev_EventType env = EventTypeFriendEdgeRequested then snd (edge_user_ids (ev_Payload env))
      else if ev_EventType env = EventTypeFriendEdgeApplied then fst (edge_user_ids (ev_Payload env))
      else if ev_EventType env = EventTypeFriendAccepted then user_id_a (ev_Payload env)
      else owner_user_id (ev_Payload env))"

definition sharded_dedup :: "router \<Rightarrow> string \<Rightarrow> raw \<Rightarrow> go_error + string option" where
  "sharded_dedup r fallback raw =
     (case raw of
        NotJSON _ \<Rightarrow> Inl (PlainErr ''unmarshal event routing envelope'')
      | JSONOf env \<Rightarrow>
          (let userID = routing_user env in
           if userID = [] then Inr (Some fallback)
           else
             (case parse_int 64 userID of
                None \<Rightarrow> Inl (PlainErr ''invalid user_id for event'')
              | Some u \<Rightarrow>
                  if u \<le> 0 then Inl (PlainErr ''invalid user_id for event'')
                  else (case ShardForUserID r u of Inl e \<Rightarrow> Inl e | Inr name \<Rightarrow> Inr (Some name)))))"

end
