(* ===== verification/ConsumerProps.thy ===== *)
theory ConsumerProps
  imports Consumer
begin

text \<open>
  What the consumer guarantees, whatever projector it runs: the delays between its attempts, that it
  comes to an end with every message whose failure can be stored, and that an offset is only
  committed for a message that the projector has dealt with or that is parked.  What the consumer needs of a projector is the locale
  \<^verbatim>\<open>projection\<close>.
\<close>

section \<open>The delays\<close>

lemma delay_loop_closed:
  assumes "0 < d" "d \<le> M" "M \<le> max_int64"
  shows "delay_loop M a cur d = min M (d * 2 ^ nat (a - cur))"
  using assms
proof (induction M a cur d rule: delay_loop.induct)
  case (1 M a cur d)
  show ?case
  proof (cases "cur < a \<and> d < M")
    case True
    have half: "go_div M 2 = M div 2" using 1(2,3) by (intro go_div_nonneg) simp_all
    have pow: "d * 2 ^ nat (a - cur) = d * 2 * 2 ^ nat (a - (cur + 1))"
    proof -
      have "nat (a - cur) = Suc (nat (a - (cur + 1)))" using True by arith
      then show ?thesis by simp
    qed
    show ?thesis
    proof (cases "d > M div 2")
      case big: True
      have "M \<le> d * 2 * 2 ^ nat (a - (cur + 1))"
      proof -
        have "M \<le> d * 2" using big by linarith
        also have "\<dots> \<le> d * 2 * 2 ^ nat (a - (cur + 1))" using 1(2) by simp
        finally show ?thesis .
      qed
      then have "min M (d * 2 ^ nat (a - cur)) = M" unfolding pow by (rule min_absorb1)
      moreover have "delay_loop M a cur d = M" using True big half by (simp add: delay_loop.simps [of M a cur d])
      ultimately show ?thesis by simp
    next
      case False
      then have "i64 (d * 2) = d * 2" using 1(2,4) True by (intro i64_id) (simp add: in_i64_def min_int64_def)
      then have "delay_loop M a cur d = delay_loop M a (cur + 1) (d * 2)"
        using True False half by (simp add: delay_loop.simps [of M a cur d])
      also have "\<dots> = min M (d * 2 * 2 ^ nat (a - (cur + 1)))"
        using 1(1) [OF True] \<open>i64 (d * 2) = d * 2\<close> False half 1(2,4) by simp
      finally show ?thesis unfolding pow .
    qed
  next
    case False
    show ?thesis
    proof (cases "cur < a")
      case True
      then have "d = M" using False 1(3) by simp
      have "M \<le> M * 2 ^ nat (a - cur)" using 1(2) \<open>d = M\<close> by simp
      then show ?thesis using \<open>d = M\<close> by (simp add: delay_loop.simps [of M a cur M])
    next
      case False
      then show ?thesis using 1(3) by (simp add: delay_loop.simps [of M a cur d])
    qed
  qed
qed

text \<open>The bounds that the constructor and WithFailurePolicy leave.\<close>

definition policy_ok :: "'e consumer \<Rightarrow> bool" where
  "policy_ok c \<longleftrightarrow> 0 < kc_retryMin c \<and> kc_retryMin c \<le> kc_retryMax c \<and> kc_retryMax c \<le> max_int64 \<and> 0 < kc_maxTries c"

lemma policy_new: "policy_ok (NewKafkaConsumer topic groupID dedup projector)"
  by (simp add: policy_ok_def NewKafkaConsumer_def max_int64_def)

lemma policy_with:
  "policy_ok c \<Longrightarrow> retryMax \<le> max_int64 \<Longrightarrow> policy_ok (WithFailurePolicy maxTries retryMin retryMax c)"
  by (simp add: policy_ok_def WithFailurePolicy_def Let_def)

section \<open>Bookkeeping\<close>

lemma on_shard_other [simp]: "j \<noteq> d \<Longrightarrow> snd (on_shard d m cl) j = cl j"
  by (simp add: on_shard_def case_prod_unfold Let_def)

lemma on_shard_at [simp]: "snd (on_shard d m cl) d = snd (m (cl d))"
  by (simp add: on_shard_def case_prod_unfold Let_def)

lemma on_shard_fst [simp]: "fst (on_shard d m cl) = fst (m (cl d))"
  by (simp add: on_shard_def case_prod_unfold Let_def)

lemma on_shard_all: "(\<And>j. Q j (cl j)) \<Longrightarrow> Q d (snd (m (cl d))) \<Longrightarrow> Q j (snd (on_shard d m cl) j)"
  by (cases "j = d") simp_all

text \<open>Everything but the tables of the consumer.\<close>

definition same_data :: "cluster \<Rightarrow> cluster \<Rightarrow> bool" where
  "same_data cl cl' \<longleftrightarrow> (\<forall>d. cl' d = (cl d)\<lparr>consumed := consumed (cl' d), failed := failed (cl' d)\<rparr>)"

definition same_books :: "cluster \<Rightarrow> cluster \<Rightarrow> bool" where
  "same_books cl cl' \<longleftrightarrow> (\<forall>d. consumed (cl' d) = consumed (cl d) \<and> failed (cl' d) = failed (cl d))"

lemma same_data_refl [simp]: "same_data cl cl"
  by (simp add: same_data_def)

lemma insert_consumed_Inr [tx_inv]:
  "insert_consumed ev n now s = Inr (u, s') \<longleftrightarrow> length ev \<le> 64 \<and> length n \<le> 64 \<and> \<not> has_consumed ev n s
     \<and> s' = s\<lparr>consumed := consumed s @ [\<lparr>ce_event = ev, ce_consumer = n, ce_processed = datetime3 now\<rparr>]\<rparr>"
  by (auto simp: insert_consumed_def)

lemma stmt_unit_Inr: "stmt env l m s = Inr r \<longleftrightarrow> fault env l = None \<and> m s = Inr r"
  by (auto simp: stmt_def tx_fail_def split: option.split)

lemma mark_cases:
  "snd (markConsumed env ev n now s) = s \<or> snd (markConsumed env ev n now s)
     = s\<lparr>consumed := consumed s @ [\<lparr>ce_event = ev, ce_consumer = n, ce_processed = datetime3 now\<rparr>]\<rparr>"
proof (cases rule: run_auto_cases [of env "stmt env ''mark_consumed'' (insert_consumed ev n now)" s])
  case (applied a s')
  then show ?thesis unfolding markConsumed_def stmt_unit_Inr insert_consumed_Inr by simp
qed (simp add: markConsumed_def)

lemma mark_ok:
  assumes "markConsumed env ev n now s = (Inr u, s')"
  shows "has_consumed ev n s'"
proof -
  have "stmt env ''mark_consumed'' (insert_consumed ev n now) s = Inr (u, s')"
    using assms unfolding markConsumed_def by (rule run_auto_ok)
  then show ?thesis unfolding stmt_unit_Inr insert_consumed_Inr by (simp add: has_consumed_def)
qed

definition failed_after :: "failed_row \<Rightarrow> db \<Rightarrow> failed_row list" where
  "failed_after new s =
     (if position_of new \<in> position_of ` set (failed s)
      then map (\<lambda>r. if position_of r = position_of new then merge_failed r new else r) (failed s)
      else failed s @ [new])"

lemma upsert_failed_Inr [tx_inv]: "upsert_failed new s = Inr (u, s') \<longleftrightarrow> s' = s\<lparr>failed := failed_after new s\<rparr>"
  by (auto simp: upsert_failed_def failed_after_def)

lemma record_cases:
  "snd (Record env f s) = s \<or> snd (Record env f s) = s\<lparr>failed := failed_after (failed_of f) s\<rparr>"
proof (cases rule: run_auto_cases [of env "stmt env ''record_failure'' (upsert_failed (failed_of f))" s])
  case (applied a s')
  then show ?thesis unfolding Record_def stmt_unit_Inr upsert_failed_Inr by simp
qed (simp add: Record_def)

lemma record_ok:
  assumes "Record env f s = (Inr u, s')"
  shows "s' = s\<lparr>failed := failed_after (failed_of f) s\<rparr>"
proof -
  have "stmt env ''record_failure'' (upsert_failed (failed_of f)) s = Inr (u, s')"
    using assms unfolding Record_def by (rule run_auto_ok)
  then show ?thesis unfolding stmt_unit_Inr upsert_failed_Inr by simp
qed

lemma record_clean:
  "fault env ''record_failure'' = None \<Longrightarrow> commit_outcome env = CommitOK \<Longrightarrow> fst (Record env f s) = Inr ()"
  by (simp add: Record_def run_auto_def stmt_def upsert_failed_def)

section \<open>Storing a failure\<close>

text \<open>Every store attempt keeps \<^verbatim>\<open>J\<close>; at the end either a store attempt has succeeded or the context has ended.\<close>

definition store_end :: "(cluster \<Rightarrow> bool) \<Rightarrow> 'e msg_env \<Rightarrow> string \<Rightarrow> consumer_failure \<Rightarrow> go_error option \<times> cluster \<Rightarrow> bool" where
  "store_end J e d f y \<longleftrightarrow> J (snd y)
     \<and> (fst y = None \<longrightarrow> (\<exists>n cl. fst (Record (me_record e n) f (cl d)) = Inr ()
                          \<and> snd y = snd (on_shard d (Record (me_record e n) f) cl)))"

lemma record_from_inv:
  assumes "record_from c e d f n cl = Some y"
  shows "(\<forall>n cl. J cl \<longrightarrow> J (snd (on_shard d (Record (me_record e n) f) cl))) \<longrightarrow> J cl \<longrightarrow> store_end J e d f y"
  using assms
proof (rule record_from.raw_induct [rotated])
  fix rec :: "'a consumer \<Rightarrow> 'a msg_env \<Rightarrow> string \<Rightarrow> consumer_failure \<Rightarrow> int \<Rightarrow> cluster \<Rightarrow> (go_error option \<times> cluster) option"
    and c :: "'a consumer" and e :: "'a msg_env" and d f n cl y
  assume IH: "\<And>c e d f n cl y. rec c e d f n cl = Some y \<Longrightarrow>
      (\<forall>n cl. J cl \<longrightarrow> J (snd (on_shard d (Record (me_record e n) f) cl))) \<longrightarrow> J cl \<longrightarrow> store_end J e d f y"
    and body: "(case on_shard d (Record (me_record e n) f) cl of
        (Inl _, cl') \<Rightarrow>
          if me_ctxDone e n then Some (Some CtxCanceled, cl')
          else if me_recordFires e n (retryDelay c n) then rec c e d f (n + 1) cl'
          else Some (Some CtxCanceled, cl')
      | (Inr _, cl') \<Rightarrow> Some (None, cl')) = Some y"
  show "(\<forall>n cl. J cl \<longrightarrow> J (snd (on_shard d (Record (me_record e n) f) cl))) \<longrightarrow> J cl \<longrightarrow> store_end J e d f y"
  proof (intro impI)
    assume J: "\<forall>n cl. J cl \<longrightarrow> J (snd (on_shard d (Record (me_record e n) f) cl))" "J cl"
    obtain x cl1 where o: "on_shard d (Record (me_record e n) f) cl = (x, cl1)" by (metis surj_pair)
    have x: "x = fst (Record (me_record e n) f (cl d))" "cl1 = snd (on_shard d (Record (me_record e n) f) cl)" "J cl1"
      using o J by (metis on_shard_fst fst_conv, metis snd_conv, metis snd_conv)
    show "store_end J e d f y"
    proof (cases x)
      case (Inr u)
      then have "y = (None, cl1)" using body o by simp
      then show ?thesis using x Inr unfolding store_end_def by auto
    next
      case (Inl z)
      have b: "(if me_ctxDone e n then Some (Some CtxCanceled, cl1)
          else if me_recordFires e n (retryDelay c n) then rec c e d f (n + 1) cl1
          else Some (Some CtxCanceled, cl1)) = Some y"
        using body unfolding o Inl by simp
      show ?thesis
      proof (cases "me_ctxDone e n \<or> \<not> me_recordFires e n (retryDelay c n)")
        case True
        then have "y = (Some CtxCanceled, cl1)" using b by (metis option.inject)
        then show ?thesis using x(3) by (simp add: store_end_def)
      next
        case False
        then have "rec c e d f (n + 1) cl1 = Some y" using b by simp
        from IH [OF this] show ?thesis using J(1) x(3) by blast
      qed
    qed
  qed
qed

text \<open>When storing comes to an end.\<close>

definition store_stops :: "'e consumer \<Rightarrow> 'e msg_env \<Rightarrow> int \<Rightarrow> bool" where
  "store_stops c e n \<longleftrightarrow> me_ctxDone e n \<or> \<not> me_recordFires e n (retryDelay c n)
     \<or> fault (me_record e n) ''record_failure'' = None \<and> commit_outcome (me_record e n) = CommitOK"

lemma record_from_returns:
  assumes "store_stops c e n" "k \<le> n"
  shows "\<exists>y. record_from c e d f k cl = Some y"
  using assms(2)
proof (induction "nat (n - k)" arbitrary: k cl)
  case 0
  then have "k = n" by simp
  then show ?case
    using assms(1) record_clean [of "me_record e n" f "cl d"]
    by (subst record_from.simps) (auto simp: store_stops_def on_shard_def case_prod_unfold Let_def split: sum.split)
next
  case (Suc x)
  then have "x = nat (n - (k + 1))" "k + 1 \<le> n" by arith+
  then show ?case
    using Suc(1) [of "k + 1"] by (subst record_from.simps) (auto split: sum.split prod.split)
qed

lemma park_returns:
  assumes "store_stops c e n" "1 \<le> n"
  shows "\<exists>y. park c e m a err first cl = Some y"
proof -
  have "\<exists>y. recordFailure c e r f cl = Some y" for r f
    using record_from_returns [OF assms] by (auto simp: recordFailure_def split: option.split)
  then obtain y where "recordFailure c e (failure_store c (km_Value m)) (failure_of c m a err first (me_failedAt e a)) cl = Some y"
    by blast
  then show ?thesis by (cases y; cases "fst y") (auto simp: park_def)
qed

lemma handle_returns:
  assumes "store_stops c e n" "1 \<le> n"
  shows "\<exists>y. handle_from c e m a first cl = Some y"
  using assms
proof (induction c e m a first cl rule: handle_from.induct)
  case (1 c e m a first cl)
  show ?case
  proof (cases "attempt_message c (me_process e a) m cl")
    case (Pair x cl1)
    show ?thesis
    proof (cases x)
      case (Inr u)
      then show ?thesis using Pair by (subst handle_from.simps) simp
    next
      case (Inl err)
      have "\<exists>y. handle_from c e m (a + 1) f1 cl1 = Some y"
        if "\<not> (errors_is err ErrInvalidEventEnvelope \<or> a \<ge> kc_maxTries c)" "me_fires e a (retryDelay c a)"
          "f1 = (if is_zero_time first then me_failedAt e a else first)" for f1
        using 1 that Pair Inl by simp
      then show ?thesis
        using Pair Inl park_returns [OF 1(2,3)] by (subst handle_from.simps) (auto simp: Let_def)
    qed
  qed
qed

section \<open>What the consumer needs of a projector\<close>

locale projection =
  fixes P :: "'e projector"
    and achieved :: "envelope \<Rightarrow> cluster \<Rightarrow> bool"
  assumes books_kept: "same_books cl (snd (pj_Handle P e env cl))"
    and achieves: "pj_Handle P e env cl = (Inr u, cl') \<Longrightarrow> achieved env cl'"
    and stable: "achieved env cl \<Longrightarrow> achieved env (snd (pj_Handle P e env' cl))"
    and data_only: "achieved env cl \<Longrightarrow> same_data cl cl' \<Longrightarrow> achieved env cl'"

text \<open>An event in consumed_events has been dealt with; \<^verbatim>\<open>L\<close> are the events of the topic.\<close>

definition books_ok :: "(envelope \<Rightarrow> cluster \<Rightarrow> bool) \<Rightarrow> string \<Rightarrow> envelope set \<Rightarrow> cluster \<Rightarrow> bool" where
  "books_ok achieved name L cl \<longleftrightarrow> (\<forall>env\<in>L. \<forall>d. has_consumed (ev_EventID env) name (cl d) \<longrightarrow> achieved env cl)"

definition parked_position :: "'e consumer \<Rightarrow> kafka_message \<Rightarrow> string \<times> string \<times> int \<times> int" where
  "parked_position c m = (truncateConsumerFailureText (kc_groupID c) 255, truncateConsumerFailureText (km_Topic m) 255,
     km_Partition m, km_Offset m)"

definition parked_keys :: "db \<Rightarrow> ((string \<times> string \<times> int \<times> int) \<times> raw) set" where
  "parked_keys s = (\<lambda>r. (position_of r, cf_payload r)) ` set (failed s)"

definition parked_at :: "'e consumer \<Rightarrow> kafka_message \<Rightarrow> cluster \<Rightarrow> bool" where
  "parked_at c m cl \<longleftrightarrow>
     (\<exists>d. (parked_position c m, km_Value m) \<in> parked_keys (cl d))"

definition settled :: "(envelope \<Rightarrow> cluster \<Rightarrow> bool) \<Rightarrow> 'e consumer \<Rightarrow> kafka_message \<Rightarrow> cluster \<Rightarrow> bool" where
  "settled achieved c m cl \<longleftrightarrow> (\<exists>env. km_Value m = JSONOf env \<and> achieved env cl) \<or> parked_at c m cl"

definition topic_events :: "kafka_message set \<Rightarrow> envelope set" where
  "topic_events M = {env. JSONOf env \<in> km_Value ` M}"

text \<open>The messages of a partition: an offset names one message, and an event id one event.\<close>

definition partition_ok :: "kafka_message set \<Rightarrow> bool" where
  "partition_ok M \<longleftrightarrow> inj_on ev_EventID (topic_events M)
     \<and> (\<forall>m\<in>M. \<forall>m'\<in>M. km_Offset m = km_Offset m' \<longrightarrow> m = m')"

lemma same_books_consumed: "same_books cl cl' \<Longrightarrow> has_consumed ev n (cl' d) = has_consumed ev n (cl d)"
  by (simp add: same_books_def has_consumed_def)

lemma merge_key [simp]: "position_of (merge_failed r new) = position_of r" "cf_payload (merge_failed r new) = cf_payload new"
  by (simp_all add: merge_failed_def position_of_def)

lemma parked_keysI: "r \<in> set (failed s) \<Longrightarrow> (position_of r, cf_payload r) \<in> parked_keys s"
  by (auto simp: parked_keys_def)

lemma failed_after_payload:
  assumes "(q, v) \<in> parked_keys s" "q = position_of new \<Longrightarrow> cf_payload new = v"
  shows "(q, v) \<in> parked_keys (s\<lparr>failed := failed_after new s\<rparr>)"
proof -
  obtain r where r: "r \<in> set (failed s)" "position_of r = q" "cf_payload r = v" using assms(1) by (auto simp: parked_keys_def)
  show ?thesis
  proof (cases "q = position_of new")
    case True
    then have "position_of new \<in> position_of ` set (failed s)" using r by (metis imageI)
    then have "merge_failed r new \<in> set (failed_after new s)" using r True by (auto simp: failed_after_def)
    then show ?thesis using True r assms(2) parked_keysI [of "merge_failed r new" "s\<lparr>failed := failed_after new s\<rparr>"] by simp
  next
    case False
    then have "r \<in> set (failed_after new s)" using r by (auto simp: failed_after_def image_iff)
    then show ?thesis using r parked_keysI [of r "s\<lparr>failed := failed_after new s\<rparr>"] by simp
  qed
qed

lemma failed_after_new: "(position_of new, cf_payload new) \<in> parked_keys (s\<lparr>failed := failed_after new s\<rparr>)"
proof (cases "position_of new \<in> position_of ` set (failed s)")
  case True
  then obtain r where "r \<in> set (failed s)" "position_of r = position_of new" by auto
  then have "merge_failed r new \<in> set (failed_after new s)" using True by (auto simp: failed_after_def)
  then show ?thesis using \<open>position_of r = position_of new\<close> parked_keysI [of "merge_failed r new" "s\<lparr>failed := failed_after new s\<rparr>"] by simp
next
  case False
  then show ?thesis by (simp add: failed_after_def parked_keys_def)
qed

lemma position_failed_of: "position_of (failed_of (failure_of c m a err t u)) = parked_position c m"
    "cf_payload (failed_of (failure_of c m a err t u)) = km_Value m"
  by (simp_all add: position_of_def failed_of_def failure_of_def parked_position_def)

lemma record_shard:
  "snd (on_shard d (Record env f) cl) = cl
   \<or> snd (on_shard d (Record env f) cl) = cl(d := (cl d)\<lparr>failed := failed_after (failed_of f) (cl d)\<rparr>)"
  using record_cases [of env f "cl d"] by (auto simp: on_shard_def case_prod_unfold Let_def)

lemma record_keeps_parked:
  assumes "parked_at c m' cl" "parked_position c m = parked_position c m' \<Longrightarrow> m = m'"
  shows "parked_at c m' (snd (on_shard d (Record env (failure_of c m a err t u)) cl))"
proof -
  let ?new = "failed_of (failure_of c m a err t u)"
  from assms(1) obtain j where j: "(parked_position c m', km_Value m') \<in> parked_keys (cl j)"
    by (auto simp: parked_at_def)
  have "cf_payload ?new = km_Value m'" if "parked_position c m' = position_of ?new"
    using that assms(2) by (simp add: position_failed_of)
  from failed_after_payload [OF j this]
  have "(parked_position c m', km_Value m') \<in> parked_keys ((cl(d := (cl d)\<lparr>failed := failed_after ?new (cl d)\<rparr>)) j)"
    using j by (cases "j = d") simp_all
  then have "parked_at c m' (cl(d := (cl d)\<lparr>failed := failed_after ?new (cl d)\<rparr>))"
    unfolding parked_at_def by blast
  then show ?thesis
    using record_shard [of d env "failure_of c m a err t u" cl] assms(1) by metis
qed

lemma record_parks:
  assumes "fst (Record env (failure_of c m a err t u) (cl d)) = Inr ()"
  shows "parked_at c m (snd (on_shard d (Record env (failure_of c m a err t u)) cl))"
proof -
  let ?f = "failure_of c m a err t u"
  have "Record env ?f (cl d) = (Inr (), snd (Record env ?f (cl d)))" using assms by (metis prod.collapse)
  from record_ok [OF this]
  have "snd (on_shard d (Record env ?f) cl) d = (cl d)\<lparr>failed := failed_after (failed_of ?f) (cl d)\<rparr>" by simp
  then have "(parked_position c m, km_Value m) \<in> parked_keys (snd (on_shard d (Record env ?f) cl) d)"
    using failed_after_new [of "failed_of ?f" "cl d"] by (simp add: position_failed_of)
  then show ?thesis unfolding parked_at_def by blast
qed

lemma has_consumed_append:
  "has_consumed ev n (s\<lparr>consumed := consumed s @ [row]\<rparr>) \<longleftrightarrow> has_consumed ev n s \<or> ev = ce_event row \<and> n = ce_consumer row"
  by (auto simp: has_consumed_def)

text \<open>The ways through one attempt.\<close>

lemma attempt_forms:
  assumes "attempt_message c pe m cl = (x, cl')"
  obtains (idle) e where "x = Inl e" "cl' = cl"
    | (seen) env d where "km_Value m = JSONOf env" "has_consumed (ev_EventID env) (pj_Name (kc_projector c)) (cl d)"
        "cl' = cl" "x = Inr ()"
    | (refused) env e where "km_Value m = JSONOf env" "x = Inl e" "cl' = snd (pj_Handle (kc_projector c) (pe_handle pe) env cl)"
    | (marked) env d where "km_Value m = JSONOf env"
        "pj_Handle (kc_projector c) (pe_handle pe) env cl = (Inr (), snd (pj_Handle (kc_projector c) (pe_handle pe) env cl))"
        "(x, cl') = on_shard d (markConsumed (pe_mark pe) (ev_EventID env) (pj_Name (kc_projector c)) (pe_now pe))
           (snd (pj_Handle (kc_projector c) (pe_handle pe) env cl))"
proof (cases "\<exists>d env. select_dedup c (km_Value m) = Inr (Some d) \<and> km_Value m = JSONOf env \<and> ev_EventID env \<noteq> [] \<and> pe_check pe = None")
  case False
  then have "\<exists>e. x = Inl e \<and> cl' = cl"
    using assms
    by (auto simp: attempt_message_def ProcessOnce_def alreadyConsumed_def split: sum.splits option.splits raw.splits if_splits)
  then show ?thesis using idle by blast
next
  case True
  then obtain d env where d: "select_dedup c (km_Value m) = Inr (Some d)" "km_Value m = JSONOf env" "ev_EventID env \<noteq> []"
    "pe_check pe = None" by blast
  let ?h = "pj_Handle (kc_projector c) (pe_handle pe) env cl"
  have sel: "select_dedup c (JSONOf env) = Inr (Some d)" using d(1,2) by simp
  have a: "attempt_message c pe m cl = (if has_consumed (ev_EventID env) (pj_Name (kc_projector c)) (cl d) then (Inr (), cl)
      else (case ?h of (Inl e, cl') \<Rightarrow> (Inl e, cl')
            | (Inr _, cl') \<Rightarrow> on_shard d (markConsumed (pe_mark pe) (ev_EventID env) (pj_Name (kc_projector c)) (pe_now pe)) cl'))"
    by (simp add: attempt_message_def ProcessOnce_def alreadyConsumed_def d(2-4) sel)
  show ?thesis
  proof (cases "has_consumed (ev_EventID env) (pj_Name (kc_projector c)) (cl d)")
    case True
    then show ?thesis using a assms seen [OF d(2) True] by simp
  next
    case no: False
    show ?thesis
    proof (cases "fst ?h")
      case (Inl e)
      then have "?h = (Inl e, snd ?h)" by (metis prod.collapse)
      then have "(x, cl') = (Inl e, snd ?h)" using a assms no by (metis (no_types, lifting) old.prod.case sum.case(1))
      then show ?thesis using refused [OF d(2)] by simp
    next
      case (Inr u)
      then have h: "?h = (Inr (), snd ?h)" by (metis prod.collapse old.unit.exhaust)
      then have "(x, cl') = on_shard d (markConsumed (pe_mark pe) (ev_EventID env) (pj_Name (kc_projector c)) (pe_now pe)) (snd ?h)"
        using a assms no by (metis (no_types, lifting) old.prod.case sum.case(2))
      then show ?thesis using marked [OF d(2) h] by blast
    qed
  qed
qed

context projection
begin

lemma handle_books:
  "books_ok achieved (pj_Name P) L cl \<Longrightarrow> books_ok achieved (pj_Name P) L (snd (pj_Handle P e env cl))"
  using books_kept [of cl e env] stable unfolding books_ok_def by (metis same_books_consumed)

lemma handle_failed: "failed (snd (pj_Handle P e env cl) d) = failed (cl d)"
  using books_kept [of cl e env] by (simp add: same_books_def)

text \<open>One attempt: it keeps the books truthful, and its success means that the event is dealt with.\<close>

lemma attempt_ok:
  assumes "kc_projector c = P" "inj_on ev_EventID L" "\<And>env. km_Value m = JSONOf env \<Longrightarrow> env \<in> L"
    "books_ok achieved (pj_Name P) L cl" "attempt_message c pe m cl = (x, cl')"
  shows "books_ok achieved (pj_Name P) L cl' \<and> (\<forall>env. achieved env cl \<longrightarrow> achieved env cl')
    \<and> (\<forall>d. failed (cl' d) = failed (cl d)) \<and> (x = Inr u \<longrightarrow> (\<exists>env. km_Value m = JSONOf env \<and> achieved env cl'))"
proof -
  from assms(5) show ?thesis
  proof (cases rule: attempt_forms)
    case idle
    then show ?thesis using assms(4) by simp
  next
    case (seen env d)
    note seen = seen [unfolded assms(1)]
    then have "env \<in> L" using assms(3) by simp
    then have "achieved env cl" using assms(4) seen(2) by (auto simp: books_ok_def)
    then show ?thesis using seen assms(4) by blast
  next
    case (refused env e)
    note refused = refused [unfolded assms(1)]
    then show ?thesis using handle_books [OF assms(4)] stable handle_failed by blast
  next
    case (marked env d)
    note marked = marked [unfolded assms(1)]
    let ?h = "snd (pj_Handle P (pe_handle pe) env cl)"
    have books: "books_ok achieved (pj_Name P) L ?h"
      by (rule handle_books [OF assms(4)])
    have a: "achieved env ?h" using achieves [OF marked(2)] .
    have cl': "cl' = ?h \<or> cl' = ?h(d := (?h d)\<lparr>consumed := consumed (?h d)
        @ [\<lparr>ce_event = ev_EventID env, ce_consumer = pj_Name P, ce_processed = datetime3 (pe_now pe)\<rparr>]\<rparr>)"
      using marked(3) mark_cases [of "pe_mark pe" "ev_EventID env" "pj_Name P" "pe_now pe" "?h d"]
      by (auto simp: on_shard_def case_prod_unfold Let_def)
    then have data: "same_data ?h cl'" by (auto simp: same_data_def)
    have "books_ok achieved (pj_Name P) L cl'"
      unfolding books_ok_def
    proof (intro ballI allI impI)
      fix e j
      assume e: "e \<in> L" "has_consumed (ev_EventID e) (pj_Name P) (cl' j)"
      then consider "has_consumed (ev_EventID e) (pj_Name P) (?h j)" | "ev_EventID e = ev_EventID env"
        using cl' has_consumed_append by (cases "j = d") auto
      then show "achieved e cl'"
      proof cases
        case 1
        then show ?thesis using books e(1) data_only data by (auto simp: books_ok_def)
      next
        case 2
        then have "e = env" using assms(2,3) e(1) marked(1) by (auto dest: inj_onD)
        then show ?thesis using a data_only data by blast
      qed
    qed
    moreover have "failed (cl' j) = failed (cl j)" for j
      using cl' handle_failed [of "pe_handle pe" env cl] by auto
    ultimately show ?thesis using a stable data_only data marked(1) by blast
  qed
qed

end

context projection
begin

text \<open>Storing a failure disturbs nothing.\<close>

lemma record_ok_books:
  assumes "books_ok achieved (pj_Name P) L cl"
  shows "books_ok achieved (pj_Name P) L (snd (on_shard d (Record env f) cl))
    \<and> (\<forall>ev. achieved ev cl \<longrightarrow> achieved ev (snd (on_shard d (Record env f) cl)))"
proof -
  let ?cl = "snd (on_shard d (Record env f) cl)"
  have data: "same_data cl ?cl" using record_shard [of d env f cl] by (auto simp: same_data_def)
  have "consumed (?cl j) = consumed (cl j)" for j using record_shard [of d env f cl] by auto
  then have "has_consumed ev n (?cl j) = has_consumed ev n (cl j)" for ev n j by (simp add: has_consumed_def)
  then show ?thesis using assms data_only data unfolding books_ok_def by blast
qed

text \<open>What handling one message keeps: the books, what is achieved and what is parked.\<close>

definition kept_from :: "'e consumer \<Rightarrow> kafka_message set \<Rightarrow> cluster \<Rightarrow> cluster \<Rightarrow> bool" where
  "kept_from c M cl cl' \<longleftrightarrow> books_ok achieved (pj_Name P) (topic_events M) cl'
     \<and> (\<forall>env. achieved env cl \<longrightarrow> achieved env cl') \<and> (\<forall>m\<in>M. parked_at c m cl \<longrightarrow> parked_at c m cl')"

lemma kept_settled: "kept_from c M cl cl' \<Longrightarrow> m \<in> M \<Longrightarrow> settled achieved c m cl \<Longrightarrow> settled achieved c m cl'"
  unfolding kept_from_def settled_def by blast

lemma kept_trans: "kept_from c M cl cl1 \<Longrightarrow> kept_from c M cl1 cl2 \<Longrightarrow> kept_from c M cl cl2"
  unfolding kept_from_def by blast

lemma attempt_kept:
  assumes "kc_projector c = P" "partition_ok M" "m \<in> M" "kept_from c M cl0 cl" "attempt_message c pe m cl = (x, cl')"
  shows "kept_from c M cl0 cl' \<and> (x = Inr u \<longrightarrow> settled achieved c m cl')"
proof -
  have L: "env \<in> topic_events M" if "km_Value m = JSONOf env" for env
    using that assms(3) by (force simp: topic_events_def)
  have books: "books_ok achieved (pj_Name P) (topic_events M) cl" using assms(4) by (simp add: kept_from_def)
  have inj: "inj_on ev_EventID (topic_events M)" using assms(2) by (simp add: partition_ok_def)
  note a = attempt_ok [OF assms(1) inj L books assms(5), of u]
  then have "parked_at c k cl' = parked_at c k cl" for k by (simp add: parked_at_def parked_keys_def)
  then show ?thesis using a assms(4) unfolding kept_from_def settled_def by blast
qed

lemma same_position: "partition_ok M \<Longrightarrow> m \<in> M \<Longrightarrow> m' \<in> M \<Longrightarrow> parked_position c m = parked_position c m' \<Longrightarrow> m = m'"
  by (simp add: partition_ok_def parked_position_def)

lemma record_kept:
  assumes "partition_ok M" "m \<in> M" "kept_from c M cl0 cl"
  shows "kept_from c M cl0 (snd (on_shard d (Record env (failure_of c m a err t u)) cl))"
proof -
  have "books_ok achieved (pj_Name P) (topic_events M) cl" using assms(3) by (simp add: kept_from_def)
  note b = record_ok_books [OF this, of d env "failure_of c m a err t u"]
  have "parked_at c m' (snd (on_shard d (Record env (failure_of c m a err t u)) cl))" if "m' \<in> M" "parked_at c m' cl" for m'
    using record_keeps_parked [OF that(2), of m d env a err t u] same_position [OF assms(1,2) that(1)] by blast
  with b assms(3) show ?thesis unfolding kept_from_def by blast
qed

lemma park_kept:
  assumes "partition_ok M" "m \<in> M" "kept_from c M cl0 cl" "park c e m a err first cl = Some (out, cl')"
  shows "kept_from c M cl0 cl' \<and> (out = Parked \<longrightarrow> settled achieved c m cl') \<and> out \<noteq> Handled"
proof -
  let ?f = "failure_of c m a err first (me_failedAt e a)"
  obtain rerr where r: "recordFailure c e (failure_store c (km_Value m)) ?f cl = Some (rerr, cl')"
    "out = Parked \<longrightarrow> rerr = None" "out \<noteq> Handled"
    using assms(4) by (auto simp: park_def split: option.splits prod.splits)
  show ?thesis
  proof (cases "failure_store c (km_Value m)")
    case None
    then show ?thesis using r assms(3) by (auto simp: recordFailure_def)
  next
    case (Some d)
    then have "record_from c e d ?f 1 cl = Some (rerr, cl')" using r(1) by (simp add: recordFailure_def)
    from record_from_inv [OF this, of "kept_from c M cl0"]
    have s: "store_end (kept_from c M cl0) e d ?f (rerr, cl')" using record_kept [OF assms(1,2)] assms(3) by blast
    have "settled achieved c m cl'" if out: "out = Parked"
    proof -
      obtain n cl1 where "fst (Record (me_record e n) ?f (cl1 d)) = Inr ()" "cl' = snd (on_shard d (Record (me_record e n) ?f) cl1)"
        using s r(2) out unfolding store_end_def by auto
      then show ?thesis using record_parks unfolding settled_def by blast
    qed
    then show ?thesis using s r(3) by (simp add: store_end_def)
  qed
qed

lemma handle_kept:
  assumes "handle_from c e m a first cl = Some (out, cl')" "kc_projector c = P" "partition_ok M" "m \<in> M" "kept_from c M cl0 cl"
  shows "kept_from c M cl0 cl' \<and> (out = Handled \<or> out = Parked \<longrightarrow> settled achieved c m cl')"
  using assms
proof (induction c e m a first cl rule: handle_from.induct)
  case (1 c e m a first cl)
  obtain x cl1 where x: "attempt_message c (me_process e a) m cl = (x, cl1)" by (metis surj_pair)
  note k = attempt_kept [OF 1(3,4,5,6) x]
  show ?case
  proof (cases x)
    case (Inr u)
    then have "out = Handled" "cl' = cl1" using 1(2) x by (simp_all add: handle_from.simps [of c e m a first cl])
    then show ?thesis using k Inr by blast
  next
    case (Inl err)
    let ?first = "if is_zero_time first then me_failedAt e a else first"
    have h: "(if errors_is err ErrInvalidEventEnvelope \<or> a \<ge> kc_maxTries c then park c e m a err ?first cl1
        else if me_fires e a (retryDelay c a) then handle_from c e m (a + 1) ?first cl1
        else Some (Stopped None, cl1)) = Some (out, cl')"
      using 1(2) unfolding handle_from.simps [of c e m a first cl] x prod.case Inl sum.case Let_def .
    consider (park) "park c e m a err ?first cl1 = Some (out, cl')"
      | (again) "\<not> (errors_is err ErrInvalidEventEnvelope \<or> a \<ge> kc_maxTries c)" "me_fires e a (retryDelay c a)"
          "handle_from c e m (a + 1) ?first cl1 = Some (out, cl')"
      | (stopped) "out = Stopped None" "cl' = cl1"
    proof (cases "errors_is err ErrInvalidEventEnvelope \<or> a \<ge> kc_maxTries c")
      case True
      then show ?thesis using h park by (simp only: if_True)
    next
      case False
      then show ?thesis using h again stopped by (cases "me_fires e a (retryDelay c a)") (simp_all only: if_True if_False option.inject prod.inject simp_thms)
    qed
    then show ?thesis
    proof cases
      case park
      then show ?thesis using park_kept [OF 1(4,5) _ park] k by blast
    next
      case again
      show ?thesis using 1(1) [OF x [symmetric] Inl refl again(1,2,3) 1(3,4,5)] k by blast
    next
      case stopped
      then show ?thesis using k by simp
    qed
  qed
qed

end

section \<open>The consumer over a partition\<close>

text \<open>
  A state is the committed offset, the position of the reader and the databases.  run handles the message at
  its position and commits, which may fail; it returns and is started again at the committed offset; it
  crashes at any point, which leaves behind a part of what an attempt does; and the rest of the system
  writes to the databases, as long as it takes back nothing that was achieved or parked and does not write
  to consumed_events under this name (it may delete from it).
\<close>

definition harmless ::
  "(envelope \<Rightarrow> cluster \<Rightarrow> bool) \<Rightarrow> 'e consumer \<Rightarrow> kafka_message set \<Rightarrow> cluster \<Rightarrow> cluster \<Rightarrow> bool" where
  "harmless achieved c M cl cl' \<longleftrightarrow> (\<forall>env. achieved env cl \<longrightarrow> achieved env cl')
     \<and> (\<forall>env\<in>topic_events M. \<forall>d. has_consumed (ev_EventID env) (pj_Name (kc_projector c)) (cl' d)
          \<longrightarrow> has_consumed (ev_EventID env) (pj_Name (kc_projector c)) (cl d))
     \<and> (\<forall>m\<in>M. parked_at c m cl \<longrightarrow> parked_at c m cl')"

type_synonym reader = "nat \<times> nat \<times> cluster"

inductive consume_step :: "(envelope \<Rightarrow> cluster \<Rightarrow> bool) \<Rightarrow> 'e consumer \<Rightarrow> kafka_message list \<Rightarrow> reader \<Rightarrow> reader \<Rightarrow> bool"
  for achieved c log where
  message: "k < length log \<Longrightarrow> handle_message c e (log ! k) cl = Some (out, cl') \<Longrightarrow> out = Handled \<or> out = Parked \<Longrightarrow>
    consume_step achieved c log (n, k, cl) (if commit_ok then Suc k else n, Suc k, cl')"
| stopped: "k < length log \<Longrightarrow> handle_message c e (log ! k) cl = Some (Stopped x, cl') \<Longrightarrow>
    consume_step achieved c log (n, k, cl) (n, n, cl')"
| partial: "m \<in> set log \<Longrightarrow> consume_step achieved c log (n, k, cl) (n, k, snd (attempt_message c pe m cl))"
| restart: "consume_step achieved c log (n, k, cl) (n, n, cl)"
| foreign: "harmless achieved c (set log) cl cl' \<Longrightarrow> consume_step achieved c log (n, k, cl) (n, k, cl')"

definition reader_ok :: "(envelope \<Rightarrow> cluster \<Rightarrow> bool) \<Rightarrow> 'e consumer \<Rightarrow> kafka_message list \<Rightarrow> reader \<Rightarrow> bool" where
  "reader_ok achieved c log x \<longleftrightarrow> (case x of (n, k, cl) \<Rightarrow> n \<le> k \<and> k \<le> length log
     \<and> books_ok achieved (pj_Name (kc_projector c)) (topic_events (set log)) cl
     \<and> (\<forall>j<k. settled achieved c (log ! j) cl))"

context projection
begin

lemma kept_reader:
  assumes "kc_projector c = P" "reader_ok achieved c log (n, k, cl)" "kept_from c (set log) cl cl'"
  shows "reader_ok achieved c log (n, k, cl') \<and> reader_ok achieved c log (n, n, cl')"
proof -
  have "settled achieved c (log ! j) cl'" if "j < k" for j
    using that assms(2) kept_settled [OF assms(3), of "log ! j"] by (simp add: reader_ok_def)
  then show ?thesis using assms by (simp add: reader_ok_def kept_from_def)
qed

lemma kept_refl: "books_ok achieved (pj_Name P) (topic_events M) cl \<Longrightarrow> kept_from c M cl cl"
  by (simp add: kept_from_def)

lemma step_keeps:
  assumes "consume_step achieved c log x y" "kc_projector c = P" "partition_ok (set log)" "reader_ok achieved c log x"
  shows "reader_ok achieved c log y"
  using assms(1)
proof (cases rule: consume_step.cases)
  case (message k e cl out cl' n commit_ok)
  have r: "reader_ok achieved c log (n, k, cl)" using assms(4) message by simp
  then have "kept_from c (set log) cl cl" using assms(2) kept_refl by (simp add: reader_ok_def)
  from handle_kept [OF message(4) [unfolded handle_message_def] assms(2,3) nth_mem [OF message(3)] this] message(5)
  have k: "kept_from c (set log) cl cl'" "settled achieved c (log ! k) cl'" by simp_all
  have "reader_ok achieved c log (n, k, cl')" using kept_reader [OF assms(2) r k(1)] by simp
  then have "reader_ok achieved c log (n, Suc k, cl')"
    using message(3) k(2) by (auto simp: reader_ok_def less_Suc_eq)
  then show ?thesis using message(2) by (auto simp: reader_ok_def)
next
  case (stopped k e cl x' cl' n)
  have r: "reader_ok achieved c log (n, k, cl)" using assms(4) stopped by simp
  then have "kept_from c (set log) cl cl" using assms(2) kept_refl by (simp add: reader_ok_def)
  from handle_kept [OF stopped(4) [unfolded handle_message_def] assms(2,3) nth_mem [OF stopped(3)] this]
  show ?thesis using kept_reader [OF assms(2) r] stopped(2) by simp
next
  case (partial m n k cl pe)
  have r: "reader_ok achieved c log (n, k, cl)" using assms(4) partial by simp
  then have k: "kept_from c (set log) cl cl" using assms(2) kept_refl by (simp add: reader_ok_def)
  obtain x' cl' where a: "attempt_message c pe m cl = (x', cl')" by (metis surj_pair)
  from attempt_kept [OF assms(2,3) partial(3) k a, of "()"]
  show ?thesis using kept_reader [OF assms(2) r] partial(2) a by simp
next
  case (restart n k cl)
  then show ?thesis using assms(4) by (auto simp: reader_ok_def)
next
  case (foreign cl cl' n k)
  have r: "reader_ok achieved c log (n, k, cl)" using assms(4) foreign by simp
  then have "books_ok achieved (pj_Name (kc_projector c)) (topic_events (set log)) cl" by (simp add: reader_ok_def)
  then have "books_ok achieved (pj_Name P) (topic_events (set log)) cl'"
    using foreign(3) assms(2) unfolding books_ok_def harmless_def by blast
  then have "kept_from c (set log) cl cl'" using foreign(3) unfolding kept_from_def harmless_def by blast
  then show ?thesis using kept_reader [OF assms(2) r] foreign(2) by simp
qed

lemma run_settles:
  assumes "(consume_step achieved c log)\<^sup>*\<^sup>* x y" "kc_projector c = P" "partition_ok (set log)" "reader_ok achieved c log x"
  shows "reader_ok achieved c log y"
  using assms by (induction rule: rtranclp_induct) (auto intro: step_keeps)

end

section \<open>Properties\<close>

text \<open>The waits between the attempts of a consumer double from the configured minimum up to the maximum: the
  loop with its overflow guard computes the minimum of the maximum and the exact product.\<close>

theorem retry_delay_is_exponential:
  assumes "policy_ok c" "1 \<le> n"
  shows "retryDelay c n = min (kc_retryMax c) (kc_retryMin c * 2 ^ nat (n - 1))"
  using assms delay_loop_closed [of "kc_retryMin c" "kc_retryMax c" n 1]
  by (simp add: retryDelay_def policy_ok_def)

lemma retry_delay_is_exponential_witness:
  "retryDelay (NewKafkaConsumer ''farm'' ''g'' (Some ''db'') (LogProjector :: unit projector)) 3 = second"
  using retry_delay_is_exponential [OF policy_new, of 3 "''farm''" "''g''" "Some ''db''" LogProjector]
  by (simp add: NewKafkaConsumer_def)

text \<open>C22: the consumer always comes to an end with a message.  After at most the configured number of attempts
  it parks the message, and it returns as soon as one try to store the failure succeeds or the context
  ends, whatever the projector, the dedup store and the message are.\<close>

theorem consumer_ends_with_every_message:
  assumes "store_stops c e n" "1 \<le> n"
  shows "\<exists>out cl'. handle_message c e m cl = Some (out, cl')"
  using handle_returns [OF assms, of m 1 0 cl] by (auto simp: handle_message_def)

text \<open>C21: no message is skipped.  On every schedule of deliveries, failed commits, restarts, crashes and writes of
  the rest of the system, a message below the committed offset has been dealt with by the projector, or
  its bytes are parked under its position; for every projector that meets the contract of the consumer.\<close>

theorem committed_offsets_are_settled:
  assumes "projection (kc_projector c) achieved" "partition_ok (set log)"
    and "books_ok achieved (pj_Name (kc_projector c)) (topic_events (set log)) cl0"
    and "(consume_step achieved c log)\<^sup>*\<^sup>* (0, 0, cl0) (n, k, cl)" "j < n"
  shows "settled achieved c (log ! j) cl"
proof -
  have "reader_ok achieved c log (0, 0, cl0)" using assms(3) by (simp add: reader_ok_def)
  from projection.run_settles [OF assms(1,4) refl assms(2) this] show ?thesis
    using assms(5) by (simp add: reader_ok_def)
qed

end
