(* ===== verification/CrossShardSteal.thy ===== *)
theory CrossShardSteal
  imports Consumer Economy
begin

text \<open>
  internal/farm/infrastructure/cross_shard_steal_projector.go: the destination half of a steal whose thief
  lives on another shard than the farm.  The projector credits the stolen crop on the shard of the thief and
  records the event in the ledger of that shard in the same transaction, so a redelivered event is
  recognised by the unique key of the ledger.
\<close>

text \<open>The decider of gamesvr: the credit is deferred when owner and thief are on different shards.\<close>

definition deferred_decider :: "router \<Rightarrow> int \<Rightarrow> int \<Rightarrow> bool" where
  "deferred_decider r ownerUserID actorUserID =
     (case (ShardForUserID r ownerUserID, ShardForUserID r actorUserID) of
        (Inr ownerShard, Inr actorShard) \<Rightarrow> ownerShard \<noteq> actorShard
      | _ \<Rightarrow> False)"

text \<open>The ledger insert comes first: a duplicate key means that an earlier delivery has committed both.\<close>

definition steal_credit_body :: "env \<Rightarrow> int \<Rightarrow> string \<Rightarrow> int \<Rightarrow> string \<Rightarrow> (db, unit ended) tx" where
  "steal_credit_body env actorID cropID amount eventID =
     (\<lambda>s. case insertEconomyTransaction env actorID ''CROSS_SHARD_STEAL'' eventID ''CROP'' 0 0 0 ''FARM_STOLEN'' s of
        Inl e \<Rightarrow> if IsDuplicateKey e then Inr (NoCommit (), s) else Inl e
      | Inr (_, s1) \<Rightarrow>
          tx_seq (addInventoryItem env actorID ''CROP'' (cropIDToItemID cropID) amount)
            (tx_return (Committed ())) s1)"

definition creditCrossShardSteal :: "env \<Rightarrow> int \<Rightarrow> string \<Rightarrow> int \<Rightarrow> string \<Rightarrow> db \<Rightarrow> (go_error + unit) \<times> db" where
  "creditCrossShardSteal env actorID cropID amount eventID = run_tx env (steal_credit_body env actorID cropID amount eventID)"

definition parse_user :: "string \<Rightarrow> int option" where
  "parse_user s = (case parse_int 64 s of Some u \<Rightarrow> if u > 0 then Some u else None | None \<Rightarrow> None)"

text \<open>The checks of Handle: what is to be credited where, None for an event that needs nothing here.\<close>

definition steal_target :: "router \<Rightarrow> envelope \<Rightarrow> go_error + (string \<times> int \<times> string \<times> int \<times> string) option" where
  "steal_target r env =
     (if ev_EventType env \<noteq> EventTypeFarmStolen then Inr None
      else
        (case NormalizeV7 (ev_EventID env) of
           None \<Rightarrow> Inl (PlainErr ''invalid farm.stolen event_id'')
         | Some eventID \<Rightarrow>
             (case ev_Payload env of
                FarmStolen p \<Rightarrow>
                  (case parse_user (fs_OwnerUserID p) of
                     None \<Rightarrow> Inl (PlainErr ''invalid stolen owner_user_id'')
                   | Some ownerID \<Rightarrow>
                       (case parse_user (fs_ActorUserID p) of
                          None \<Rightarrow> Inl (PlainErr ''invalid stolen actor_user_id'')
                        | Some actorID \<Rightarrow>
                            if actorID = ownerID then Inl (PlainErr ''invalid stolen actor_user_id'')
                            else if fs_StolenAmount p \<le> 0 \<or> fs_CropID p = [] then Inl (PlainErr ''invalid stolen asset payload'')
                            else
                              (case ShardForUserID r ownerID of
                                 Inl e \<Rightarrow> Inl e
                               | Inr ownerShard \<Rightarrow>
                                   (case ShardForUserID r actorID of
                                      Inl e \<Rightarrow> Inl e
                                    | Inr actorShard \<Rightarrow>
                                        if ownerShard = actorShard then Inr None
                                        else Inr (Some (actorShard, actorID, fs_CropID p, fs_StolenAmount p, eventID))))))
              | _ \<Rightarrow> Inl (PlainErr ''invalid stolen payload''))))"

definition steal_Handle :: "router \<Rightarrow> env \<Rightarrow> envelope \<Rightarrow> cluster \<Rightarrow> (go_error + unit) \<times> cluster" where
  "steal_Handle r env ev cl =
     (case steal_target r ev of
        Inl e \<Rightarrow> (Inl e, cl)
      | Inr None \<Rightarrow> (Inr (), cl)
      | Inr (Some (shard, actorID, cropID, amount, eventID)) \<Rightarrow>
          on_shard shard (creditCrossShardSteal env actorID cropID amount eventID) cl)"

definition CrossShardStealProjector :: "router \<Rightarrow> env projector" where
  "CrossShardStealProjector r = \<lparr>pj_Name = ''cross-shard-steal-projector'', pj_Handle = (\<lambda>env. steal_Handle r (driver_env env))\<rparr>"

text \<open>The receipts of this projector are kept on the shard of the thief.\<close>

fun actor_user_id :: "payload \<Rightarrow> string" where
  "actor_user_id (FarmPlanted p) = fp_ActorUserID p"
| "actor_user_id (FarmHarvested p) = fh_ActorUserID p"
| "actor_user_id (FarmWatered p) = fw_ActorUserID p"
| "actor_user_id (FarmStolen p) = fs_ActorUserID p"
| "actor_user_id _ = []"

definition steal_dedup :: "router \<Rightarrow> string \<Rightarrow> raw \<Rightarrow> go_error + string option" where
  "steal_dedup r fallback raw =
     (case raw of
        NotJSON _ \<Rightarrow> Inl (PlainErr ''unmarshal'')
      | JSONOf env \<Rightarrow>
          if ev_EventType env \<noteq> EventTypeFarmStolen then Inr (Some fallback)
          else
            (case parse_user (actor_user_id (ev_Payload env)) of
               None \<Rightarrow> Inl (PlainErr ''invalid farm.stolen actor_user_id'')
             | Some actorID \<Rightarrow>
                 (case ShardForUserID r actorID of Inl e \<Rightarrow> Inl e | Inr name \<Rightarrow> Inr (Some name))))"

definition steal_consumer :: "router \<Rightarrow> string \<Rightarrow> string \<Rightarrow> env consumer" where
  "steal_consumer r topic fallback =
     WithDedupResolver (steal_dedup r fallback)
       (NewKafkaConsumer topic ''farm-cross-shard-steal-projector-v1'' (Some fallback) (CrossShardStealProjector r))"

end
