(* ===== verification/StealProps.thy ===== *)
theory StealProps
  imports ConsumerProps CrossShardSteal EconomyProps
begin

text \<open>
  The cross-shard steal: the credit is a durable-once operation, its projector meets the contract of the
  consumer, and so every steal event whose offset is committed has credited the thief exactly once or
  is parked for an operator.
\<close>

section \<open>One credit\<close>

definition steal_key :: "int \<Rightarrow> string \<Rightarrow> int \<times> string \<times> string" where
  "steal_key actorID eventID = (actorID, ''CROSS_SHARD_STEAL'', eventID)"

definition steal_applied :: "int \<Rightarrow> string \<Rightarrow> db \<Rightarrow> bool" where
  "steal_applied actorID eventID s \<longleftrightarrow> (\<exists>h. binary16 eventID = Inr h \<and> ledger s (steal_key actorID h) \<noteq> None)"

definition steal_entry :: ledger_row where
  "steal_entry = \<lparr>lg_currency = ''CROP'', lg_before = 0, lg_delta = 0, lg_after = 0, lg_source = ''FARM_STOLEN'', lg_committed = True\<rparr>"

definition crop_of :: "int \<Rightarrow> string \<Rightarrow> int \<times> string \<times> int" where
  "crop_of actorID cropID = (actorID, ''CROP'', cropIDToItemID cropID)"

definition credited :: "int \<Rightarrow> string \<Rightarrow> int \<Rightarrow> string \<Rightarrow> db \<Rightarrow> db" where
  "credited actorID cropID amount h s = s\<lparr>ledger := (ledger s)(steal_key actorID h \<mapsto> steal_entry),
     inventory := (inventory s)(crop_of actorID cropID \<mapsto> quantity s (crop_of actorID cropID) + amount)\<rparr>"

lemma steal_body_Inr:
  assumes "steal_credit_body env u crop amount ev s = Inr (Committed x, s')"
  shows "\<exists>h. binary16 ev = Inr h \<and> ledger s (steal_key u h) = None \<and> s' = credited u crop amount h s
    \<and> 0 \<le> quantity s (crop_of u crop) + amount \<and> quantity s (crop_of u crop) + amount \<le> max_int64"
proof -
  obtain y s1 where i: "insertEconomyTransaction env u ''CROSS_SHARD_STEAL'' ev ''CROP'' 0 0 0 ''FARM_STOLEN'' s = Inr (y, s1)"
    "addInventoryItem env u ''CROP'' (cropIDToItemID crop) amount s1 = Inr ((), s')"
    using assms by (auto simp: steal_credit_body_def tx_inv split: sum.splits if_splits)
  from i(1) obtain h where h: "binary16 ev = Inr h" "ledger s (steal_key u h) = None"
    "s1 = s\<lparr>ledger := (ledger s)(steal_key u h \<mapsto> steal_entry)\<rparr>"
    unfolding insertEconomyTransaction_Inr by (auto simp: ledger_entry_def steal_key_def steal_entry_def)
  then show ?thesis using i(2)
    by (auto simp: addInventoryItem_def tx_inv stmt_def credited_def quantity_def qty_def crop_of_def Let_def split: if_splits option.splits)
qed

lemma steal_body_dup:
  assumes "steal_credit_body (driver_env env) u crop amount ev s = Inr (NoCommit x, t)"
  shows "steal_applied u ev s \<and> t = s"
proof (cases "insertEconomyTransaction (driver_env env) u ''CROSS_SHARD_STEAL'' ev ''CROP'' 0 0 0 ''FARM_STOLEN'' s")
  case (Inl e)
  then have e: "IsDuplicateKey e" "t = s" using assms by (auto simp: steal_credit_body_def split: if_splits)
  have f: "fault (driver_env env) ''insert_economy'' = None"
  proof (rule ccontr)
    assume "fault (driver_env env) ''insert_economy'' \<noteq> None"
    then obtain e' where "fault (driver_env env) ''insert_economy'' = Some e'" by blast
    then show False using Inl e(1) driver_fault [of env "''insert_economy''" e']
      by (simp add: insertEconomyTransaction_def stmt_def tx_fail_def)
  qed
  have nd: "\<not> IsDuplicateKey (MySQLErr 1406)" "\<not> IsDuplicateKey null_violation"
    by (simp_all add: IsDuplicateKey_def isNumber_def null_violation_def)
  show ?thesis
  proof (cases "binary16 ev")
    case (Inl b)
    then have "e = b" using \<open>insertEconomyTransaction _ _ _ _ _ _ _ _ _ _ = Inl e\<close> f
      by (simp add: insertEconomyTransaction_def stmt_def lift_sum_def tx_bind_def tx_fail_def)
    then show ?thesis using Inl e(1) nd by (auto simp: binary16_def split: option.splits if_splits)
  next
    case (Inr h)
    then have "ledger s (steal_key u h) \<noteq> None" using \<open>insertEconomyTransaction _ _ _ _ _ _ _ _ _ _ = Inl e\<close> f
      by (auto simp: insertEconomyTransaction_def stmt_def lift_sum_def tx_bind_def tx_return_def steal_key_def split: if_splits)
    then show ?thesis using Inr e(2) by (auto simp: steal_applied_def)
  qed
next
  case (Inr p)
  then show ?thesis using assms by (auto simp: steal_credit_body_def tx_inv split: prod.splits)
qed

lemma credited_applied: "binary16 ev = Inr h \<Longrightarrow> steal_applied u ev (credited u crop amount h s)"
  by (simp add: steal_applied_def credited_def)

lemma credit_effect:
  "snd (creditCrossShardSteal env u crop amount ev s) = s
   \<or> (\<exists>h. binary16 ev = Inr h \<and> ledger s (steal_key u h) = None
        \<and> snd (creditCrossShardSteal env u crop amount ev s) = credited u crop amount h s)"
proof (cases rule: run_tx_cases [of env "steal_credit_body env u crop amount ev" s])
  case (applied a s')
  then show ?thesis using steal_body_Inr [OF applied(1)] unfolding creditCrossShardSteal_def by auto
qed (simp add: creditCrossShardSteal_def)

interpretation steal_once: durable_once "\<lambda>_. True" "\<lambda>env. creditCrossShardSteal (driver_env env) u crop amount ev" "steal_applied u ev"
  for u crop amount ev
proof (standard, goal_cases)
  case (2 s e)
  then show ?case using credit_effect [of "driver_env e" u crop amount ev s] by (auto simp: steal_applied_def)
next
  case (3 s e)
  show ?case using credit_effect [of "driver_env e" u crop amount ev s] credited_applied by auto
next
  case (4 s e r)
  then obtain t where t: "run_tx (driver_env e) (steal_credit_body (driver_env e) u crop amount ev) s = (Inr r, t)"
    unfolding creditCrossShardSteal_def by (metis prod.collapse)
  from run_tx_ok [OF this] show ?case
  proof
    assume "steal_credit_body (driver_env e) u crop amount ev s = Inr (Committed r, t)"
    from steal_body_Inr [OF this] show ?thesis using t credited_applied by (auto simp: creditCrossShardSteal_def)
  next
    assume "\<exists>v. steal_credit_body (driver_env e) u crop amount ev s = Inr (NoCommit r, v) \<and> t = s"
    then show ?thesis using t steal_body_dup by (auto simp: creditCrossShardSteal_def)
  qed
qed simp

section \<open>The projector\<close>

definition steal_achieved :: "router \<Rightarrow> envelope \<Rightarrow> cluster \<Rightarrow> bool" where
  "steal_achieved r env cl =
     (case steal_target r env of
        Inl _ \<Rightarrow> False
      | Inr None \<Rightarrow> True
      | Inr (Some (shard, u, crop, amount, ev)) \<Rightarrow> steal_applied u ev (cl shard))"

lemma credit_keeps_applied:
  "steal_applied u' ev' s \<Longrightarrow> steal_applied u' ev' (snd (creditCrossShardSteal env u crop amount ev s))"
  using credit_effect [of env u crop amount ev s] by (auto simp: steal_applied_def credited_def)

lemma credit_keeps_books:
  "consumed (snd (creditCrossShardSteal env u crop amount ev s)) = consumed s
   \<and> failed (snd (creditCrossShardSteal env u crop amount ev s)) = failed s"
  using credit_effect [of env u crop amount ev s] by (auto simp: credited_def)

lemma steal_handle_shard:
  "snd (steal_Handle r env ev cl) d = cl d
   \<or> (\<exists>u crop amount i. steal_target r ev = Inr (Some (d, u, crop, amount, i))
        \<and> snd (steal_Handle r env ev cl) d = snd (creditCrossShardSteal env u crop amount i (cl d)))"
proof (cases "steal_target r ev")
  case (Inr o1)
  show ?thesis
  proof (cases o1)
    case (Some q)
    obtain j u crop amount i where q: "q = (j, u, crop, amount, i)" by (metis surj_pair)
    then show ?thesis using Inr Some by (cases "j = d") (auto simp: steal_Handle_def)
  qed (use Inr in \<open>simp add: steal_Handle_def\<close>)
qed (simp add: steal_Handle_def)

lemma steal_handle_applied:
  "steal_applied u ev (cl d) \<Longrightarrow> steal_applied u ev (snd (steal_Handle r env e cl) d)"
  using steal_handle_shard [of r env e cl d] credit_keeps_applied by metis

interpretation steal_projection: projection "CrossShardStealProjector r" "steal_achieved r" for r
proof (standard, goal_cases)
  case (1 cl e env)
  show ?case
    unfolding same_books_def CrossShardStealProjector_def
    using steal_handle_shard [of r "driver_env e" env cl] credit_keeps_books by simp metis
next
  case (2 e env cl u cl')
  then have h: "steal_Handle r (driver_env e) env cl = (Inr u, cl')" by (simp add: CrossShardStealProjector_def)
  show ?case
  proof (cases "steal_target r env")
    case (Inl x)
    then show ?thesis using h by (simp add: steal_Handle_def)
  next
    case (Inr o1)
    show ?thesis
    proof (cases o1)
      case None
      then show ?thesis using Inr by (simp add: steal_achieved_def)
    next
      case (Some q)
      obtain j v crop amount i where q: "q = (j, v, crop, amount, i)" by (metis surj_pair)
      let ?c = "creditCrossShardSteal (driver_env e) v crop amount i (cl j)"
      have "fst ?c = Inr u" "cl' j = snd ?c"
        using h Inr Some q by (auto simp: steal_Handle_def on_shard_def case_prod_unfold Let_def)
      then have "steal_applied v i (cl' j)" using steal_once.success_means_applied [where s = "cl j" and e = e and r = u] by simp
      then show ?thesis using Inr Some q by (simp add: steal_achieved_def)
    qed
  qed
next
  case (3 env cl e env')
  then show ?case
    by (auto simp: steal_achieved_def CrossShardStealProjector_def steal_handle_applied split: sum.splits option.splits)
next
  case (4 env cl cl')
  have "ledger (cl' d) = ledger (cl d)" for d
  proof -
    have "cl' d = (cl d)\<lparr>consumed := consumed (cl' d), failed := failed (cl' d)\<rparr>" using 4(2) by (simp add: same_data_def)
    from arg_cong [OF this, of ledger] show ?thesis by simp
  qed
  then show ?case using 4(1) by (auto simp: steal_achieved_def steal_applied_def split: sum.splits option.splits)
qed

section \<open>From the farm to the thief\<close>

lemma credit_history:
  "others_keep (\<lambda>_. True) (steal_applied u ev) h \<Longrightarrow>
    effective (\<lambda>env. creditCrossShardSteal (driver_env env) u crop amount ev) h t \<le> 1"
  by (rule steal_once.at_most_once) simp

lemma parse_user_format: "0 < u \<Longrightarrow> u \<le> max_int64 \<Longrightarrow> parse_user (format_int u) = Some u"
  by (simp add: parse_user_def parse_format_i64 in_i64_def min_int64_def)

lemma ShardForUserID_Inr: "ShardForUserID r u = Inr n \<Longrightarrow> 0 < u"
  by (simp add: ShardForUserID_def split: if_splits)

lemma no_crop_no_yield: "harvestYieldForCrop [] = 1"
  by code_simp

text \<open>What the outbox row of a steal makes the projector do.\<close>

lemma stolen_row_target:
  assumes "ar_eventType ar = EventTypeFarmStolen" "snap_OwnerID snap = owner" "0 < ar_stolenAmount ar"
    "ar_harvestedCropID ar \<noteq> []" "cmd_ActorUser cmd \<noteq> owner" "owner \<le> max_int64" "cmd_ActorUser cmd \<le> max_int64"
    "NormalizeV7 (fresh_id env) = Some ev" "ShardForUserID r owner = Inr a" "ShardForUserID r (cmd_ActorUser cmd) = Inr b"
  shows "steal_target r (ob_payload (entry_of env cmd snap ar s)) =
    Inr (if a = b then None else Some (b, cmd_ActorUser cmd, ar_harvestedCropID ar, ar_stolenAmount ar, ev))"
  using assms ShardForUserID_Inr [OF assms(9)] ShardForUserID_Inr [OF assms(10)]
  by (simp add: entry_of_def outbox_entry_def pending_row_def farm_envelope_def steal_target_def buildPayload_def
      parse_user_format event_type_defs Let_def)

text \<open>C23: a steal moves the crop exactly once.  The transaction on the shard of the farm either credits the
  thief itself or appends one event that makes the projector credit exactly the stolen amount on the shard of
  the thief, never both; and however often the event is delivered, retried or interrupted, the credit
  is applied at most once and is exactly that amount.\<close>

theorem stolen_crop_arrives_once:
  assumes "snd (commitFarmOnce c cmd env s) \<noteq> s" "cmd_Type cmd = CmdStealCrop" "wf_db s" "snapshots_ok s"
    and "deferRemoteStealCredit c = Some (deferred_decider r)" "NormalizeV7 (fresh_id env) = Some ev"
    and "ShardForUserID r (cmd_FarmID cmd) = Inr a" "ShardForUserID r (cmd_ActorUser cmd) = Inr b"
    and "cmd_FarmID cmd \<le> max_int64" "cmd_ActorUser cmd \<le> max_int64"
  shows "\<exists>row crop amount. outbox (snd (commitFarmOnce c cmd env s)) = outbox s @ [row] \<and> 1 \<le> amount
    \<and> steal_target r (ob_payload row) = Inr (if a = b then None else Some (b, cmd_ActorUser cmd, crop, amount, ev))
    \<and> (\<forall>k. quantity (snd (commitFarmOnce c cmd env s)) k
          = quantity s k + (if a = b \<and> k = crop_of (cmd_ActorUser cmd) crop then amount else 0))
    \<and> (\<forall>h t. others_keep (\<lambda>_. True) (steal_applied (cmd_ActorUser cmd) ev) h \<longrightarrow>
          effective (\<lambda>e. creditCrossShardSteal (driver_env e) (cmd_ActorUser cmd) crop amount ev) h t \<le> 1)
    \<and> (\<forall>e t. snd (creditCrossShardSteal e (cmd_ActorUser cmd) crop amount ev t) \<noteq> t \<longrightarrow>
          (\<forall>k. quantity (snd (creditCrossShardSteal e (cmd_ActorUser cmd) crop amount ev t)) k
             = quantity t k + (if k = crop_of (cmd_ActorUser cmd) crop then amount else 0)))"
proof -
  have ok: "farms_ok s" "inventory_ok s" using assms(3) by (simp_all add: wf_db_def)
  from assms(1) ok(2) show ?thesis
  proof (rule farm_took_effect)
    fix snap snap1 :: snapshot and nxt :: "gotime option" and ar iv
    let ?new = "snap1\<lparr>snap_Version := i64 (snap_Version snap + 1)\<rparr>"
    let ?u = "cmd_ActorUser cmd"
    assume h: "read_snapshot s (cmd_FarmID cmd) = Inr (snap, nxt)"
      "cmd_Type cmd \<in> {CmdHelpWater, CmdStealCrop} \<Longrightarrow> ?u \<noteq> snap_OwnerID snap \<and> are_friends c s ?u (snap_OwnerID snap)"
      "applyCmd snap cmd (clk_now env) = Inr (ar, snap1)"
      "inv_change (side_delta c cmd ar (snap_OwnerID snap)) (inventory s) iv"
      and s': "snd (commitFarmOnce c cmd env s) = s\<lparr>inventory := iv,
            farms := upsert_farm ?new (pet_farms cmd (clk_now env) s),
            receipts := receipts_after env cmd ?new (receipts s),
            outbox := outbox s @ [entry_of env cmd ?new ar s]\<rparr>"
    note ids = read_snapshot_ids [OF h(1) ok(1)] and r = read_snapshot_ok [OF assms(4) ok(1) h(1)]
    let ?p = "target_plot snap cmd"
    have st: "apply_steal snap cmd ?p (clk_now env) = Inr (ar, snap1)"
      using h(3) assms(2) by (simp add: applyCmd_target)
    have ev: "ar_eventType ar = EventTypeFarmStolen"
      using st by (auto simp: apply_steal_def plain_result_def Let_def split: if_splits)
    have eff: "EffectiveStatus ?p (clk_now env) = PlotMature" using st by (auto simp: apply_steal_def split: if_splits)
    note p = target_plot_ok [OF r(1) effective_unset [OF eff]]
    note res = apply_steal_result [OF st p(1)]
    have crop: "ar_harvestedCropID ar \<noteq> []" using res(1,2,6) no_crop_no_yield by auto
    have own: "snap_OwnerID ?new = cmd_FarmID cmd" using ids applyCmd_frame [OF h(3)] by simp
    have fr: "?u \<noteq> cmd_FarmID cmd" using h(2) assms(2) ids by simp
    have t: "steal_target r (ob_payload (entry_of env cmd ?new ar s)) =
        Inr (if a = b then None else Some (b, ?u, ar_harvestedCropID ar, ar_stolenAmount ar, ev))"
      using stolen_row_target [OF ev own _ crop fr assms(9,10,6,7,8)] res(1,2) by simp
    have d: "deferred_steal c cmd (cmd_FarmID cmd) \<longleftrightarrow> a \<noteq> b"
      using assms(5,7,8) by (simp add: deferred_steal_def deferred_decider_def)
    have q: "quantity (snd (commitFarmOnce c cmd env s)) k
        = quantity s k + (if a = b \<and> k = crop_of ?u (ar_harvestedCropID ar) then ar_stolenAmount ar else 0)" for k
      using inv_change_qty [OF h(4), of k] ids assms(2) d
      by (simp add: quantity_def s' side_delta_def crop_key_def crop_of_def)
    have once: "quantity (snd (creditCrossShardSteal e ?u (ar_harvestedCropID ar) (ar_stolenAmount ar) ev t)) k
             = quantity t k + (if k = crop_of ?u (ar_harvestedCropID ar) then ar_stolenAmount ar else 0)"
      if "snd (creditCrossShardSteal e ?u (ar_harvestedCropID ar) (ar_stolenAmount ar) ev t) \<noteq> t" for e t k
      using credit_effect [of e ?u "ar_harvestedCropID ar" "ar_stolenAmount ar" ev t] that
      by (auto simp: credited_def quantity_def qty_def)
    have o: "outbox (snd (commitFarmOnce c cmd env s)) = outbox s @ [entry_of env cmd ?new ar s]" by (simp add: s')
    have one: "1 \<le> ar_stolenAmount ar" using res(1,2) by simp
    show ?thesis
      by (intro exI [of _ "entry_of env cmd ?new ar s"] exI [of _ "ar_harvestedCropID ar"] exI [of _ "ar_stolenAmount ar"]
          conjI allI impI o one t q once credit_history)
  qed
qed

section \<open>Witnesses\<close>

definition demo_router :: router where
  "demo_router = [''a'', ''b'']"

definition remote_committer :: committer where
  "remote_committer = plain_committer\<lparr>deferRemoteStealCredit := Some (deferred_decider demo_router)\<rparr>"

definition steal_event_id :: string where
  "steal_event_id = ''0000000003e87fffbfffffffffffffff''"

definition remote_env :: env where
  "remote_env = demo_env\<lparr>fresh_id := steal_event_id\<rparr>"

lemma remote_effect: "snd (commitFarmOnce remote_committer steal_command remote_env demo_db) \<noteq> demo_db"
  by (rule outbox_neq, code_simp)

lemma stolen_crop_arrives_once_witness:
  "\<exists>row crop amount. outbox (snd (commitFarmOnce remote_committer steal_command remote_env demo_db)) = outbox demo_db @ [row]
    \<and> 1 \<le> amount \<and> steal_target demo_router (ob_payload row) = Inr (Some (''a'', 8, crop, amount, steal_event_id))
    \<and> effective (\<lambda>e. creditCrossShardSteal (driver_env e) 8 crop amount steal_event_id) [Inl lost_ack_env, Inl demo_env] empty_db \<le> 1"
proof -
  have v: "NormalizeV7 (fresh_id remote_env) = Some steal_event_id" by code_simp
  have r: "ShardForUserID demo_router (cmd_FarmID steal_command) = Inr ''b''"
    "ShardForUserID demo_router (cmd_ActorUser steal_command) = Inr ''a''" by code_simp+
  have c: "cmd_Type steal_command = CmdStealCrop" "cmd_FarmID steal_command \<le> max_int64" "cmd_ActorUser steal_command = 8"
    "(8 :: int) \<le> max_int64" by (simp_all add: steal_command_def demo_command_def max_int64_def)
  have d: "deferRemoteStealCredit remote_committer = Some (deferred_decider demo_router)" by (simp add: remote_committer_def)
  have o: "others_keep (\<lambda>_. True) (steal_applied 8 steal_event_id) [Inl lost_ack_env, Inl demo_env]" by simp
  show ?thesis
  proof -
    from stolen_crop_arrives_once [OF remote_effect c(1) demo_wf(1,2) d v r(1) r(2) c(2)] c(3,4)
    have "\<exists>row crop amount. outbox (snd (commitFarmOnce remote_committer steal_command remote_env demo_db)) = outbox demo_db @ [row]
      \<and> 1 \<le> amount \<and> steal_target demo_router (ob_payload row) = Inr (if ''b'' = ''a'' then None else Some (''a'', 8, crop, amount, steal_event_id))
      \<and> (\<forall>h t. others_keep (\<lambda>_. True) (steal_applied 8 steal_event_id) h \<longrightarrow>
          effective (\<lambda>e. creditCrossShardSteal (driver_env e) 8 crop amount steal_event_id) h t \<le> 1)"
      by (simp only: simp_thms) blast
    then show ?thesis using o by (elim exE conjE) (intro exI conjI, assumption, assumption, simp, blast)
  qed
qed

definition stolen_event :: envelope where
  "stolen_event = \<lparr>ev_EventID = steal_event_id, ev_EventType = EventTypeFarmStolen, ev_AggregateType = ''farm'',
     ev_AggregateID = ''7'', ev_SchemaVersion = 1, ev_OccurredAt = demo_now, ev_CorrelationID = ''c1'',
     ev_CausationID = ''c1'', ev_Payload = FarmStolen \<lparr>fs_FarmID = ''7'', fs_OwnerUserID = ''7'', fs_ActorUserID = ''8'',
       fs_OwnerDisplayName = [], fs_ActorDisplayName = [], fs_FarmVersion = 5, fs_PlotID = 1, fs_CropID = ''WHEAT'',
       fs_StolenAmount = 1, fs_RemainingYield = 4, fs_StolenAt = demo_now, fs_CmdID = ''c1''\<rparr>\<rparr>"

definition demo_message :: kafka_message where
  "demo_message = \<lparr>km_Topic = ''farm'', km_Partition = 0, km_Offset = 17, km_Key = ''7'', km_Value = JSONOf stolen_event\<rparr>"

definition demo_msg_env :: "env msg_env" where
  "demo_msg_env = \<lparr>me_process = (\<lambda>n. \<lparr>pe_check = None, pe_handle = demo_env, pe_mark = demo_env, pe_now = demo_now\<rparr>),
     me_failedAt = (\<lambda>n. demo_now), me_record = (\<lambda>n. demo_env), me_ctxDone = (\<lambda>n. False), me_fires = (\<lambda>n d. True),
     me_recordFires = (\<lambda>n d. True)\<rparr>"

definition demo_consumer :: "env consumer" where
  "demo_consumer = steal_consumer demo_router ''farm'' ''a''"

lemma consumer_ends_with_every_message_witness:
  "store_stops demo_consumer demo_msg_env 1 \<and> (\<exists>out cl'. handle_message demo_consumer demo_msg_env demo_message (\<lambda>_. empty_db) = Some (out, cl'))"
proof -
  have s: "store_stops demo_consumer demo_msg_env 1" by (simp add: store_stops_def demo_msg_env_def demo_env_def)
  then show ?thesis using consumer_ends_with_every_message [OF s, of demo_message "\<lambda>_. empty_db"] by simp
qed

lemma demo_handled:
  "case handle_message demo_consumer demo_msg_env demo_message (\<lambda>_. empty_db) of Some (Handled, _) \<Rightarrow> True | _ \<Rightarrow> False"
  by code_simp

lemma committed_offsets_are_settled_witness:
  "\<exists>cl. (consume_step (steal_achieved demo_router) demo_consumer [demo_message])\<^sup>*\<^sup>* (0, 0, \<lambda>_. empty_db) (1, 1, cl)
     \<and> settled (steal_achieved demo_router) demo_consumer demo_message cl"
proof -
  obtain cl where h: "handle_message demo_consumer demo_msg_env ([demo_message] ! 0) (\<lambda>_. empty_db) = Some (Handled, cl)"
    using demo_handled by (auto split: option.splits ending.splits prod.splits)
  have "consume_step (steal_achieved demo_router) demo_consumer [demo_message] (0, 0, \<lambda>_. empty_db) (if True then Suc 0 else 0, Suc 0, cl)"
    by (rule consume_step.message [OF _ h]) simp_all
  then have run: "(consume_step (steal_achieved demo_router) demo_consumer [demo_message])\<^sup>*\<^sup>* (0, 0, \<lambda>_. empty_db) (1, 1, cl)"
    by simp
  have p: "kc_projector demo_consumer = CrossShardStealProjector demo_router"
    by (simp add: demo_consumer_def steal_consumer_def WithDedupResolver_def NewKafkaConsumer_def)
  have "books_ok (steal_achieved demo_router) n L (\<lambda>_. empty_db)" for n L
    by (simp add: books_ok_def has_consumed_def empty_db_def)
  moreover have "partition_ok (set [demo_message])" by (auto simp: partition_ok_def topic_events_def inj_on_def demo_message_def)
  moreover have "projection (kc_projector demo_consumer) (steal_achieved demo_router)"
    unfolding p by (rule steal_projection.projection_axioms)
  ultimately have "settled (steal_achieved demo_router) demo_consumer ([demo_message] ! 0) cl"
    using committed_offsets_are_settled [OF _ _ _ run, of 0] by simp
  then show ?thesis using run by auto
qed

section \<open>Finding: Handle may run more than once for an event\<close>

text \<open>The documentation of EventProjector says that Handle is called once per event.  The receipt is written after
  Handle and in a statement of its own: when that statement fails, the event is handled again, so a
  projector that is not idempotent by itself counts it twice.\<close>

definition counting_projector :: "unit projector" where
  "counting_projector = \<lparr>pj_Name = ''counter'', pj_Handle = (\<lambda>e env cl. (Inr (),
     cl(''a'' := (cl ''a'')\<lparr>wallets := (wallets (cl ''a''))(7 \<mapsto> opt_or (wallets (cl ''a'') 7) 0 + 1)\<rparr>)))\<rparr>"

definition flaky_msg_env :: "unit msg_env" where
  "flaky_msg_env = \<lparr>me_process = (\<lambda>n. \<lparr>pe_check = None, pe_handle = (),
       pe_mark = (if n = 1 then demo_env\<lparr>commit_outcome := CommitFailed CtxDeadline\<rparr> else demo_env), pe_now = demo_now\<rparr>),
     me_failedAt = (\<lambda>n. demo_now), me_record = (\<lambda>n. demo_env), me_ctxDone = (\<lambda>n. False), me_fires = (\<lambda>n d. True),
     me_recordFires = (\<lambda>n d. True)\<rparr>"

lemma handle_can_run_twice:
  "case handle_message (NewKafkaConsumer ''farm'' ''g'' (Some ''a'') counting_projector) flaky_msg_env demo_message (\<lambda>_. empty_db) of
     Some (Handled, cl) \<Rightarrow> wallets (cl ''a'') 7 = Some 2 | _ \<Rightarrow> False"
  by code_simp

end
