(* ===== verification/Mail.thy ===== *)
theory Mail
  imports Schema MysqlRetry
begin

text \<open>
  internal/mail: the mailbox service on MySQL.  The triggers of the mails table, which own the unread
  counter and the version of a mailbox, are part of the statements that fire them.  The notification after a
  commit is best effort and outside the transaction: the operations return the summary that is sent.
\<close>

section \<open>Requests\<close>

record attachment_req =
  aq_ItemType :: string
  aq_ItemID :: int
  aq_Quantity :: int

record send_mail_req =
  sm_UserID :: int
  sm_SenderID :: "int option"
  sm_MailType :: string
  sm_Title :: string
  sm_Content :: string
  sm_ExpiresAt :: "gotime option"
  sm_Attachments :: "attachment_req list"

record mailbox_summary =
  ms_UserID :: int
  ms_UnreadCount :: int
  ms_Version :: int

text \<open>uint64 of an int64.\<close>

definition u64 :: "int \<Rightarrow> int" where
  "u64 x = x mod 2 ^ 64"

section \<open>The triggers\<close>

definition unread_inserted :: "mailbox_row option \<Rightarrow> mailbox_row" where
  "unread_inserted r = (case r of
     None \<Rightarrow> \<lparr>mb_unread = 1, mb_version = 1\<rparr>
   | Some m \<Rightarrow> m\<lparr>mb_unread := mb_unread m + 1, mb_version := mb_version m + 1\<rparr>)"

definition unread_left :: "mailbox_row option \<Rightarrow> mailbox_row" where
  "unread_left r = (case r of
     None \<Rightarrow> \<lparr>mb_unread = 0, mb_version = 1\<rparr>
   | Some m \<Rightarrow> m\<lparr>mb_unread := max (mb_unread m - 1) 0, mb_version := mb_version m + 1\<rparr>)"

definition fire_trigger :: "(mailbox_row option \<Rightarrow> mailbox_row) \<Rightarrow> int \<Rightarrow> db \<Rightarrow> db" where
  "fire_trigger f u s = s\<lparr>mailboxes := (mailboxes s)(u \<mapsto> f (mailboxes s u))\<rparr>"

section \<open>Sending\<close>

definition MailTypes :: "string list" where
  "MailTypes = [''FRIEND_ACCEPTED'', ''STEAL_NOTIFY'', ''SYSTEM'']"

definition next_mail_id :: "db \<Rightarrow> nat" where
  "next_mail_id s = Suc (fold (\<lambda>r m. max (ml_id r) m) (mails s) 0)"

definition next_attachment_id :: "db \<Rightarrow> nat" where
  "next_attachment_id s = Suc (fold (\<lambda>r m. max (at_id r) m) (attachments s) 0)"

definition insert_mail :: "env \<Rightarrow> send_mail_req \<Rightarrow> (db, nat) tx" where
  "insert_mail env req =
     stmt env ''insert_mail'' (\<lambda>s.
       if length (sm_Title req) > 128 \<or> length (sm_Content req) > 512 \<or> length (sm_MailType req) > 32 then Inl (MySQLErr 1406)
       else if sm_MailType req \<notin> set MailTypes then Inl check_violation
       else
         (let i = next_mail_id s in
          Inr (i, fire_trigger unread_inserted (sm_UserID req)
            (s\<lparr>mails := mails s @ [\<lparr>ml_id = i, ml_user = sm_UserID req, ml_sender = sm_SenderID req,
               ml_type = sm_MailType req, ml_title = sm_Title req, ml_content = sm_Content req, ml_status = MailUnread,
               ml_read_at = None, ml_expires = map_option datetime3 (sm_ExpiresAt req), ml_created = datetime3 (clk_now env)\<rparr>]\<rparr>))))"

definition insert_attachment :: "env \<Rightarrow> nat \<Rightarrow> attachment_req \<Rightarrow> (db, unit) tx" where
  "insert_attachment env mailID att =
     stmt env ''insert_attachment'' (\<lambda>s.
       if length (aq_ItemType att) > 16 then Inl (MySQLErr 1406)
       else Inr ((), s\<lparr>attachments := attachments s @ [\<lparr>at_id = next_attachment_id s, at_mail = mailID,
              at_type = aq_ItemType att, at_item = u64 (aq_ItemID att), at_quantity = u64 (aq_Quantity att), at_claimed = None\<rparr>]\<rparr>))"

definition loadSummaryTx :: "env \<Rightarrow> int \<Rightarrow> (db, mailbox_summary) tx" where
  "loadSummaryTx env userID =
     stmt env ''load_summary'' (\<lambda>s. case mailboxes s userID of
         None \<Rightarrow> Inl SqlNoRows
       | Some m \<Rightarrow> Inr (\<lparr>ms_UserID = userID, ms_UnreadCount = mb_unread m, ms_Version = mb_version m\<rparr>, s))"

definition SendMail :: "env \<Rightarrow> send_mail_req \<Rightarrow> db \<Rightarrow> (go_error + (nat \<times> mailbox_summary)) \<times> db" where
  "SendMail env req =
     run_tx env
       (tx_bind (insert_mail env req) (\<lambda>mailID.
          tx_seq (tx_each (insert_attachment env mailID) (sm_Attachments req))
            (tx_bind (loadSummaryTx env (sm_UserID req)) (\<lambda>summary. tx_return (Committed (mailID, summary))))))"

section \<open>Reading\<close>

definition GetSummary :: "go_error option \<Rightarrow> int \<Rightarrow> db \<Rightarrow> go_error + mailbox_summary" where
  "GetSummary flt userID s =
     (case flt of
        Some e \<Rightarrow> Inl e
      | None \<Rightarrow>
          (case mailboxes s userID of
             None \<Rightarrow> Inr \<lparr>ms_UserID = userID, ms_UnreadCount = 0, ms_Version = 0\<rparr>
           | Some m \<Rightarrow> Inr \<lparr>ms_UserID = userID, ms_UnreadCount = mb_unread m, ms_Version = mb_version m\<rparr>))"

definition list_limit :: "int \<Rightarrow> int" where
  "list_limit limit = (if limit \<le> 0 \<or> limit > 50 then 50 else limit)"

definition loadAttachments :: "db \<Rightarrow> nat list \<Rightarrow> nat \<Rightarrow> attachment_row list" where
  "loadAttachments s mailIDs mailID = (if mailID \<in> set mailIDs then filter (\<lambda>a. at_mail a = mailID) (attachments s) else [])"

definition ListMails :: "int \<Rightarrow> int \<Rightarrow> db \<Rightarrow> (mail_row \<times> attachment_row list) list" where
  "ListMails userID limit s =
     (let rows = take (nat (list_limit limit))
            (sort_key (\<lambda>m. - ml_created m) (filter (\<lambda>m. ml_user m = userID \<and> ml_status m \<noteq> MailDeleted) (mails s)));
          atts = loadAttachments s (map ml_id rows) in
      map (\<lambda>m. (m, atts (ml_id m))) rows)"

text \<open>UPDATE mails SET status='READ': every row that matches and is unread changes and fires the trigger.\<close>

definition read_rows :: "gotime \<Rightarrow> (mail_row \<Rightarrow> bool) \<Rightarrow> db \<Rightarrow> mail_row list" where
  "read_rows now P s = map (\<lambda>m. if P m then m\<lparr>ml_status := MailRead, ml_read_at := Some (datetime3 now)\<rparr> else m) (mails s)"

definition update_read :: "env \<Rightarrow> (mail_row \<Rightarrow> bool) \<Rightarrow> (db, nat) tx" where
  "update_read env P =
     stmt env ''mark_read'' (\<lambda>s.
       (let hit = filter P (mails s) in
        Inr (length hit, fold (\<lambda>m. fire_trigger unread_left (ml_user m)) hit (s\<lparr>mails := read_rows (clk_now env) P s\<rparr>))))"

definition mark_read_where :: "env \<Rightarrow> int \<Rightarrow> (mail_row \<Rightarrow> bool) \<Rightarrow> db \<Rightarrow> (go_error + mailbox_summary option) \<times> db" where
  "mark_read_where env userID P =
     run_tx env
       (tx_bind (update_read env P) (\<lambda>affected.
          if affected = 0 then tx_return (Committed None)
          else tx_bind (loadSummaryTx env userID) (\<lambda>summary. tx_return (Committed (Some summary)))))"

definition MarkRead :: "env \<Rightarrow> nat \<Rightarrow> int \<Rightarrow> db \<Rightarrow> (go_error + mailbox_summary option) \<times> db" where
  "MarkRead env mailID userID =
     mark_read_where env userID (\<lambda>m. ml_id m = mailID \<and> ml_user m = userID \<and> ml_status m = MailUnread)"

definition MarkAllRead :: "env \<Rightarrow> int \<Rightarrow> db \<Rightarrow> (go_error + mailbox_summary option) \<times> db" where
  "MarkAllRead env userID =
     mark_read_where env userID (\<lambda>m. ml_user m = userID \<and> ml_status m = MailUnread)"

section \<open>Claiming\<close>

definition find_attachment :: "nat \<Rightarrow> int \<Rightarrow> db \<Rightarrow> attachment_row option" where
  "find_attachment attachmentID userID s =
     find (\<lambda>a. at_id a = attachmentID \<and> list_ex (\<lambda>m. ml_id m = at_mail a \<and> ml_user m = userID) (mails s)) (attachments s)"

definition creditItem :: "env \<Rightarrow> int \<Rightarrow> string \<Rightarrow> int \<Rightarrow> int \<Rightarrow> (db, unit) tx" where
  "creditItem env userID itemType itemID amount =
     (if itemType = ''COIN''
      then stmt env ''credit_coin'' (\<lambda>s.
             case wallets s userID of
               None \<Rightarrow> Inr ((), s)
             | Some b \<Rightarrow> if max_int64 < b + amount then Inl out_of_range
                         else Inr ((), s\<lparr>wallets := (wallets s)(userID \<mapsto> b + amount)\<rparr>))
      else stmt env ''credit_item'' (\<lambda>s.
             (let q = opt_or (inventory s (userID, itemType, itemID)) 0 + amount in
              if max_int64 < q then Inl out_of_range
              else Inr ((), s\<lparr>inventory := (inventory s)((userID, itemType, itemID) \<mapsto> q)\<rparr>))))"

definition mark_claimed :: "env \<Rightarrow> nat \<Rightarrow> (db, unit) tx" where
  "mark_claimed env attachmentID =
     stmt env ''mark_claimed'' (tx_modify (\<lambda>s. s\<lparr>attachments :=
       map (\<lambda>a. if at_id a = attachmentID then a\<lparr>at_claimed := Some (datetime3 (clk_now env))\<rparr> else a) (attachments s)\<rparr>))"

definition mail_claim_body :: "env \<Rightarrow> nat \<Rightarrow> int \<Rightarrow> (db, unit ended) tx" where
  "mail_claim_body env attachmentID userID =
     tx_bind (stmt env ''load_attachment'' (tx_get (find_attachment attachmentID userID))) (\<lambda>found.
       case found of
         None \<Rightarrow> tx_fail (New MailNotFound)
       | Some a \<Rightarrow>
           tx_seq (tx_guard (at_quantity a \<le> max_int64 \<and> at_item a \<le> max_int64) (PlainErr ''load_attachment''))
             (tx_seq (tx_guard (at_claimed a = None) (New MailAlreadyClaimed))
               (tx_seq (creditItem env userID (at_type a) (at_item a) (at_quantity a))
                 (tx_seq (mark_claimed env attachmentID) (tx_return (Committed ()))))))"

definition claimAttachmentOnce :: "nat \<Rightarrow> int \<Rightarrow> env \<Rightarrow> db \<Rightarrow> (go_error + unit) \<times> db" where
  "claimAttachmentOnce attachmentID userID env = run_tx env (mail_claim_body env attachmentID userID)"

definition ClaimAttachment ::
  "(nat \<Rightarrow> go_error option) \<Rightarrow> (nat \<Rightarrow> env) \<Rightarrow> nat \<Rightarrow> int \<Rightarrow> db \<Rightarrow> (go_error + unit) \<times> db" where
  "ClaimAttachment wait envs attachmentID userID =
     retry_value wait IsTransient (\<lambda>n. claimAttachmentOnce attachmentID userID (envs n))"

end
