(* ===== verification/MailProps.thy ===== *)
theory MailProps
  imports Mail Fixtures
begin

text \<open>
  The mailbox badge is exact and its version moves with it, whatever operations run and whatever fails;
  and an attachment is claimed at most once.
\<close>

section \<open>The badge\<close>

definition unread_of :: "int \<Rightarrow> db \<Rightarrow> mail_row list" where
  "unread_of u s = filter (\<lambda>m. ml_user m = u \<and> ml_status m = MailUnread) (mails s)"

definition badge :: "int \<Rightarrow> db \<Rightarrow> int" where
  "badge u s = (case mailboxes s u of None \<Rightarrow> 0 | Some m \<Rightarrow> mb_unread m)"

definition version :: "int \<Rightarrow> db \<Rightarrow> int" where
  "version u s = (case mailboxes s u of None \<Rightarrow> 0 | Some m \<Rightarrow> mb_version m)"

definition badge_ok :: "db \<Rightarrow> bool" where
  "badge_ok s \<longleftrightarrow> (\<forall>u. badge u s = int (length (unread_of u s)))"

text \<open>A step moves the badge of a mailbox only together with its version.\<close>

definition versioned :: "db \<Rightarrow> db \<Rightarrow> bool" where
  "versioned s s' \<longleftrightarrow> (\<forall>u. version u s \<le> version u s' \<and> (badge u s \<noteq> badge u s' \<longrightarrow> version u s < version u s'))"

lemma versioned_refl [simp]: "versioned s s"
  by (simp add: versioned_def)

lemma versioned_trans: "versioned s t \<Longrightarrow> versioned t r \<Longrightarrow> versioned s r"
  unfolding versioned_def by (metis order_trans order_le_less_trans order_less_le_trans)

lemma fire_inserted [simp]:
  "badge v (fire_trigger unread_inserted u s) = (if v = u then badge u s + 1 else badge v s)"
  "version v (fire_trigger unread_inserted u s) = (if v = u then version u s + 1 else version v s)"
  by (simp_all add: badge_def version_def fire_trigger_def unread_inserted_def split: option.split)

lemma fire_left [simp]:
  "badge v (fire_trigger unread_left u s) = (if v = u then max (badge u s - 1) 0 else badge v s)"
  "version v (fire_trigger unread_left u s) = (if v = u then version u s + 1 else version v s)"
  by (simp_all add: badge_def version_def fire_trigger_def unread_left_def split: option.split)

lemma fire_mails [simp]: "mails (fire_trigger f u s) = mails s"
  by (simp add: fire_trigger_def)

lemma badge_cong:
  "mailboxes s' = mailboxes s \<Longrightarrow> badge u s' = badge u s" "mailboxes s' = mailboxes s \<Longrightarrow> version u s' = version u s"
  by (simp_all add: badge_def version_def)

lemma fold_left:
  "list_all (\<lambda>m. ml_user m = u) hit \<Longrightarrow>
    badge v (fold (\<lambda>m. fire_trigger unread_left (ml_user m)) hit s)
      = (if v = u \<and> hit \<noteq> [] then max (badge u s - int (length hit)) 0 else badge v s)
    \<and> version v (fold (\<lambda>m. fire_trigger unread_left (ml_user m)) hit s) = (if v = u then version u s + int (length hit) else version v s)
    \<and> mails (fold (\<lambda>m. fire_trigger unread_left (ml_user m)) hit s) = mails s"
  by (induction hit arbitrary: s) (auto simp: max_def)

lemma unread_after_read:
  assumes "\<And>m. P m \<Longrightarrow> ml_user m = u \<and> ml_status m = MailUnread"
  shows "length (unread_of v (s\<lparr>mails := read_rows now P s\<rparr>)) + (if v = u then length (filter P (mails s)) else 0)
    = length (unread_of v s)"
proof -
  have "length (filter (\<lambda>m. ml_user m = v \<and> ml_status m = MailUnread)
          (map (\<lambda>m. if P m then m\<lparr>ml_status := MailRead, ml_read_at := Some (datetime3 now)\<rparr> else m) ms))
      + (if v = u then length (filter P ms) else 0)
    = length (filter (\<lambda>m. ml_user m = v \<and> ml_status m = MailUnread) ms)" for ms
  proof (induction ms)
    case (Cons m ms)
    then show ?case using assms [of m] by (cases "P m") auto
  qed simp
  then show ?thesis by (simp add: unread_of_def read_rows_def)
qed

section \<open>The operations\<close>

text \<open>What every operation keeps.\<close>

definition mail_kept :: "db \<Rightarrow> db \<Rightarrow> bool" where
  "mail_kept s s' \<longleftrightarrow> badge_ok s' \<and> versioned s s'"

lemma insert_mail_kept:
  assumes "badge_ok s" "insert_mail env req s = Inr (i, s1)"
  shows "mail_kept s s1"
proof -
  have s1: "s1 = fire_trigger unread_inserted (sm_UserID req) (s\<lparr>mails := mails s @ [\<lparr>ml_id = i, ml_user = sm_UserID req,
      ml_sender = sm_SenderID req, ml_type = sm_MailType req, ml_title = sm_Title req, ml_content = sm_Content req,
      ml_status = MailUnread, ml_read_at = None, ml_expires = map_option datetime3 (sm_ExpiresAt req),
      ml_created = datetime3 (clk_now env)\<rparr>]\<rparr>)"
    using assms(2) by (auto simp: insert_mail_def stmt_def tx_inv Let_def split: option.splits if_splits)
  have "badge u s1 = int (length (unread_of u s1))" for u
    using assms(1) by (simp add: s1 badge_ok_def unread_of_def badge_cong [of "s\<lparr>mails := q\<rparr>" s for q])
  moreover have "versioned s s1"
    by (simp add: s1 versioned_def badge_cong [of "s\<lparr>mails := q\<rparr>" s for q])
  ultimately show ?thesis by (simp add: mail_kept_def badge_ok_def)
qed

lemma attachments_kept:
  "tx_each (insert_attachment env i) atts s = Inr (x, s') \<Longrightarrow> mails s' = mails s \<and> mailboxes s' = mailboxes s"
proof (induction atts arbitrary: s)
  case (Cons a atts)
  then obtain s1 where "insert_attachment env i a s = Inr ((), s1)" "tx_each (insert_attachment env i) atts s1 = Inr (x, s')"
    by (auto simp: tx_inv)
  moreover from this(1) have "mails s1 = mails s \<and> mailboxes s1 = mailboxes s"
    by (auto simp: insert_attachment_def stmt_def tx_inv split: option.splits if_splits)
  ultimately show ?case using Cons.IH by simp
qed (simp add: tx_inv)

lemma mail_kept_cong:
  "mail_kept s t \<Longrightarrow> mails t' = mails t \<Longrightarrow> mailboxes t' = mailboxes t \<Longrightarrow> mail_kept s t'"
  by (simp add: mail_kept_def badge_ok_def versioned_def unread_of_def badge_cong [of t' t])

lemma load_summary_Inr:
  "loadSummaryTx env u s = Inr (m, s') \<longleftrightarrow> fault env ''load_summary'' = None \<and> s' = s \<and> mailboxes s u \<noteq> None
     \<and> m = \<lparr>ms_UserID = u, ms_UnreadCount = badge u s, ms_Version = version u s\<rparr>"
  by (auto simp: loadSummaryTx_def stmt_def tx_inv badge_def version_def split: option.splits)

lemma send_kept:
  assumes "badge_ok s"
  shows "mail_kept s (snd (SendMail env req s))"
  unfolding SendMail_def
proof (rule run_tx_invariant)
  show "mail_kept s s" using assms by (simp add: mail_kept_def)
next
  fix a s'
  assume "tx_bind (insert_mail env req) (\<lambda>mailID. tx_seq (tx_each (insert_attachment env mailID) (sm_Attachments req))
      (tx_bind (loadSummaryTx env (sm_UserID req)) (\<lambda>summary. tx_return (Committed (mailID, summary))))) s = Inr (Committed a, s')"
  then obtain i s1 s2 where "insert_mail env req s = Inr (i, s1)"
    "tx_each (insert_attachment env i) (sm_Attachments req) s1 = Inr ((), s2)" "s' = s2"
    by (auto simp: tx_inv load_summary_Inr)
  then show "mail_kept s s'" using insert_mail_kept [OF assms] attachments_kept mail_kept_cong by metis
qed

lemma read_kept:
  assumes "badge_ok s" "\<And>m. P m \<Longrightarrow> ml_user m = u \<and> ml_status m = MailUnread"
  shows "mail_kept s (snd (mark_read_where env u P s))"
  unfolding mark_read_where_def
proof (rule run_tx_invariant)
  show "mail_kept s s" using assms by (simp add: mail_kept_def)
next
  fix a s'
  let ?hit = "filter P (mails s)"
  let ?t = "s\<lparr>mails := read_rows (clk_now env) P s\<rparr>"
  assume "tx_bind (update_read env P) (\<lambda>affected. if affected = 0 then tx_return (Committed None)
      else tx_bind (loadSummaryTx env u) (\<lambda>summary. tx_return (Committed (Some summary)))) s = Inr (Committed a, s')"
  then have s': "s' = fold (\<lambda>m. fire_trigger unread_left (ml_user m)) ?hit ?t"
    by (auto simp: tx_inv load_summary_Inr update_read_def stmt_def Let_def split: option.splits if_splits)
  have "list_all (\<lambda>m. ml_user m = u) ?hit" using assms(2) by (auto simp: list_all_iff)
  note f = fold_left [OF this, of _ ?t, folded s']
  note c = unread_after_read [where P = P and s = s and now = "clk_now env", OF assms(2)]
  have m: "badge v ?t = badge v s" "version v ?t = version v s" for v by (simp_all add: badge_cong [of ?t s])
  have b: "badge v s = int (length (unread_of v s))" for v using assms(1) by (simp add: badge_ok_def)
  have "badge v s' = int (length (unread_of v s'))" for v
  proof -
    have "unread_of v s' = unread_of v ?t" using f by (simp add: unread_of_def)
    moreover have "badge v s' = (if v = u \<and> ?hit \<noteq> [] then max (badge u s - int (length ?hit)) 0 else badge v s)"
      using f [of v] m by simp
    ultimately show ?thesis using c [of v] b by (cases "v = u"; cases "?hit = []") auto
  qed
  moreover have "versioned s s'" using f m by (auto simp: versioned_def)
  ultimately show "mail_kept s s'" by (simp add: mail_kept_def badge_ok_def)
qed

section \<open>Claiming an attachment\<close>

text \<open>The credential is the claim time on the row; attachment ids are unique.\<close>

definition attachments_ok :: "db \<Rightarrow> bool" where
  "attachments_ok s \<longleftrightarrow> distinct (map at_id (attachments s))"

definition is_claimed :: "nat \<Rightarrow> db \<Rightarrow> bool" where
  "is_claimed i s \<longleftrightarrow> (\<exists>a\<in>set (attachments s). at_id a = i \<and> at_claimed a \<noteq> None)"

definition claimed_rows :: "nat \<Rightarrow> gotime \<Rightarrow> attachment_row list \<Rightarrow> attachment_row list" where
  "claimed_rows i now = map (\<lambda>a. if at_id a = i then a\<lparr>at_claimed := Some (datetime3 now)\<rparr> else a)"

text \<open>What a claim adds to the player's goods.\<close>

definition credited_goods :: "int \<Rightarrow> attachment_row \<Rightarrow> db \<Rightarrow> db" where
  "credited_goods u a s =
     (if at_type a = ''COIN'' then s\<lparr>wallets := (wallets s)(u := map_option (\<lambda>b. b + at_quantity a) (wallets s u))\<rparr>
      else s\<lparr>inventory := (inventory s)((u, at_type a, at_item a) \<mapsto> quantity s (u, at_type a, at_item a) + at_quantity a)\<rparr>)"

lemma credit_item_Inr:
  assumes "creditItem env u (at_type a) (at_item a) (at_quantity a) s = Inr (x, s')"
  shows "s' = credited_goods u a s"
  using assms
  by (auto simp: creditItem_def stmt_def credited_goods_def quantity_def qty_def tx_inv Let_def fun_upd_idem
      split: if_splits option.splits)

lemma mail_claim_Inr:
  assumes "mail_claim_body env i u s = Inr (r, s')"
  shows "\<exists>a. find_attachment i u s = Some a \<and> at_claimed a = None \<and> r = Committed ()
    \<and> s' = (credited_goods u a s)\<lparr>attachments := claimed_rows i (clk_now env) (attachments s)\<rparr>"
proof -
  obtain a s1 where a: "find_attachment i u s = Some a" "at_claimed a = None" "r = Committed ()"
    "creditItem env u (at_type a) (at_item a) (at_quantity a) s = Inr ((), s1)" "mark_claimed env i s1 = Inr ((), s')"
    using assms by (auto simp: mail_claim_body_def stmt_def tx_inv split: option.splits)
  have "attachments (credited_goods u a s) = attachments s" by (simp add: credited_goods_def)
  then show ?thesis
    using a credit_item_Inr [OF a(4)] by (auto simp: mark_claimed_def stmt_def tx_inv claimed_rows_def split: option.splits)
qed

lemma find_attachment_Some:
  "find_attachment i u s = Some a \<Longrightarrow> a \<in> set (attachments s) \<and> at_id a = i
    \<and> (\<exists>m\<in>set (mails s). ml_id m = at_mail a \<and> ml_user m = u)"
  by (auto simp: find_attachment_def find_Some_iff list_ex_iff)

lemma claimed_rows_ids [simp]: "map at_id (claimed_rows i now rs) = map at_id rs"
  by (simp add: claimed_rows_def)

lemma attachment_claim_effect:
  "snd (claimAttachmentOnce i u env s) = s
   \<or> (\<exists>a. find_attachment i u s = Some a \<and> at_claimed a = None
        \<and> snd (claimAttachmentOnce i u env s)
            = (credited_goods u a s)\<lparr>attachments := claimed_rows i (clk_now env) (attachments s)\<rparr>)"
  unfolding claimAttachmentOnce_def
proof (cases rule: run_tx_cases [of env "mail_claim_body env i u" s])
  case (applied x s')
  then show "snd (run_tx env (mail_claim_body env i u) s) = s
   \<or> (\<exists>a. find_attachment i u s = Some a \<and> at_claimed a = None
        \<and> snd (run_tx env (mail_claim_body env i u) s)
            = (credited_goods u a s)\<lparr>attachments := claimed_rows i (clk_now env) (attachments s)\<rparr>)"
    using mail_claim_Inr [OF applied(1)] by auto
qed simp

lemma claimed_after:
  assumes "find_attachment i u s = Some a"
  shows "is_claimed i (t\<lparr>attachments := claimed_rows i now (attachments s)\<rparr>)"
proof -
  have "a \<in> set (attachments s)" "at_id a = i" using find_attachment_Some [OF assms] by auto
  then have "a\<lparr>at_claimed := Some (datetime3 now)\<rparr> \<in> set (claimed_rows i now (attachments s))"
    by (force simp: claimed_rows_def)
  moreover have "at_id (a\<lparr>at_claimed := Some (datetime3 now)\<rparr>) = i" "at_claimed (a\<lparr>at_claimed := Some (datetime3 now)\<rparr>) \<noteq> None"
    using \<open>at_id a = i\<close> by simp_all
  ultimately show ?thesis unfolding is_claimed_def by (intro bexI [of _ "a\<lparr>at_claimed := Some (datetime3 now)\<rparr>"]) simp_all
qed

lemma not_claimed_found:
  "attachments_ok s \<Longrightarrow> find_attachment i u s = Some a \<Longrightarrow> is_claimed i s \<Longrightarrow> at_claimed a \<noteq> None"
  using find_attachment_Some [of i u s a]
  by (auto simp: is_claimed_def attachments_ok_def distinct_map inj_on_def)

interpretation claim_once: durable_once attachments_ok "claimAttachmentOnce i u" "is_claimed i" for i u
proof (standard, goal_cases)
  case (1 s e)
  then show ?case using attachment_claim_effect [of i u e s] by (auto simp: attachments_ok_def)
next
  case (2 s e)
  then show ?case using attachment_claim_effect [of i u e s] not_claimed_found [of s i u] by auto
next
  case (3 s e)
  show ?case using attachment_claim_effect [of i u e s] claimed_after by metis
next
  case (4 s e r)
  then obtain t where t: "run_tx e (mail_claim_body e i u) s = (Inr r, t)"
    unfolding claimAttachmentOnce_def by (metis prod.collapse)
  from run_tx_ok [OF this] have "\<exists>q. mail_claim_body e i u s = Inr (Committed r, t) \<or> mail_claim_body e i u s = Inr (NoCommit r, q)" by blast
  then have "mail_claim_body e i u s = Inr (Committed r, t)" using mail_claim_Inr by blast
  from mail_claim_Inr [OF this] show ?case using t claimed_after by (auto simp: claimAttachmentOnce_def)
qed

interpretation claim_call: durable_once attachments_ok "\<lambda>x. ClaimAttachment (fst x) (snd x) i u" "is_claimed i" for i u
proof (standard, goal_cases)
  case (1 s e)
  then show ?case unfolding ClaimAttachment_def by (rule claim_once.retry_inv)
next
  case (2 s e)
  then show ?case unfolding ClaimAttachment_def by (rule claim_once.retry_replay)
next
  case (3 s e)
  then show ?case unfolding ClaimAttachment_def by (rule claim_once.retry_effect)
next
  case (4 s e r)
  then show ?case unfolding ClaimAttachment_def by (rule claim_once.retry_success)
qed

section \<open>Properties\<close>

datatype mail_op = MSend send_mail_req | MRead nat int | MReadAll int | MClaim nat int

fun mail_exec :: "env \<Rightarrow> mail_op \<Rightarrow> db \<Rightarrow> db" where
  "mail_exec env (MSend req) s = snd (SendMail env req s)"
| "mail_exec env (MRead i u) s = snd (MarkRead env i u s)"
| "mail_exec env (MReadAll u) s = snd (MarkAllRead env u s)"
| "mail_exec env (MClaim i u) s = snd (claimAttachmentOnce i u env s)"

definition mail_run :: "(env \<times> mail_op) list \<Rightarrow> db \<Rightarrow> db" where
  "mail_run ops s = fold (\<lambda>(env, op). mail_exec env op) ops s"

lemma claim_kept:
  assumes "badge_ok s"
  shows "mail_kept s (snd (claimAttachmentOnce i u env s))"
proof (rule mail_kept_cong [of s s])
  show "mail_kept s s" using assms by (simp add: mail_kept_def)
qed (use attachment_claim_effect [of i u env s] in \<open>auto simp: credited_goods_def\<close>)

lemma exec_kept: "badge_ok s \<Longrightarrow> mail_kept s (mail_exec env op s)"
  by (cases op) (auto simp: MarkRead_def MarkAllRead_def intro: send_kept claim_kept intro!: read_kept)

lemma run_kept: "badge_ok s \<Longrightarrow> mail_kept s (mail_run ops s)"
proof (induction ops arbitrary: s)
  case (Cons x ops)
  have k: "mail_kept s (mail_exec (fst x) (snd x) s)" using Cons.prems by (rule exec_kept)
  then have "mail_kept (mail_exec (fst x) (snd x) s) (mail_run ops (mail_exec (fst x) (snd x) s))"
    using Cons.IH by (simp add: mail_kept_def)
  then show ?case using k versioned_trans by (auto simp: mail_kept_def mail_run_def case_prod_unfold)
qed (simp add: mail_run_def mail_kept_def)

text \<open>C24: the badge of a mailbox is exact: over any run of sends, reads and claims, with any failure of the driver, the
  stored counter that GetSummary reports is the number of unread mails, and the version of a mailbox
  never falls and rises whenever its counter changes, so a client that keeps the summary with the highest version is
  never left with an older count.\<close>

theorem mailbox_badge_exact:
  assumes "badge_ok s"
  shows "GetSummary None u (mail_run ops s)
      = Inr \<lparr>ms_UserID = u, ms_UnreadCount = int (length (unread_of u (mail_run ops s))), ms_Version = version u (mail_run ops s)\<rparr>
    \<and> version u s \<le> version u (mail_run ops s)
    \<and> (badge u s = badge u (mail_run ops s) \<or> version u s < version u (mail_run ops s))"
proof -
  have k: "mail_kept s (mail_run ops s)" using assms by (rule run_kept)
  then have "badge u (mail_run ops s) = int (length (unread_of u (mail_run ops s)))" by (simp add: mail_kept_def badge_ok_def)
  moreover have "GetSummary None u t = Inr \<lparr>ms_UserID = u, ms_UnreadCount = badge u t, ms_Version = version u t\<rparr>" for t
    by (simp add: GetSummary_def badge_def version_def split: option.split)
  moreover have "version u s \<le> version u (mail_run ops s)
      \<and> (badge u s = badge u (mail_run ops s) \<or> version u s < version u (mail_run ops s))"
    using k unfolding mail_kept_def versioned_def by blast
  ultimately show ?thesis by simp
qed

text \<open>C25: an attachment is paid out at most once.  However often ClaimAttachment is called or retried, whatever
  fails and whatever else runs in between, at most one attempt changes the database, none after a reported
  success, and that one adds exactly the attached goods to the player who received the mail.\<close>

theorem attachment_claimed_once:
  assumes "attachments_ok s" "others_keep attachments_ok (is_claimed i) h"
  shows "effective (\<lambda>x. ClaimAttachment (fst x) (snd x) i u) h s \<le> 1
    \<and> (fst (ClaimAttachment wait envs i u s) = Inr () \<longrightarrow>
        effective (\<lambda>x. ClaimAttachment (fst x) (snd x) i u) h (snd (ClaimAttachment wait envs i u s)) = 0)
    \<and> (snd (claimAttachmentOnce i u env s) \<noteq> s \<longrightarrow>
        (\<exists>a\<in>set (attachments s). at_id a = i \<and> at_claimed a = None
           \<and> (\<exists>m\<in>set (mails s). ml_id m = at_mail a \<and> ml_user m = u)
           \<and> snd (claimAttachmentOnce i u env s)
               = (credited_goods u a s)\<lparr>attachments := claimed_rows i (clk_now env) (attachments s)\<rparr>))"
proof (intro conjI impI)
  show "effective (\<lambda>x. ClaimAttachment (fst x) (snd x) i u) h s \<le> 1"
    by (rule claim_call.at_most_once [OF assms])
  show "effective (\<lambda>x. ClaimAttachment (fst x) (snd x) i u) h (snd (ClaimAttachment wait envs i u s)) = 0"
    if "fst (ClaimAttachment wait envs i u s) = Inr ()"
    using claim_call.nothing_after_success [where s = s and i = i and u = u and e = "(wait, envs)" and r = "()" and h = h] assms that by simp
  show "\<exists>a\<in>set (attachments s). at_id a = i \<and> at_claimed a = None
           \<and> (\<exists>m\<in>set (mails s). ml_id m = at_mail a \<and> ml_user m = u)
           \<and> snd (claimAttachmentOnce i u env s)
               = (credited_goods u a s)\<lparr>attachments := claimed_rows i (clk_now env) (attachments s)\<rparr>"
    if "snd (claimAttachmentOnce i u env s) \<noteq> s"
    using attachment_claim_effect [of i u env s]
  proof
    assume "snd (claimAttachmentOnce i u env s) = s" then show ?thesis using that by contradiction
  next
    assume "\<exists>a. find_attachment i u s = Some a \<and> at_claimed a = None
        \<and> snd (claimAttachmentOnce i u env s)
            = (credited_goods u a s)\<lparr>attachments := claimed_rows i (clk_now env) (attachments s)\<rparr>"
    then show ?thesis using find_attachment_Some by blast
  qed
qed

section \<open>Witnesses\<close>

text \<open>Player 7 has one unread mail with two attachments, a crop and coins.\<close>

definition demo_mail :: mail_row where
  "demo_mail = \<lparr>ml_id = 1, ml_user = 7, ml_sender = None, ml_type = ''SYSTEM'', ml_title = ''t'', ml_content = ''c'',
     ml_status = MailUnread, ml_read_at = None, ml_expires = Some (5 * second), ml_created = second\<rparr>"

definition demo_crop :: attachment_row where
  "demo_crop = \<lparr>at_id = 1, at_mail = 1, at_type = ''CROP'', at_item = 1, at_quantity = 4, at_claimed = None\<rparr>"

definition demo_coin :: attachment_row where
  "demo_coin = \<lparr>at_id = 2, at_mail = 1, at_type = ''COIN'', at_item = 0, at_quantity = 50, at_claimed = None\<rparr>"

definition mail_db :: db where
  "mail_db = empty_db\<lparr>mails := [demo_mail], attachments := [demo_crop, demo_coin],
     mailboxes := [7 \<mapsto> \<lparr>mb_unread = 1, mb_version = 1\<rparr>]\<rparr>"

definition system_mail :: send_mail_req where
  "system_mail = \<lparr>sm_UserID = 7, sm_SenderID = None, sm_MailType = ''SYSTEM'', sm_Title = ''hi'', sm_Content = [],
     sm_ExpiresAt = None, sm_Attachments = []\<rparr>"

lemma mail_db_ok: "badge_ok mail_db" "attachments_ok mail_db"
  by (auto simp: badge_ok_def badge_def unread_of_def mail_db_def demo_mail_def empty_db_def attachments_ok_def
      demo_crop_def demo_coin_def)

definition mail_run_demo :: "(env \<times> mail_op) list" where
  "mail_run_demo = [(demo_env, MSend system_mail), (demo_env, MRead 1 7)]"

lemma demo_badges:
  "version 7 (mail_run mail_run_demo mail_db) = 3" "length (unread_of 7 (mail_run mail_run_demo mail_db)) = 1"
  by code_simp+

lemma mailbox_badge_exact_witness:
  "GetSummary None 7 (mail_run mail_run_demo mail_db) = Inr \<lparr>ms_UserID = 7, ms_UnreadCount = 1, ms_Version = 3\<rparr>"
  using mailbox_badge_exact [OF mail_db_ok(1), where u = 7 and ops = mail_run_demo] by (simp add: demo_badges)

lemma demo_claim_paid: "inventory (snd (claimAttachmentOnce 1 7 demo_env mail_db)) (7, ''CROP'', 1) = Some 4"
  by code_simp

lemma attachment_claimed_once_witness:
  "effective (\<lambda>x. ClaimAttachment (fst x) (snd x) 1 7)
      [Inl (\<lambda>_. None, \<lambda>_. lost_ack_env), Inl (\<lambda>_. None, \<lambda>_. demo_env)] mail_db \<le> 1
   \<and> (\<exists>a\<in>set (attachments mail_db). at_id a = 1 \<and> at_claimed a = None
        \<and> snd (claimAttachmentOnce 1 7 demo_env mail_db)
          = (credited_goods 7 a mail_db)\<lparr>attachments := claimed_rows 1 (clk_now demo_env) (attachments mail_db)\<rparr>)"
proof -
  have "snd (claimAttachmentOnce 1 7 demo_env mail_db) \<noteq> mail_db"
    using demo_claim_paid by (auto simp: mail_db_def empty_db_def)
  moreover have "others_keep attachments_ok (is_claimed 1) [Inl (\<lambda>_. None, \<lambda>_. lost_ack_env), Inl (\<lambda>_. None, \<lambda>_. demo_env)]"
    by simp
  ultimately show ?thesis using attachment_claimed_once [OF mail_db_ok(2), where i = 1 and u = 7 and env = demo_env]
    by blast
qed

section \<open>Findings\<close>

text \<open>A coin attachment of a player without a wallet row is consumed and nothing is paid: the UPDATE of creditItem
  changes no row and nothing looks at the number of rows it changed.\<close>

lemma coins_without_wallet_are_lost:
  "wallets s u = None \<Longrightarrow> at_type a = ''COIN'' \<Longrightarrow> find_attachment i u s = Some a \<Longrightarrow> at_claimed a = None
    \<Longrightarrow> at_quantity a \<le> max_int64 \<Longrightarrow> at_item a \<le> max_int64 \<Longrightarrow> clean env
    \<Longrightarrow> claimAttachmentOnce i u env s = (Inr (), s\<lparr>attachments := claimed_rows i (clk_now env) (attachments s)\<rparr>)"
  by (simp add: claimAttachmentOnce_def tx_run mail_claim_body_def creditItem_def mark_claimed_def claimed_rows_def
      tx_bind_def tx_get_def tx_guard_def tx_modify_def tx_return_def)

text \<open>The expiry of a mail is stored and never enforced: a claim long after it pays out.\<close>

lemma expired_mail_still_pays:
  "ml_expires demo_mail = Some (5 * second) \<and> 5 * second < clk_now demo_env
    \<and> fst (claimAttachmentOnce 1 7 demo_env mail_db) = Inr ()
    \<and> inventory (snd (claimAttachmentOnce 1 7 demo_env mail_db)) (7, ''CROP'', 1) = Some 4"
  by code_simp

end
