(* ===== verification/Redis.thy ===== *)
theory Redis
  imports Tx Strconv
begin

text \<open>
  The part of Redis that the stores of pkg/redisstore use: string and hash keys with an expiry.  The keyspace is one
  map from the key as the code builds it, so two stores that build the same key share the entry.  A command or a
  Lua script is atomic; the client gets its result, an error with nothing done, or an error although
  the server has done it.
\<close>

datatype redis_value = RStr string | RHash "string \<rightharpoonup> string"

record redis_entry =
  re_value :: redis_value
  re_expires :: "gotime option"

type_synonym redis = "string \<rightharpoonup> redis_entry"

record redis_env =
  rd_now :: gotime
  rd_outcome :: commit_outcome

definition redis_call :: "redis_env \<Rightarrow> (gotime \<Rightarrow> redis \<Rightarrow> (go_error + 'a) \<times> redis) \<Rightarrow> redis \<Rightarrow> (go_error + 'a) \<times> redis" where
  "redis_call env f rd =
     (case rd_outcome env of
        CommitOK \<Rightarrow> f (rd_now env) rd
      | CommitFailed e \<Rightarrow> (Inl e, rd)
      | CommitAckLost e \<Rightarrow> (Inl e, snd (f (rd_now env) rd)))"

definition WRONGTYPE :: go_error where "WRONGTYPE = PlainErr ''WRONGTYPE''"

text \<open>An expired key does not exist.\<close>

definition live :: "gotime \<Rightarrow> redis \<Rightarrow> string \<Rightarrow> redis_entry option" where
  "live now rd k = (case rd k of
      None \<Rightarrow> None
    | Some e \<Rightarrow> (case re_expires e of Some t \<Rightarrow> if now < t then Some e else None | None \<Rightarrow> Some e))"

definition GET :: "gotime \<Rightarrow> redis \<Rightarrow> string \<Rightarrow> go_error + string option" where
  "GET now rd k = (case live now rd k of
      None \<Rightarrow> Inr None
    | Some e \<Rightarrow> (case re_value e of RStr v \<Rightarrow> Inr (Some v) | RHash _ \<Rightarrow> Inl WRONGTYPE))"

definition HGETALL :: "gotime \<Rightarrow> redis \<Rightarrow> string \<Rightarrow> go_error + (string \<rightharpoonup> string)" where
  "HGETALL now rd k = (case live now rd k of
      None \<Rightarrow> Inr Map.empty
    | Some e \<Rightarrow> (case re_value e of RHash h \<Rightarrow> Inr h | RStr _ \<Rightarrow> Inl WRONGTYPE))"

definition HGET :: "gotime \<Rightarrow> redis \<Rightarrow> string \<Rightarrow> string \<Rightarrow> go_error + string option" where
  "HGET now rd k f = map_sum id (\<lambda>h. h f) (HGETALL now rd k)"

definition SETEX :: "gotime \<Rightarrow> string \<Rightarrow> string \<Rightarrow> duration \<Rightarrow> redis \<Rightarrow> redis" where
  "SETEX now k v ttl rd = rd(k \<mapsto> \<lparr>re_value = RStr v, re_expires = Some (now + ttl)\<rparr>)"

text \<open>HSET on the fields of an existing hash or of a new key, which then has no expiry; a key of the
  wrong type is left alone by the callers.\<close>

definition HSET :: "gotime \<Rightarrow> string \<Rightarrow> (string \<times> string) list \<Rightarrow> redis \<Rightarrow> redis" where
  "HSET now k fs rd = (case live now rd k of
      None \<Rightarrow> rd(k \<mapsto> \<lparr>re_value = RHash (map_of (rev fs)), re_expires = None\<rparr>)
    | Some e \<Rightarrow> (case re_value e of RHash h \<Rightarrow> rd(k \<mapsto> e\<lparr>re_value := RHash (h ++ map_of (rev fs))\<rparr>) | RStr _ \<Rightarrow> rd))"

definition EXPIRE :: "gotime \<Rightarrow> string \<Rightarrow> duration \<Rightarrow> redis \<Rightarrow> redis" where
  "EXPIRE now k ttl rd = (case live now rd k of None \<Rightarrow> rd | Some e \<Rightarrow> rd(k \<mapsto> e\<lparr>re_expires := Some (now + ttl)\<rparr>))"

definition DEL :: "string \<Rightarrow> redis \<Rightarrow> redis" where
  "DEL k rd = rd(k := None)"

text \<open>TTL answers in seconds, rounded to the nearest.\<close>

definition TTL :: "gotime \<Rightarrow> redis \<Rightarrow> string \<Rightarrow> int" where
  "TTL now rd k = (case live now rd k of
      None \<Rightarrow> -2
    | Some e \<Rightarrow> (case re_expires e of None \<Rightarrow> -1 | Some t \<Rightarrow> (t - now + 500 * millisecond) div second))"

section \<open>Laws\<close>

lemma live_upd [simp]: "live now (rd(k := v)) j = (if j = k then (case v of None \<Rightarrow> None | Some e \<Rightarrow>
    (case re_expires e of Some t \<Rightarrow> if now < t then Some e else None | None \<Rightarrow> Some e)) else live now rd j)"
  by (simp add: live_def)

lemma live_SETEX: "live t (SETEX now k v ttl rd) j =
    (if j = k then (if t < now + ttl then Some \<lparr>re_value = RStr v, re_expires = Some (now + ttl)\<rparr> else None) else live t rd j)"
  by (simp add: SETEX_def)

lemma live_DEL: "live t (DEL k rd) j = (if j = k then None else live t rd j)"
  by (simp add: DEL_def)

lemma live_EXPIRE_other: "j \<noteq> k \<Longrightarrow> live t (EXPIRE now k ttl rd) j = live t rd j"
  by (simp add: EXPIRE_def split: option.split)

lemma live_HSET_other: "j \<noteq> k \<Longrightarrow> live t (HSET now k fs rd) j = live t rd j"
  by (simp add: HSET_def split: option.split redis_value.split)

lemma GET_SETEX: "GET t (SETEX now k v ttl rd) j = (if j = k then Inr (if t < now + ttl then Some v else None) else GET t rd j)"
  by (simp add: GET_def live_SETEX)

lemma GET_DEL: "GET t (DEL k rd) j = (if j = k then Inr None else GET t rd j)"
  by (simp add: GET_def live_DEL)

lemma GET_other: "j \<noteq> k \<Longrightarrow> GET t (EXPIRE now k ttl rd) j = GET t rd j" "j \<noteq> k \<Longrightarrow> GET t (HSET now k fs rd) j = GET t rd j"
  by (simp_all add: GET_def live_EXPIRE_other live_HSET_other)

lemma HGETALL_SETEX: "j \<noteq> k \<Longrightarrow> HGETALL t (SETEX now k v ttl rd) j = HGETALL t rd j"
  by (simp add: HGETALL_def live_SETEX)

lemma HGETALL_DEL: "HGETALL t (DEL k rd) j = (if j = k then Inr Map.empty else HGETALL t rd j)"
  by (simp add: HGETALL_def live_DEL)

text \<open>HSET followed by EXPIRE, as the stores use it.\<close>

lemma HGETALL_HSET_EXPIRE:
  assumes "HGETALL now rd k = Inr h" "0 < ttl"
  shows "HGETALL t (EXPIRE now k ttl (HSET now k fs rd)) k = Inr (if t < now + ttl then h ++ map_of (rev fs) else Map.empty)"
proof (cases "live now rd k")
  case None
  then show ?thesis using assms by (auto simp: HGETALL_def HSET_def EXPIRE_def)
next
  case (Some e)
  then obtain h' where "re_value e = RHash h'" "h' = h" using assms(1) by (auto simp: HGETALL_def split: redis_value.splits)
  moreover have "live now (rd(k \<mapsto> e\<lparr>re_value := RHash f\<rparr>)) k = Some (e\<lparr>re_value := RHash f\<rparr>)" for f
    using Some by (auto simp: live_def split: option.splits if_splits)
  ultimately show ?thesis using Some by (simp add: HGETALL_def HSET_def EXPIRE_def)
qed

end
