(* ===== verification/Social.thy ===== *)
theory Social
  imports Consumer FarmCommit Redis
begin

text \<open>
  internal/social: invitations in Redis, friendships on MySQL.  Two players of one shard share a row of
  friendships; players of different shards have one directed edge each, and the second half is created by a
  saga: the request and its acknowledgement travel through the outboxes of the two shards.
\<close>

section \<open>redisstore.InviteStore\<close>

definition inviteTTL :: duration where "inviteTTL = 30 * minute"

definition inviteCodeKey :: "string \<Rightarrow> string" where "inviteCodeKey code = ''invite:'' @ code"
definition inviteUserKey :: "int \<Rightarrow> string" where "inviteUserKey userID = ''invite:user:'' @ format_int userID"

definition ErrInviteNotFound :: go_error where "ErrInviteNotFound = PlainErr ''invite not found or expired''"

text \<open>fmt.Sscanf with the verb d: white space is skipped, and the longest prefix that is an optional sign and
  digits is parsed; what follows is not looked at.\<close>

definition scan_int :: "string \<Rightarrow> int option" where
  "scan_int s =
     (let t = dropWhile is_space s;
          sign = (case t of c # _ \<Rightarrow> if c = CHR ''+'' \<or> c = CHR ''-'' then [c] else [] | [] \<Rightarrow> []) in
      parse_int 64 (sign @ takeWhile (\<lambda>c. char_digit c \<noteq> None) (drop (length sign) t)))"

definition GetInviter :: "redis_env \<Rightarrow> string \<Rightarrow> redis \<Rightarrow> (go_error + int) \<times> redis" where
  "GetInviter env code =
     redis_call env (\<lambda>now rd. (case GET now rd (inviteCodeKey code) of
         Inl e \<Rightarrow> Inl e
       | Inr None \<Rightarrow> Inl ErrInviteNotFound
       | Inr (Some val) \<Rightarrow> (case scan_int val of Some i \<Rightarrow> Inr i | None \<Rightarrow> Inl (PlainErr ''invite_store parse'')), rd))"

text \<open>The two SETs are one pipeline without MULTI: each has an outcome of its own.\<close>

definition GetOrCreate :: "redis_env \<times> redis_env \<times> redis_env \<times> redis_env \<Rightarrow> int \<Rightarrow> string \<Rightarrow> redis \<Rightarrow> (go_error + string) \<times> redis" where
  "GetOrCreate envs inviterUserID newCode rd =
     (case envs of (e1, e2, e3, e4) \<Rightarrow>
       let userKey = inviteUserKey inviterUserID;
           reuse = (case fst (redis_call e1 (\<lambda>now rd. (GET now rd userKey, rd)) rd) of
               Inr (Some existing) \<Rightarrow>
                 if existing \<noteq> [] \<and> (case fst (redis_call e2 (\<lambda>now rd. (Inr (TTL now rd (inviteCodeKey existing)), rd)) rd) of
                      Inr ttl \<Rightarrow> ttl > 0 | Inl _ \<Rightarrow> False)
                 then Some existing else None
             | _ \<Rightarrow> None) in
       (case reuse of
          Some existing \<Rightarrow> (Inr existing, rd)
        | None \<Rightarrow>
            (let (r1, rd1) = redis_call e3 (\<lambda>now rd. (Inr (), SETEX now (inviteCodeKey newCode) (format_int inviterUserID) inviteTTL rd)) rd;
                 (r2, rd2) = redis_call e4 (\<lambda>now rd. (Inr (), SETEX now userKey newCode inviteTTL rd)) rd1 in
             (case (r1, r2) of
                (Inl e, _) \<Rightarrow> (Inl e, rd2)
              | (_, Inl e) \<Rightarrow> (Inl e, rd2)
              | _ \<Rightarrow> (Inr newCode, rd2)))))"

section \<open>MySQLSocialService\<close>

definition normalizeFriendDisplayName :: "string \<Rightarrow> int \<Rightarrow> string" where
  "normalizeFriendDisplayName name userID =
     (let name = trim_space name in if name \<noteq> [] then name else format_int userID)"

text \<open>A row query inside a transaction; no row is not an error for its callers.\<close>

definition query_row :: "env \<Rightarrow> string \<Rightarrow> (db \<Rightarrow> 'a option) \<Rightarrow> (db, 'a option) tx" where
  "query_row env label f =
     (\<lambda>s. case fault env label of
        Some e \<Rightarrow> if errors_is e SqlNoRows then Inr (None, s) else Inl e
      | None \<Rightarrow> Inr (f s, s))"

definition insert_friendship :: "int \<Rightarrow> int \<Rightarrow> (db, unit) tx" where
  "insert_friendship a b =
     (\<lambda>s. if \<not> a < b then Inl check_violation
          else if (a, b) \<in> set (friendships s) then Inl dup_key
          else Inr ((), s\<lparr>friendships := friendships s @ [(a, b)]\<rparr>))"

definition accepted_envelope :: "string \<Rightarrow> int \<Rightarrow> int \<Rightarrow> int \<Rightarrow> int \<Rightarrow> string \<Rightarrow> string \<Rightarrow> gotime \<Rightarrow> envelope" where
  "accepted_envelope eventID inviterID accepterID uidA uidB inviterName accepterName now =
     \<lparr>ev_EventID = eventID, ev_EventType = EventTypeFriendAccepted, ev_AggregateType = ''social'',
      ev_AggregateID = format_int uidA @ '':'' @ format_int uidB, ev_SchemaVersion = 1, ev_OccurredAt = now,
      ev_CorrelationID = eventID, ev_CausationID = [],
      ev_Payload = FriendAccepted \<lparr>fa_UserIDA = format_int uidA, fa_UserIDB = format_int uidB,
        fa_InviterID = format_int inviterID, fa_AccepterID = format_int accepterID,
        fa_InviterDisplayName = normalizeFriendDisplayName inviterName inviterID,
        fa_AccepterDisplayName = normalizeFriendDisplayName accepterName accepterID, fa_AcceptedAt = now\<rparr>\<rparr>"

definition insertFriendAcceptedOutbox :: "env \<Rightarrow> int \<Rightarrow> int \<Rightarrow> int \<Rightarrow> int \<Rightarrow> string \<Rightarrow> string \<Rightarrow> (db, unit) tx" where
  "insertFriendAcceptedOutbox env inviterID accepterID uidA uidB inviterName accepterName =
     stmt env ''insert_friend_accepted'' (insert_outbox_row
       (pending_row (fresh_id env) ''social'' uidA (format_int uidA @ '':'' @ format_int uidB) EventTypeFriendAccepted
          (accepted_envelope (fresh_id env) inviterID accepterID uidA uidB inviterName accepterName (clk_now env)) (clk_now env)))"

definition loadFriendName :: "env \<Rightarrow> string \<Rightarrow> int \<Rightarrow> db \<Rightarrow> string" where
  "loadFriendName env label userID s =
     (case (fault env label, display_names s userID) of
        (None, Some name) \<Rightarrow> if trim_space name = [] then format_int userID else name
      | _ \<Rightarrow> format_int userID)"

definition insertFriendOutbox :: "env \<Rightarrow> int \<Rightarrow> int \<Rightarrow> int \<Rightarrow> int \<Rightarrow> (db, unit) tx" where
  "insertFriendOutbox env inviterID accepterID uidA uidB =
     (\<lambda>s. insertFriendAcceptedOutbox env inviterID accepterID uidA uidB
        (loadFriendName env ''inviter_name'' inviterID s) (loadFriendName env ''accepter_name'' accepterID s) s)"

definition accept_body :: "env \<Rightarrow> int \<Rightarrow> int \<Rightarrow> int \<Rightarrow> int \<Rightarrow> (db, unit ended) tx" where
  "accept_body env inviterID accepterUserID a b =
     tx_bind (query_row env ''check_friendship'' (\<lambda>s. if (a, b) \<in> set (friendships s) then Some () else None)) (\<lambda>found.
       case found of
         Some _ \<Rightarrow> tx_return (Committed ())
       | None \<Rightarrow>
           tx_seq (stmt env ''insert_friendship'' (insert_friendship a b))
             (tx_seq (insertFriendOutbox env inviterID accepterUserID a b) (tx_return (Committed ()))))"

definition acceptInviteOnce :: "int \<Rightarrow> int \<Rightarrow> int \<Rightarrow> int \<Rightarrow> env \<Rightarrow> db \<Rightarrow> (go_error + unit) \<times> db" where
  "acceptInviteOnce inviterID accepterUserID a b env = run_tx env (accept_body env inviterID accepterUserID a b)"

text \<open>AcceptInvite after the invitation has been looked up in Redis.\<close>

definition accept_from :: "(nat \<Rightarrow> go_error option) \<Rightarrow> (nat \<Rightarrow> env) \<Rightarrow> go_error + int \<Rightarrow> int \<Rightarrow> db \<Rightarrow> (go_error + unit) \<times> db" where
  "accept_from wait envs looked accepterUserID s =
     (case looked of
        Inl e \<Rightarrow> (Inl (if e = ErrInviteNotFound then New SocialInviteExpired else e), s)
      | Inr inviterID \<Rightarrow>
          if inviterID = accepterUserID then (Inl (New SocialSelfInvite), s)
          else
            (let (a, b) = (if inviterID > accepterUserID then (accepterUserID, inviterID) else (inviterID, accepterUserID)) in
             retry_value wait (\<lambda>err. IsTransient err \<or> IsDuplicateKey err)
               (\<lambda>n. acceptInviteOnce inviterID accepterUserID a b (envs n)) s))"

definition AcceptInvite :: "redis_env \<Rightarrow> (nat \<Rightarrow> go_error option) \<Rightarrow> (nat \<Rightarrow> env) \<Rightarrow> string \<Rightarrow> int \<Rightarrow> redis \<Rightarrow> db \<Rightarrow> (go_error + unit) \<times> db" where
  "AcceptInvite renv wait envs inviteCode accepterUserID rd s = accept_from wait envs (fst (GetInviter renv inviteCode rd)) accepterUserID s"

definition AreFriends :: "go_error option \<Rightarrow> int \<Rightarrow> int \<Rightarrow> db \<Rightarrow> go_error + bool" where
  "AreFriends flt userIDA userIDB s =
     (let (a, b) = (if userIDA > userIDB then (userIDB, userIDA) else (userIDA, userIDB)) in
      case flt of
        Some e \<Rightarrow> if errors_is e SqlNoRows then Inr False else Inl e
      | None \<Rightarrow> Inr ((a, b) \<in> set (friendships s)))"

text \<open>The rows come in the order of their AUTO_INCREMENT key.  TRIM strips blanks only.\<close>

definition sql_trim :: "string \<Rightarrow> string" where
  "sql_trim s = rev (dropWhile (\<lambda>c. c = CHR '' '') (rev (dropWhile (\<lambda>c. c = CHR '' '') s)))"

definition ListFriends :: "go_error option \<Rightarrow> int \<Rightarrow> db \<Rightarrow> go_error + (int \<times> string) list" where
  "ListFriends flt userID s =
     (case flt of
        Some e \<Rightarrow> Inl e
      | None \<Rightarrow>
          Inr (map (\<lambda>(a, b).
                 let f = (if a = userID then b else a);
                     name = (case display_names s f of
                         Some n \<Rightarrow> (let t = sql_trim n in if t = [] then format_int f else t)
                       | None \<Rightarrow> format_int f)
                 in (f, if trim_space name = [] then format_int f else name))
               (filter (\<lambda>(a, b). a = userID \<or> b = userID) (friendships s))))"

end
