(* ===== verification/FriendSaga.thy ===== *)
theory FriendSaga
  imports Social "HOL-Library.Product_Lexorder"
begin

text \<open>
  internal/social/infrastructure: friend_edge_saga.go, friend_edge_projector.go, friend_edge_compensator.go and
  sharded_social_service.go.  A friendship across shards is a directed edge on each side: Begin writes the
  PENDING edge of the accepting player and a request, ApplyRemote the ACTIVE edge of the other player and
  an acknowledgement, ConfirmSource activates the first edge and announces the friendship.
\<close>

section \<open>Statements on friendship_edges\<close>

definition edge_of :: "db \<Rightarrow> int \<Rightarrow> int \<Rightarrow> edge_row option" where
  "edge_of s u f = map_of (edges s) (u, f)"

text \<open>The row that a unique key of an insert collides with: the primary key is looked at first.\<close>

definition edge_conflict :: "db \<Rightarrow> int \<times> int \<Rightarrow> string \<Rightarrow> (int \<times> int) option" where
  "edge_conflict s k ev =
     (if map_of (edges s) k \<noteq> None then Some k
      else map_option fst (find (\<lambda>(_, r). ed_source r = Some ev) (edges s)))"

definition insert_pending_edge :: "int \<times> int \<Rightarrow> string \<Rightarrow> gotime \<Rightarrow> (db, unit) tx" where
  "insert_pending_edge k ev now =
     (\<lambda>s. if length ev > 36 then Inl (MySQLErr 1406)
          else if edge_conflict s k ev \<noteq> None then Inr ((), s)
          else Inr ((), s\<lparr>edges := edges s @ [(k, \<lparr>ed_state = EdgePending, ed_source = Some ev, ed_updated = datetime6 now\<rparr>)]\<rparr>))"

text \<open>The upsert answers with the number of affected rows: 1 for an insert, 2 for a changed row.\<close>

definition upsert_active_edge :: "int \<times> int \<Rightarrow> string \<Rightarrow> gotime \<Rightarrow> (db, nat) tx" where
  "upsert_active_edge k ev now =
     (\<lambda>s. if length ev > 36 then Inl (MySQLErr 1406)
          else
            (case edge_conflict s k ev of
               None \<Rightarrow> Inr (1, s\<lparr>edges := edges s @ [(k, \<lparr>ed_state = EdgeActive, ed_source = Some ev, ed_updated = datetime6 now\<rparr>)]\<rparr>)
             | Some j \<Rightarrow>
                 (case map_of (edges s) j of
                    Some r \<Rightarrow>
                      if ed_state r = EdgePending
                      then Inr (2, s\<lparr>edges := AList.update j (r\<lparr>ed_state := EdgeActive, ed_updated := datetime6 now\<rparr>) (edges s)\<rparr>)
                      else Inr (0, s)
                  | None \<Rightarrow> Inr (0, s))))"

definition confirm_edge :: "int \<times> int \<Rightarrow> string \<Rightarrow> gotime \<Rightarrow> (db, nat) tx" where
  "confirm_edge k ev now =
     (\<lambda>s. case map_of (edges s) k of
        Some r \<Rightarrow>
          if ed_source r = Some ev \<and> ed_state r = EdgePending
          then Inr (1, s\<lparr>edges := AList.update k (r\<lparr>ed_state := EdgeActive, ed_updated := datetime6 now\<rparr>) (edges s)\<rparr>)
          else Inr (0, s)
      | None \<Rightarrow> Inr (0, s))"

definition insert_outbox_new :: "outbox_row \<Rightarrow> (db, unit) tx" where
  "insert_outbox_new r = (\<lambda>s. if ob_event_id r \<in> ob_event_id ` set (outbox s) then Inr ((), s) else insert_outbox_row r s)"

section \<open>FriendEdgeSaga\<close>

definition valid_edge :: "int \<Rightarrow> int \<Rightarrow> string \<Rightarrow> bool" where
  "valid_edge sourceUserID targetUserID sourceEventID \<longleftrightarrow>
     \<not> (sourceUserID \<le> 0 \<or> targetUserID \<le> 0 \<or> sourceUserID = targetUserID \<or> sourceEventID = [])"

definition edge_payload :: "int \<Rightarrow> int \<Rightarrow> string \<Rightarrow> string \<Rightarrow> string \<Rightarrow> gotime \<Rightarrow> friend_edge_payload" where
  "edge_payload sourceUserID targetUserID sourceEventID sourceName targetName now =
     \<lparr>fe_SourceEventID = sourceEventID, fe_SourceUserID = format_int sourceUserID, fe_TargetUserID = format_int targetUserID,
      fe_SourceDisplayName = sourceName, fe_TargetDisplayName = targetName, fe_At = now\<rparr>"

definition request_row :: "int \<Rightarrow> int \<Rightarrow> string \<Rightarrow> string \<Rightarrow> string \<Rightarrow> gotime \<Rightarrow> outbox_row" where
  "request_row sourceUserID targetUserID sourceEventID sourceName targetName now =
     pending_row sourceEventID ''social'' sourceUserID (format_int targetUserID) EventTypeFriendEdgeRequested
       \<lparr>ev_EventID = sourceEventID, ev_EventType = EventTypeFriendEdgeRequested, ev_AggregateType = ''social'',
        ev_AggregateID = format_int sourceUserID, ev_SchemaVersion = 1, ev_OccurredAt = now,
        ev_CorrelationID = sourceEventID, ev_CausationID = [],
        ev_Payload = FriendEdgeRequested (edge_payload sourceUserID targetUserID sourceEventID sourceName targetName now)\<rparr> now"

definition ack_row :: "string \<Rightarrow> int \<Rightarrow> int \<Rightarrow> string \<Rightarrow> string \<Rightarrow> string \<Rightarrow> gotime \<Rightarrow> outbox_row" where
  "ack_row ackID sourceUserID targetUserID sourceEventID sourceName targetName now =
     pending_row ackID ''social'' targetUserID (format_int sourceUserID) EventTypeFriendEdgeApplied
       \<lparr>ev_EventID = ackID, ev_EventType = EventTypeFriendEdgeApplied, ev_AggregateType = ''social'',
        ev_AggregateID = format_int targetUserID, ev_SchemaVersion = 1, ev_OccurredAt = now,
        ev_CorrelationID = sourceEventID, ev_CausationID = sourceEventID,
        ev_Payload = FriendEdgeApplied (edge_payload sourceUserID targetUserID sourceEventID sourceName targetName now)\<rparr> now"

definition begin_body :: "env \<Rightarrow> int \<Rightarrow> int \<Rightarrow> string \<Rightarrow> string \<Rightarrow> string \<Rightarrow> (db, unit ended) tx" where
  "begin_body env sourceUserID targetUserID sourceEventID sourceName targetName =
     tx_seq (stmt env ''insert_edge'' (insert_pending_edge (sourceUserID, targetUserID) sourceEventID (clk_now env)))
       (tx_bind (stmt env ''lock_edge'' (\<lambda>s. case edge_of s sourceUserID targetUserID of
            None \<Rightarrow> Inl SqlNoRows
          | Some r \<Rightarrow> (case ed_source r of None \<Rightarrow> Inl (PlainErr ''lock local friend edge'') | Some e \<Rightarrow> Inr ((ed_state r, e), s))))
        (\<lambda>(state, persistedEventID). case state of
            EdgeActive \<Rightarrow> tx_return (Committed ())
          | EdgePending \<Rightarrow>
              tx_seq (tx_guard (persistedEventID \<noteq> []) (PlainErr ''pending friend edge has no source event id''))
                (tx_seq (stmt env ''insert_request'' (insert_outbox_new
                    (request_row sourceUserID targetUserID persistedEventID sourceName targetName (clk_now env))))
                  (tx_return (Committed ())))
          | EdgeFailed \<Rightarrow> tx_fail (PlainErr ''friend edge request is terminally failed'')))"

definition BeginWithDisplayNames :: "env \<Rightarrow> int \<Rightarrow> int \<Rightarrow> string \<Rightarrow> string \<Rightarrow> string \<Rightarrow> db \<Rightarrow> (go_error + unit) \<times> db" where
  "BeginWithDisplayNames env sourceUserID targetUserID sourceEventID sourceName targetName s =
     (if \<not> valid_edge sourceUserID targetUserID sourceEventID then (Inl (PlainErr ''invalid friend edge request''), s)
      else run_tx env (begin_body env sourceUserID targetUserID sourceEventID
        (normalizeFriendDisplayName sourceName sourceUserID) (normalizeFriendDisplayName targetName targetUserID)) s)"

definition apply_body :: "env \<Rightarrow> int \<Rightarrow> int \<Rightarrow> string \<Rightarrow> string \<Rightarrow> string \<Rightarrow> (db, unit ended) tx" where
  "apply_body env sourceUserID targetUserID sourceEventID sourceName targetName =
     tx_bind (stmt env ''apply_edge'' (upsert_active_edge (targetUserID, sourceUserID) sourceEventID (clk_now env))) (\<lambda>changed.
       tx_seq (tx_when (changed > 0) (stmt env ''insert_ack'' (insert_outbox_row
           (ack_row (fresh_id env) sourceUserID targetUserID sourceEventID (normalizeFriendDisplayName sourceName sourceUserID)
              (normalizeFriendDisplayName targetName targetUserID) (clk_now env)))))
         (tx_return (Committed ())))"

definition ApplyRemoteWithDisplayNames :: "env \<Rightarrow> int \<Rightarrow> int \<Rightarrow> string \<Rightarrow> string \<Rightarrow> string \<Rightarrow> db \<Rightarrow> (go_error + unit) \<times> db" where
  "ApplyRemoteWithDisplayNames env sourceUserID targetUserID sourceEventID sourceName targetName s =
     (if \<not> valid_edge sourceUserID targetUserID sourceEventID then (Inl (PlainErr ''invalid remote friend edge''), s)
      else run_tx env (apply_body env sourceUserID targetUserID sourceEventID sourceName targetName) s)"

definition confirm_body :: "env \<Rightarrow> int \<Rightarrow> int \<Rightarrow> string \<Rightarrow> string \<Rightarrow> string \<Rightarrow> (db, unit ended) tx" where
  "confirm_body env sourceUserID targetUserID sourceEventID sourceName targetName =
     tx_bind (stmt env ''confirm_edge'' (confirm_edge (sourceUserID, targetUserID) sourceEventID (clk_now env))) (\<lambda>changed.
       if changed = 0 then
         tx_bind (stmt env ''confirm_lookup'' (\<lambda>s. case edge_of s sourceUserID targetUserID of
             Some r \<Rightarrow> if ed_source r = Some sourceEventID then Inr (ed_state r, s) else Inl SqlNoRows
           | None \<Rightarrow> Inl SqlNoRows)) (\<lambda>state.
           tx_seq (tx_guard (state = EdgeActive) (PlainErr ''confirm source friend edge'')) (tx_return (Committed ())))
       else
         (let (uidA, uidB) = (if sourceUserID > targetUserID then (targetUserID, sourceUserID) else (sourceUserID, targetUserID)) in
          tx_seq (insertFriendAcceptedOutbox env targetUserID sourceUserID uidA uidB
              (normalizeFriendDisplayName targetName targetUserID) (normalizeFriendDisplayName sourceName sourceUserID))
            (tx_return (Committed ()))))"

definition ConfirmSourceWithDisplayNames :: "env \<Rightarrow> int \<Rightarrow> int \<Rightarrow> string \<Rightarrow> string \<Rightarrow> string \<Rightarrow> db \<Rightarrow> (go_error + unit) \<times> db" where
  "ConfirmSourceWithDisplayNames env sourceUserID targetUserID sourceEventID sourceName targetName s =
     (if \<not> valid_edge sourceUserID targetUserID sourceEventID then (Inl (PlainErr ''invalid friend edge confirmation''), s)
      else run_tx env (confirm_body env sourceUserID targetUserID sourceEventID sourceName targetName) s)"

section \<open>FriendEdgeProjector\<close>

text \<open>The two payload types share the fields the projector reads, so either decodes; other payloads decode to empty
  ids, which friendEdgeIDs rejects.\<close>

definition decodeFriendEdgePayload :: "payload \<Rightarrow> friend_edge_payload option" where
  "decodeFriendEdgePayload p = (case p of FriendEdgeRequested q \<Rightarrow> Some q | FriendEdgeApplied q \<Rightarrow> Some q | _ \<Rightarrow> None)"

definition friendEdgeIDs :: "string \<Rightarrow> string \<Rightarrow> go_error + int \<times> int" where
  "friendEdgeIDs source target =
     (case parse_int 64 source of
        None \<Rightarrow> Inl (PlainErr ''invalid source_user_id'')
      | Some sourceID \<Rightarrow>
          if sourceID \<le> 0 then Inl (PlainErr ''invalid source_user_id'')
          else
            (case parse_int 64 target of
               None \<Rightarrow> Inl (PlainErr ''invalid target_user_id'')
             | Some targetID \<Rightarrow>
                 if targetID \<le> 0 \<or> targetID = sourceID then Inl (PlainErr ''invalid target_user_id'')
                 else Inr (sourceID, targetID)))"

definition friend_edge_of :: "envelope \<Rightarrow> go_error + (int \<times> int \<times> friend_edge_payload)" where
  "friend_edge_of ev =
     (case decodeFriendEdgePayload (ev_Payload ev) of
        None \<Rightarrow> Inl (PlainErr ''invalid source_user_id'')
      | Some p \<Rightarrow>
          (case friendEdgeIDs (fe_SourceUserID p) (fe_TargetUserID p) of
             Inl e \<Rightarrow> Inl e
           | Inr (sourceID, targetID) \<Rightarrow>
               if fe_SourceEventID p = [] then Inl (PlainErr ''source_event_id is required'')
               else Inr (sourceID, targetID, p)))"

definition friend_Handle :: "router \<Rightarrow> env \<Rightarrow> envelope \<Rightarrow> cluster \<Rightarrow> (go_error + unit) \<times> cluster" where
  "friend_Handle r env ev cl =
     (if ev_EventType ev = EventTypeFriendEdgeRequested then
        (case friend_edge_of ev of
           Inl e \<Rightarrow> (Inl e, cl)
         | Inr (sourceID, targetID, p) \<Rightarrow>
             (case ShardForUserID r targetID of
                Inl e \<Rightarrow> (Inl e, cl)
              | Inr name \<Rightarrow> on_shard name (ApplyRemoteWithDisplayNames env sourceID targetID (fe_SourceEventID p)
                    (fe_SourceDisplayName p) (fe_TargetDisplayName p)) cl))
      else if ev_EventType ev = EventTypeFriendEdgeApplied then
        (case friend_edge_of ev of
           Inl e \<Rightarrow> (Inl e, cl)
         | Inr (sourceID, targetID, p) \<Rightarrow>
             (case ShardForUserID r sourceID of
                Inl e \<Rightarrow> (Inl e, cl)
              | Inr name \<Rightarrow> on_shard name (ConfirmSourceWithDisplayNames env sourceID targetID (fe_SourceEventID p)
                    (fe_SourceDisplayName p) (fe_TargetDisplayName p)) cl))
      else (Inr (), cl))"

definition FriendEdgeProjector :: "router \<Rightarrow> env projector" where
  "FriendEdgeProjector r = \<lparr>pj_Name = ''friend-edge-projector'', pj_Handle = friend_Handle r\<rparr>"

section \<open>FriendEdgeCompensator\<close>

definition dead_requests :: "db \<Rightarrow> nat \<Rightarrow> (int \<times> int) list" where
  "dead_requests s limit =
     map fst (take limit (sort_key (\<lambda>(k, r). (ed_updated r, fst k, snd k))
       (filter (\<lambda>(k, r). ed_state r = EdgePending \<and> (\<exists>x\<in>set (outbox s). ed_source r = Some (ob_event_id x) \<and> ob_status x = ODead)) (edges s))))"

definition compensate :: "env \<Rightarrow> nat \<Rightarrow> (db, nat) tx" where
  "compensate env limit =
     stmt env ''compensate'' (\<lambda>s.
       (let ks = dead_requests s limit in
        Inr (length ks, s\<lparr>edges := map (\<lambda>(k, r). (k, if k \<in> set ks then r\<lparr>ed_state := EdgeFailed, ed_updated := datetime6 (clk_now env)\<rparr> else r)) (edges s)\<rparr>)))"

definition CompensateDeadRequests :: "env \<Rightarrow> int \<Rightarrow> db \<Rightarrow> (go_error + nat) \<times> db" where
  "CompensateDeadRequests env limit s =
     (if limit \<le> 0 then (Inl (PlainErr ''friend edge compensation limit must be positive''), s)
      else run_auto env (compensate env (nat limit)) s)"

section \<open>ShardedSocialService\<close>

text \<open>The parameters of one call of AcceptInvite: two reads of the invitation, the waits and environments of the local
  transaction, the environment of the saga, and the failures of the two name lookups.\<close>

record accept_env =
  ae_first :: redis_env
  ae_second :: redis_env
  ae_wait :: "nat \<Rightarrow> go_error option"
  ae_envs :: "nat \<Rightarrow> env"
  ae_saga :: env
  ae_names :: "int \<Rightarrow> go_error option"

definition lookupFriendInfo :: "(int \<Rightarrow> go_error option) \<Rightarrow> router \<Rightarrow> int \<Rightarrow> cluster \<Rightarrow> go_error + string" where
  "lookupFriendInfo flt r userID cl =
     (case ShardForUserID r userID of
        Inl e \<Rightarrow> Inl e
      | Inr name \<Rightarrow>
          (case flt userID of
             Some e \<Rightarrow> if errors_is e SqlNoRows then Inr (format_int userID) else Inl e
           | None \<Rightarrow>
               (case display_names (cl name) userID of
                  None \<Rightarrow> Inr (format_int userID)
                | Some n \<Rightarrow> Inr (if trim_space n = [] then format_int userID else n))))"

definition displayNameOrID :: "(int \<Rightarrow> go_error option) \<Rightarrow> router \<Rightarrow> int \<Rightarrow> cluster \<Rightarrow> string" where
  "displayNameOrID flt r userID cl =
     (case lookupFriendInfo flt r userID cl of
        Inl _ \<Rightarrow> format_int userID
      | Inr n \<Rightarrow> if trim_space n \<noteq> [] then trim_space n else format_int userID)"

definition Sharded_AcceptInvite :: "router \<Rightarrow> accept_env \<Rightarrow> string \<Rightarrow> int \<Rightarrow> redis \<Rightarrow> cluster \<Rightarrow> (go_error + unit) \<times> cluster" where
  "Sharded_AcceptInvite r ae code accepterUserID rd cl =
     (case fst (GetInviter (ae_first ae) code rd) of
        Inl e \<Rightarrow> (Inl (if e = ErrInviteNotFound then New SocialInviteExpired else e), cl)
      | Inr inviterID \<Rightarrow>
          if inviterID = accepterUserID then (Inl (New SocialSelfInvite), cl)
          else
            (case ShardForUserID r inviterID of
               Inl e \<Rightarrow> (Inl e, cl)
             | Inr inviterShard \<Rightarrow>
                 (case ShardForUserID r accepterUserID of
                    Inl e \<Rightarrow> (Inl e, cl)
                  | Inr accepterShard \<Rightarrow>
                      if inviterShard = accepterShard
                      then on_shard accepterShard (AcceptInvite (ae_second ae) (ae_wait ae) (ae_envs ae) code accepterUserID rd) cl
                      else on_shard accepterShard (BeginWithDisplayNames (ae_saga ae) accepterUserID inviterID (fresh_id (ae_saga ae))
                             (displayNameOrID (ae_names ae) r accepterUserID cl) (displayNameOrID (ae_names ae) r inviterID cl)) cl)))"

definition Sharded_AreFriends :: "router \<Rightarrow> go_error option \<Rightarrow> int \<Rightarrow> int \<Rightarrow> cluster \<Rightarrow> go_error + bool" where
  "Sharded_AreFriends r flt a b cl =
     (case ShardForUserID r a of
        Inl e \<Rightarrow> Inl e
      | Inr left \<Rightarrow>
          (case ShardForUserID r b of
             Inl e \<Rightarrow> Inl e
           | Inr right \<Rightarrow>
               if left = right then AreFriends flt a b (cl left)
               else
                 (case flt of
                    Some e \<Rightarrow> if errors_is e SqlNoRows then Inr False else Inl e
                  | None \<Rightarrow> Inr (case edge_of (cl left) a b of Some row \<Rightarrow> ed_state row = EdgeActive | None \<Rightarrow> False))))"

fun add_edge_friends :: "(int \<Rightarrow> go_error + string) \<Rightarrow> int list \<Rightarrow> int set \<Rightarrow> (int \<times> string) list \<Rightarrow> go_error + (int \<times> string) list" where
  "add_edge_friends info [] seen friends = Inr friends"
| "add_edge_friends info (i # is) seen friends =
     (if i \<in> seen then add_edge_friends info is seen friends
      else
        (case info i of
           Inl e \<Rightarrow> Inl e
         | Inr name \<Rightarrow> add_edge_friends info is (insert i seen) (friends @ [(i, name)])))"

definition active_edges :: "int \<Rightarrow> db \<Rightarrow> int list" where
  "active_edges userID s =
     map (\<lambda>(k, r). snd k) (sort_key (\<lambda>(k, r). (ed_updated r, snd k))
       (filter (\<lambda>(k, r). fst k = userID \<and> ed_state r = EdgeActive) (edges s)))"

definition Sharded_ListFriends :: "router \<Rightarrow> go_error option \<Rightarrow> go_error option \<Rightarrow> (int \<Rightarrow> go_error option) \<Rightarrow> int \<Rightarrow> cluster \<Rightarrow> go_error + (int \<times> string) list" where
  "Sharded_ListFriends r flt1 flt2 flt3 userID cl =
     (case ShardForUserID r userID of
        Inl e \<Rightarrow> Inl e
      | Inr name \<Rightarrow>
          (case ListFriends flt1 userID (cl name) of
             Inl e \<Rightarrow> Inl e
           | Inr friends \<Rightarrow>
               (case flt2 of
                  Some e \<Rightarrow> Inl e
                | None \<Rightarrow> add_edge_friends (\<lambda>i. lookupFriendInfo flt3 r i cl) (active_edges userID (cl name)) (set (map fst friends)) friends)))"

end
