(* ===== verification/FriendSagaProps.thy ===== *)
theory FriendSagaProps
  imports FriendSaga ConsumerProps
begin

text \<open>
  What the friendship saga guarantees on every schedule of invitations, deliveries, redeliveries and failures:
  the two halves agree and a friendship is announced at most once.
\<close>

section \<open>The effect of one transaction\<close>

definition pending_edge :: "string \<Rightarrow> gotime \<Rightarrow> edge_row" where
  "pending_edge ev now = \<lparr>ed_state = EdgePending, ed_source = Some ev, ed_updated = datetime6 now\<rparr>"

definition activated :: "gotime \<Rightarrow> edge_row \<Rightarrow> edge_row" where
  "activated now r = r\<lparr>ed_state := EdgeActive, ed_updated := datetime6 now\<rparr>"

definition appends :: "db \<Rightarrow> db \<Rightarrow> envelope \<Rightarrow> bool" where
  "appends s s' e \<longleftrightarrow> (\<exists>row. outbox s' = outbox s @ [row] \<and> ob_payload row = e)"

lemma insert_outbox_appends:
  "insert_outbox_row r s = Inr (u, s') \<Longrightarrow> appends s s' (ob_payload r) \<and> edges s' = edges s \<and> friendships s' = friendships s"
  by (auto simp: insert_outbox_row_def appends_def split: if_splits)

lemma accepted_appends:
  "insertFriendAcceptedOutbox env i a x y n1 n2 s = Inr (u, s') \<Longrightarrow>
    appends s s' (accepted_envelope (fresh_id env) i a x y n1 n2 (clk_now env)) \<and> edges s' = edges s \<and> friendships s' = friendships s"
  unfolding insertFriendAcceptedOutbox_def stmt_Inr by (auto dest: insert_outbox_appends simp: pending_row_def)

lemma appends_cong: "appends t s' e \<Longrightarrow> outbox t = outbox s \<Longrightarrow> appends s s' e"
  by (simp add: appends_def)

text \<open>Accepting on one shard.\<close>

definition new_friendship :: "env \<Rightarrow> int \<Rightarrow> int \<Rightarrow> int \<Rightarrow> int \<Rightarrow> db \<Rightarrow> db \<Rightarrow> bool" where
  "new_friendship env i u a b s s' \<longleftrightarrow> (a, b) \<notin> set (friendships s) \<and> friendships s' = friendships s @ [(a, b)]
     \<and> edges s' = edges s \<and> (\<exists>n1 n2. appends s s' (accepted_envelope (fresh_id env) i u a b n1 n2 (clk_now env)))"

lemma accept_body_Inr:
  assumes "accept_body env i u a b s = Inr (x, s')"
  shows "x = Committed () \<and> (s' = s \<and> (a, b) \<in> set (friendships s) \<or> new_friendship env i u a b s s')"
proof -
  obtain q t where q: "query_row env ''check_friendship'' (\<lambda>s. if (a, b) \<in> set (friendships s) then Some () else None) s = Inr (q, t)"
    and rest: "(case q of Some _ \<Rightarrow> tx_return (Committed ())
       | None \<Rightarrow> tx_seq (stmt env ''insert_friendship'' (insert_friendship a b))
             (tx_seq (insertFriendOutbox env i u a b) (tx_return (Committed ())))) t = Inr (x, s')"
    using assms by (auto simp: accept_body_def tx_bind_Inr)
  have "t = s" using q by (auto simp: query_row_def split: option.splits if_splits)
  show ?thesis
  proof (cases q)
    case None
    then obtain t2 where t2: "insert_friendship a b s = Inr ((), t2)" "insertFriendOutbox env i u a b t2 = Inr ((), s')" "x = Committed ()"
      using rest \<open>t = s\<close> by (auto simp: tx_inv)
    have "(a, b) \<notin> set (friendships s)" "t2 = s\<lparr>friendships := friendships s @ [(a, b)]\<rparr>"
      using t2(1) by (auto simp: insert_friendship_def split: if_splits)
    then show ?thesis
      using accepted_appends [OF t2(2) [unfolded insertFriendOutbox_def]] t2(3)
      by (auto simp: new_friendship_def appends_def)
  next
    case (Some z)
    then show ?thesis using q rest \<open>t = s\<close> by (auto simp: tx_inv query_row_def split: option.splits if_splits)
  qed
qed

lemma accept_effect:
  "snd (acceptInviteOnce i u a b env s) = s \<or> new_friendship env i u a b s (snd (acceptInviteOnce i u a b env s))"
  unfolding acceptInviteOnce_def
proof (cases rule: run_tx_cases [of env "accept_body env i u a b" s])
  case (applied x s')
  then show "snd (run_tx env (accept_body env i u a b) s) = s
      \<or> new_friendship env i u a b s (snd (run_tx env (accept_body env i u a b) s))"
    using accept_body_Inr [OF applied(1)] by metis
qed simp

lemma accept_success:
  assumes "fst (acceptInviteOnce i u a b env s) = Inr r"
  shows "(a, b) \<in> set (friendships (snd (acceptInviteOnce i u a b env s)))"
proof -
  obtain t where t: "run_tx env (accept_body env i u a b) s = (Inr r, t)"
    using assms unfolding acceptInviteOnce_def by (metis prod.collapse)
  from run_tx_ok [OF this] have "\<exists>q. accept_body env i u a b s = Inr (Committed r, t) \<or> accept_body env i u a b s = Inr (NoCommit r, q)" by blast
  then have "accept_body env i u a b s = Inr (Committed r, t)" using accept_body_Inr by blast
  from accept_body_Inr [OF this] show ?thesis using t by (auto simp: acceptInviteOnce_def new_friendship_def)
qed

interpretation friend_once: durable_once "\<lambda>_. True" "acceptInviteOnce i u a b" "\<lambda>s. (a, b) \<in> set (friendships s)" for i u a b
proof (standard, goal_cases)
  case (2 s e)
  then show ?case using accept_effect [of i u a b e s] by (auto simp: new_friendship_def)
next
  case (3 s e)
  show ?case using accept_effect [of i u a b e s] by (auto simp: new_friendship_def)
next
  case (4 s e r)
  show ?case using 4(2) by (rule accept_success)
qed simp

text \<open>The three steps of the saga.\<close>

definition begun :: "env \<Rightarrow> int \<Rightarrow> int \<Rightarrow> string \<Rightarrow> db \<Rightarrow> db \<Rightarrow> bool" where
  "begun env src tgt ev s s' \<longleftrightarrow> friendships s' = friendships s
     \<and> (edges s' = edges s \<or> map_of (edges s) (src, tgt) = None \<and> edges s' = edges s @ [((src, tgt), pending_edge ev (clk_now env))])
     \<and> (outbox s' = outbox s \<or> (\<exists>p n1 n2 row. appends s s' (ob_payload (request_row src tgt p n1 n2 (clk_now env)))
          \<and> map_of (edges s') (src, tgt) = Some row \<and> ed_source row = Some p \<and> p \<noteq> []))"

definition applied_remote :: "env \<Rightarrow> int \<Rightarrow> int \<Rightarrow> string \<Rightarrow> db \<Rightarrow> db \<Rightarrow> bool" where
  "applied_remote env src tgt ev s s' \<longleftrightarrow> friendships s' = friendships s
     \<and> (\<exists>n1 n2. appends s s' (ob_payload (ack_row (fresh_id env) src tgt ev n1 n2 (clk_now env))))
     \<and> (case edge_conflict s (tgt, src) ev of
          None \<Rightarrow> edges s' = edges s @ [((tgt, src), activated (clk_now env) (pending_edge ev (clk_now env)))]
        | Some j \<Rightarrow> (\<exists>r. map_of (edges s) j = Some r \<and> ed_state r = EdgePending \<and> edges s' = AList.update j (activated (clk_now env) r) (edges s)))"

definition confirmed :: "env \<Rightarrow> int \<Rightarrow> int \<Rightarrow> string \<Rightarrow> db \<Rightarrow> db \<Rightarrow> bool" where
  "confirmed env src tgt ev s s' \<longleftrightarrow> friendships s' = friendships s
     \<and> (\<exists>r. map_of (edges s) (src, tgt) = Some r \<and> ed_state r = EdgePending \<and> edges s' = AList.update (src, tgt) (activated (clk_now env) r) (edges s))
     \<and> (\<exists>x y n1 n2. appends s s' (accepted_envelope (fresh_id env) tgt src x y n1 n2 (clk_now env)))"

lemma begin_body_Inr:
  assumes "begin_body env src tgt ev m1 m2 s = Inr (x, s')"
  shows "\<exists>s1 r q. insert_pending_edge (src, tgt) ev (clk_now env) s = Inr ((), s1) \<and> edge_of s1 src tgt = Some r \<and> ed_source r = Some q
    \<and> (s' = s1 \<or> q \<noteq> [] \<and> insert_outbox_new (request_row src tgt q m1 m2 (clk_now env)) s1 = Inr ((), s'))"
proof -
  obtain u s1 stq s2 where s1: "insert_pending_edge (src, tgt) ev (clk_now env) s = Inr (u, s1)"
    and lock: "(case edge_of s1 src tgt of None \<Rightarrow> Inl SqlNoRows
          | Some r \<Rightarrow> (case ed_source r of None \<Rightarrow> Inl (PlainErr ''lock local friend edge'') | Some e \<Rightarrow> Inr ((ed_state r, e), s1))) = Inr (stq, s2)"
    and rest: "(\<lambda>(state, q). case state of
            EdgeActive \<Rightarrow> tx_return (Committed ())
          | EdgePending \<Rightarrow>
              tx_seq (tx_guard (q \<noteq> []) (PlainErr ''pending friend edge has no source event id''))
                (tx_seq (stmt env ''insert_request'' (insert_outbox_new (request_row src tgt q m1 m2 (clk_now env))))
                  (tx_return (Committed ())))
          | EdgeFailed \<Rightarrow> tx_fail (PlainErr ''friend edge request is terminally failed'')) stq s2 = Inr (x, s')"
    using assms unfolding begin_body_def tx_bind_Inr [where m = "stmt env ''insert_edge'' _"]
      tx_bind_Inr [where m = "stmt env ''lock_edge'' _"] stmt_Inr by blast
  obtain st q where stq: "stq = (st, q)" by (cases stq)
  from lock obtain r where "edge_of s1 src tgt = Some r" "ed_source r = Some q" "s2 = s1"
    by (auto simp: stq split: option.splits)
  moreover have "s' = s2 \<or> q \<noteq> [] \<and> insert_outbox_new (request_row src tgt q m1 m2 (clk_now env)) s2 = Inr ((), s')"
    using rest by (cases st) (auto simp: stq tx_inv)
  ultimately show ?thesis using s1 by (cases u) blast
qed

lemma apply_body_Inr:
  assumes "apply_body env src tgt ev n1 n2 s = Inr (x, s')"
  shows "\<exists>c s1. upsert_active_edge (tgt, src) ev (clk_now env) s = Inr (c, s1)
    \<and> (if c > 0 then insert_outbox_row (ack_row (fresh_id env) src tgt ev (normalizeFriendDisplayName n1 src)
          (normalizeFriendDisplayName n2 tgt) (clk_now env)) s1 = Inr ((), s') else s' = s1)"
  using assms unfolding apply_body_def tx_bind_Inr stmt_Inr tx_when_Inr tx_return_Inr by fastforce

lemma confirm_body_Inr:
  assumes "confirm_body env src tgt ev n1 n2 s = Inr (x, s')"
  shows "\<exists>c s1. confirm_edge (src, tgt) ev (clk_now env) s = Inr (c, s1)
    \<and> (if c = 0 then s' = s1 else \<exists>x y m1 m2. insertFriendAcceptedOutbox env tgt src x y m1 m2 s1 = Inr ((), s'))"
proof -
  obtain c s1 where c: "confirm_edge (src, tgt) ev (clk_now env) s = Inr (c, s1)"
    and rest: "(if c = 0 then
         tx_bind (stmt env ''confirm_lookup'' (\<lambda>s. case edge_of s src tgt of
             Some r \<Rightarrow> if ed_source r = Some ev then Inr (ed_state r, s) else Inl SqlNoRows
           | None \<Rightarrow> Inl SqlNoRows)) (\<lambda>state.
           tx_seq (tx_guard (state = EdgeActive) (PlainErr ''confirm source friend edge'')) (tx_return (Committed ())))
       else
         (let (uidA, uidB) = (if src > tgt then (tgt, src) else (src, tgt)) in
          tx_seq (insertFriendAcceptedOutbox env tgt src uidA uidB
              (normalizeFriendDisplayName n2 tgt) (normalizeFriendDisplayName n1 src))
            (tx_return (Committed ())))) s1 = Inr (x, s')"
    using assms unfolding confirm_body_def tx_bind_Inr [where m = "stmt env ''confirm_edge'' _"] stmt_Inr by blast
  show ?thesis
  proof (cases "c = 0")
    case True
    with rest have "s' = s1" by (auto simp: tx_inv split: option.splits if_splits)
    then show ?thesis using c True by auto
  next
    case False
    with rest have "\<exists>x y m1 m2. insertFriendAcceptedOutbox env tgt src x y m1 m2 s1 = Inr ((), s')"
      by (auto simp: tx_inv Let_def split: if_splits)
    then show ?thesis using c False by auto
  qed
qed

lemma begin_effect:
  "snd (BeginWithDisplayNames env src tgt ev n1 n2 s) = s \<or>
   valid_edge src tgt ev \<and> begun env src tgt ev s (snd (BeginWithDisplayNames env src tgt ev n1 n2 s))"
proof (cases "valid_edge src tgt ev")
  case True
  define m1 m2 where "m1 = normalizeFriendDisplayName n1 src" and "m2 = normalizeFriendDisplayName n2 tgt"
  have B: "BeginWithDisplayNames env src tgt ev n1 n2 s = run_tx env (begin_body env src tgt ev m1 m2) s"
    using True by (simp add: BeginWithDisplayNames_def m1_def m2_def)
  show ?thesis unfolding B
  proof (cases rule: run_tx_cases [of env "begin_body env src tgt ev m1 m2" s])
    case (applied x s')
    from begin_body_Inr [OF applied(1)] obtain s1 r q where s1: "insert_pending_edge (src, tgt) ev (clk_now env) s = Inr ((), s1)"
      and q: "edge_of s1 src tgt = Some r" "ed_source r = Some q"
        "s' = s1 \<or> q \<noteq> [] \<and> insert_outbox_new (request_row src tgt q m1 m2 (clk_now env)) s1 = Inr ((), s')" by blast
    have e: "friendships s1 = friendships s" "outbox s1 = outbox s"
      "edges s1 = edges s \<or> map_of (edges s) (src, tgt) = None \<and> edges s1 = edges s @ [((src, tgt), pending_edge ev (clk_now env))]"
      using s1 by (auto simp: insert_pending_edge_def pending_edge_def edge_conflict_def split: if_splits)
    have "edges s' = edges s1 \<and> friendships s' = friendships s1
        \<and> (outbox s' = outbox s1 \<or> q \<noteq> [] \<and> appends s1 s' (ob_payload (request_row src tgt q m1 m2 (clk_now env))))"
      using q(3) insert_outbox_appends [of "request_row src tgt q m1 m2 (clk_now env)" s1 "()" s']
      by (auto simp: insert_outbox_new_def split: if_splits)
    then have "begun env src tgt ev s s'"
      using e q(1,2) unfolding begun_def edge_of_def appends_def by auto
    then show "snd (run_tx env (begin_body env src tgt ev m1 m2) s) = s
      \<or> valid_edge src tgt ev \<and> begun env src tgt ev s (snd (run_tx env (begin_body env src tgt ev m1 m2) s))"
      using applied(2) True by simp
  qed simp
qed (simp add: BeginWithDisplayNames_def)

lemma apply_effect:
  "snd (ApplyRemoteWithDisplayNames env src tgt ev n1 n2 s) = s \<or>
   valid_edge src tgt ev \<and> applied_remote env src tgt ev s (snd (ApplyRemoteWithDisplayNames env src tgt ev n1 n2 s))"
proof (cases "valid_edge src tgt ev")
  case True
  have B: "ApplyRemoteWithDisplayNames env src tgt ev n1 n2 s = run_tx env (apply_body env src tgt ev n1 n2) s"
    using True by (simp add: ApplyRemoteWithDisplayNames_def)
  show ?thesis unfolding B
  proof (cases rule: run_tx_cases [of env "apply_body env src tgt ev n1 n2" s])
    case (applied x s')
    define row where "row = ack_row (fresh_id env) src tgt ev (normalizeFriendDisplayName n1 src) (normalizeFriendDisplayName n2 tgt) (clk_now env)"
    from apply_body_Inr [OF applied(1), folded row_def] obtain c s1 where c: "upsert_active_edge (tgt, src) ev (clk_now env) s = Inr (c, s1)"
      "if c > 0 then insert_outbox_row row s1 = Inr ((), s') else s' = s1" by blast
    have "s' = s \<or> applied_remote env src tgt ev s s'"
    proof (cases "c > 0")
      case False
      then show ?thesis using c by (auto simp: upsert_active_edge_def split: if_splits option.splits)
    next
      case pos: True
      have "appends s1 s' (ob_payload row)" "edges s' = edges s1" "friendships s' = friendships s1"
        using c(2) pos insert_outbox_appends by auto
      moreover have "friendships s1 = friendships s \<and> outbox s1 = outbox s \<and> (case edge_conflict s (tgt, src) ev of
          None \<Rightarrow> edges s1 = edges s @ [((tgt, src), activated (clk_now env) (pending_edge ev (clk_now env)))]
        | Some j \<Rightarrow> (\<exists>r. map_of (edges s) j = Some r \<and> ed_state r = EdgePending \<and> edges s1 = AList.update j (activated (clk_now env) r) (edges s)))"
        using c(1) pos by (auto simp: upsert_active_edge_def activated_def pending_edge_def split: if_splits option.splits)
      ultimately show ?thesis
        unfolding applied_remote_def by (auto simp: row_def intro: appends_cong split: option.splits)
    qed
    then show "snd (run_tx env (apply_body env src tgt ev n1 n2) s) = s
      \<or> valid_edge src tgt ev \<and> applied_remote env src tgt ev s (snd (run_tx env (apply_body env src tgt ev n1 n2) s))"
      using applied(2) True by simp
  qed simp
qed (simp add: ApplyRemoteWithDisplayNames_def)

lemma confirm_effect:
  "snd (ConfirmSourceWithDisplayNames env src tgt ev n1 n2 s) = s \<or>
   valid_edge src tgt ev \<and> confirmed env src tgt ev s (snd (ConfirmSourceWithDisplayNames env src tgt ev n1 n2 s))"
proof (cases "valid_edge src tgt ev")
  case True
  have B: "ConfirmSourceWithDisplayNames env src tgt ev n1 n2 s = run_tx env (confirm_body env src tgt ev n1 n2) s"
    using True by (simp add: ConfirmSourceWithDisplayNames_def)
  show ?thesis unfolding B
  proof (cases rule: run_tx_cases [of env "confirm_body env src tgt ev n1 n2" s])
    case (applied x s')
    from confirm_body_Inr [OF applied(1)] obtain c s1 where c: "confirm_edge (src, tgt) ev (clk_now env) s = Inr (c, s1)"
      and d: "if c = 0 then s' = s1 else \<exists>x y m1 m2. insertFriendAcceptedOutbox env tgt src x y m1 m2 s1 = Inr ((), s')" by blast
    have "s' = s \<or> confirmed env src tgt ev s s'"
    proof (cases "c = 0")
      case True
      then show ?thesis using c d by (auto simp: confirm_edge_def split: if_splits option.splits)
    next
      case False
      then obtain x y m1 m2 where "insertFriendAcceptedOutbox env tgt src x y m1 m2 s1 = Inr ((), s')" using d by auto
      moreover have "friendships s1 = friendships s \<and> outbox s1 = outbox s \<and> (\<exists>r. map_of (edges s) (src, tgt) = Some r \<and> ed_state r = EdgePending
          \<and> edges s1 = AList.update (src, tgt) (activated (clk_now env) r) (edges s))"
        using c False by (auto simp: confirm_edge_def activated_def split: if_splits option.splits)
      ultimately show ?thesis
        using accepted_appends unfolding confirmed_def appends_def by metis
    qed
    then show "snd (run_tx env (confirm_body env src tgt ev n1 n2) s) = s
      \<or> valid_edge src tgt ev \<and> confirmed env src tgt ev s (snd (run_tx env (confirm_body env src tgt ev n1 n2) s))"
      using applied(2) True by simp
  qed simp
qed (simp add: ConfirmSourceWithDisplayNames_def)

lemma compensate_effect:
  "snd (CompensateDeadRequests env limit s) = s \<or>
   (\<exists>ks. snd (CompensateDeadRequests env limit s) = s\<lparr>edges := map (\<lambda>(k, r). (k, if k \<in> set ks then r\<lparr>ed_state := EdgeFailed, ed_updated := datetime6 (clk_now env)\<rparr> else r)) (edges s)\<rparr>
     \<and> (\<forall>k\<in>set ks. \<exists>r. (k, r) \<in> set (edges s) \<and> ed_state r = EdgePending))"
proof (cases "limit \<le> 0")
  case False
  have B: "CompensateDeadRequests env limit s = run_auto env (compensate env (nat limit)) s"
    using False by (simp add: CompensateDeadRequests_def)
  have d: "\<forall>k\<in>set (dead_requests s n). \<exists>r. (k, r) \<in> set (edges s) \<and> ed_state r = EdgePending" for n
    by (auto simp: dead_requests_def dest!: in_set_takeD)
  show ?thesis unfolding B
    by (cases rule: run_auto_cases [of env "compensate env (nat limit)" s])
      (use d [of "nat limit"] in \<open>auto simp: compensate_def tx_inv Let_def stmt_Inr\<close>)
qed (simp add: CompensateDeadRequests_def)

section \<open>The system\<close>

definition cross :: "router \<Rightarrow> int \<Rightarrow> int \<Rightarrow> bool" where
  "cross r a b \<longleftrightarrow> (\<exists>d e. ShardForUserID r a = Inr d \<and> ShardForUserID r b = Inr e \<and> d \<noteq> e)"

definition edge_at :: "router \<Rightarrow> cluster \<Rightarrow> int \<Rightarrow> int \<Rightarrow> edge_row option" where
  "edge_at r cl a b = (case ShardForUserID r a of Inr d \<Rightarrow> edge_of (cl d) a b | Inl _ \<Rightarrow> None)"

definition edge_active :: "router \<Rightarrow> cluster \<Rightarrow> int \<Rightarrow> int \<Rightarrow> bool" where
  "edge_active r cl a b \<longleftrightarrow> (\<exists>row. edge_at r cl a b = Some row \<and> ed_state row = EdgeActive)"

definition befriended :: "router \<Rightarrow> cluster \<Rightarrow> int \<Rightarrow> int \<Rightarrow> bool" where
  "befriended r cl a b \<longleftrightarrow> Sharded_AreFriends r None a b cl = Inr True \<and> Sharded_AreFriends r None b a cl = Inr True"

text \<open>An event that announces a friendship between two players.\<close>

definition announces :: "int \<Rightarrow> int \<Rightarrow> envelope \<Rightarrow> bool" where
  "announces a b ev \<longleftrightarrow> ev_EventType ev = EventTypeFriendAccepted
     \<and> (\<exists>p. ev_Payload ev = FriendAccepted p
         \<and> ((fa_InviterID p, fa_AccepterID p) = (format_int a, format_int b) \<or> (fa_InviterID p, fa_AccepterID p) = (format_int b, format_int a)))"

text \<open>The events that a step adds to the outboxes of the shards.\<close>

definition new_events :: "router \<Rightarrow> cluster \<Rightarrow> cluster \<Rightarrow> envelope list" where
  "new_events r cl cl' = concat (map (\<lambda>d. map ob_payload (drop (length (outbox (cl d))) (outbox (cl' d)))) r)"

text \<open>NewV7 does not repeat: the candidate id of a new request is no source event of a stored edge.\<close>

definition fresh_source :: "cluster \<Rightarrow> string \<Rightarrow> bool" where
  "fresh_source cl ev \<longleftrightarrow> (\<forall>d k row. map_of (edges (cl d)) k = Some row \<longrightarrow> ed_source row \<noteq> Some ev)"

text \<open>The system: players accept invitations, any event that was ever written is delivered to the projector
  any number of times and in any order, dead requests are compensated, and everything else leaves the
  friendships alone.\<close>

inductive social_step :: "router \<Rightarrow> cluster \<times> envelope list \<Rightarrow> cluster \<times> envelope list \<Rightarrow> bool" for r where
  accept: "Sharded_AcceptInvite r ae code u rd cl = (res, cl') \<Longrightarrow> fresh_source cl (fresh_id (ae_saga ae))
    \<Longrightarrow> social_step r (cl, log) (cl', log @ new_events r cl cl')"
| deliver: "ev \<in> set log \<Longrightarrow> friend_Handle r env ev cl = (res, cl')
    \<Longrightarrow> social_step r (cl, log) (cl', log @ new_events r cl cl')"
| compensate: "social_step r (cl, log) (snd (on_shard d (CompensateDeadRequests env limit) cl), log)"
| other: "(\<And>d. edges (cl' d) = edges (cl d) \<and> friendships (cl' d) = friendships (cl d)) \<Longrightarrow> social_step r (cl, log) (cl', log)"

section \<open>The invariant\<close>

text \<open>Edges live on the shard of their first player, and a source event belongs to one pair.\<close>

definition edges_ok :: "router \<Rightarrow> cluster \<Rightarrow> bool" where
  "edges_ok r cl \<longleftrightarrow> (\<forall>d. unique_keys (edges (cl d)))
     \<and> (\<forall>d k row. map_of (edges (cl d)) k = Some row \<longrightarrow> ShardForUserID r (fst k) = Inr d)
     \<and> (\<forall>d e k k' row row' ev. map_of (edges (cl d)) k = Some row \<longrightarrow> map_of (edges (cl e)) k' = Some row'
          \<longrightarrow> ed_source row = Some ev \<longrightarrow> ed_source row' = Some ev \<longrightarrow> k' = k \<or> k' = prod.swap k)"

inductive event_ok :: "router \<Rightarrow> cluster \<Rightarrow> envelope \<Rightarrow> bool" for r cl where
  requested: "cross r src tgt \<Longrightarrow> valid_edge src tgt p \<Longrightarrow> edge_at r cl src tgt = Some row \<Longrightarrow> ed_source row = Some p
    \<Longrightarrow> event_ok r cl (ob_payload (request_row src tgt p n1 n2 now))"
| acked: "cross r src tgt \<Longrightarrow> valid_edge src tgt p \<Longrightarrow> edge_active r cl tgt src
    \<Longrightarrow> event_ok r cl (ob_payload (ack_row i src tgt p n1 n2 now))"
| announced: "befriended r cl a b \<Longrightarrow> event_ok r cl (accepted_envelope i a b x y n1 n2 now)"

text \<open>The acknowledgement that makes the other half active has been written.\<close>

definition in_flight :: "router \<Rightarrow> cluster \<Rightarrow> envelope list \<Rightarrow> int \<Rightarrow> int \<Rightarrow> bool" where
  "in_flight r cl evs y x \<longleftrightarrow> (\<exists>i p n1 n2 now row. ob_payload (ack_row i y x p n1 n2 now) \<in> set evs
     \<and> edge_at r cl y x = Some row \<and> ed_source row = Some p \<and> valid_edge y x p)"

definition saga_ok :: "router \<Rightarrow> cluster \<times> envelope list \<Rightarrow> bool" where
  "saga_ok r st \<longleftrightarrow> (case st of (cl, log) \<Rightarrow> edges_ok r cl \<and> (\<forall>ev\<in>set log. event_ok r cl ev)
     \<and> (\<forall>a b. length (filter (announces a b) log) \<le> 1)
     \<and> (\<forall>x y. edge_active r cl x y \<longrightarrow> edge_active r cl y x \<or> in_flight r cl log y x))"

text \<open>What every step does to the stored friendships: rows stay, ACTIVE and FAILED are final, the source event is kept.\<close>

definition row_grows :: "edge_row \<Rightarrow> edge_row \<Rightarrow> bool" where
  "row_grows row row' \<longleftrightarrow> ed_source row' = ed_source row \<and> (ed_state row' = ed_state row \<or> ed_state row = EdgePending)"

definition db_grows :: "db \<Rightarrow> db \<Rightarrow> bool" where
  "db_grows s s' \<longleftrightarrow> set (friendships s) \<subseteq> set (friendships s')
     \<and> (\<forall>k row. map_of (edges s) k = Some row \<longrightarrow> (\<exists>row'. map_of (edges s') k = Some row' \<and> row_grows row row'))"

lemma db_grows_refl [simp]: "db_grows s s"
  by (simp add: db_grows_def row_grows_def)

lemma db_grows_cong: "edges s' = edges s \<Longrightarrow> friendships s' = friendships s \<Longrightarrow> db_grows s s'"
  by (simp add: db_grows_def row_grows_def)

lemma edge_at_grows:
  assumes "\<And>d. db_grows (cl d) (cl' d)" "edge_at r cl a b = Some row"
  shows "\<exists>row'. edge_at r cl' a b = Some row' \<and> row_grows row row'"
  using assms by (auto simp: edge_at_def edge_of_def db_grows_def split: sum.splits)

lemma active_grows:
  assumes "\<And>d. db_grows (cl d) (cl' d)" "edge_active r cl a b"
  shows "edge_active r cl' a b"
  using assms(2) edge_at_grows [OF assms(1), where r = r and a = a and b = b]
  by (fastforce simp: edge_active_def row_grows_def)

text \<open>What NewRouter makes sure of.\<close>

definition router_ok :: "router \<Rightarrow> bool" where
  "router_ok r \<longleftrightarrow> distinct r \<and> length r \<le> 64"

lemma NewRouter_ok: "NewRouter names = Inr r \<Longrightarrow> router_ok r"
  by (auto simp: NewRouter_Inr router_ok_def maxShardID_def)

lemma shard_total:
  assumes "router_ok r" "ShardForUserID r a = Inr d"
  shows "d \<in> set r"
proof -
  have r: "r \<noteq> []" "d = r ! unat ((of_int a :: 64 word) mod of_nat (length r))"
    using assms(2) by (auto simp: ShardForUserID_def split: if_splits)
  have "unat (of_nat (length r) :: 64 word) = length r" using assms(1) by (simp add: unat_of_nat router_ok_def)
  then have "unat ((of_int a :: 64 word) mod of_nat (length r)) < length r" using r(1) by (simp add: unat_mod_distrib)
  then show ?thesis using r by simp
qed

lemma parse_format_is: "parse_int bits (format_int x) = Some y \<Longrightarrow> y = x"
proof (cases "x < 0")
  case False
  assume p: "parse_int bits (format_int x) = Some y"
  obtain c cs where f: "format_nat (nat x) = c # cs" by (cases "format_nat (nat x)") auto
  have "c \<noteq> CHR ''-''" "c \<noteq> CHR ''+''" using digit_char_notin(1,2) [of "nat x"] f by (metis list.set_intros(1))+
  then show ?thesis using p False parse_unsigned_format [of "nat x"] by (simp add: parse_int_def format_int_def f split: if_splits)
qed (simp add: parse_int_def format_int_def split: if_splits)

lemma AreFriends_iff:
  "Sharded_AreFriends r None a b cl = Inr True \<longleftrightarrow>
    (\<exists>d. ShardForUserID r a = Inr d \<and> ShardForUserID r b = Inr d \<and> (min a b, max a b) \<in> set (friendships (cl d)))
    \<or> cross r a b \<and> edge_active r cl a b"
  by (auto simp: Sharded_AreFriends_def AreFriends_def cross_def edge_active_def edge_at_def min_def max_def
      split: sum.splits option.splits if_splits)

lemma befriended_iff:
  "befriended r cl a b \<longleftrightarrow>
    (\<exists>d. ShardForUserID r a = Inr d \<and> ShardForUserID r b = Inr d \<and> (min a b, max a b) \<in> set (friendships (cl d)))
    \<or> cross r a b \<and> edge_active r cl a b \<and> edge_active r cl b a"
proof -
  have "cross r b a \<longleftrightarrow> cross r a b" by (auto simp: cross_def)
  moreover have "\<not> (cross r a b \<and> (\<exists>d. ShardForUserID r a = Inr d \<and> ShardForUserID r b = Inr d))" by (auto simp: cross_def)
  ultimately show ?thesis unfolding befriended_def AreFriends_iff by (auto simp: min.commute max.commute)
qed

lemma befriended_sym: "befriended r cl a b \<longleftrightarrow> befriended r cl b a"
  by (auto simp: befriended_def)

lemma in_flight_grows:
  assumes "\<And>d. db_grows (cl d) (cl' d)" "in_flight r cl evs y x" "set evs \<subseteq> set evs'"
  shows "in_flight r cl' evs' y x"
  using assms(2,3) edge_at_grows [of cl cl' r, OF assms(1)] unfolding in_flight_def row_grows_def by (metis (no_types, lifting) subsetD)

lemma befriended_grows:
  assumes "\<And>d. db_grows (cl d) (cl' d)" "befriended r cl a b"
  shows "befriended r cl' a b"
  using assms(2) active_grows [of cl cl' r, OF assms(1)] assms(1) unfolding befriended_iff db_grows_def by blast

lemma event_ok_grows:
  assumes "\<And>d. db_grows (cl d) (cl' d)" "event_ok r cl ev"
  shows "event_ok r cl' ev"
  using assms(2)
proof cases
  case (requested src tgt p row n1 n2 now)
  then show ?thesis using edge_at_grows [OF assms(1) requested(4)] by (auto simp: row_grows_def intro: event_ok.requested)
next
  case (acked src tgt p i n1 n2 now)
  then show ?thesis using active_grows [OF assms(1)] by (auto intro: event_ok.acked)
next
  case (announced a b i x y n1 n2 now)
  then show ?thesis using befriended_grows [OF assms(1)] by (auto intro: event_ok.announced)
qed

section \<open>One step\<close>

lemma announced_befriended:
  assumes "event_ok r cl ev" "announces a b ev"
  shows "befriended r cl a b"
  using assms(1)
proof cases
  case (announced i j e x y n1 n2 now)
  then have "(i, j) = (a, b) \<or> (i, j) = (b, a)"
    using assms(2) by (auto simp: announces_def accepted_envelope_def dest: injD [OF format_int_inj])
  then show ?thesis using announced(2) befriended_sym by blast
qed (use assms(2) in \<open>simp_all add: announces_def request_row_def ack_row_def pending_row_def\<close>)

lemma saga_extend:
  assumes ok: "saga_ok r (cl, log)" and grow: "\<And>d. db_grows (cl d) (cl' d)" and e: "edges_ok r cl'"
    and new: "new = [] \<or> (\<exists>ev. new = [ev] \<and> event_ok r cl' ev \<and> (\<forall>a b. announces a b ev \<longrightarrow> \<not> befriended r cl a b))"
    and act: "\<And>x y. edge_active r cl' x y \<Longrightarrow> edge_active r cl x y \<or> edge_active r cl' y x \<or> in_flight r cl' new y x"
  shows "saga_ok r (cl', log @ new)"
proof -
  have old: "\<forall>ev\<in>set log. event_ok r cl' ev" "\<forall>a b. length (filter (announces a b) log) \<le> 1"
    using ok event_ok_grows [OF grow] by (auto simp: saga_ok_def)
  have h: "edge_active r cl' y x \<or> in_flight r cl' (log @ new) y x" if "edge_active r cl' x y" for x y
    using act [OF that]
  proof (elim disjE)
    assume "edge_active r cl x y"
    then have "edge_active r cl y x \<or> in_flight r cl log y x" using ok by (simp add: saga_ok_def)
    then show ?thesis using active_grows [OF grow] in_flight_grows [of cl cl' r log y x "log @ new", OF grow] by auto
  next
    assume "in_flight r cl' new y x" then show ?thesis by (auto simp: in_flight_def)
  qed simp
  from new show ?thesis
  proof
    assume "new = []" then show ?thesis using old e h by (simp add: saga_ok_def)
  next
    assume "\<exists>ev. new = [ev] \<and> event_ok r cl' ev \<and> (\<forall>a b. announces a b ev \<longrightarrow> \<not> befriended r cl a b)"
    then obtain ev where ev: "new = [ev]" "event_ok r cl' ev" "\<And>a b. announces a b ev \<Longrightarrow> \<not> befriended r cl a b" by blast
    have "length (filter (announces a b) (log @ [ev])) \<le> 1" for a b
    proof (cases "announces a b ev")
      case True
      then have "\<not> announces a b x" if "x \<in> set log" for x
        using that ev(3) [OF True] ok announced_befriended [of r cl x a b] by (auto simp: saga_ok_def)
      then have "filter (announces a b) log = []" by (simp add: filter_empty_conv)
      then show ?thesis by simp
    qed (use old in simp)
    then show ?thesis using old e ev(1,2) h by (auto simp: saga_ok_def)
  qed
qed

lemma new_events_local:
  assumes "router_ok r" "d \<in> set r"
  shows "new_events r cl (cl(d := s')) = map ob_payload (drop (length (outbox (cl d))) (outbox s'))"
proof -
  have "concat (map (\<lambda>j. map ob_payload (drop (length (outbox (cl j))) (outbox ((cl(d := s')) j)))) q)
      = (if d \<in> set q then map ob_payload (drop (length (outbox (cl d))) (outbox s')) else [])" if "distinct q" for q
    using that by (induction q) auto
  then show ?thesis using assms by (simp add: new_events_def router_ok_def)
qed

lemma appends_events: "appends s s' e \<Longrightarrow> map ob_payload (drop (length (outbox s)) (outbox s')) = [e]"
  by (auto simp: appends_def)

text \<open>Edges whose set of keys and sources is unchanged, and one new edge.\<close>

lemma edges_ok_same:
  assumes "edges_ok r cl" "\<And>d. unique_keys (edges (cl' d))"
    "\<And>d k. map_option ed_source (map_of (edges (cl' d)) k) = map_option ed_source (map_of (edges (cl d)) k)"
  shows "edges_ok r cl'"
proof -
  have prev: "\<exists>row'. map_of (edges (cl d)) k = Some row' \<and> ed_source row' = ed_source row" if "map_of (edges (cl' d)) k = Some row" for d k row
    using assms(3) [of d k] that by (cases "map_of (edges (cl d)) k") auto
  show ?thesis unfolding edges_ok_def
  proof (intro conjI allI impI)
    show "ShardForUserID r (fst k) = Inr d" if "map_of (edges (cl' d)) k = Some row" for d k row
      using prev [OF that] assms(1) unfolding edges_ok_def by blast
    show "k' = k \<or> k' = prod.swap k"
      if "map_of (edges (cl' d)) k = Some row" "map_of (edges (cl' e)) k' = Some row'" "ed_source row = Some ev" "ed_source row' = Some ev"
      for d e k k' row row' ev
      using prev [OF that(1)] prev [OF that(2)] that(3,4) assms(1) unfolding edges_ok_def by metis
  qed (rule assms(2))
qed

lemma edges_ok_insert:
  assumes ok: "edges_ok r cl" and k: "map_of (edges (cl d)) k = None" "ShardForUserID r (fst k) = Inr d"
    and s': "edges s' = edges (cl d) @ [(k, row)]" and src: "ed_source row = Some ev"
    and only: "\<And>e k' row'. map_of (edges (cl e)) k' = Some row' \<Longrightarrow> ed_source row' = Some ev \<Longrightarrow> k' = k \<or> k' = prod.swap k"
  shows "edges_ok r (cl(d := s'))"
proof -
  have m: "map_of (edges ((cl(d := s')) e)) k' = (if e = d \<and> k' = k then Some row else map_of (edges (cl e)) k')" for e k'
    using k(1) by (auto simp: s' map_add_def split: option.split)
  have "unique_keys (edges s')"
    using ok k(1) by (auto simp: s' edges_ok_def unique_keys_def map_of_eq_None_iff)
  then have u: "unique_keys (edges ((cl(d := s')) e))" for e using ok by (simp add: edges_ok_def)
  have U: "k2 = k1 \<or> k2 = prod.swap k1"
    if "map_of (edges (cl d1)) k1 = Some r1" "map_of (edges (cl d2)) k2 = Some r2" "ed_source r1 = Some q" "ed_source r2 = Some q" for d1 d2 k1 k2 r1 r2 q
    using ok that unfolding edges_ok_def by blast
  show ?thesis unfolding edges_ok_def m
  proof (intro conjI allI impI)
    fix e k' row'
    assume "(if e = d \<and> k' = k then Some row else map_of (edges (cl e)) k') = Some row'"
    then have "e = d \<and> k' = k \<or> map_of (edges (cl e)) k' = Some row'" by (auto split: if_splits)
    then show "ShardForUserID r (fst k') = Inr e" using k(2) ok unfolding edges_ok_def by blast
  next
    fix d1 d2 k1 k2 r1 r2 q
    assume a: "(if d1 = d \<and> k1 = k then Some row else map_of (edges (cl d1)) k1) = Some r1"
      "(if d2 = d \<and> k2 = k then Some row else map_of (edges (cl d2)) k2) = Some r2" "ed_source r1 = Some q" "ed_source r2 = Some q"
    have sw: "x = prod.swap y \<Longrightarrow> y = prod.swap x" for x y :: "int \<times> int" by (cases y) auto
    show "k2 = k1 \<or> k2 = prod.swap k1"
    proof (cases "d1 = d \<and> k1 = k")
      case True
      then have "q = ev" using a(1,3) src by simp
      then show ?thesis using True a(2,4) only [of d2 k2 r2] by (auto split: if_splits)
    next
      case False
      then have one: "map_of (edges (cl d1)) k1 = Some r1" using a(1) by (simp split: if_splits)
      show ?thesis
      proof (cases "d2 = d \<and> k2 = k")
        case True
        then have "q = ev" using a(2,4) src by simp
        then have "k1 = k \<or> k1 = prod.swap k" using only [OF one] a(3) by simp
        then show ?thesis using True sw by blast
      next
        case False
        then have "map_of (edges (cl d2)) k2 = Some r2" using a(2) by (simp split: if_splits)
        then show ?thesis using U [OF one] a(3,4) by blast
      qed
    qed
  qed (rule u)
qed

text \<open>The four transactions keep the invariant.\<close>

lemma saga_parts: "saga_ok r (cl, log) \<longleftrightarrow> edges_ok r cl \<and> (\<forall>ev\<in>set log. event_ok r cl ev) \<and> (\<forall>a b. length (filter (announces a b) log) \<le> 1)
    \<and> (\<forall>x y. edge_active r cl x y \<longrightarrow> edge_active r cl y x \<or> in_flight r cl log y x)"
  by (simp add: saga_ok_def)

lemma active_local:
  assumes "edge_active r (cl(d := s')) x y"
  shows "edge_active r cl x y \<or> ShardForUserID r x = Inr d \<and> (\<exists>row. map_of (edges s') (x, y) = Some row \<and> ed_state row = EdgeActive)"
  using assms by (auto simp: edge_active_def edge_at_def edge_of_def split: sum.splits if_splits)

lemma active_here: "ShardForUserID r x = Inr d \<Longrightarrow> map_of (edges (cl d)) (x, y) = Some row \<Longrightarrow> ed_state row = EdgeActive \<Longrightarrow> edge_active r cl x y"
  by (simp add: edge_active_def edge_at_def edge_of_def)

lemma grows_local: "db_grows (cl d) s' \<Longrightarrow> db_grows (cl e) ((cl(d := s')) e)"
  by simp

lemma not_announcing [simp]:
  "\<not> announces a b (ob_payload (request_row src tgt p n1 n2 now))" "\<not> announces a b (ob_payload (ack_row i src tgt p n1 n2 now))"
  by (simp_all add: announces_def request_row_def ack_row_def pending_row_def)

lemma saga_local:
  assumes "router_ok r" "ShardForUserID r u = Inr d" "saga_ok r (cl, log)" "db_grows (cl d) s'" "edges_ok r (cl(d := s'))"
    and "outbox s' = outbox (cl d) \<or> (\<exists>ev. appends (cl d) s' ev \<and> event_ok r (cl(d := s')) ev \<and> (\<forall>a b. announces a b ev \<longrightarrow> \<not> befriended r cl a b))"
    and "\<And>x y row. map_of (edges s') (x, y) = Some row \<Longrightarrow> ed_state row = EdgeActive
      \<Longrightarrow> (\<exists>row0. map_of (edges (cl d)) (x, y) = Some row0 \<and> ed_state row0 = EdgeActive)
        \<or> edge_active r (cl(d := s')) y x \<or> in_flight r (cl(d := s')) (map ob_payload (drop (length (outbox (cl d))) (outbox s'))) y x"
  shows "saga_ok r (cl(d := s'), log @ new_events r cl (cl(d := s')))"
proof (rule saga_extend [OF assms(3) _ assms(5)])
  show "edge_active r cl x y \<or> edge_active r (cl(d := s')) y x \<or> in_flight r (cl(d := s')) (new_events r cl (cl(d := s'))) y x"
    if "edge_active r (cl(d := s')) x y" for x y
    unfolding new_events_local [OF assms(1) shard_total [OF assms(1,2)]]
    using active_local [OF that] assms(7) [of x y] active_here [of r x d cl y] by blast
next
  show "db_grows (cl e) ((cl(d := s')) e)" for e using assms(4) by (rule grows_local)
  show "new_events r cl (cl(d := s')) = [] \<or> (\<exists>ev. new_events r cl (cl(d := s')) = [ev] \<and> event_ok r (cl(d := s')) ev
      \<and> (\<forall>a b. announces a b ev \<longrightarrow> \<not> befriended r cl a b))"
    unfolding new_events_local [OF assms(1) shard_total [OF assms(1,2)]]
    using assms(6) appends_events by auto
qed

lemma saga_nothing:
  assumes "router_ok r" "ShardForUserID r u = Inr d" "saga_ok r (cl, log)" "s' = cl d"
  shows "saga_ok r (cl(d := s'), log @ new_events r cl (cl(d := s')))"
proof (rule saga_local [OF assms(1-3)])
  show "edges_ok r (cl(d := s'))" using assms(3,4) by (simp add: saga_parts)
qed (use assms(4) in auto)

lemma begin_saga:
  assumes "router_ok r" "saga_ok r (cl, log)" "ShardForUserID r src = Inr d" "cross r src tgt" "fresh_source cl ev"
    and s': "s' = snd (BeginWithDisplayNames env src tgt ev n1 n2 (cl d))"
  shows "saga_ok r (cl(d := s'), log @ new_events r cl (cl(d := s')))"
proof (cases "s' = cl d")
  case False
  then have v: "valid_edge src tgt ev" and b: "begun env src tgt ev (cl d) s'" using begin_effect [of env src tgt ev n1 n2 "cl d"] s' by auto
  have eo: "edges_ok r cl" using assms(2) by (simp add: saga_parts)
  have ed: "edges s' = edges (cl d) \<or> map_of (edges (cl d)) (src, tgt) = None \<and> edges s' = edges (cl d) @ [((src, tgt), pending_edge ev (clk_now env))]"
    using b by (simp add: begun_def)
  show ?thesis
  proof (rule saga_local [OF assms(1,3,2)])
    show "db_grows (cl d) s'" using b ed by (auto simp: begun_def db_grows_def row_grows_def map_add_def)
    show "(\<exists>row0. map_of (edges (cl d)) (x, y) = Some row0 \<and> ed_state row0 = EdgeActive) \<or> edge_active r (cl(d := s')) y x
        \<or> in_flight r (cl(d := s')) (map ob_payload (drop (length (outbox (cl d))) (outbox s'))) y x"
      if "map_of (edges s') (x, y) = Some row" "ed_state row = EdgeActive" for x y row
      using that ed by (auto simp: pending_edge_def map_add_Some_iff split: if_splits)
    show "edges_ok r (cl(d := s'))" using ed
    proof
      assume "edges s' = edges (cl d)" then show ?thesis using eo by (intro edges_ok_same [OF eo]) (auto simp: edges_ok_def)
    next
      assume "map_of (edges (cl d)) (src, tgt) = None \<and> edges s' = edges (cl d) @ [((src, tgt), pending_edge ev (clk_now env))]"
      then show ?thesis
        using assms(3,5) by (intro edges_ok_insert [OF eo, of d "(src, tgt)" s' "pending_edge ev (clk_now env)" ev])
          (auto simp: pending_edge_def fresh_source_def)
    qed
    show "outbox s' = outbox (cl d) \<or> (\<exists>ev. appends (cl d) s' ev \<and> event_ok r (cl(d := s')) ev \<and> (\<forall>a b. announces a b ev \<longrightarrow> \<not> befriended r cl a b))"
    proof (cases "outbox s' = outbox (cl d)")
      case False
      then obtain p m1 m2 row where "appends (cl d) s' (ob_payload (request_row src tgt p m1 m2 (clk_now env)))"
        "map_of (edges s') (src, tgt) = Some row" "ed_source row = Some p" "p \<noteq> []" using b by (auto simp: begun_def)
      moreover have "valid_edge src tgt p" using v \<open>p \<noteq> []\<close> by (simp add: valid_edge_def)
      ultimately have "event_ok r (cl(d := s')) (ob_payload (request_row src tgt p m1 m2 (clk_now env)))"
        using assms(3,4) by (intro event_ok.requested) (auto simp: edge_at_def edge_of_def)
      then show ?thesis using \<open>appends (cl d) s' _\<close> not_announcing by blast
    qed simp
  qed
qed (rule saga_nothing [OF assms(1,3,2)])

lemma find_in: "find P xs = Some x \<Longrightarrow> x \<in> set xs \<and> P x"
  by (auto simp: find_Some_iff)

lemma conflict_here:
  assumes ok: "edges_ok r cl" "cross r src tgt" "ShardForUserID r tgt = Inr d" and src: "edge_at r cl src tgt = Some row" "ed_source row = Some p"
    and c: "edge_conflict (cl d) (tgt, src) p = Some j"
  shows "j = (tgt, src)"
proof (rule ccontr)
  assume n: "j \<noteq> (tgt, src)"
  then obtain q where q: "(j, q) \<in> set (edges (cl d))" "ed_source q = Some p"
    using c find_in by (fastforce simp: edge_conflict_def split: if_splits)
  have "unique_keys (edges (cl d))" using ok(1) unfolding edges_ok_def by blast
  then have m: "map_of (edges (cl d)) j = Some q" using q(1) by (simp add: map_of_mem_iff)
  obtain e where e: "ShardForUserID r src = Inr e" "map_of (edges (cl e)) (src, tgt) = Some row"
    using src(1) by (auto simp: edge_at_def edge_of_def split: sum.splits)
  have "j = (src, tgt) \<or> j = prod.swap (src, tgt)" using ok(1) e(2) m src(2) q(2) unfolding edges_ok_def by blast
  then have "j = (src, tgt)" using n by simp
  moreover have "ShardForUserID r (fst j) = Inr d" using ok(1) m unfolding edges_ok_def by blast
  ultimately show False using ok(2,3) by (auto simp: cross_def)
qed

lemma apply_saga:
  assumes "router_ok r" "saga_ok r (cl, log)" "ShardForUserID r tgt = Inr d" "cross r src tgt"
    and src: "edge_at r cl src tgt = Some row" "ed_source row = Some p"
    and s': "s' = snd (ApplyRemoteWithDisplayNames env src tgt p n1 n2 (cl d))"
  shows "saga_ok r (cl(d := s'), log @ new_events r cl (cl(d := s')))"
proof (cases "s' = cl d")
  case False
  then have v: "valid_edge src tgt p" and b: "applied_remote env src tgt p (cl d) s'" using apply_effect [of env src tgt p n1 n2 "cl d"] s' by auto
  have eo: "edges_ok r cl" using assms(2) by (simp add: saga_parts)
  note here = conflict_here [OF eo assms(4,3) src]
  have ed: "map_of (edges (cl d)) (tgt, src) = None \<and> edges s' = edges (cl d) @ [((tgt, src), activated (clk_now env) (pending_edge p (clk_now env)))]
    \<or> (\<exists>q. map_of (edges (cl d)) (tgt, src) = Some q \<and> ed_state q = EdgePending \<and> edges s' = AList.update (tgt, src) (activated (clk_now env) q) (edges (cl d)))"
    using b here by (auto simp: applied_remote_def edge_conflict_def split: option.splits if_splits)
  then have act: "\<exists>q. map_of (edges s') (tgt, src) = Some q \<and> ed_state q = EdgeActive"
    by (auto simp: map_add_def activated_def)
  show ?thesis
  proof (rule saga_local [OF assms(1,3,2)])
    show "db_grows (cl d) s'" using b ed
      by (auto simp: applied_remote_def db_grows_def row_grows_def map_add_def activated_def)
    show "edges_ok r (cl(d := s'))" using ed
    proof
      assume n: "map_of (edges (cl d)) (tgt, src) = None \<and> edges s' = edges (cl d) @ [((tgt, src), activated (clk_now env) (pending_edge p (clk_now env)))]"
      show ?thesis
      proof (rule edges_ok_insert [OF eo, of d "(tgt, src)" s' "activated (clk_now env) (pending_edge p (clk_now env))" p])
        fix e k' row'
        assume "map_of (edges (cl e)) k' = Some row'" "ed_source row' = Some p"
        moreover obtain e0 where "map_of (edges (cl e0)) (src, tgt) = Some row"
          using src(1) by (auto simp: edge_at_def edge_of_def split: sum.splits)
        ultimately have "k' = (src, tgt) \<or> k' = prod.swap (src, tgt)" using eo src(2) unfolding edges_ok_def by blast
        then show "k' = (tgt, src) \<or> k' = prod.swap (tgt, src)" by auto
      qed (use n assms(3) in \<open>simp_all add: activated_def pending_edge_def\<close>)
    next
      assume "\<exists>q. map_of (edges (cl d)) (tgt, src) = Some q \<and> ed_state q = EdgePending \<and> edges s' = AList.update (tgt, src) (activated (clk_now env) q) (edges (cl d))"
      then show ?thesis using eo by (intro edges_ok_same [OF eo]) (auto simp: edges_ok_def activated_def)
    qed
    obtain m1 m2 where a: "appends (cl d) s' (ob_payload (ack_row (fresh_id env) src tgt p m1 m2 (clk_now env)))" using b by (auto simp: applied_remote_def)
    obtain e where e: "ShardForUserID r src = Inr e" "e \<noteq> d" using assms(3,4) by (auto simp: cross_def)
    then have "edge_at r (cl(d := s')) src tgt = Some row" using src(1) by (simp add: edge_at_def)
    then have fl: "in_flight r (cl(d := s')) (map ob_payload (drop (length (outbox (cl d))) (outbox s'))) src tgt"
      unfolding appends_events [OF a] in_flight_def using src(2) v by force
    show "(\<exists>row0. map_of (edges (cl d)) (x, y) = Some row0 \<and> ed_state row0 = EdgeActive) \<or> edge_active r (cl(d := s')) y x
        \<or> in_flight r (cl(d := s')) (map ob_payload (drop (length (outbox (cl d))) (outbox s'))) y x"
      if "map_of (edges s') (x, y) = Some row" "ed_state row = EdgeActive" for x y row
    proof (cases "(x, y) = (tgt, src)")
      case False
      then have "map_of (edges (cl d)) (x, y) = Some row" using that(1) ed by (auto simp: map_add_Some_iff split: if_splits)
      then show ?thesis using that(2) by blast
    qed (use fl in simp)
    have "event_ok r (cl(d := s')) (ob_payload (ack_row (fresh_id env) src tgt p m1 m2 (clk_now env)))"
      using assms(3,4) act by (intro event_ok.acked v) (auto simp: edge_active_def edge_at_def edge_of_def)
    then show "outbox s' = outbox (cl d) \<or> (\<exists>ev. appends (cl d) s' ev \<and> event_ok r (cl(d := s')) ev \<and> (\<forall>a b. announces a b ev \<longrightarrow> \<not> befriended r cl a b))"
      using a not_announcing by blast
  qed
qed (rule saga_nothing [OF assms(1,3,2)])

lemma confirm_saga:
  assumes "router_ok r" "saga_ok r (cl, log)" "ShardForUserID r src = Inr d" "cross r src tgt" "edge_active r cl tgt src"
    and s': "s' = snd (ConfirmSourceWithDisplayNames env src tgt p n1 n2 (cl d))"
  shows "saga_ok r (cl(d := s'), log @ new_events r cl (cl(d := s')))"
proof (cases "s' = cl d")
  case False
  then have b: "confirmed env src tgt p (cl d) s'" using confirm_effect [of env src tgt p n1 n2 "cl d"] s' by auto
  have eo: "edges_ok r cl" using assms(2) by (simp add: saga_parts)
  obtain q where q: "map_of (edges (cl d)) (src, tgt) = Some q" "ed_state q = EdgePending"
      "edges s' = AList.update (src, tgt) (activated (clk_now env) q) (edges (cl d))"
    using b by (auto simp: confirmed_def)
  obtain x y m1 m2 where a: "appends (cl d) s' (accepted_envelope (fresh_id env) tgt src x y m1 m2 (clk_now env))"
    using b by (auto simp: confirmed_def)
  have g: "db_grows (cl d) s'" using b q by (auto simp: confirmed_def db_grows_def row_grows_def activated_def)
  have "edge_active r (cl(d := s')) tgt src" using active_grows [OF grows_local [where cl = cl, OF g] assms(5)] .
  moreover have "edge_active r (cl(d := s')) src tgt" using assms(3) q by (simp add: edge_active_def edge_at_def edge_of_def activated_def)
  moreover have "cross r tgt src" using assms(4) by (auto simp: cross_def)
  ultimately have fr: "befriended r (cl(d := s')) tgt src" by (simp add: befriended_iff)
  have "\<not> edge_active r cl src tgt" using assms(3) q by (simp add: edge_active_def edge_at_def edge_of_def)
  then have nf: "\<not> befriended r cl src tgt" using assms(4) by (auto simp: befriended_iff cross_def)
  show ?thesis
  proof (rule saga_local [OF assms(1,3,2) g])
    show "edges_ok r (cl(d := s'))" using eo q by (intro edges_ok_same [OF eo]) (auto simp: edges_ok_def activated_def)
    show "(\<exists>row0. map_of (edges (cl d)) (u, w) = Some row0 \<and> ed_state row0 = EdgeActive) \<or> edge_active r (cl(d := s')) w u
        \<or> in_flight r (cl(d := s')) (map ob_payload (drop (length (outbox (cl d))) (outbox s'))) w u"
      if "map_of (edges s') (u, w) = Some row" "ed_state row = EdgeActive" for u w row
    proof (cases "(u, w) = (src, tgt)")
      case False
      then have "map_of (edges (cl d)) (u, w) = Some row" using that(1) q(3) by (auto split: if_splits)
      then show ?thesis using that(2) by blast
    qed (use \<open>edge_active r (cl(d := s')) tgt src\<close> in simp)
    have "\<not> befriended r cl u v" if "announces u v (accepted_envelope (fresh_id env) tgt src x y m1 m2 (clk_now env))" for u v
    proof -
      have "(u, v) = (tgt, src) \<or> (u, v) = (src, tgt)"
        using that by (auto simp: announces_def accepted_envelope_def dest: injD [OF format_int_inj])
      then show ?thesis using nf befriended_sym by blast
    qed
    then show "outbox s' = outbox (cl d) \<or> (\<exists>ev. appends (cl d) s' ev \<and> event_ok r (cl(d := s')) ev \<and> (\<forall>a b. announces a b ev \<longrightarrow> \<not> befriended r cl a b))"
      using a event_ok.announced [OF fr] by blast
  qed
qed (rule saga_nothing [OF assms(1,3,2)])

lemma accept_local_saga:
  assumes "router_ok r" "saga_ok r (cl, log)" "ShardForUserID r u = Inr d" "ShardForUserID r i = Inr d" "i \<noteq> u"
    and s': "s' = snd (accept_from wait envs (Inr i) u (cl d))"
  shows "saga_ok r (cl(d := s'), log @ new_events r cl (cl(d := s')))"
proof (cases "s' = cl d")
  case False
  have eo: "edges_ok r cl" using assms(2) by (simp add: saga_parts)
  have ab: "(if i > u then (u, i) else (i, u)) = (min i u, max i u)" by auto
  have s: "s' = snd (retry_value wait (\<lambda>err. IsTransient err \<or> IsDuplicateKey err) (\<lambda>n. acceptInviteOnce i u (min i u) (max i u) (envs n)) (cl d))"
    unfolding s' accept_from_def ab using assms(5) by simp
  then obtain n where "s' = snd (acceptInviteOnce i u (min i u) (max i u) (envs n) (cl d))"
    using friend_once.retry_one [where s = "cl d" and i = i and u = u and a = "min i u" and b = "max i u"] False by metis
  then have nf: "new_friendship (envs n) i u (min i u) (max i u) (cl d) s'" using accept_effect False by metis
  then obtain m1 m2 where a: "appends (cl d) s' (accepted_envelope (fresh_id (envs n)) i u (min i u) (max i u) m1 m2 (clk_now (envs n)))"
    by (auto simp: new_friendship_def)
  have fr: "befriended r (cl(d := s')) i u" using assms(3,4) nf by (auto simp: befriended_iff new_friendship_def)
  have before: "\<not> befriended r cl i u" using assms(3,4) nf by (auto simp: befriended_iff cross_def new_friendship_def)
  show ?thesis
  proof (rule saga_local [OF assms(1,3,2)])
    show "db_grows (cl d) s'" using nf by (auto simp: new_friendship_def db_grows_def row_grows_def)
    show "(\<exists>row0. map_of (edges (cl d)) (x, y) = Some row0 \<and> ed_state row0 = EdgeActive) \<or> edge_active r (cl(d := s')) y x
        \<or> in_flight r (cl(d := s')) (map ob_payload (drop (length (outbox (cl d))) (outbox s'))) y x"
      if "map_of (edges s') (x, y) = Some row" "ed_state row = EdgeActive" for x y row
      using that nf by (auto simp: new_friendship_def)
    show "edges_ok r (cl(d := s'))" using eo nf by (intro edges_ok_same [OF eo]) (auto simp: edges_ok_def new_friendship_def)
    have "\<not> befriended r cl v w" if "announces v w (accepted_envelope (fresh_id (envs n)) i u (min i u) (max i u) m1 m2 (clk_now (envs n)))" for v w
    proof -
      have "(v, w) = (i, u) \<or> (v, w) = (u, i)"
        using that by (auto simp: announces_def accepted_envelope_def dest: injD [OF format_int_inj])
      then show ?thesis using before befriended_sym by blast
    qed
    then show "outbox s' = outbox (cl d) \<or> (\<exists>ev. appends (cl d) s' ev \<and> event_ok r (cl(d := s')) ev \<and> (\<forall>a b. announces a b ev \<longrightarrow> \<not> befriended r cl a b))"
      using a event_ok.announced [OF fr] by blast
  qed
qed (rule saga_nothing [OF assms(1,3,2)])

section \<open>Every step keeps the invariant\<close>

lemma new_events_same [simp]: "new_events r cl cl = []"
  by (simp add: new_events_def)

lemma on_shard_upd: "snd (on_shard d m cl) = cl(d := snd (m (cl d)))"
  by (simp add: on_shard_def case_prod_unfold Let_def)

lemma friend_edge_parsed:
  "friend_edge_of (ob_payload (request_row src tgt p n1 n2 now)) = Inr (a, b, q) \<Longrightarrow> a = src \<and> b = tgt \<and> fe_SourceEventID q = p"
  "friend_edge_of (ob_payload (ack_row i src tgt p n1 n2 now)) = Inr (a, b, q) \<Longrightarrow> a = src \<and> b = tgt \<and> fe_SourceEventID q = p"
  by (auto simp: friend_edge_of_def decodeFriendEdgePayload_def friendEdgeIDs_def request_row_def ack_row_def pending_row_def edge_payload_def
      dest!: parse_format_is split: option.splits if_splits sum.splits)

lemma deliver_saga:
  assumes "router_ok r" "saga_ok r (cl, log)" "ev \<in> set log"
  shows "saga_ok r (snd (friend_Handle r env ev cl), log @ new_events r cl (snd (friend_Handle r env ev cl)))"
proof -
  have "event_ok r cl ev" using assms(2,3) by (simp add: saga_parts)
  then show ?thesis
  proof cases
    case (requested src tgt p row n1 n2 now)
    have t: "ev_EventType ev = EventTypeFriendEdgeRequested" by (simp add: requested(1) request_row_def pending_row_def)
    obtain e where "friend_edge_of ev = Inl e \<or> (\<exists>q d. friend_edge_of ev = Inr (src, tgt, q) \<and> fe_SourceEventID q = p \<and> ShardForUserID r tgt = Inr d)"
      using friend_edge_parsed(1) requested(1,2) by (cases "friend_edge_of ev") (auto simp: cross_def)
    then show ?thesis
      using t apply_saga [OF assms(1,2) _ requested(2,4,5)] assms(2) by (auto simp: friend_Handle_def on_shard_upd)
  next
    case (acked src tgt p i n1 n2 now)
    have t: "ev_EventType ev = EventTypeFriendEdgeApplied" by (simp add: acked(1) ack_row_def pending_row_def)
    obtain e where "friend_edge_of ev = Inl e \<or> (\<exists>q d. friend_edge_of ev = Inr (src, tgt, q) \<and> fe_SourceEventID q = p \<and> ShardForUserID r src = Inr d)"
      using friend_edge_parsed(2) acked(1,2) by (cases "friend_edge_of ev") (auto simp: cross_def)
    then show ?thesis
      using t confirm_saga [OF assms(1,2) _ acked(2,4)] assms(2)
      by (auto simp: friend_Handle_def on_shard_upd event_type_defs)
  next
    case (announced a b i x y n1 n2 now)
    then show ?thesis using assms(2) by (simp add: friend_Handle_def accepted_envelope_def event_type_defs)
  qed
qed

lemma same_inviter:
  assumes "fst (GetInviter e1 code rd) = Inr i" "fst (GetInviter e2 code rd) = Inr j"
  shows "i = j"
  using assms by (auto simp: GetInviter_def redis_call_def GET_def live_def split: option.splits commit_outcome.splits redis_value.splits if_splits)

lemma accept_saga:
  assumes "router_ok r" "saga_ok r (cl, log)" "fresh_source cl (fresh_id (ae_saga ae))"
  shows "saga_ok r (snd (Sharded_AcceptInvite r ae code u rd cl), log @ new_events r cl (snd (Sharded_AcceptInvite r ae code u rd cl)))"
proof -
  have same: "saga_ok r (cl, log @ new_events r cl cl)" using assms(2) by simp
  show ?thesis
  proof (cases "fst (GetInviter (ae_first ae) code rd)")
    case (Inl e)
    then show ?thesis using same by (simp add: Sharded_AcceptInvite_def)
  next
    case (Inr i)
    note one = Inr
    consider "i = u" | e where "i \<noteq> u" "ShardForUserID r i = Inl e" | e where "i \<noteq> u" "ShardForUserID r u = Inl e"
      | d where "i \<noteq> u" "ShardForUserID r i = Inr d" "ShardForUserID r u = Inr d"
      | d e where "i \<noteq> u" "ShardForUserID r i = Inr e" "ShardForUserID r u = Inr d" "e \<noteq> d"
      by (metis sum.exhaust)
    then show ?thesis
    proof cases
      case (4 d)
      have r: "snd (Sharded_AcceptInvite r ae code u rd cl) = cl(d := snd (AcceptInvite (ae_second ae) (ae_wait ae) (ae_envs ae) code u rd (cl d)))"
        using 4 one by (simp add: Sharded_AcceptInvite_def on_shard_upd)
      show ?thesis
      proof (cases "fst (GetInviter (ae_second ae) code rd)")
        case (Inl e)
        then have "snd (AcceptInvite (ae_second ae) (ae_wait ae) (ae_envs ae) code u rd (cl d)) = cl d" by (simp add: AcceptInvite_def accept_from_def)
        then show ?thesis unfolding r by (rule saga_nothing [OF assms(1) 4(3) assms(2)])
      next
        case (Inr j)
        then have "j = i" using same_inviter one by metis
        then have "AcceptInvite (ae_second ae) (ae_wait ae) (ae_envs ae) code u rd (cl d) = accept_from (ae_wait ae) (ae_envs ae) (Inr i) u (cl d)"
          using Inr by (simp add: AcceptInvite_def)
        then show ?thesis unfolding r using accept_local_saga [OF assms(1,2) 4(3,2,1)] by simp
      qed
    next
      case (5 d e)
      have "cross r u i" using 5 by (auto simp: cross_def)
      then show ?thesis
        using begin_saga [OF assms(1,2) 5(3) _ assms(3)] 5 one by (simp add: Sharded_AcceptInvite_def on_shard_upd)
    qed (use one same in \<open>simp_all add: Sharded_AcceptInvite_def split: sum.split\<close>)
  qed
qed

lemma compensate_saga:
  assumes "saga_ok r (cl, log)"
  shows "saga_ok r (snd (on_shard d (CompensateDeadRequests env limit) cl), log)"
proof -
  define s' where "s' = snd (CompensateDeadRequests env limit (cl d))"
  have eo: "edges_ok r cl" using assms by (simp add: saga_parts)
  have u: "unique_keys (edges (cl d))" using eo unfolding edges_ok_def by blast
  have "s' = cl d \<or> (\<exists>f. s' = (cl d)\<lparr>edges := map (\<lambda>(k, r). (k, f k r)) (edges (cl d))\<rparr>
      \<and> (\<forall>k r. map_of (edges (cl d)) k = Some r \<longrightarrow> row_grows r (f k r) \<and> (ed_state (f k r) = EdgeActive \<longrightarrow> ed_state r = EdgeActive)))"
    using compensate_effect [of env limit "cl d"] unfolding s'_def [symmetric]
  proof (elim disjE exE conjE)
    fix ks
    assume a: "s' = (cl d)\<lparr>edges := map (\<lambda>(k, r). (k, if k \<in> set ks then r\<lparr>ed_state := EdgeFailed, ed_updated := datetime6 (clk_now env)\<rparr> else r)) (edges (cl d))\<rparr>"
      "\<forall>k\<in>set ks. \<exists>r. (k, r) \<in> set (edges (cl d)) \<and> ed_state r = EdgePending"
    have "row_grows r (if k \<in> set ks then r\<lparr>ed_state := EdgeFailed, ed_updated := datetime6 (clk_now env)\<rparr> else r)
        \<and> (ed_state (if k \<in> set ks then r\<lparr>ed_state := EdgeFailed, ed_updated := datetime6 (clk_now env)\<rparr> else r) = EdgeActive \<longrightarrow> ed_state r = EdgeActive)"
      if "map_of (edges (cl d)) k = Some r" for k r
      using a(2) u that by (auto simp: row_grows_def simp flip: map_of_mem_iff)
    then show ?thesis
      by (intro disjI2 exI [of _ "\<lambda>k r. if k \<in> set ks then r\<lparr>ed_state := EdgeFailed, ed_updated := datetime6 (clk_now env)\<rparr> else r"] conjI a(1)) auto
  qed simp
  then show ?thesis
  proof
    assume "s' = cl d"
    then show ?thesis using assms by (simp add: on_shard_upd s'_def)
  next
    assume "\<exists>f. s' = (cl d)\<lparr>edges := map (\<lambda>(k, r). (k, f k r)) (edges (cl d))\<rparr> \<and> (\<forall>k r. map_of (edges (cl d)) k = Some r \<longrightarrow> row_grows r (f k r) \<and> (ed_state (f k r) = EdgeActive \<longrightarrow> ed_state r = EdgeActive))"
    then obtain f where f: "s' = (cl d)\<lparr>edges := map (\<lambda>(k, r). (k, f k r)) (edges (cl d))\<rparr>"
      "\<And>k r. map_of (edges (cl d)) k = Some r \<Longrightarrow> row_grows r (f k r)"
      "\<And>k r. map_of (edges (cl d)) k = Some r \<Longrightarrow> ed_state (f k r) = EdgeActive \<Longrightarrow> ed_state r = EdgeActive" by blast
    have mp: "map_of (map (\<lambda>(k, r). (k, f k r)) al) k = map_option (f k) (map_of al k)" for al and k :: "int \<times> int"
      by (induction al) auto
    have g: "db_grows (cl d) s'" using f(1,2) by (auto simp: db_grows_def mp)
    have "saga_ok r (cl(d := s'), log @ [])"
    proof (rule saga_extend [OF assms])
      show "db_grows (cl e) ((cl(d := s')) e)" for e using g by (rule grows_local)
      show "edge_active r cl x y \<or> edge_active r (cl(d := s')) y x \<or> in_flight r (cl(d := s')) [] y x" if "edge_active r (cl(d := s')) x y" for x y
        using active_local [OF that] f(3) active_here [of r x d cl y] by (fastforce simp: f(1) mp)
      have "map fst (edges s') = map fst (edges (cl d))" by (simp add: f(1) comp_def case_prod_unfold)
      then have "unique_keys (edges s')" using u by (simp add: unique_keys_def)
      moreover have "map_option ed_source (map_of (edges s') k) = map_option ed_source (map_of (edges (cl d)) k)" for k
        using f(2) [of k] by (cases "map_of (edges (cl d)) k") (auto simp: f(1) mp row_grows_def)
      ultimately show "edges_ok r (cl(d := s'))" using eo by (intro edges_ok_same [OF eo]) (auto simp: edges_ok_def)
    qed simp
    then show ?thesis by (simp add: on_shard_upd s'_def)
  qed
qed

lemma step_saga:
  assumes "router_ok r" "social_step r st st'" "saga_ok r st"
  shows "saga_ok r st'"
  using assms(2)
proof cases
  case (accept ae code u rd cl res cl' log)
  then show ?thesis using accept_saga [OF assms(1), of cl log ae code u rd] assms(3) by simp
next
  case (deliver ev log env cl res cl')
  then show ?thesis using deliver_saga [OF assms(1), of cl log ev env] assms(3) by simp
next
  case (compensate cl log d env limit)
  then show ?thesis using compensate_saga [of r cl log d env limit] assms(3) by simp
next
  case (other cl' cl log)
  have "saga_ok r (cl', log @ [])"
  proof (rule saga_extend)
    show "saga_ok r (cl, log)" using assms(3) other by simp
    show "db_grows (cl d) (cl' d)" for d using other(3) by (simp add: db_grows_cong)
    have same: "edges (cl' d) = edges (cl d)" for d using other(3) by blast
    then show "edge_active r cl x y \<or> edge_active r cl' y x \<or> in_flight r cl' [] y x" if "edge_active r cl' x y" for x y
      using that by (auto simp: edge_active_def edge_at_def edge_of_def split: sum.splits)
    have "edges (cl' d) = edges (cl d)" for d by (rule same)
    then have "edges_ok r cl' \<longleftrightarrow> edges_ok r cl" by (simp add: edges_ok_def)
    then show "edges_ok r cl'" using assms(3) other(1) by (simp add: saga_parts)
  qed simp
  then show ?thesis using other by simp
qed

lemma run_saga:
  assumes "(social_step r)\<^sup>*\<^sup>* st st'" "router_ok r" "saga_ok r st"
  shows "saga_ok r st'"
  using assms(1,3) by (induction rule: rtranclp_induct) (auto intro: step_saga [OF assms(2)])

section \<open>Properties\<close>

text \<open>C26: a friendship is announced at most once, and only when it stands.  On every schedule of invitations,
  deliveries and redeliveries of the events in any order, failures, retries and compensations, at most one
  friend_accepted event is ever written for two players, whoever invited whom and whether they live on one shard
  or on two, and from then on AreFriends answers yes on both sides.\<close>

theorem friendship_announced_once:
  assumes "NewRouter names = Inr r" "saga_ok r (cl\<^sub>0, [])" "(social_step r)\<^sup>*\<^sup>* (cl\<^sub>0, []) (cl, log)"
  shows "length (filter (announces a b) log) \<le> 1
    \<and> (\<forall>ev\<in>set log. announces a b ev \<longrightarrow> Sharded_AreFriends r None a b cl = Inr True \<and> Sharded_AreFriends r None b a cl = Inr True)"
proof -
  have "saga_ok r (cl, log)" by (rule run_saga [OF assms(3) NewRouter_ok [OF assms(1)] assms(2)])
  then show ?thesis using announced_befriended by (fastforce simp: saga_parts befriended_def)
qed

text \<open>Delivering the acknowledgement to a pending half without failures makes both halves active.\<close>

lemma ack_heals:
  assumes f: "in_flight r cl log b a" and a: "edge_active r cl a b" and c: "cross r a b" and i: "in_i64 a" "in_i64 b"
    and p: "\<And>row. edge_at r cl b a = Some row \<Longrightarrow> ed_state row = EdgePending"
  shows "\<exists>ev\<in>set log. \<forall>env d. clean env \<longrightarrow> ShardForUserID r b = Inr d \<longrightarrow> fresh_id env \<notin> ob_event_id ` set (outbox (cl d))
    \<longrightarrow> befriended r (snd (friend_Handle r env ev cl)) a b"
proof -
  from f obtain j q n1 n2 now row where ev: "ob_payload (ack_row j b a q n1 n2 now) \<in> set log"
    and row: "edge_at r cl b a = Some row" "ed_source row = Some q" and v: "valid_edge b a q" by (auto simp: in_flight_def)
  have pos: "0 < a" "0 < b" "a \<noteq> b" "q \<noteq> []" using v by (auto simp: valid_edge_def)
  show ?thesis
  proof (intro bexI [OF _ ev] allI impI)
    fix env d
    assume env: "clean env" "ShardForUserID r b = Inr d" "fresh_id env \<notin> ob_event_id ` set (outbox (cl d))"
    define s' where "s' = snd (ConfirmSourceWithDisplayNames env b a q n1 n2 (cl d))"
    have m: "map_of (edges (cl d)) (b, a) = Some row" using row(1) env(2) by (simp add: edge_at_def edge_of_def)
    have pend: "ed_state row = EdgePending" using p row(1) by blast
    have e: "map_of (edges s') (b, a) = Some (activated (clk_now env) row)"
      using env(1,3) v m pend row(2)
      by (simp add: s'_def ConfirmSourceWithDisplayNames_def tx_run confirm_body_def confirm_edge_def tx_bind_def tx_return_def
          insertFriendAcceptedOutbox_def insert_outbox_row_def pending_row_def Let_def activated_def image_iff)
    have h: "snd (friend_Handle r env (ob_payload (ack_row j b a q n1 n2 now)) cl) = cl(d := s')"
      using env(2) pos parse_format_i64 [OF i(1)] parse_format_i64 [OF i(2)]
      by (simp add: friend_Handle_def ack_row_def pending_row_def event_type_defs friend_edge_of_def decodeFriendEdgePayload_def
          edge_payload_def friendEdgeIDs_def on_shard_upd s'_def)
    have "edge_active r (cl(d := s')) b a" using e env(2) by (intro active_here) (auto simp: activated_def)
    moreover have "edge_active r (cl(d := s')) a b"
      using a c env(2) by (auto simp: edge_active_def edge_at_def cross_def split: sum.splits)
    ultimately show "befriended r (snd (friend_Handle r env (ob_payload (ack_row j b a q n1 n2 now)) cl)) a b"
      using c by (simp add: h befriended_iff)
  qed
qed

text \<open>C27: no friendship stays one-sided unless it was compensated.  In every reachable state in which one player sees
  the other as a friend, the other sees the same, or the acknowledgement that completes the friendship has
  been written and delivering it, however late, makes the two friends on both sides; the only way out is a half
  that the compensator has marked FAILED.\<close>

theorem half_friendship_heals:
  assumes "NewRouter names = Inr r" "saga_ok r (cl\<^sub>0, [])" "(social_step r)\<^sup>*\<^sup>* (cl\<^sub>0, []) (cl, log)"
    and "Sharded_AreFriends r None a b cl = Inr True" "in_i64 a" "in_i64 b"
    and "map_option ed_state (edge_at r cl b a) \<noteq> Some EdgeFailed"
  shows "Sharded_AreFriends r None b a cl = Inr True
    \<or> (\<exists>ev\<in>set log. \<forall>env d. clean env \<longrightarrow> ShardForUserID r b = Inr d \<longrightarrow> fresh_id env \<notin> ob_event_id ` set (outbox (cl d))
        \<longrightarrow> befriended r (snd (friend_Handle r env ev cl)) a b)"
proof (cases "Sharded_AreFriends r None b a cl = Inr True")
  case False
  have ok: "saga_ok r (cl, log)" by (rule run_saga [OF assms(3) NewRouter_ok [OF assms(1)] assms(2)])
  have ca: "cross r a b" "edge_active r cl a b" and nb: "\<not> edge_active r cl b a"
    using False assms(4) unfolding AreFriends_iff by (auto simp: min.commute max.commute cross_def)
  then have "in_flight r cl log b a" using ok by (auto simp: saga_parts)
  moreover have "ed_state row = EdgePending" if "edge_at r cl b a = Some row" for row
    using that nb assms(7) by (cases "ed_state row") (auto simp: edge_active_def)
  ultimately show ?thesis using ack_heals ca assms(5,6) by blast
qed simp

end
