(* ===== verification/FriendWitnesses.thy ===== *)
theory FriendWitnesses
  imports FriendSagaProps Fixtures
begin

text \<open>
  The friendship saga on concrete shards: the witnesses of its properties, and three runs in which it does not do what it
  is meant to do.
\<close>

definition friend_router :: router where "friend_router = [''a'', ''b'']"

lemma friend_router_new: "NewRouter [''b'', ''a''] = Inr friend_router"
  by (simp add: NewRouter_def friend_router_def maxShardID_def power_of_two_def trim_space_def is_space_def List_Lexorder.list_less_def) code_simp

definition invites :: redis where
  "invites = [''invite:c7'' \<mapsto> \<lparr>re_value = RStr ''7'', re_expires = None\<rparr>, ''invite:c8'' \<mapsto> \<lparr>re_value = RStr ''8'', re_expires = None\<rparr>]"

definition calm :: redis_env where "calm = \<lparr>rd_now = demo_now, rd_outcome = CommitOK\<rparr>"

definition friend_env :: "string \<Rightarrow> env" where "friend_env i = demo_env\<lparr>fresh_id := i\<rparr>"

definition friend_call :: "string \<Rightarrow> accept_env" where
  "friend_call i = \<lparr>ae_first = calm, ae_second = calm, ae_wait = (\<lambda>_. None), ae_envs = (\<lambda>_. friend_env i), ae_saga = friend_env i, ae_names = (\<lambda>_. None)\<rparr>"

text \<open>Player 8 of shard a accepts the invitation of player 7 of shard b; the request and the acknowledgement arrive.\<close>

definition fr0 :: cluster where "fr0 = (\<lambda>_. empty_db)"
definition fr1 :: cluster where "fr1 = snd (Sharded_AcceptInvite friend_router (friend_call ''e1'') ''c7'' 8 invites fr0)"
definition log1 :: "envelope list" where "log1 = [] @ new_events friend_router fr0 fr1"
definition fr2 :: cluster where "fr2 = snd (friend_Handle friend_router (friend_env ''e2'') (log1 ! 0) fr1)"
definition log2 :: "envelope list" where "log2 = log1 @ new_events friend_router fr1 fr2"
definition fr3 :: cluster where "fr3 = snd (friend_Handle friend_router (friend_env ''e3'') (log2 ! 1) fr2)"
definition log3 :: "envelope list" where "log3 = log2 @ new_events friend_router fr2 fr3"

lemma log_lengths: "length log1 = 1" "length log2 = 2" "length log3 = 3"
  by code_simp+

lemma fr0_ok: "saga_ok friend_router (fr0, [])"
  by (simp add: saga_parts edges_ok_def fr0_def empty_db_def edge_active_def edge_at_def edge_of_def split: sum.split)

lemma run2: "(social_step friend_router)\<^sup>*\<^sup>* (fr0, []) (fr2, log2)"
proof -
  have "social_step friend_router (fr0, []) (fr1, log1)" unfolding log1_def
    by (rule social_step.accept [OF surjective_pairing [of "Sharded_AcceptInvite friend_router (friend_call ''e1'') ''c7'' 8 invites fr0", folded fr1_def]])
      (simp add: fresh_source_def fr0_def empty_db_def)
  moreover have "social_step friend_router (fr1, log1) (fr2, log2)" unfolding log2_def
    by (rule social_step.deliver [OF _ surjective_pairing [of "friend_Handle friend_router (friend_env ''e2'') (log1 ! 0) fr1", folded fr2_def]])
      (simp add: log_lengths)
  ultimately show ?thesis by simp
qed

lemma run3: "(social_step friend_router)\<^sup>*\<^sup>* (fr0, []) (fr3, log3)"
proof -
  have "social_step friend_router (fr2, log2) (fr3, log3)" unfolding log3_def
    by (rule social_step.deliver [OF _ surjective_pairing [of "friend_Handle friend_router (friend_env ''e3'') (log2 ! 1) fr2", folded fr3_def]])
      (simp add: log_lengths)
  then show ?thesis using run2 by simp
qed

lemma third_event: "ev_EventType (log3 ! 2) = EventTypeFriendAccepted" "(case ev_Payload (log3 ! 2) of FriendAccepted p \<Rightarrow> fa_InviterID p = format_int 7 \<and> fa_AccepterID p = format_int 8 | _ \<Rightarrow> False)"
  by code_simp+

lemma third_announces: "announces 7 8 (log3 ! 2)" "log3 ! 2 \<in> set log3"
  using third_event by (auto simp: announces_def log_lengths split: payload.splits)

lemma friendship_announced_once_witness:
  "length (filter (announces 7 8) log3) \<le> 1 \<and> Sharded_AreFriends friend_router None 7 8 fr3 = Inr True"
  using friendship_announced_once [OF friend_router_new fr0_ok run3, of 7 8] third_announces by blast

lemma half_seen: "Sharded_AreFriends friend_router None 7 8 fr2 = Inr True" "Sharded_AreFriends friend_router None 8 7 fr2 = Inr False"
  "map_option ed_state (edge_at friend_router fr2 8 7) = Some EdgePending"
  by code_simp+

lemma half_friendship_heals_witness:
  "\<exists>ev\<in>set log2. befriended friend_router (snd (friend_Handle friend_router (friend_env ''e3'') ev fr2)) 7 8"
proof -
  have c: "clean (friend_env ''e3'')" by (simp add: clean_def friend_env_def demo_env_def)
  have s: "ShardForUserID friend_router 8 = Inr ''a''" "fresh_id (friend_env ''e3'') \<notin> ob_event_id ` set (outbox (fr2 ''a''))" by code_simp+
  have i: "in_i64 7" "in_i64 8" by (simp_all add: in_i64_def min_int64_def max_int64_def)
  have n: "map_option ed_state (edge_at friend_router fr2 8 7) \<noteq> Some EdgeFailed" by (simp add: half_seen)
  from half_friendship_heals [OF friend_router_new fr0_ok run2 half_seen(1) i n] show ?thesis
    using half_seen(2) c s by auto
qed

section \<open>Findings\<close>

text \<open>The keys of the invitations overlap: the code of the key invite:user:7, which stores the code of player 7, is read as an
  invitation when somebody presents the code user:7, and Sscanf takes the leading digits of the stored code
  for the inviter.  Player 9 becomes a friend of player 19, who has invited nobody.\<close>

definition invited :: redis where
  "invited = snd (GetOrCreate (calm, calm, calm, calm) 7 ''019e00000000700080000000000000aa'' Map.empty)"

lemma code_of_nobody_accepted:
  "fst (AcceptInvite calm (\<lambda>_. None) (\<lambda>_. demo_env) ''user:7'' 9 invited empty_db) = Inr ()
   \<and> friendships (snd (AcceptInvite calm (\<lambda>_. None) (\<lambda>_. demo_env) ''user:7'' 9 invited empty_db)) = [(9, 19)]"
  by code_simp

text \<open>Two players of different shards who accept each other's invitation at the same time become friends, and nothing announces
  it: each request activates the other's pending edge, so that neither confirmation finds a pending edge.\<close>

definition cross_a :: db where
  "cross_a = snd (ConfirmSourceWithDisplayNames (friend_env ''e5'') 8 7 ''e1'' [] []
     (snd (ApplyRemoteWithDisplayNames (friend_env ''e4'') 7 8 ''e2'' [] []
       (snd (BeginWithDisplayNames (friend_env ''e1'') 8 7 ''e1'' [] [] empty_db)))))"

definition cross_b :: db where
  "cross_b = snd (ConfirmSourceWithDisplayNames (friend_env ''e6'') 7 8 ''e2'' [] []
     (snd (ApplyRemoteWithDisplayNames (friend_env ''e3'') 8 7 ''e1'' [] []
       (snd (BeginWithDisplayNames (friend_env ''e2'') 7 8 ''e2'' [] [] empty_db)))))"

lemma crossing_requests_not_announced:
  "map_option ed_state (edge_of cross_a 8 7) = Some EdgeActive" "map_option ed_state (edge_of cross_b 7 8) = Some EdgeActive"
  "map ob_event_type (outbox cross_a) = [EventTypeFriendEdgeRequested, EventTypeFriendEdgeApplied]"
  "map ob_event_type (outbox cross_b) = [EventTypeFriendEdgeRequested, EventTypeFriendEdgeApplied]"
  by code_simp+

text \<open>The compensator takes a DEAD outbox row for a request that was never delivered.  The relay can turn a published row into a
  DEAD one (published_row_goes_dead); then the player who asked never becomes a friend of the player who sees him as one,
  and the acknowledgement can never be processed.\<close>

definition dead_request :: cluster where
  "dead_request = fr2(''a'' := (fr2 ''a'')\<lparr>outbox := map (\<lambda>x. x\<lparr>ob_status := ODead\<rparr>) (outbox (fr2 ''a''))\<rparr>)"
definition compensated :: cluster where
  "compensated = snd (on_shard ''a'' (CompensateDeadRequests demo_env 10) dead_request)"

lemma delivered_request_compensated:
  "Sharded_AreFriends friend_router None 7 8 compensated = Inr True \<and> Sharded_AreFriends friend_router None 8 7 compensated = Inr False
   \<and> is_err (fst (friend_Handle friend_router (friend_env ''e3'') (log2 ! 1) compensated))"
  by code_simp

end
