(* ===== verification/AuthSessions.thy ===== *)
theory AuthSessions
  imports Redis MysqlRetry
begin

text \<open>
  pkg/session/token.go and pkg/redisstore/refresh_store.go, with RefreshSession, Logout and Authenticate of the account
  service: the signed access token, and the refresh session in Redis, which is a hash under the session id and an index
  from the hash of the refresh token to the user.  The message authentication code and SHA-256 are parameters.
\<close>

section \<open>The access token\<close>

text \<open>base64.RawURLEncoding.\<close>

definition b64_char :: "nat \<Rightarrow> char" where
  "b64_char n = (if n < 26 then char_of (65 + n) else if n < 52 then char_of (71 + n) else if n < 62 then char_of (n - 4)
     else if n = 62 then CHR ''-'' else CHR ''_'')"

fun b64 :: "string \<Rightarrow> string" where
  "b64 [] = []"
| "b64 [a] = (let n = of_char a * 16 :: nat in [b64_char (n div 64), b64_char (n mod 64)])"
| "b64 [a, b] = (let n = (of_char a * 256 + of_char b) * 4 :: nat in [b64_char (n div 4096), b64_char (n div 64 mod 64), b64_char (n mod 64)])"
| "b64 (a # b # c # cs) = (let n = of_char a * 65536 + of_char b * 256 + of_char c :: nat in
     [b64_char (n div 262144), b64_char (n div 4096 mod 64), b64_char (n div 64 mod 64), b64_char (n mod 64)] @ b64 cs)"

text \<open>\<^verbatim>\<open>hmac secret msg\<close> is the sum of HMAC-SHA256.\<close>

type_synonym hmac = "string \<Rightarrow> string \<Rightarrow> string"

definition token_sign :: "hmac \<Rightarrow> string \<Rightarrow> string \<Rightarrow> string" where
  "token_sign hmac msg secret = b64 (hmac secret msg)"

definition unix :: "gotime \<Rightarrow> int" where "unix t = t div second"

record claims =
  cm_UserID :: int
  cm_SessionID :: string
  cm_ExpiresAt :: int

definition Sign :: "hmac \<Rightarrow> gotime \<Rightarrow> int \<Rightarrow> duration \<Rightarrow> string \<Rightarrow> string" where
  "Sign hmac now userID ttl secret =
     (let msg = format_int userID @ '':'' @ format_int (unix (now + ttl)) in msg @ ''.'' @ token_sign hmac msg secret)"

definition SignSession :: "hmac \<Rightarrow> gotime \<Rightarrow> int \<Rightarrow> string \<Rightarrow> duration \<Rightarrow> string \<Rightarrow> string" where
  "SignSession hmac now userID sessionID ttl secret =
     (let msg = ''v2:'' @ format_int userID @ '':'' @ sessionID @ '':'' @ format_int (unix (now + ttl)) in
      msg @ ''.'' @ token_sign hmac msg secret)"

text \<open>strings.LastIndex and the two slices around it.\<close>

definition split_last :: "char \<Rightarrow> string \<Rightarrow> (string \<times> string) option" where
  "split_last c s = (if c \<in> set s then
      Some (rev (tl (dropWhile (\<lambda>x. x \<noteq> c) (rev s))), rev (takeWhile (\<lambda>x. x \<noteq> c) (rev s))) else None)"

definition claim_parts :: "string list \<Rightarrow> go_error + (string \<times> string \<times> string)" where
  "claim_parts parts = (case parts of
      [v, u, sid, e] \<Rightarrow>
        if v = ''v2'' then (if sid = [] then Inl (PlainErr ''malformed token session'') else Inr (u, sid, e))
        else Inl (PlainErr ''malformed token message'')
    | [u, e] \<Rightarrow> Inr (u, [], e)
    | _ \<Rightarrow> Inl (PlainErr ''malformed token message''))"

definition ParseClaims :: "hmac \<Rightarrow> gotime \<Rightarrow> string \<Rightarrow> string \<Rightarrow> go_error + claims" where
  "ParseClaims hmac now token secret =
     (case split_last (CHR ''.'') token of
        None \<Rightarrow> Inl (New AuthUnauthorized)
      | Some (msg, sig) \<Rightarrow>
          if sig \<noteq> token_sign hmac msg secret then Inl (New AuthUnauthorized)
          else
            (case claim_parts (split_on (CHR '':'') msg) of
               Inl e \<Rightarrow> Inl e
             | Inr (userPart, sessionID, expPart) \<Rightarrow>
                 (case parse_int 64 userPart of
                    None \<Rightarrow> Inl (PlainErr ''malformed user_id in token'')
                  | Some userID \<Rightarrow>
                      (case parse_int 64 expPart of
                         None \<Rightarrow> Inl (PlainErr ''malformed expiry in token'')
                       | Some e \<Rightarrow>
                           if unix now > e then Inl (New AuthTokenExpired)
                           else Inr \<lparr>cm_UserID = userID, cm_SessionID = sessionID, cm_ExpiresAt = e\<rparr>))))"

definition Authenticate :: "hmac \<Rightarrow> gotime \<Rightarrow> string \<Rightarrow> string \<Rightarrow> go_error + int \<times> int" where
  "Authenticate hmac now accessToken secret =
     (case ParseClaims hmac now accessToken secret of Inl e \<Rightarrow> Inl e | Inr c \<Rightarrow> Inr (cm_UserID c, cm_UserID c))"

section \<open>RefreshStore\<close>

definition refreshTokenTTL :: duration where "refreshTokenTTL = 7 * 24 * 60 * minute"

definition refreshKey :: "string \<Rightarrow> string" where "refreshKey tokenHash = ''refresh:'' @ tokenHash"
definition authSessionKey :: "string \<Rightarrow> string" where "authSessionKey sessionID = ''auth:session:'' @ sessionID"

definition RS_Create :: "redis_env \<Rightarrow> string \<Rightarrow> string \<Rightarrow> int \<Rightarrow> redis \<Rightarrow> (go_error + unit) \<times> redis" where
  "RS_Create env sessionID tokenHash userID =
     redis_call env (\<lambda>now rd.
       (case HGETALL now rd (authSessionKey sessionID) of
          Inl e \<Rightarrow> (Inl e, SETEX now (refreshKey tokenHash) (format_int userID) refreshTokenTTL
                      (EXPIRE now (authSessionKey sessionID) refreshTokenTTL rd))
        | Inr _ \<Rightarrow> (Inr (), SETEX now (refreshKey tokenHash) (format_int userID) refreshTokenTTL
            (EXPIRE now (authSessionKey sessionID) refreshTokenTTL
              (HSET now (authSessionKey sessionID)
                [(''user_id'', format_int userID), (''refresh_hash'', tokenHash), (''status'', ''ACTIVE'')] rd)))))"

definition IsActive :: "redis_env \<Rightarrow> string \<Rightarrow> int \<Rightarrow> redis \<Rightarrow> go_error + bool" where
  "IsActive env sessionID userID rd =
     fst (redis_call env (\<lambda>now rd. (case HGETALL now rd (authSessionKey sessionID) of
         Inl e \<Rightarrow> Inl e
       | Inr h \<Rightarrow>
           (case (h ''user_id'', h ''status'') of
              (Some u, Some st) \<Rightarrow> (case parse_int 64 u of None \<Rightarrow> Inr False | Some i \<Rightarrow> Inr (i = userID \<and> st = ''ACTIVE''))
            | _ \<Rightarrow> Inr False), rd)) rd)"

text \<open>A script that answers 0 or the user id, which the client reads as an integer.\<close>

definition int_reply :: "string \<Rightarrow> go_error + int" where
  "int_reply u = (case parse_int 64 u of Some i \<Rightarrow> Inr i | None \<Rightarrow> Inl (PlainErr ''strconv''))"

definition swap_index :: "gotime \<Rightarrow> string \<Rightarrow> (string \<times> string) list \<Rightarrow> string \<Rightarrow> string \<Rightarrow> string \<Rightarrow> redis \<Rightarrow> redis" where
  "swap_index now sessionKey fs oldHash newHash u rd =
     SETEX now (refreshKey newHash) u refreshTokenTTL
       (EXPIRE now sessionKey refreshTokenTTL (HSET now sessionKey fs (DEL (refreshKey oldHash) rd)))"

definition Rotate :: "redis_env \<Rightarrow> string \<Rightarrow> string \<Rightarrow> string \<Rightarrow> redis \<Rightarrow> (go_error + int) \<times> redis" where
  "Rotate env sessionID oldHash newHash =
     redis_call env (\<lambda>now rd.
       (case HGETALL now rd (authSessionKey sessionID) of
          Inl e \<Rightarrow> (Inl e, rd)
        | Inr h \<Rightarrow>
            if h ''status'' \<noteq> Some ''ACTIVE'' then (Inr 0, rd)
            else if h ''refresh_hash'' \<noteq> Some oldHash then (Inr 0, rd)
            else
              (case h ''user_id'' of
                 None \<Rightarrow> (Inr 0, rd)
               | Some u \<Rightarrow>
                   (case GET now rd (refreshKey oldHash) of
                      Inl e \<Rightarrow> (Inl e, rd)
                    | Inr g \<Rightarrow>
                        if g \<noteq> Some u then (Inr 0, rd)
                        else (int_reply u, swap_index now (authSessionKey sessionID) [(''refresh_hash'', newHash)] oldHash newHash u rd)))))"

text \<open>\<^verbatim>\<open>tonumber\<close> is Lua's test for a number.\<close>

definition MigrateLegacy :: "(string \<Rightarrow> bool) \<Rightarrow> redis_env \<Rightarrow> string \<Rightarrow> string \<Rightarrow> string \<Rightarrow> redis \<Rightarrow> (go_error + int) \<times> redis" where
  "MigrateLegacy tonumber env sessionID oldHash newHash =
     redis_call env (\<lambda>now rd.
       (if live now rd (authSessionKey sessionID) \<noteq> None then (Inr 0, rd)
        else
          (case GET now rd (refreshKey oldHash) of
             Inl e \<Rightarrow> (Inl e, rd)
           | Inr None \<Rightarrow> (Inr 0, rd)
           | Inr (Some u) \<Rightarrow>
               if \<not> tonumber u then (Inr 0, rd)
               else (int_reply u, swap_index now (authSessionKey sessionID)
                      [(''user_id'', u), (''refresh_hash'', newHash), (''status'', ''ACTIVE'')] oldHash newHash u rd))))"

text \<open>The script of DeleteSession also answers with what it publishes; an error of its last read comes after the keys are gone.\<close>

definition DeleteSession :: "redis_env \<Rightarrow> string \<Rightarrow> string \<Rightarrow> redis \<Rightarrow> (go_error + bool \<times> (string \<times> string) list) \<times> redis" where
  "DeleteSession env sessionID tokenHash =
     redis_call env (\<lambda>now rd.
       (case HGETALL now rd (authSessionKey sessionID) of
          Inl e \<Rightarrow> (Inl e, rd)
        | Inr h \<Rightarrow>
            if h ''refresh_hash'' \<noteq> Some tokenHash then (Inr (False, []), rd)
            else
              (case h ''user_id'' of
                 None \<Rightarrow> (Inr (False, []), rd)
               | Some u \<Rightarrow>
                   (case GET now rd (refreshKey tokenHash) of
                      Inl e \<Rightarrow> (Inl e, rd)
                    | Inr g \<Rightarrow>
                        if g \<noteq> Some u then (Inr (False, []), rd)
                        else
                          (let rd' = DEL (refreshKey tokenHash) (DEL (authSessionKey sessionID) rd) in
                           (case GET now rd' (''ws:conn:'' @ u) of
                              Inl e \<Rightarrow> (Inl e, rd')
                            | Inr None \<Rightarrow> (Inr (True, []), rd')
                            | Inr (Some conn) \<Rightarrow>
                                (Inr (True, if CHR '':'' \<in> set conn
                                   then [(''ws:kick:instance:'' @ takeWhile (\<lambda>c. c \<noteq> CHR '':'') conn, u @ ''|logout:'' @ sessionID)] else []), rd')))))))"

section \<open>RefreshSession and Logout\<close>

record refresh_env =
  rf_rotate :: redis_env
  rf_migrate :: redis_env
  rf_session :: string
  rf_token :: string
  rf_now :: gotime

definition RefreshSession ::
  "hmac \<Rightarrow> (string \<Rightarrow> string) \<Rightarrow> (string \<Rightarrow> bool) \<Rightarrow> string \<Rightarrow> string \<Rightarrow> refresh_env \<Rightarrow> redis \<Rightarrow> (go_error + (string \<times> string)) \<times> redis" where
  "RefreshSession hmac sha tonumber secret refreshToken env rd =
     (if trim_space (rf_session env) = [] \<or> trim_space refreshToken = [] then (Inl (New AuthUnauthorized), rd)
      else
        (let oldHash = sha refreshToken;
             newHash = sha (rf_token env);
             accept = (\<lambda>u. Inr (SignSession hmac (rf_now env) u (rf_session env) (30 * minute) secret, rf_token env)) in
         (case Rotate (rf_rotate env) (rf_session env) oldHash newHash rd of
            (Inl e, rd1) \<Rightarrow> (Inl e, rd1)
          | (Inr u, rd1) \<Rightarrow>
              if u \<noteq> 0 then (accept u, rd1)
              else
                (case MigrateLegacy tonumber (rf_migrate env) (rf_session env) oldHash newHash rd1 of
                   (Inl e, rd2) \<Rightarrow> (Inl e, rd2)
                 | (Inr u2, rd2) \<Rightarrow> if u2 = 0 then (Inl (New AuthUnauthorized), rd2) else (accept u2, rd2)))))"

definition Logout :: "(string \<Rightarrow> string) \<Rightarrow> redis_env \<Rightarrow> string \<Rightarrow> string \<Rightarrow> redis \<Rightarrow> (go_error + unit) \<times> redis" where
  "Logout sha env sessionID refreshToken rd =
     (if trim_space sessionID = [] then (Inl (New CommonInvalidArgument), rd)
      else
        (case DeleteSession env sessionID (sha refreshToken) rd of
           (Inl e, rd') \<Rightarrow> (Inl e, rd')
         | (Inr (deleted, _), rd') \<Rightarrow> ((if deleted then Inr () else Inl (New AuthUnauthorized)), rd')))"

end
