(* ===== verification/AuthSessionsProps.thy ===== *)
theory AuthSessionsProps
  imports AuthSessions
begin

text \<open>
  The access token is read back as it was signed and only a signed token of the right form is accepted; a refresh token is
  good for one refresh.
\<close>

section \<open>The token\<close>

lemma b64_char_dot [simp]: "n < 64 \<Longrightarrow> b64_char n \<noteq> CHR ''.''"
proof
  assume n: "n < 64" and "b64_char n = CHR ''.''"
  then have "(of_char (b64_char n) :: nat) = 46" by simp
  then show False using n by (auto simp: b64_char_def of_char_of split: if_splits)
qed

lemma of_char_255: "(of_char c :: nat) \<le> 255"
proof -
  have "(of_char c :: nat) < 256" by simp
  then show ?thesis by linarith
qed

lemma b64_no_dot: "CHR ''.'' \<notin> set (b64 s)"
proof (induction s rule: b64.induct)
  case (2 a)
  have "of_char a * 16 div 64 < (64 :: nat)" using of_char_255 [of a] by (intro less_mult_imp_div_less) linarith
  then show ?case by (auto simp: Let_def eq_commute [of "CHR ''.''"])
next
  case (3 a b)
  have "(of_char a * 256 + of_char b) * 4 div 4096 < (64 :: nat)"
    using of_char_255 [of a] of_char_255 [of b] by (intro less_mult_imp_div_less) (simp add: distrib_right)
  then show ?case by (auto simp: Let_def eq_commute [of "CHR ''.''"])
next
  case (4 a b c cs)
  have "(of_char a * 65536 + of_char b * 256 + of_char c) div 262144 < (64 :: nat)" using of_char_255 [of a] of_char_255 [of b] of_char_255 [of c] by (intro less_mult_imp_div_less) linarith
  then show ?case using 4 by (auto simp: Let_def eq_commute [of "CHR ''.''"])
qed simp

lemma split_last_append:
  assumes "c \<notin> set t"
  shows "split_last c (s @ [c] @ t) = Some (s, t)"
proof -
  have "takeWhile (\<lambda>x. x \<noteq> c) (rev t @ c # rev s) = rev t" "dropWhile (\<lambda>x. x \<noteq> c) (rev t @ c # rev s) = c # rev s"
    using assms by (simp_all add: takeWhile_append dropWhile_append)
  then show ?thesis by (simp add: split_last_def)
qed

lemma split_last_Some:
  assumes "split_last c s = Some (a, b)"
  shows "s = a @ [c] @ b"
proof -
  have c: "c \<in> set s" and a: "a = rev (tl (dropWhile (\<lambda>x. x \<noteq> c) (rev s)))" and b: "b = rev (takeWhile (\<lambda>x. x \<noteq> c) (rev s))"
    using assms by (auto simp: split_last_def split: if_splits)
  obtain d ds where d: "dropWhile (\<lambda>x. x \<noteq> c) (rev s) = d # ds" using c by (cases "dropWhile (\<lambda>x. x \<noteq> c) (rev s)") auto
  then have "d = c" using hd_dropWhile [of "\<lambda>x. x \<noteq> c" "rev s"] by auto
  have "rev s = takeWhile (\<lambda>x. x \<noteq> c) (rev s) @ (c # ds)" using d \<open>d = c\<close> takeWhile_dropWhile_id [of "\<lambda>x. x \<noteq> c" "rev s"] by simp
  then have "s = rev (takeWhile (\<lambda>x. x \<noteq> c) (rev s) @ (c # ds))" by (metis rev_rev_ident)
  then show ?thesis using a b d by simp
qed

lemma split_colon: "CHR '':'' \<notin> set a \<Longrightarrow> split_on (CHR '':'') (a @ '':'' @ b) = a # split_on (CHR '':'') b"
  using split_on_append [of "CHR '':''" a b] by simp

lemma split_colons:
  "CHR '':'' \<notin> set u \<Longrightarrow> CHR '':'' \<notin> set e \<Longrightarrow> split_on (CHR '':'') (u @ '':'' @ e) = [u, e]"
  "CHR '':'' \<notin> set u \<Longrightarrow> CHR '':'' \<notin> set sid \<Longrightarrow> CHR '':'' \<notin> set e
    \<Longrightarrow> split_on (CHR '':'') (''v2:'' @ u @ '':'' @ sid @ '':'' @ e) = [''v2'', u, sid, e]"
  using split_on_append [of "CHR '':''" u e] split_on_append [of "CHR '':''" "''v2''" "u @ '':'' @ sid @ '':'' @ e"]
    split_on_append [of "CHR '':''" u "sid @ '':'' @ e"] split_on_append [of "CHR '':''" sid e]
  by (simp_all add: split_on_no_sep)

text \<open>The checks after the signature.\<close>

definition read_claims :: "gotime \<Rightarrow> string list \<Rightarrow> go_error + claims" where
  "read_claims now parts = (case claim_parts parts of
      Inl e \<Rightarrow> Inl e
    | Inr (userPart, sessionID, expPart) \<Rightarrow>
        (case parse_int 64 userPart of
           None \<Rightarrow> Inl (PlainErr ''malformed user_id in token'')
         | Some userID \<Rightarrow>
             (case parse_int 64 expPart of
                None \<Rightarrow> Inl (PlainErr ''malformed expiry in token'')
              | Some e \<Rightarrow>
                  if unix now > e then Inl (New AuthTokenExpired)
                  else Inr \<lparr>cm_UserID = userID, cm_SessionID = sessionID, cm_ExpiresAt = e\<rparr>)))"

lemma parse_signed:
  "ParseClaims hmac now (m @ ''.'' @ token_sign hmac m secret) secret = read_claims now (split_on (CHR '':'') m)"
proof -
  have "split_last (CHR ''.'') (m @ ''.'' @ token_sign hmac m secret) = Some (m, token_sign hmac m secret)"
    unfolding token_sign_def by (rule split_last_append [OF b64_no_dot])
  then show ?thesis by (simp add: ParseClaims_def read_claims_def)
qed

definition expiry :: "gotime \<Rightarrow> duration \<Rightarrow> int" where "expiry now ttl = unix (now + ttl)"

lemma token_read_back:
  assumes "in_i64 u" "in_i64 (expiry now ttl)" "sid \<noteq> []" "CHR '':'' \<notin> set sid"
  shows "ParseClaims hmac later (SignSession hmac now u sid ttl secret) secret
      = (if unix later \<le> expiry now ttl then Inr \<lparr>cm_UserID = u, cm_SessionID = sid, cm_ExpiresAt = expiry now ttl\<rparr> else Inl (New AuthTokenExpired))
    \<and> ParseClaims hmac later (Sign hmac now u ttl secret) secret
      = (if unix later \<le> expiry now ttl then Inr \<lparr>cm_UserID = u, cm_SessionID = [], cm_ExpiresAt = expiry now ttl\<rparr> else Inl (New AuthTokenExpired))"
proof -
  note p = parse_format_i64 [OF assms(1)] parse_format_i64 [OF assms(2)]
  have v2: "split_on (CHR '':'') (''v2:'' @ format_int u @ '':'' @ sid @ '':'' @ format_int (expiry now ttl)) = [''v2'', format_int u, sid, format_int (expiry now ttl)]"
    using assms(4) by (intro split_colons) simp_all
  have v1: "split_on (CHR '':'') (format_int u @ '':'' @ format_int (expiry now ttl)) = [format_int u, format_int (expiry now ttl)]"
    by (intro split_colons) simp_all
  define m2 where "m2 = ''v2:'' @ format_int u @ '':'' @ sid @ '':'' @ format_int (expiry now ttl)"
  define m1 where "m1 = format_int u @ '':'' @ format_int (expiry now ttl)"
  have S: "SignSession hmac now u sid ttl secret = m2 @ ''.'' @ token_sign hmac m2 secret" "Sign hmac now u ttl secret = m1 @ ''.'' @ token_sign hmac m1 secret"
    by (simp_all add: SignSession_def Sign_def m1_def m2_def Let_def expiry_def)
  have "ParseClaims hmac later (SignSession hmac now u sid ttl secret) secret = read_claims later [''v2'', format_int u, sid, format_int (expiry now ttl)]"
    unfolding S parse_signed m2_def v2 ..
  moreover have "ParseClaims hmac later (Sign hmac now u ttl secret) secret = read_claims later [format_int u, format_int (expiry now ttl)]"
    unfolding S parse_signed m1_def v1 ..
  ultimately show ?thesis using assms(3) p by (simp add: read_claims_def claim_parts_def)
qed

text \<open>An access token is read back as it was signed.  Whatever the message authentication code is, ParseClaims
  returns for a token of SignSession exactly the user, the session and the expiry it was signed for while it has not
  expired, and AUTH_TOKEN_EXPIRED from then on; the tokens of the old form are still read, without a session.\<close>

theorem token_roundtrip:
  assumes "in_i64 u" "in_i64 (expiry now ttl)" "sid \<noteq> []" "CHR '':'' \<notin> set sid"
  shows "ParseClaims hmac later (SignSession hmac now u sid ttl secret) secret
      = (if unix later \<le> expiry now ttl then Inr \<lparr>cm_UserID = u, cm_SessionID = sid, cm_ExpiresAt = expiry now ttl\<rparr> else Inl (New AuthTokenExpired))
    \<and> ParseClaims hmac later (Sign hmac now u ttl secret) secret
      = (if unix later \<le> expiry now ttl then Inr \<lparr>cm_UserID = u, cm_SessionID = [], cm_ExpiresAt = expiry now ttl\<rparr> else Inl (New AuthTokenExpired))"
  by (rule token_read_back [OF assms])

text \<open>C30: whatever ParseClaims accepts is a signed token of one of the two forms: the part before the last dot was signed with
  the secret, it names a user and an expiry in the range of int64 that has not passed, and either a session
  that is not empty or, in the old form, none.\<close>

theorem accepted_tokens_are_signed:
  assumes "ParseClaims hmac now token secret = Inr c"
  shows "\<exists>u e msg. token = msg @ ''.'' @ token_sign hmac msg secret \<and> parse_int 64 u = Some (cm_UserID c) \<and> parse_int 64 e = Some (cm_ExpiresAt c)
    \<and> split_on (CHR '':'') msg = (if cm_SessionID c = [] then [u, e] else [''v2'', u, cm_SessionID c, e])
    \<and> in_i64 (cm_UserID c) \<and> in_i64 (cm_ExpiresAt c) \<and> unix now \<le> cm_ExpiresAt c"
proof -
  obtain msg sig u sid e where m: "split_last (CHR ''.'') token = Some (msg, sig)" "sig = token_sign hmac msg secret"
    "claim_parts (split_on (CHR '':'') msg) = Inr (u, sid, e)" "parse_int 64 u = Some (cm_UserID c)" "parse_int 64 e = Some (cm_ExpiresAt c)"
    "cm_SessionID c = sid" "unix now \<le> cm_ExpiresAt c"
    using assms by (auto simp: ParseClaims_def split: option.splits if_splits sum.splits)
  have "split_on (CHR '':'') msg = (if sid = [] then [u, e] else [''v2'', u, sid, e])"
    using m(3) by (auto simp: claim_parts_def split: list.splits if_splits)
  moreover have "parse_int 64 x = Some i \<Longrightarrow> in_i64 i" for x i
    by (auto simp: parse_int_def Let_def in_i64_def min_int64_def max_int64_def split: option.splits if_splits list.splits prod.splits)
  ultimately show ?thesis
    using m(2,4-7) split_last_Some [OF m(1)] by (intro exI [of _ u] exI [of _ e] exI [of _ msg] conjI) auto
qed

section \<open>The refresh token\<close>

lemma other_key:
  "j \<noteq> k \<Longrightarrow> HSET now k fs rd j = rd j" "j \<noteq> k \<Longrightarrow> EXPIRE now k ttl rd j = rd j" "j \<noteq> k \<Longrightarrow> SETEX now k v ttl rd j = rd j"
  by (simp_all add: HSET_def EXPIRE_def SETEX_def split: option.split redis_value.split)

lemma key_kinds [simp]: "refreshKey h \<noteq> authSessionKey s" "authSessionKey s \<noteq> refreshKey h" "refreshKey h = refreshKey h' \<longleftrightarrow> h = h'"
  by (simp_all add: refreshKey_def authSessionKey_def)

lemma swap_gone: "old \<noteq> new \<Longrightarrow> swap_index now (authSessionKey sid) fs old new u rd (refreshKey old) = None"
  by (simp add: swap_index_def other_key DEL_def)

lemma GET_gone: "rd k = None \<Longrightarrow> GET now rd k = Inr None"
  by (simp add: GET_def live_def)

text \<open>Either script leaves the store alone, or it takes the index entry of the old token away.\<close>

lemma Rotate_effect:
  assumes "old \<noteq> new"
  shows "snd (Rotate env sid old new rd) = rd \<or> rd (refreshKey old) \<noteq> None \<and> snd (Rotate env sid old new rd) (refreshKey old) = None"
    and "fst (Rotate env sid old new rd) = Inr u \<Longrightarrow> u \<noteq> 0 \<Longrightarrow> snd (Rotate env sid old new rd) (refreshKey old) = None"
  using swap_gone [OF assms] GET_gone [of rd "refreshKey old"]
  by (auto simp: Rotate_def redis_call_def split: commit_outcome.splits sum.splits option.splits if_splits)

lemma Migrate_effect:
  assumes "old \<noteq> new"
  shows "snd (MigrateLegacy tn env sid old new rd) = rd \<or> rd (refreshKey old) \<noteq> None \<and> snd (MigrateLegacy tn env sid old new rd) (refreshKey old) = None"
    and "fst (MigrateLegacy tn env sid old new rd) = Inr u \<Longrightarrow> u \<noteq> 0 \<Longrightarrow> snd (MigrateLegacy tn env sid old new rd) (refreshKey old) = None"
  using swap_gone [OF assms] GET_gone [of rd "refreshKey old"]
  by (auto simp: MigrateLegacy_def redis_call_def split: commit_outcome.splits sum.splits option.splits if_splits)

text \<open>A token is spent when its index entry is gone.\<close>

definition spent :: "(string \<Rightarrow> string) \<Rightarrow> string \<Rightarrow> redis \<Rightarrow> bool" where
  "spent sha token rd \<longleftrightarrow> rd (refreshKey (sha token)) = None"

lemma spent_Rotate: "rd (refreshKey old) = None \<Longrightarrow> Rotate env sid old new rd = (Inr u, rd') \<Longrightarrow> u = 0"
  using GET_gone [of rd "refreshKey old"]
  by (auto simp: Rotate_def redis_call_def split: commit_outcome.splits sum.splits option.splits if_splits)

lemma spent_Migrate: "rd (refreshKey old) = None \<Longrightarrow> MigrateLegacy tn env sid old new rd = (Inr u, rd') \<Longrightarrow> u = 0"
  using GET_gone [of rd "refreshKey old"]
  by (auto simp: MigrateLegacy_def redis_call_def split: commit_outcome.splits sum.splits option.splits if_splits)

lemma refresh_effect:
  assumes "sha (rf_token env) \<noteq> sha token"
  shows "snd (RefreshSession hmac sha tn secret token env rd) = rd
    \<or> \<not> spent sha token rd \<and> spent sha token (snd (RefreshSession hmac sha tn secret token env rd))"
    and "fst (RefreshSession hmac sha tn secret token env rd) = Inr r \<Longrightarrow>
      \<not> spent sha token rd \<and> spent sha token (snd (RefreshSession hmac sha tn secret token env rd))"
proof -
  let ?old = "sha token" and ?new = "sha (rf_token env)"
  from assms have n: "?old \<noteq> ?new" by simp
  obtain x rd1 where 1: "Rotate (rf_rotate env) (rf_session env) ?old ?new rd = (x, rd1)" by (cases "Rotate (rf_rotate env) (rf_session env) ?old ?new rd")
  obtain y rd2 where 2: "MigrateLegacy tn (rf_migrate env) (rf_session env) ?old ?new rd1 = (y, rd2)"
    by (cases "MigrateLegacy tn (rf_migrate env) (rf_session env) ?old ?new rd1")
  have e1: "rd1 = rd \<or> \<not> spent sha token rd \<and> spent sha token rd1"
    using Rotate_effect(1) [OF n, of "rf_rotate env" "rf_session env" rd] by (simp add: 1 spent_def)
  have e2: "rd2 = rd1 \<or> \<not> spent sha token rd1 \<and> spent sha token rd2"
    using Migrate_effect(1) [OF n, of tn "rf_migrate env" "rf_session env" rd1] by (simp add: 2 spent_def)
  have s1: "spent sha token rd1 \<and> \<not> spent sha token rd" if "x = Inr u" "u \<noteq> 0" for u
    using Rotate_effect(2) [OF n, of "rf_rotate env" "rf_session env" rd u] spent_Rotate [of rd ?old "rf_rotate env" "rf_session env" ?new u rd1]
    unfolding spent_def 1 using that by auto
  have s2: "spent sha token rd2 \<and> \<not> spent sha token rd1" if "y = Inr u" "u \<noteq> 0" for u
    using Migrate_effect(2) [OF n, of tn "rf_migrate env" "rf_session env" rd1 u] spent_Migrate [of rd1 ?old tn "rf_migrate env" "rf_session env" ?new u rd2]
    unfolding spent_def 2 using that by auto
  show "snd (RefreshSession hmac sha tn secret token env rd) = rd
    \<or> \<not> spent sha token rd \<and> spent sha token (snd (RefreshSession hmac sha tn secret token env rd))"
    using e1 e2 by (auto simp: RefreshSession_def Let_def 1 2 split: sum.split)
  show "\<not> spent sha token rd \<and> spent sha token (snd (RefreshSession hmac sha tn secret token env rd))"
    if "fst (RefreshSession hmac sha tn secret token env rd) = Inr r"
    using that s1 s2 e1 by (auto simp: RefreshSession_def Let_def 1 2 split: sum.splits if_splits)
qed

lemma refresh_refused:
  assumes "sha (rf_token env) \<noteq> sha token"
    and "spent sha token rd \<or> \<not> spent sha token (snd (RefreshSession hmac sha tn secret token env rd))"
  shows "snd (RefreshSession hmac sha tn secret token env rd) = rd" "is_err (fst (RefreshSession hmac sha tn secret token env rd))"
proof -
  note eff = refresh_effect [where hmac = hmac and tn = tn and secret = secret and rd = rd, OF assms(1)]
  show "snd (RefreshSession hmac sha tn secret token env rd) = rd" using eff(1) assms(2) by blast
  show "is_err (fst (RefreshSession hmac sha tn secret token env rd))"
    using eff(2) assms(2) by (cases "fst (RefreshSession hmac sha tn secret token env rd)") auto
qed

text \<open>The presentations of a history that are answered with new tokens.\<close>

fun answered :: "('e \<Rightarrow> 's \<Rightarrow> (go_error + 'r) \<times> 's) \<Rightarrow> ('e + ('s \<Rightarrow> 's)) list \<Rightarrow> 's \<Rightarrow> nat" where
  "answered once [] s = 0"
| "answered once (Inl e # h) s = (if is_err (fst (once e s)) then 0 else 1) + answered once h (snd (once e s))"
| "answered once (Inr f # h) s = answered once h (f s)"

text \<open>No presentation of the history draws a new token with the hash of the presented one.\<close>

definition new_tokens_differ :: "(string \<Rightarrow> string) \<Rightarrow> string \<Rightarrow> (refresh_env + (redis \<Rightarrow> redis)) list \<Rightarrow> bool" where
  "new_tokens_differ sha token h \<longleftrightarrow> (\<forall>env. Inl env \<in> set h \<longrightarrow> sha (rf_token env) \<noteq> sha token)"

lemma spent_is_refused:
  assumes "spent sha token rd" "others_keep (\<lambda>_. True) (spent sha token) h" "new_tokens_differ sha token h"
  shows "effective (RefreshSession hmac sha tn secret token) h rd = 0 \<and> answered (RefreshSession hmac sha tn secret token) h rd = 0"
  using assms
proof (induction h arbitrary: rd)
  case (Cons x h)
  have d: "new_tokens_differ sha token h" using Cons.prems(3) by (simp add: new_tokens_differ_def)
  show ?case
  proof (cases x)
    case (Inl env)
    then have n: "sha (rf_token env) \<noteq> sha token" using Cons.prems(3) by (auto simp: new_tokens_differ_def)
    note same = refresh_refused [OF n disjI1 [OF Cons.prems(1)], of hmac tn secret]
    then show ?thesis using Inl Cons.IH [OF Cons.prems(1) _ d] Cons.prems(2) by simp
  qed (use Cons d in auto)
qed simp

text \<open>C28: a refresh token is good for one refresh.  However often and for whatever session it is presented, whichever
  replies are lost, and whatever else happens to the store as long as nobody issues the same token again: at most one
  presentation is answered with new tokens, at most one changes the store, and after an answer every further
  presentation is refused and changes nothing.\<close>

theorem refresh_token_single_use:
  assumes "others_keep (\<lambda>_. True) (spent sha token) h" "new_tokens_differ sha token h"
  shows "answered (RefreshSession hmac sha tn secret token) h rd \<le> 1
    \<and> effective (RefreshSession hmac sha tn secret token) h rd \<le> 1
    \<and> (sha (rf_token env) \<noteq> sha token \<and> fst (RefreshSession hmac sha tn secret token env rd) = Inr r \<longrightarrow>
        answered (RefreshSession hmac sha tn secret token) h (snd (RefreshSession hmac sha tn secret token env rd)) = 0
        \<and> effective (RefreshSession hmac sha tn secret token) h (snd (RefreshSession hmac sha tn secret token env rd)) = 0)"
proof -
  have "answered (RefreshSession hmac sha tn secret token) h rd \<le> 1 \<and> effective (RefreshSession hmac sha tn secret token) h rd \<le> 1"
    using assms
  proof (induction h arbitrary: rd)
    case (Cons x h)
    have d: "new_tokens_differ sha token h" using Cons.prems(2) by (simp add: new_tokens_differ_def)
    show ?case
    proof (cases x)
      case (Inl e)
      then have n: "sha (rf_token e) \<noteq> sha token" and k: "others_keep (\<lambda>_. True) (spent sha token) h"
        using Cons.prems by (auto simp: new_tokens_differ_def)
      show ?thesis
      proof (cases "spent sha token (snd (RefreshSession hmac sha tn secret token e rd))")
        case True
        then show ?thesis using Inl spent_is_refused [OF True k d, of hmac tn secret] by simp
      next
        case False
        from refresh_refused [OF n disjI2 [OF this]] show ?thesis using Inl Cons.IH [OF k d] by simp
      qed
    qed (use Cons d in auto)
  qed simp
  moreover have "spent sha token (snd (RefreshSession hmac sha tn secret token env rd))"
    if "sha (rf_token env) \<noteq> sha token \<and> fst (RefreshSession hmac sha tn secret token env rd) = Inr r"
    using that refresh_effect(2) by blast
  ultimately show ?thesis using spent_is_refused [OF _ assms] by blast
qed

section \<open>Witnesses\<close>

definition plain_mac :: hmac where "plain_mac secret msg = secret @ msg"

definition auth_calm :: redis_env where "auth_calm = \<lparr>rd_now = 1000 * second, rd_outcome = CommitOK\<rparr>"

lemma token_roundtrip_witness:
  "ParseClaims plain_mac (1100 * second) (SignSession plain_mac (1000 * second) 42 ''s1'' (30 * minute) ''k'') ''k''
     = Inr \<lparr>cm_UserID = 42, cm_SessionID = ''s1'', cm_ExpiresAt = 2800\<rparr>"
  using token_roundtrip [of 42 "1000 * second" "30 * minute" "''s1''" plain_mac "1100 * second" "''k''"]
  by (simp add: in_i64_def min_int64_def max_int64_def expiry_def unix_def)

lemma signed_42:
  "ParseClaims plain_mac (1100 * second) (SignSession plain_mac (1000 * second) 42 ''s1'' (30 * minute) ''k'') ''k''
     = Inr \<lparr>cm_UserID = 42, cm_SessionID = ''s1'', cm_ExpiresAt = 2800\<rparr>"
  using token_read_back [of 42 "1000 * second" "30 * minute" "''s1''" plain_mac "1100 * second" "''k''"]
  by (simp add: in_i64_def min_int64_def max_int64_def expiry_def unix_def)

lemma accepted_tokens_are_signed_witness:
  "\<exists>u e msg. SignSession plain_mac (1000 * second) 42 ''s1'' (30 * minute) ''k'' = msg @ ''.'' @ token_sign plain_mac msg ''k''
    \<and> split_on (CHR '':'') msg = [''v2'', u, ''s1'', e]"
  using accepted_tokens_are_signed [of plain_mac "1100 * second" "SignSession plain_mac (1000 * second) 42 ''s1'' (30 * minute) ''k''" "''k''"
      "\<lparr>cm_UserID = 42, cm_SessionID = ''s1'', cm_ExpiresAt = 2800\<rparr>"] signed_42 by auto

definition auth_store :: redis where
  "auth_store = snd (RS_Create auth_calm ''s1'' (rev ''tok'') 42 Map.empty)"

definition refresh_of :: "string \<Rightarrow> string \<Rightarrow> commit_outcome \<Rightarrow> refresh_env" where
  "refresh_of sid new out = \<lparr>rf_rotate = auth_calm\<lparr>rd_outcome := out\<rparr>, rf_migrate = auth_calm, rf_session = sid, rf_token = new, rf_now = 1000 * second\<rparr>"

lemma parse_42: "int_reply (format_int 42) = Inr 42" "parse_int 64 (format_int 42) = Some 42"
  using parse_format_i64 [of 42] by (simp_all add: int_reply_def in_i64_def min_int64_def max_int64_def)

lemmas store_eval = auth_store_def RS_Create_def redis_call_def auth_calm_def HGETALL_def GET_def live_def SETEX_def EXPIRE_def HSET_def DEL_def
  refreshTokenTTL_def refresh_of_def Rotate_def MigrateLegacy_def RefreshSession_def swap_index_def trim_space_def is_space_def parse_42
  DeleteSession_def Logout_def IsActive_def Let_def

lemma first_refresh_ok: "\<not> is_err (fst (RefreshSession plain_mac rev (\<lambda>_. True) ''k'' ''tok'' (refresh_of ''s1'' ''t2'' CommitOK) auth_store))"
  by (simp add: store_eval refreshKey_def authSessionKey_def)

lemma refresh_token_single_use_witness:
  "answered (RefreshSession plain_mac rev (\<lambda>_. True) ''k'' ''tok'') [Inl (refresh_of ''s1'' ''t2'' (CommitAckLost CtxDeadline)), Inl (refresh_of ''s1'' ''t3'' CommitOK)] auth_store \<le> 1
   \<and> answered (RefreshSession plain_mac rev (\<lambda>_. True) ''k'' ''tok'') [Inl (refresh_of ''s9'' ''t3'' CommitOK)]
      (snd (RefreshSession plain_mac rev (\<lambda>_. True) ''k'' ''tok'' (refresh_of ''s1'' ''t2'' CommitOK) auth_store)) = 0"
proof -
  obtain r where r: "fst (RefreshSession plain_mac rev (\<lambda>_. True) ''k'' ''tok'' (refresh_of ''s1'' ''t2'' CommitOK) auth_store) = Inr r"
    using first_refresh_ok unfolding not_is_err by blast
  have o: "others_keep (\<lambda>_. True) (spent rev ''tok'') [Inl (refresh_of ''s1'' ''t2'' (CommitAckLost CtxDeadline)), Inl (refresh_of ''s1'' ''t3'' CommitOK)]"
    "others_keep (\<lambda>_. True) (spent rev ''tok'') [Inl (refresh_of ''s9'' ''t3'' CommitOK)]" by simp_all
  have d: "new_tokens_differ rev ''tok'' [Inl (refresh_of ''s1'' ''t2'' (CommitAckLost CtxDeadline)), Inl (refresh_of ''s1'' ''t3'' CommitOK)]"
    "new_tokens_differ rev ''tok'' [Inl (refresh_of ''s9'' ''t3'' CommitOK)]" by (auto simp: new_tokens_differ_def refresh_of_def)
  show ?thesis
    using refresh_token_single_use [OF o(1) d(1), of plain_mac "\<lambda>_. True" "''k''" auth_store]
      refresh_token_single_use [OF o(2) d(2), of plain_mac "\<lambda>_. True" "''k''" auth_store "refresh_of ''s1'' ''t2'' CommitOK" r] r
    by (simp add: refresh_of_def)
qed

section \<open>Finding: a refresh token leaves its session\<close>

text \<open>Rotate refuses a token of another session, and RefreshSession then falls back to the migration of tokens of old
  servers, which only asks that the session does not exist: a token of session s1 is accepted for any
  unused session id.  The new session lives on, s1 can no longer be refreshed nor logged out, and its access
  tokens stay active.\<close>

lemma token_moves_to_any_session:
  "\<not> is_err (fst (RefreshSession plain_mac rev (\<lambda>_. True) ''k'' ''tok'' (refresh_of ''s9'' ''t2'' CommitOK) auth_store))"
  "is_err (fst (Logout rev auth_calm ''s1'' ''tok'' (snd (RefreshSession plain_mac rev (\<lambda>_. True) ''k'' ''tok'' (refresh_of ''s9'' ''t2'' CommitOK) auth_store))))"
  "IsActive auth_calm ''s1'' 42 (snd (RefreshSession plain_mac rev (\<lambda>_. True) ''k'' ''tok'' (refresh_of ''s9'' ''t2'' CommitOK) auth_store)) = Inr True"
  by (simp_all add: store_eval refreshKey_def authSessionKey_def)

end
