(* ===== verification/GateSessions.thy ===== *)
theory GateSessions
  imports Redis
begin

text \<open>
  pkg/redisstore/session_store.go and conn_store.go: what gatesvr keeps in Redis about a WebSocket session (a hash with the
  instance that owns it and a growing owner epoch, and short-lived resume tickets) and about the one connection of a
  player.  The messages that a script publishes are part of its answer.
\<close>

section \<open>SessionStore\<close>

definition sessionTTL :: duration where "sessionTTL = 24 * 60 * minute"

record gate_session =
  gs_UserID :: int
  gs_FarmID :: int
  gs_LastSeq :: int
  gs_DeviceID :: string
  gs_OwnerInstance :: string
  gs_OwnerEpoch :: int
  gs_Status :: string

definition sessKey :: "string \<Rightarrow> string" where "sessKey sessionID = ''sess:'' @ sessionID"
definition resumeKey :: "string \<Rightarrow> string" where "resumeKey ticket = ''ws:resume:'' @ ticket"

definition session_fields :: "gate_session \<Rightarrow> (string \<times> string) list" where
  "session_fields s =
     [(''user_id'', format_int (gs_UserID s)), (''farm_id'', format_int (gs_FarmID s)), (''last_seq'', format_int (gs_LastSeq s)),
      (''device_id'', gs_DeviceID s), (''owner_instance'', gs_OwnerInstance s), (''owner_epoch'', format_int (gs_OwnerEpoch s)),
      (''status'', gs_Status s)]"

text \<open>HSET and EXPIRE in one MULTI; a key of another type fails the first and not the second.\<close>

definition hset_expire :: "gotime \<Rightarrow> string \<Rightarrow> (string \<times> string) list \<Rightarrow> redis \<Rightarrow> (go_error + unit) \<times> redis" where
  "hset_expire now key fs rd =
     ((case HGETALL now rd key of Inl e \<Rightarrow> Inl e | Inr _ \<Rightarrow> Inr ()), EXPIRE now key sessionTTL (HSET now key fs rd))"

definition Save :: "redis_env \<Rightarrow> string \<Rightarrow> gate_session \<Rightarrow> redis \<Rightarrow> (go_error + unit) \<times> redis" where
  "Save env sessionID sess = redis_call env (\<lambda>now rd. hset_expire now (sessKey sessionID) (session_fields sess) rd)"

text \<open>The error of ParseInt is dropped: what does not parse reads as 0, what is out of range as the nearest bound, which no store
  of these functions writes.\<close>

definition int_field :: "(string \<rightharpoonup> string) \<Rightarrow> string \<Rightarrow> int" where
  "int_field h f = (case h f of Some v \<Rightarrow> opt_or (parse_int 64 v) 0 | None \<Rightarrow> 0)"

definition RedisNil :: go_error where "RedisNil = PlainErr ''redis: nil''"

definition Load :: "redis_env \<Rightarrow> string \<Rightarrow> redis \<Rightarrow> (go_error + gate_session) \<times> redis" where
  "Load env sessionID =
     redis_call env (\<lambda>now rd. (case HGETALL now rd (sessKey sessionID) of
         Inl e \<Rightarrow> Inl e
       | Inr h \<Rightarrow>
           if h = Map.empty then Inl RedisNil
           else Inr \<lparr>gs_UserID = int_field h ''user_id'', gs_FarmID = int_field h ''farm_id'', gs_LastSeq = int_field h ''last_seq'',
                gs_DeviceID = opt_or (h ''device_id'') [], gs_OwnerInstance = opt_or (h ''owner_instance'') [],
                gs_OwnerEpoch = int_field h ''owner_epoch'', gs_Status = opt_or (h ''status'') []\<rparr>, rd))"

text \<open>HINCRBY starts from 0, and fails on a value that is no integer or overflows.\<close>

definition HINCRBY :: "(string \<rightharpoonup> string) \<Rightarrow> string \<Rightarrow> go_error + int" where
  "HINCRBY h f =
     (case (case h f of None \<Rightarrow> Some 0 | Some v \<Rightarrow> parse_int 64 v) of
        None \<Rightarrow> Inl (PlainErr ''hash value is not an integer'')
      | Some i \<Rightarrow> if max_int64 < i + 1 then Inl (PlainErr ''increment or decrement would overflow'') else Inr (i + 1))"

definition Claim :: "redis_env \<Rightarrow> string \<Rightarrow> int \<Rightarrow> int \<Rightarrow> string \<Rightarrow> redis \<Rightarrow> (go_error + int) \<times> redis" where
  "Claim env sessionID userID farmID instanceID =
     redis_call env (\<lambda>now rd. (case HGETALL now rd (sessKey sessionID) of
         Inl e \<Rightarrow> (Inl e, rd)
       | Inr h \<Rightarrow>
           (case HINCRBY h ''owner_epoch'' of
              Inl e \<Rightarrow> (Inl e, rd)
            | Inr epoch \<Rightarrow>
                (Inr epoch, EXPIRE now (sessKey sessionID) sessionTTL (HSET now (sessKey sessionID)
                   ([(''owner_epoch'', format_int epoch), (''user_id'', format_int userID), (''farm_id'', format_int farmID),
                     (''owner_instance'', instanceID), (''status'', ''ACTIVE'')]
                    @ (if h ''last_seq'' = None then [(''last_seq'', ''0'')] else [])) rd)))))"

definition BeginHandoff :: "redis_env \<Rightarrow> string \<Rightarrow> string \<Rightarrow> int \<Rightarrow> string \<Rightarrow> duration \<Rightarrow> redis \<Rightarrow> (go_error + unit) \<times> redis" where
  "BeginHandoff env sessionID instanceID ownerEpoch ticket ttl =
     redis_call env (\<lambda>now rd. (case HGETALL now rd (sessKey sessionID) of
         Inl e \<Rightarrow> (Inl e, rd)
       | Inr h \<Rightarrow>
           if h ''owner_instance'' \<noteq> Some instanceID \<or> h ''owner_epoch'' \<noteq> Some (format_int ownerEpoch)
           then (Inl (PlainErr ''session is no longer owned''), rd)
           else if go_div ttl second \<le> 0 then (Inl (PlainErr ''invalid expire time''), HSET now (sessKey sessionID) [(''status'', ''HANDOFF_PENDING'')] rd)
           else (Inr (), SETEX now (resumeKey ticket) sessionID (go_div ttl second * second)
                   (HSET now (sessKey sessionID) [(''status'', ''HANDOFF_PENDING'')] rd))))"

definition ConsumeResume :: "string \<Rightarrow> string \<Rightarrow> redis_env \<Rightarrow> redis \<Rightarrow> (go_error + unit) \<times> redis" where
  "ConsumeResume ticket sessionID env =
     redis_call env (\<lambda>now rd. (case GET now rd (resumeKey ticket) of
         Inl e \<Rightarrow> (Inl e, rd)
       | Inr g \<Rightarrow> if g \<noteq> Some sessionID then (Inl (PlainErr ''resume ticket invalid or expired''), rd)
           else (Inr (), DEL (resumeKey ticket) rd)))"

definition UpdateLastSeq :: "redis_env \<Rightarrow> string \<Rightarrow> int \<Rightarrow> redis \<Rightarrow> (go_error + unit) \<times> redis" where
  "UpdateLastSeq env sessionID sq = redis_call env (\<lambda>now rd. hset_expire now (sessKey sessionID) [(''last_seq'', format_int sq)] rd)"

definition SS_Delete :: "redis_env \<Rightarrow> string \<Rightarrow> redis \<Rightarrow> (go_error + unit) \<times> redis" where
  "SS_Delete env sessionID = redis_call env (\<lambda>now rd. (Inr (), DEL (sessKey sessionID) rd))"

section \<open>ConnStore\<close>

definition connTTL :: duration where "connTTL = 90 * second"

definition connKey :: "int \<Rightarrow> string" where "connKey userID = ''ws:conn:'' @ format_int userID"
definition KickChannel :: "string \<Rightarrow> string" where "KickChannel instanceID = ''ws:kick:instance:'' @ instanceID"

text \<open>The script of Register: the entry is overwritten, and the instance of a different old connection is told.\<close>

definition CS_Register :: "redis_env \<Rightarrow> string \<Rightarrow> int \<Rightarrow> string \<Rightarrow> redis \<Rightarrow> (go_error + (string \<times> string) list) \<times> redis" where
  "CS_Register env instanceID userID sessionID =
     (let val = instanceID @ '':'' @ sessionID in
      redis_call env (\<lambda>now rd. (case GET now rd (connKey userID) of
         Inl e \<Rightarrow> (Inl e, rd)
       | Inr old \<Rightarrow>
           (Inr (case old of
                 Some o' \<Rightarrow> if o' \<noteq> val \<and> CHR '':'' \<in> set o'
                     then [(KickChannel (takeWhile (\<lambda>c. c \<noteq> CHR '':'') o'), format_int userID @ ''|'' @ val)] else []
               | None \<Rightarrow> []),
            SETEX now (connKey userID) val connTTL rd))))"

definition CS_Refresh :: "redis_env \<Rightarrow> string \<Rightarrow> int \<Rightarrow> string \<Rightarrow> redis \<Rightarrow> (go_error + unit) \<times> redis" where
  "CS_Refresh env instanceID userID sessionID =
     redis_call env (\<lambda>now rd. (case GET now rd (connKey userID) of
         Inl e \<Rightarrow> (Inl e, rd)
       | Inr cur \<Rightarrow> (Inr (), if cur = Some (instanceID @ '':'' @ sessionID) then EXPIRE now (connKey userID) connTTL rd else rd)))"

definition CS_Unregister :: "redis_env \<Rightarrow> string \<Rightarrow> int \<Rightarrow> string \<Rightarrow> redis \<Rightarrow> (go_error + unit) \<times> redis" where
  "CS_Unregister env instanceID userID sessionID =
     redis_call env (\<lambda>now rd. (case GET now rd (connKey userID) of
         Inl e \<Rightarrow> (Inl e, rd)
       | Inr cur \<Rightarrow> (Inr (), if cur = Some (instanceID @ '':'' @ sessionID) then DEL (connKey userID) rd else rd)))"

text \<open>The listeners of one instance, and what a message on its kick channel does: the callbacks of the user's other sessions run.\<close>

type_synonym listeners = "int \<Rightarrow> string list"

definition split_first :: "char \<Rightarrow> string \<Rightarrow> (string \<times> string) option" where
  "split_first c s = (if c \<in> set s then Some (takeWhile (\<lambda>x. x \<noteq> c) s, tl (dropWhile (\<lambda>x. x \<noteq> c) s)) else None)"

definition kicked_by :: "listeners \<Rightarrow> string \<Rightarrow> (int \<times> string) list" where
  "kicked_by ls payload =
     (case split_first (CHR ''|'') payload of
        None \<Rightarrow> []
      | Some (u, rest) \<Rightarrow>
          (case parse_int 64 u of
             None \<Rightarrow> []
           | Some userID \<Rightarrow>
               (case split_first (CHR '':'') rest of
                  None \<Rightarrow> []
                | Some (_, newSession) \<Rightarrow> map (\<lambda>s. (userID, s)) (filter (\<lambda>s. s \<noteq> newSession) (ls userID)))))"

definition ListenKick :: "int \<Rightarrow> string \<Rightarrow> listeners \<Rightarrow> listeners" where
  "ListenKick userID sessionID ls = ls(userID := List.insert sessionID (ls userID))"

definition StopListening :: "int \<Rightarrow> string \<Rightarrow> listeners \<Rightarrow> listeners" where
  "StopListening userID sessionID ls = ls(userID := filter (\<lambda>s. s \<noteq> sessionID) (ls userID))"

section \<open>What the stores guarantee\<close>

lemma HGETALL_hset_expire:
  assumes "HGETALL now rd k = Inr h"
  shows "HGETALL t (EXPIRE now k sessionTTL (HSET now k fs rd)) k = Inr (if t < now + sessionTTL then h ++ map_of (rev fs) else Map.empty)"
  using HGETALL_HSET_EXPIRE [OF assms, of sessionTTL] by (simp add: sessionTTL_def)

text \<open>What is saved is loaded, until it expires.\<close>

lemma Save_Load:
  assumes "Save env sid sess rd = (Inr (), rd')" "rd_outcome env2 = CommitOK" "rd_now env2 < rd_now env + sessionTTL"
    and "in_i64 (gs_UserID sess)" "in_i64 (gs_FarmID sess)" "in_i64 (gs_LastSeq sess)" "in_i64 (gs_OwnerEpoch sess)"
  shows "fst (Load env2 sid rd') = Inr sess"
proof -
  obtain h where h: "HGETALL (rd_now env) rd (sessKey sid) = Inr h"
    and rd': "rd' = EXPIRE (rd_now env) (sessKey sid) sessionTTL (HSET (rd_now env) (sessKey sid) (session_fields sess) rd)"
    using assms(1) by (auto simp: Save_def redis_call_def hset_expire_def split: commit_outcome.splits sum.splits)
  have m: "HGETALL (rd_now env2) rd' (sessKey sid) = Inr (h ++ map_of (rev (session_fields sess)))"
    unfolding rd' using HGETALL_hset_expire [OF h, of "rd_now env2" "session_fields sess"] assms(3) by simp
  have f: "(h ++ map_of (rev (session_fields sess))) k = (case map_of (rev (session_fields sess)) k of Some v \<Rightarrow> Some v | None \<Rightarrow> h k)" for k
    by (simp add: map_add_def)
  have ne: "h ++ map_of (rev (session_fields sess)) \<noteq> Map.empty"
    using f [of "''status''"] by (auto simp: session_fields_def dest: fun_cong [of _ _ "''status''"])
  show ?thesis
    using m ne assms(2,4-7) by (simp add: Load_def redis_call_def f int_field_def session_fields_def parse_format_i64)
qed

text \<open>Every claim of a session gets a larger owner epoch than the one before, until the session is deleted or expires.\<close>

definition owner_epoch :: "gotime \<Rightarrow> redis \<Rightarrow> string \<Rightarrow> int option" where
  "owner_epoch now rd sid = (case HGETALL now rd (sessKey sid) of Inr h \<Rightarrow> Option.bind (h ''owner_epoch'') (parse_int 64) | Inl _ \<Rightarrow> None)"

lemma Claim_epoch:
  assumes "Claim env sid u f inst rd = (Inr e, rd')" "t < rd_now env + sessionTTL"
  shows "owner_epoch t rd' sid = Some e \<and> (\<forall>old. owner_epoch (rd_now env) rd sid = Some old \<longrightarrow> e = old + 1)"
proof -
  obtain h where h: "HGETALL (rd_now env) rd (sessKey sid) = Inr h" "HINCRBY h ''owner_epoch'' = Inr e"
    and rd': "\<exists>fs. rd' = EXPIRE (rd_now env) (sessKey sid) sessionTTL (HSET (rd_now env) (sessKey sid)
       ((''owner_epoch'', format_int e) # (''user_id'', format_int u) # (''farm_id'', format_int f) # (''owner_instance'', inst) # (''status'', ''ACTIVE'') # fs) rd)
       \<and> ''owner_epoch'' \<notin> fst ` set fs"
    using assms(1) by (force simp: Claim_def redis_call_def split: commit_outcome.splits sum.splits if_splits)
  have e: "in_i64 e"
    using h(2) by (auto simp: HINCRBY_def parse_int_def Let_def in_i64_def min_int64_def max_int64_def split: option.splits if_splits prod.splits)
  from rd' obtain fs where fs: "rd' = EXPIRE (rd_now env) (sessKey sid) sessionTTL (HSET (rd_now env) (sessKey sid)
       ((''owner_epoch'', format_int e) # (''user_id'', format_int u) # (''farm_id'', format_int f) # (''owner_instance'', inst) # (''status'', ''ACTIVE'') # fs) rd)"
    "''owner_epoch'' \<notin> fst ` set fs" by blast
  have "map_of (rev fs) ''owner_epoch'' = None" using fs(2) by (simp add: map_of_eq_None_iff)
  then show ?thesis
    using HGETALL_hset_expire [OF h(1), of t] assms(2) h fs(1) parse_format_i64 [OF e]
    by (auto simp: owner_epoch_def HINCRBY_def map_add_def split: option.splits if_splits bind_splits)
qed

text \<open>Only the current owner hands a session over.\<close>

lemma BeginHandoff_owner:
  assumes "BeginHandoff env sid inst epoch ticket ttl rd = (Inr (), rd')" "in_i64 epoch"
  shows "owner_epoch (rd_now env) rd sid = Some epoch"
  using assms by (auto simp: BeginHandoff_def redis_call_def owner_epoch_def parse_format_i64 split: commit_outcome.splits sum.splits if_splits)

end
