(* ===== verification/GateSessionsProps.thy ===== *)
theory GateSessionsProps
  imports GateSessions
begin

text \<open>
  Who owns a WebSocket session: the calls that gatesvr makes on the stores as one type of operations, the epochs that
  a run of them answers, and the hand-over, which only the latest owner can begin.
\<close>

section \<open>Runs of store calls\<close>

datatype gate_op =
    GClaim redis_env string int int string
  | GHandoff redis_env string string int string duration
  | GResume string string redis_env
  | GLastSeq redis_env string int
  | GRegister redis_env string int string
  | GRefresh redis_env string int string
  | GUnregister redis_env string int string

primrec gate_apply :: "gate_op \<Rightarrow> redis \<Rightarrow> redis" where
  "gate_apply (GClaim env sid u f inst) rd = snd (Claim env sid u f inst rd)"
| "gate_apply (GHandoff env sid inst ep ticket ttl) rd = snd (BeginHandoff env sid inst ep ticket ttl rd)"
| "gate_apply (GResume ticket sid env) rd = snd (ConsumeResume ticket sid env rd)"
| "gate_apply (GLastSeq env sid sq) rd = snd (UpdateLastSeq env sid sq rd)"
| "gate_apply (GRegister env inst u sid) rd = snd (CS_Register env inst u sid rd)"
| "gate_apply (GRefresh env inst u sid) rd = snd (CS_Refresh env inst u sid rd)"
| "gate_apply (GUnregister env inst u sid) rd = snd (CS_Unregister env inst u sid rd)"

definition gate_run :: "gate_op list \<Rightarrow> redis \<Rightarrow> redis" where "gate_run ops rd = fold gate_apply ops rd"

primrec op_time :: "gate_op \<Rightarrow> gotime" where
  "op_time (GClaim env sid u f inst) = rd_now env"
| "op_time (GHandoff env sid inst ep ticket ttl) = rd_now env"
| "op_time (GResume ticket sid env) = rd_now env"
| "op_time (GLastSeq env sid sq) = rd_now env"
| "op_time (GRegister env inst u sid) = rd_now env"
| "op_time (GRefresh env inst u sid) = rd_now env"
| "op_time (GUnregister env inst u sid) = rd_now env"

text \<open>The epochs that the claims of one session answer along a run, and the number of claims that took effect.\<close>

fun claimed_epochs :: "string \<Rightarrow> gate_op list \<Rightarrow> redis \<Rightarrow> int list" where
  "claimed_epochs sid [] rd = []"
| "claimed_epochs sid (op # ops) rd =
     (case op of
        GClaim env s u f inst \<Rightarrow>
          (case fst (Claim env s u f inst rd) of Inr e \<Rightarrow> if s = sid then [e] else [] | Inl _ \<Rightarrow> [])
      | _ \<Rightarrow> []) @ claimed_epochs sid ops (gate_apply op rd)"

fun claims_of :: "string \<Rightarrow> gate_op list \<Rightarrow> nat" where
  "claims_of sid [] = 0"
| "claims_of sid (op # ops) =
     (case op of GClaim env s u f inst \<Rightarrow> (if s = sid \<and> (\<forall>e. rd_outcome env \<noteq> CommitFailed e) then 1 else 0) | _ \<Rightarrow> 0) + claims_of sid ops"

section \<open>The epoch of a session\<close>

text \<open>Until the time \<^verbatim>\<open>T\<close> the session is held with an epoch.\<close>

definition held :: "gotime \<Rightarrow> string \<Rightarrow> int \<Rightarrow> redis \<Rightarrow> bool" where
  "held T sid ep rd \<longleftrightarrow> (\<exists>x h. rd (sessKey sid) = Some x \<and> re_value x = RHash h \<and> (\<forall>t. re_expires x = Some t \<longrightarrow> T \<le> t)
     \<and> h ''owner_epoch'' = Some (format_int ep) \<and> in_i64 ep)"

lemma held_live:
  assumes "held T sid ep rd" "t < T"
  shows "\<exists>x h. live t rd (sessKey sid) = Some x \<and> rd (sessKey sid) = Some x \<and> re_value x = RHash h \<and> (\<forall>t. re_expires x = Some t \<longrightarrow> T \<le> t)
     \<and> h ''owner_epoch'' = Some (format_int ep) \<and> in_i64 ep \<and> HGETALL t rd (sessKey sid) = Inr h"
  using assms by (auto simp: held_def HGETALL_def live_def split: option.splits)

lemma held_other: "rd' (sessKey sid) = rd (sessKey sid) \<Longrightarrow> held T sid ep rd' \<longleftrightarrow> held T sid ep rd"
  by (simp add: held_def)

lemma keys_differ [simp]:
  "sessKey sid \<noteq> resumeKey t" "sessKey sid \<noteq> connKey u" "resumeKey t \<noteq> sessKey sid" "connKey u \<noteq> sessKey sid"
  "sessKey sid = sessKey sid' \<longleftrightarrow> sid = sid'"
  by (auto simp: sessKey_def resumeKey_def connKey_def)

lemma other_entries [simp]:
  "k \<noteq> j \<Longrightarrow> HSET now k fs rd j = rd j" "k \<noteq> j \<Longrightarrow> EXPIRE now k ttl rd j = rd j" "k \<noteq> j \<Longrightarrow> SETEX now k v ttl rd j = rd j"
  "k \<noteq> j \<Longrightarrow> DEL k rd j = rd j"
  by (auto simp: HSET_def EXPIRE_def SETEX_def DEL_def split: option.splits redis_value.splits)

lemma held_HSET:
  assumes "held T sid ep rd" "now < T" "in_i64 ep'"
    and "(h ++ map_of (rev fs)) ''owner_epoch'' = Some (format_int ep')" "HGETALL now rd (sessKey sid) = Inr h"
  shows "held T sid ep' (HSET now (sessKey sid) fs rd)"
proof -
  obtain x where x: "live now rd (sessKey sid) = Some x" "re_value x = RHash h" "\<forall>t. re_expires x = Some t \<longrightarrow> T \<le> t"
    using held_live [OF assms(1,2)] assms(5) by auto
  then have "HSET now (sessKey sid) fs rd (sessKey sid) = Some (x\<lparr>re_value := RHash (h ++ map_of (rev fs))\<rparr>)"
    by (simp add: HSET_def)
  then show ?thesis unfolding held_def using x(3) assms(3,4) 
    by (intro exI [of _ "x\<lparr>re_value := RHash (h ++ map_of (rev fs))\<rparr>"] exI [of _ "h ++ map_of (rev fs)"]) (simp del: map_add_Some_iff)
qed

lemma held_EXPIRE:
  assumes "held T sid ep rd" "now < T" "T \<le> now + ttl"
  shows "held T sid ep (EXPIRE now (sessKey sid) ttl rd)"
  using held_live [OF assms(1,2)] assms(3) by (auto simp: held_def EXPIRE_def)

lemma HINCRBY_held:
  assumes "h ''owner_epoch'' = Some (format_int ep)" "in_i64 ep" "HINCRBY h ''owner_epoch'' = Inr e"
  shows "e = ep + 1 \<and> in_i64 e"
  using assms by (auto simp: HINCRBY_def parse_format_i64 in_i64_def min_int64_def max_int64_def split: if_splits)

lemma Claim_held:
  assumes "held T sid ep rd" "rd_now env < T" "T \<le> rd_now env + sessionTTL"
  shows "Claim env sid u f inst rd = (Inr e, rd') \<Longrightarrow> e = ep + 1 \<and> held T sid e rd'"
    and "snd (Claim env sid u f inst rd) = rd \<or> held T sid (ep + 1) (snd (Claim env sid u f inst rd))"
    and "(\<forall>x. rd_outcome env \<noteq> CommitFailed x) \<Longrightarrow> ep < max_int64 \<Longrightarrow> held T sid (ep + 1) (snd (Claim env sid u f inst rd))"
proof -
  let ?k = "sessKey sid"
  obtain h where h: "HGETALL (rd_now env) rd ?k = Inr h" "h ''owner_epoch'' = Some (format_int ep)" "in_i64 ep"
    using held_live [OF assms(1,2)] by blast
  have set: "held T sid e (EXPIRE (rd_now env) ?k sessionTTL (HSET (rd_now env) ?k
      ([(''owner_epoch'', format_int e), (''user_id'', format_int u), (''farm_id'', format_int f),
        (''owner_instance'', inst), (''status'', ''ACTIVE'')] @ (if h ''last_seq'' = None then [(''last_seq'', ''0'')] else [])) rd))"
    if "in_i64 e" for e
    by (rule held_EXPIRE [OF held_HSET [OF assms(1,2) that _ h(1)] assms(2,3)]) simp
  show "e = ep + 1 \<and> held T sid e rd'" if "Claim env sid u f inst rd = (Inr e, rd')"
    using that h(1) HINCRBY_held [where h = h, OF h(2,3)] set
    by (auto simp: Claim_def redis_call_def split: commit_outcome.splits sum.splits simp del: append.simps)
  show "snd (Claim env sid u f inst rd) = rd \<or> held T sid (ep + 1) (snd (Claim env sid u f inst rd))"
    using h(1) HINCRBY_held [where h = h, OF h(2,3)] set
    by (auto simp: Claim_def redis_call_def split: commit_outcome.splits sum.splits simp del: append.simps)
  show "held T sid (ep + 1) (snd (Claim env sid u f inst rd))" if "\<forall>x. rd_outcome env \<noteq> CommitFailed x" "ep < max_int64"
  proof -
    have "HINCRBY h ''owner_epoch'' = Inr (ep + 1)" "in_i64 (ep + 1)"
      using that(2) h(2,3) by (auto simp: HINCRBY_def parse_format_i64 in_i64_def)
    then show ?thesis
      using that(1) h(1) set by (auto simp: Claim_def redis_call_def split: commit_outcome.splits simp del: append.simps)
  qed
qed

lemma hset_expire_held:
  assumes "held T sid ep rd" "now < T" "T \<le> now + sessionTTL" "''owner_epoch'' \<notin> fst ` set fs"
  shows "held T sid ep (snd (hset_expire now (sessKey sid) fs rd))"
proof -
  obtain h where h: "HGETALL now rd (sessKey sid) = Inr h" "h ''owner_epoch'' = Some (format_int ep)" "in_i64 ep"
    using held_live [OF assms(1,2)] by blast
  have "(h ++ map_of (rev fs)) ''owner_epoch'' = Some (format_int ep)"
    using h(2) assms(4) by (simp add: map_add_def map_of_eq_None_iff [THEN iffD2] split: option.splits)
  then show ?thesis
    using held_EXPIRE [OF held_HSET [OF assms(1,2) h(3) _ h(1)] assms(2,3)] by (simp add: hset_expire_def)
qed

lemma handoff_mark_held:
  assumes "held T sid ep rd" "now < T"
  shows "held T sid ep (HSET now (sessKey sid) [(''status'', st)] rd)"
proof -
  obtain h where h: "HGETALL now rd (sessKey sid) = Inr h" "h ''owner_epoch'' = Some (format_int ep)" "in_i64 ep"
    using held_live [OF assms] by blast
  then show ?thesis using held_HSET [OF assms h(3) _ h(1)] by simp
qed

text \<open>Every call either leaves the epoch of the session alone or is a claim, which raises it by one.\<close>

lemma gate_apply_held:
  assumes "held T sid ep rd" "op_time op < T" "T \<le> op_time op + sessionTTL"
    and "\<And>env u f inst. op \<noteq> GClaim env sid u f inst"
  shows "held T sid ep (gate_apply op rd)"
proof (cases op)
  case (GClaim env s u f inst)
  then have "s \<noteq> sid" using assms(4) by blast
  then have "gate_apply op rd (sessKey sid) = rd (sessKey sid)"
    by (simp add: GClaim Claim_def redis_call_def split: commit_outcome.split sum.split del: append.simps)
  then show ?thesis using assms(1) held_other by blast
next
  case (GHandoff env s inst e ticket ttl)
  show ?thesis
  proof (cases "s = sid")
    case True
    with assms(2) GHandoff have t: "rd_now env < T" by simp
    note m = handoff_mark_held [OF assms(1) t]
    have m2: "held T sid ep (SETEX now (resumeKey ticket) v d (HSET (rd_now env) (sessKey sid) [(''status'', st)] rd))" for now v d st
      using m [of st] by (subst held_other [where rd = "HSET (rd_now env) (sessKey sid) [(''status'', st)] rd"]) simp_all
    show ?thesis using True GHandoff assms(1) m m2
      by (auto simp: BeginHandoff_def redis_call_def split: commit_outcome.split sum.split)
  next
    case False
    then have "gate_apply op rd (sessKey sid) = rd (sessKey sid)"
      by (simp add: GHandoff BeginHandoff_def redis_call_def split: commit_outcome.split sum.split)
    then show ?thesis using assms(1) held_other by blast
  qed
next
  case (GResume ticket s env)
  then have "gate_apply op rd (sessKey sid) = rd (sessKey sid)"
    by (simp add: ConsumeResume_def redis_call_def split: commit_outcome.split sum.split)
  then show ?thesis using assms(1) held_other by blast
next
  case (GLastSeq env s sq)
  show ?thesis
  proof (cases "s = sid")
    case True
    with GLastSeq assms(1-3) hset_expire_held [OF assms(1), of "rd_now env" "[(''last_seq'', format_int sq)]"] show ?thesis
      by (auto simp: UpdateLastSeq_def redis_call_def split: commit_outcome.split)
  next
    case False
    then have "gate_apply op rd (sessKey sid) = rd (sessKey sid)"
      by (simp add: GLastSeq UpdateLastSeq_def redis_call_def hset_expire_def split: commit_outcome.split)
    then show ?thesis using assms(1) held_other by blast
  qed
next
  case (GRegister env inst u s)
  then have "gate_apply op rd (sessKey sid) = rd (sessKey sid)"
    by (simp add: CS_Register_def redis_call_def Let_def split: commit_outcome.split sum.split)
  then show ?thesis using assms(1) held_other by blast
next
  case (GRefresh env inst u s)
  then have "gate_apply op rd (sessKey sid) = rd (sessKey sid)"
    by (simp add: CS_Refresh_def redis_call_def split: commit_outcome.split sum.split)
  then show ?thesis using assms(1) held_other by blast
next
  case (GUnregister env inst u s)
  then have "gate_apply op rd (sessKey sid) = rd (sessKey sid)"
    by (simp add: CS_Unregister_def redis_call_def split: commit_outcome.split sum.split)
  then show ?thesis using assms(1) held_other by blast
qed

definition in_time :: "gotime \<Rightarrow> gate_op list \<Rightarrow> bool" where
  "in_time T ops \<longleftrightarrow> list_all (\<lambda>op. op_time op < T \<and> T \<le> op_time op + sessionTTL) ops"

lemma run_held:
  assumes "held T sid ep rd" "in_time T ops"
  shows "\<exists>ep'. held T sid ep' (gate_run ops rd) \<and> ep \<le> ep'
    \<and> sorted_wrt (<) (claimed_epochs sid ops rd) \<and> (\<forall>e \<in> set (claimed_epochs sid ops rd). ep < e \<and> e \<le> ep')
    \<and> (ep + int (claims_of sid ops) \<le> max_int64 \<longrightarrow> ep' = ep + int (claims_of sid ops))"
  using assms
proof (induction ops arbitrary: ep rd)
  case Nil
  then show ?case by (auto simp: gate_run_def)
next
  case (Cons op ops)
  have t: "op_time op < T" "T \<le> op_time op + sessionTTL" "in_time T ops" using Cons.prems(2) by (simp_all add: in_time_def)
  show ?case
  proof (cases "\<exists>env u f inst. op = GClaim env sid u f inst")
    case False
    have "held T sid ep (gate_apply op rd)"
      using False by (intro gate_apply_held [OF Cons.prems(1) t(1,2)]) blast
    from Cons.IH [OF this t(3)] obtain ep' where "held T sid ep' (gate_run ops (gate_apply op rd))" "ep \<le> ep'"
      "sorted_wrt (<) (claimed_epochs sid ops (gate_apply op rd))" "\<forall>e \<in> set (claimed_epochs sid ops (gate_apply op rd)). ep < e \<and> e \<le> ep'"
      "ep + int (claims_of sid ops) \<le> max_int64 \<longrightarrow> ep' = ep + int (claims_of sid ops)" by blast
    moreover have "claimed_epochs sid (op # ops) rd = claimed_epochs sid ops (gate_apply op rd)" "claims_of sid (op # ops) = claims_of sid ops"
      using False by (auto split: gate_op.split sum.split)
    ultimately show ?thesis by (auto simp: gate_run_def)
  next
    case True
    then obtain env u f inst where op: "op = GClaim env sid u f inst" by blast
    with t have t': "rd_now env < T" "T \<le> rd_now env + sessionTTL" by simp_all
    obtain x rd' where c: "Claim env sid u f inst rd = (x, rd')" by (cases "Claim env sid u f inst rd")
    note ch = Claim_held [OF Cons.prems(1) t', of u f inst, unfolded c snd_conv]
    obtain ep1 where ep1: "held T sid ep1 rd'" "ep \<le> ep1" "\<And>e. x = Inr e \<Longrightarrow> e = ep1 \<and> ep < e"
      "(\<forall>z. rd_outcome env \<noteq> CommitFailed z) \<Longrightarrow> ep < max_int64 \<Longrightarrow> ep1 = ep + 1"
      "\<not> (\<forall>z. rd_outcome env \<noteq> CommitFailed z) \<Longrightarrow> ep1 = ep"
    proof (cases x)
      case (Inr e)
      have "\<forall>z. rd_outcome env \<noteq> CommitFailed z" using c Inr by (auto simp: Claim_def redis_call_def)
      moreover have "e = ep + 1" "held T sid e rd'" using ch(1) [of e rd'] Inr by auto
      ultimately show thesis using that [of e] Inr by simp
    next
      case (Inl z)
      show thesis
      proof (cases "\<forall>z. rd_outcome env \<noteq> CommitFailed z")
        case True
        show thesis
        proof (cases "ep < max_int64")
          case t: True
          show thesis by (rule that [of "ep + 1"]) (use ch(3) True t Inl in simp_all)
        next
          case f: False
          from ch(2) show thesis
          proof
            assume "rd' = rd"
            then show thesis by (intro that [of ep]) (use f Inl True Cons.prems(1) in simp_all)
          next
            assume "held T sid (ep + 1) rd'"
            then show thesis by (intro that [of "ep + 1"]) (use f Inl True in simp_all)
          qed
        qed
      next
        case False
        then have "rd' = rd" using c by (auto simp: Claim_def redis_call_def)
        then show thesis by (intro that [of ep]) (use Cons.prems(1) Inl False in simp_all)
      qed
    qed
    from Cons.IH [OF ep1(1) t(3)] obtain ep' where ep': "held T sid ep' (gate_run ops rd')" "ep1 \<le> ep'"
      "sorted_wrt (<) (claimed_epochs sid ops rd')" "\<forall>e \<in> set (claimed_epochs sid ops rd'). ep1 < e \<and> e \<le> ep'"
      "ep1 + int (claims_of sid ops) \<le> max_int64 \<longrightarrow> ep' = ep1 + int (claims_of sid ops)" by blast
    have eqs: "claimed_epochs sid (op # ops) rd = (case x of Inr e \<Rightarrow> [e] | Inl _ \<Rightarrow> []) @ claimed_epochs sid ops rd'"
      "gate_run (op # ops) rd = gate_run ops rd'"
      "claims_of sid (op # ops) = (if \<forall>z. rd_outcome env \<noteq> CommitFailed z then 1 else 0) + claims_of sid ops"
      by (simp_all add: op c gate_run_def split: sum.split)
    have 1: "sorted_wrt (<) (claimed_epochs sid (op # ops) rd)" "\<forall>e \<in> set (claimed_epochs sid (op # ops) rd). ep < e \<and> e \<le> ep'"
      unfolding eqs using ep1(2,3) ep'(2-4) by (cases x; force)+
    have 2: "ep + int (claims_of sid (op # ops)) \<le> max_int64 \<longrightarrow> ep' = ep + int (claims_of sid (op # ops))"
      unfolding eqs using ep1(2,4,5) ep'(5) by auto
    show ?thesis unfolding eqs(2) using ep'(1,2) ep1(2) 1 2 by (intro exI [of _ ep']) auto
  qed
qed

lemma Claim_holds:
  assumes "Claim env sid u f inst rd = (Inr e, rd')"
  shows "held (rd_now env + sessionTTL) sid e rd'"
proof -
  let ?k = "sessKey sid" and ?fs = "\<lambda>h. [(''owner_epoch'', format_int e), (''user_id'', format_int u), (''farm_id'', format_int f),
    (''owner_instance'', inst), (''status'', ''ACTIVE'')] @ (if h ''last_seq'' = None then [(''last_seq'', ''0'')] else [])"
  obtain h where h: "HGETALL (rd_now env) rd ?k = Inr h" "HINCRBY h ''owner_epoch'' = Inr e"
    and rd': "rd' = EXPIRE (rd_now env) ?k sessionTTL (HSET (rd_now env) ?k (?fs h) rd)"
    using assms by (auto simp: Claim_def redis_call_def split: commit_outcome.splits sum.splits simp del: append.simps)
  have e: "in_i64 e"
    using h(2) by (auto simp: HINCRBY_def parse_int_def Let_def in_i64_def min_int64_def max_int64_def split: option.splits if_splits prod.splits)
  have f: "(h ++ map_of (rev (?fs h))) ''owner_epoch'' = Some (format_int e)" "map_of (rev (?fs h)) ''owner_epoch'' = Some (format_int e)" by simp_all
  show ?thesis
  proof (cases "live (rd_now env) rd ?k")
    case None
    then have "rd' ?k = Some \<lparr>re_value = RHash (map_of (rev (?fs h))), re_expires = Some (rd_now env + sessionTTL)\<rparr>"
      unfolding rd' by (simp add: HSET_def EXPIRE_def live_def del: append.simps)
    then show ?thesis unfolding held_def
      by (intro exI [of _ "\<lparr>re_value = RHash (map_of (rev (?fs h))), re_expires = Some (rd_now env + sessionTTL)\<rparr>"] exI [of _ "map_of (rev (?fs h))"])
        (use e f(2) in \<open>simp del: append.simps\<close>)
  next
    case (Some x)
    then have v: "re_value x = RHash h" using h(1) by (auto simp: HGETALL_def split: redis_value.splits)
    have "live (rd_now env) (rd(?k \<mapsto> x\<lparr>re_value := w\<rparr>)) ?k = Some (x\<lparr>re_value := w\<rparr>)" for w
      using Some by (auto simp: live_def split: option.splits if_splits)
    then have "rd' ?k = Some \<lparr>re_value = RHash (h ++ map_of (rev (?fs h))), re_expires = Some (rd_now env + sessionTTL)\<rparr>"
      unfolding rd' using Some v by (simp add: HSET_def EXPIRE_def del: append.simps)
    then show ?thesis unfolding held_def
      by (intro exI [of _ "\<lparr>re_value = RHash (h ++ map_of (rev (?fs h))), re_expires = Some (rd_now env + sessionTTL)\<rparr>"] exI [of _ "h ++ map_of (rev (?fs h))"])
        (use e f(1) in \<open>simp del: append.simps map_add_Some_iff\<close>)
  qed
qed

lemma stale_handoff:
  assumes "held T sid ep rd" "rd_now env < T" "e \<noteq> ep" "in_i64 e"
  shows "\<exists>y. BeginHandoff env sid inst e ticket ttl rd = (Inl y, rd)"
proof -
  obtain h where h: "HGETALL (rd_now env) rd (sessKey sid) = Inr h" "h ''owner_epoch'' = Some (format_int ep)" "in_i64 ep"
    using held_live [OF assms(1,2)] by blast
  have "format_int ep \<noteq> format_int e" using assms(3,4) h(3) parse_format_i64 by (metis option.inject)
  then show ?thesis using h by (simp add: BeginHandoff_def redis_call_def split: commit_outcome.split)
qed

section \<open>The property\<close>

text \<open>C29: a session has one owner.  During the 24 hours after a claim that answered the epoch e, and whatever calls of all
  instances follow on whatever sessions and connections, with lost and failed replies: the epochs that further
  claims of the session answer strictly increase from e, and as soon as one more claim has taken effect, reported or not, an
  instance that still holds e can begin no hand-over any more and its attempt changes nothing.\<close>

theorem stale_owner_cannot_hand_over:
  assumes "Claim env sid u f inst rd = (Inr e, rd0)" "in_time (rd_now env + sessionTTL) ops"
    and "e + int (claims_of sid ops) \<le> max_int64" "rd_now env2 < rd_now env + sessionTTL"
  shows "sorted_wrt (<) (e # claimed_epochs sid ops rd0)
    \<and> (0 < claims_of sid ops \<longrightarrow>
        (\<exists>y. BeginHandoff env2 sid inst2 e ticket ttl (gate_run ops rd0) = (Inl y, gate_run ops rd0)))"
proof -
  note h = Claim_holds [OF assms(1)]
  then have e: "in_i64 e" by (auto simp: held_def)
  from run_held [OF h assms(2)] assms(3) have
    r: "held (rd_now env + sessionTTL) sid (e + int (claims_of sid ops)) (gate_run ops rd0)"
    "sorted_wrt (<) (claimed_epochs sid ops rd0)" "\<forall>e' \<in> set (claimed_epochs sid ops rd0). e < e'" by auto
  then show ?thesis using stale_handoff [OF r(1) assms(4) _ e] by auto
qed

definition gate_ok :: redis_env where "gate_ok = \<lparr>rd_now = 0, rd_outcome = CommitOK\<rparr>"

lemma stale_owner_cannot_hand_over_witness:
  "sorted_wrt (<) [1, 2::int]
    \<and> (\<exists>y. BeginHandoff gate_ok ''s1'' ''gate-a'' 1 ''t'' (30 * second)
        (gate_run [GClaim gate_ok ''s1'' 7 7 ''gate-b''] (snd (Claim gate_ok ''s1'' 7 7 ''gate-a'' Map.empty)))
       = (Inl y, gate_run [GClaim gate_ok ''s1'' 7 7 ''gate-b''] (snd (Claim gate_ok ''s1'' 7 7 ''gate-a'' Map.empty))))"
proof -
  have p: "parse_int 64 (format_int 1) = Some 1" using parse_format_i64 [of 1] by (simp add: in_i64_def min_int64_def max_int64_def)
  have 1: "Claim gate_ok ''s1'' 7 7 ''gate-a'' Map.empty = (Inr 1, snd (Claim gate_ok ''s1'' 7 7 ''gate-a'' Map.empty))"
    by (simp add: Claim_def redis_call_def gate_ok_def HGETALL_def live_def HINCRBY_def max_int64_def)
  have 2: "claimed_epochs ''s1'' [GClaim gate_ok ''s1'' 7 7 ''gate-b''] (snd (Claim gate_ok ''s1'' 7 7 ''gate-a'' Map.empty)) = [2]"
    by (simp add: Claim_def redis_call_def gate_ok_def HGETALL_def live_def HINCRBY_def max_int64_def HSET_def EXPIRE_def sessionTTL_def p)
  have 3: "in_time (rd_now gate_ok + sessionTTL) [GClaim gate_ok ''s1'' 7 7 ''gate-b'']" "rd_now gate_ok < rd_now gate_ok + sessionTTL"
    by (simp_all add: in_time_def gate_ok_def sessionTTL_def)
  have 4: "claims_of ''s1'' [GClaim gate_ok ''s1'' 7 7 ''gate-b''] = 1" by (simp add: gate_ok_def)
  show ?thesis
    using stale_owner_cannot_hand_over [OF 1 3(1) _ 3(2), of "''gate-a''" "''t''" "30 * second"] 2 4 by (simp add: max_int64_def)
qed

end
