(* ===== verification/Tasks.thy ===== *)
theory Tasks
  imports CrossShardSteal
begin

text \<open>
  internal/task/infrastructure: the four tasks of a player, their progress and the reward, on one shard
  (MySQLTaskService) and routed by the player (ShardedTaskService), and the projector
  that counts farm events (internal/farm/infrastructure/task_projector.go).  The RPC between workersvr and gamesvr
  carries the call as it is.
\<close>

section \<open>The task table\<close>

record task_config =
  tc_TargetEvent :: string
  tc_Target :: int
  tc_CoinReward :: int

definition taskConfigs :: "(string \<times> task_config) list" where
  "taskConfigs =
     [(''plant_10'', \<lparr>tc_TargetEvent = ''farm.planted.v1'', tc_Target = 10, tc_CoinReward = 50\<rparr>),
      (''harvest_5'', \<lparr>tc_TargetEvent = ''farm.harvested.v1'', tc_Target = 5, tc_CoinReward = 80\<rparr>),
      (''steal_1'', \<lparr>tc_TargetEvent = ''farm.stolen.v1'', tc_Target = 1, tc_CoinReward = 30\<rparr>),
      (''help_water_3'', \<lparr>tc_TargetEvent = ''farm.watered.v1_help'', tc_Target = 3, tc_CoinReward = 40\<rparr>)]"

definition GetTaskConfig :: "string \<Rightarrow> task_config option" where
  "GetTaskConfig taskKey = map_of taskConfigs taskKey"

text \<open>The order of a Go map is arbitrary; the lists here are in the order of the table.\<close>

definition TaskKeysByEvent :: "string \<Rightarrow> string list" where
  "TaskKeysByEvent eventType = map fst (filter (\<lambda>(k, cfg). tc_TargetEvent cfg = eventType) taskConfigs)"

section \<open>MySQLTaskService\<close>

text \<open>INSERT ... ON DUPLICATE KEY UPDATE: the column is INT UNSIGNED, and the assignments are evaluated from left to
  right, so the status sees the new progress and the time of the update the new status.\<close>

definition max_uint32 :: int where "max_uint32 = 4294967295"

definition next_task_id :: "db \<Rightarrow> nat" where
  "next_task_id s = Suc (foldr (\<lambda>(k, r) m. max (tk_id r) m) (tasks s) 0)"

definition bump_task :: "int \<Rightarrow> int \<Rightarrow> gotime \<Rightarrow> task_row \<Rightarrow> go_error + task_row" where
  "bump_task delta target now r =
     (if tk_status r \<noteq> TaskActive then Inr r
      else if tk_progress r + delta < 0 then Inl (MySQLErr 1690)
      else
        (let progress = min (tk_progress r + delta) target;
             status = (if progress \<ge> target then TaskCompleted else tk_status r) in
         Inr (r\<lparr>tk_progress := progress, tk_status := status,
                tk_updated := (if status = TaskActive then datetime3 now else tk_updated r)\<rparr>)))"

definition upsert_task :: "int \<Rightarrow> string \<Rightarrow> int \<Rightarrow> int \<Rightarrow> gotime \<Rightarrow> (db, unit) tx" where
  "upsert_task userID taskKey delta target now =
     (\<lambda>s. case map_of (tasks s) (userID, taskKey) of
        None \<Rightarrow>
          if delta < 0 \<or> max_uint32 < delta then Inl out_of_range
          else Inr ((), s\<lparr>tasks := tasks s @ [((userID, taskKey), \<lparr>tk_id = next_task_id s, tk_progress = delta,
                 tk_status = TaskActive, tk_created = datetime3 now, tk_updated = datetime3 now\<rparr>)]\<rparr>)
      | Some r \<Rightarrow>
          (case bump_task delta target now r of
             Inl e \<Rightarrow> Inl e
           | Inr r' \<Rightarrow> Inr ((), s\<lparr>tasks := AList.update (userID, taskKey) r' (tasks s)\<rparr>)))"

definition IncrProgress :: "env \<Rightarrow> int \<Rightarrow> string \<Rightarrow> int \<Rightarrow> db \<Rightarrow> (go_error + unit) \<times> db" where
  "IncrProgress env userID taskKey delta s =
     (case GetTaskConfig taskKey of
        None \<Rightarrow> (Inr (), s)
      | Some cfg \<Rightarrow> run_auto env (stmt env ''incr_task'' (upsert_task userID taskKey delta (tc_Target cfg) (clk_now env))) s)"

record task_progress =
  tp_TaskID :: nat
  tp_UserID :: int
  tp_TaskKey :: string
  tp_Progress :: int
  tp_Status :: task_status
  tp_CreatedAt :: gotime
  tp_UpdatedAt :: gotime

definition progress_of :: "int \<Rightarrow> gotime \<Rightarrow> db \<Rightarrow> string \<Rightarrow> task_progress" where
  "progress_of userID now s key =
     (case map_of (tasks s) (userID, key) of
        Some r \<Rightarrow> \<lparr>tp_TaskID = tk_id r, tp_UserID = userID, tp_TaskKey = key, tp_Progress = tk_progress r, tp_Status = tk_status r,
                  tp_CreatedAt = tk_created r, tp_UpdatedAt = tk_updated r\<rparr>
      | None \<Rightarrow> \<lparr>tp_TaskID = 0, tp_UserID = userID, tp_TaskKey = key, tp_Progress = 0, tp_Status = TaskActive,
                  tp_CreatedAt = now, tp_UpdatedAt = now\<rparr>)"

definition ListTasks :: "env \<Rightarrow> int \<Rightarrow> db \<Rightarrow> go_error + task_progress list" where
  "ListTasks env userID s =
     (case fault env ''list_tasks'' of
        Some e \<Rightarrow> Inl e
      | None \<Rightarrow> Inr (map (progress_of userID (clk_now env) s) (map fst taskConfigs)))"

text \<open>UPDATE ... WHERE status = 'COMPLETED', with the number of changed rows.\<close>

definition take_reward :: "int \<Rightarrow> string \<Rightarrow> gotime \<Rightarrow> (db, nat) tx" where
  "take_reward userID taskKey now =
     (\<lambda>s. case map_of (tasks s) (userID, taskKey) of
        Some r \<Rightarrow>
          if tk_status r = TaskCompleted
          then Inr (1, s\<lparr>tasks := AList.update (userID, taskKey) (r\<lparr>tk_status := TaskRewardClaimed, tk_updated := datetime3 now\<rparr>) (tasks s)\<rparr>)
          else Inr (0, s)
      | None \<Rightarrow> Inr (0, s))"

text \<open>UPDATE wallets SET coin_balance = coin_balance + ?: no row, no change; the column is BIGINT.\<close>

definition pay_coins :: "int \<Rightarrow> int \<Rightarrow> (db, unit) tx" where
  "pay_coins userID amount =
     (\<lambda>s. case wallets s userID of
        None \<Rightarrow> Inr ((), s)
      | Some b \<Rightarrow> if max_int64 < b + amount then Inl out_of_range else Inr ((), s\<lparr>wallets := (wallets s)(userID \<mapsto> b + amount)\<rparr>))"

definition claim_reward_body :: "env \<Rightarrow> int \<Rightarrow> string \<Rightarrow> task_config \<Rightarrow> (db, int ended) tx" where
  "claim_reward_body env userID taskKey cfg =
     tx_bind (stmt env ''claim_task'' (take_reward userID taskKey (clk_now env))) (\<lambda>rows s.
       if rows = 0 then
         (let status = (case fault env ''claim_status'' of Some _ \<Rightarrow> None
              | None \<Rightarrow> map_option tk_status (map_of (tasks s) (userID, taskKey))) in
          Inl (New (if status = Some TaskRewardClaimed then TaskAlreadyClaimed else TaskNotCompleted)))
       else
         tx_seq (tx_when (tc_CoinReward cfg > 0) (stmt env ''pay_reward'' (pay_coins userID (tc_CoinReward cfg))))
           (tx_return (Committed (tc_CoinReward cfg))) s)"

definition claimRewardOnce :: "int \<Rightarrow> string \<Rightarrow> task_config \<Rightarrow> env \<Rightarrow> db \<Rightarrow> (go_error + int) \<times> db" where
  "claimRewardOnce userID taskKey cfg env = run_tx env (claim_reward_body env userID taskKey cfg)"

definition ClaimReward :: "(nat \<Rightarrow> go_error option) \<Rightarrow> (nat \<Rightarrow> env) \<Rightarrow> int \<Rightarrow> string \<Rightarrow> db \<Rightarrow> (go_error + int) \<times> db" where
  "ClaimReward wait envs userID taskKey s =
     (case GetTaskConfig taskKey of
        None \<Rightarrow> (Inl (New CommonInvalidArgument), s)
      | Some cfg \<Rightarrow> retry_value wait IsTransient (\<lambda>n. claimRewardOnce userID taskKey cfg (envs n)) s)"

section \<open>ShardedTaskService\<close>

definition Sharded_IncrProgress :: "router \<Rightarrow> env \<Rightarrow> int \<Rightarrow> string \<Rightarrow> int \<Rightarrow> cluster \<Rightarrow> (go_error + unit) \<times> cluster" where
  "Sharded_IncrProgress r env userID taskKey delta cl =
     (case ShardForUserID r userID of
        Inl e \<Rightarrow> (Inl e, cl)
      | Inr name \<Rightarrow> on_shard name (IncrProgress env userID taskKey delta) cl)"

definition Sharded_ListTasks :: "router \<Rightarrow> env \<Rightarrow> int \<Rightarrow> cluster \<Rightarrow> go_error + task_progress list" where
  "Sharded_ListTasks r env userID cl =
     (case ShardForUserID r userID of Inl e \<Rightarrow> Inl e | Inr name \<Rightarrow> ListTasks env userID (cl name))"

definition Sharded_ClaimReward ::
  "router \<Rightarrow> (nat \<Rightarrow> go_error option) \<Rightarrow> (nat \<Rightarrow> env) \<Rightarrow> int \<Rightarrow> string \<Rightarrow> cluster \<Rightarrow> (go_error + int) \<times> cluster" where
  "Sharded_ClaimReward r wait envs userID taskKey cl =
     (case ShardForUserID r userID of
        Inl e \<Rightarrow> (Inl e, cl)
      | Inr name \<Rightarrow> on_shard name (ClaimReward wait envs userID taskKey) cl)"

section \<open>TaskProjector\<close>

definition helpWaterKeys :: "envelope \<Rightarrow> string list" where
  "helpWaterKeys ev =
     (if actor_user_id (ev_Payload ev) \<noteq> owner_user_id (ev_Payload ev) then TaskKeysByEvent ''farm.watered.v1_help'' else [])"

definition extractActorUserID :: "envelope \<Rightarrow> go_error + int" where
  "extractActorUserID ev =
     (let u = actor_user_id (ev_Payload ev) in
      if u = [] then Inl (PlainErr ''actor_user_id empty'')
      else (case parse_int 64 u of None \<Rightarrow> Inl (PlainErr ''parse actor_user_id'') | Some i \<Rightarrow> Inr i))"

definition task_keys_of :: "envelope \<Rightarrow> string list" where
  "task_keys_of ev =
     (let taskKeys = TaskKeysByEvent (ev_EventType ev) in
      if taskKeys = [] then (if ev_EventType ev = EventTypeFarmWatered then helpWaterKeys ev else []) else taskKeys)"

fun incr_each :: "router \<Rightarrow> env \<Rightarrow> int \<Rightarrow> string list \<Rightarrow> cluster \<Rightarrow> (go_error + unit) \<times> cluster" where
  "incr_each r env actorID [] cl = (Inr (), cl)"
| "incr_each r env actorID (key # keys) cl =
     (case Sharded_IncrProgress r env actorID key 1 cl of
        (Inl e, cl') \<Rightarrow> (Inl e, cl')
      | (Inr _, cl') \<Rightarrow> incr_each r env actorID keys cl')"

definition task_Handle :: "router \<Rightarrow> env \<Rightarrow> envelope \<Rightarrow> cluster \<Rightarrow> (go_error + unit) \<times> cluster" where
  "task_Handle r env ev cl =
     (let taskKeys = task_keys_of ev in
      if taskKeys = [] then (Inr (), cl)
      else (case extractActorUserID ev of Inl _ \<Rightarrow> (Inr (), cl) | Inr actorID \<Rightarrow> incr_each r env actorID taskKeys cl))"

definition TaskProjector :: "router \<Rightarrow> env projector" where
  "TaskProjector r = \<lparr>pj_Name = ''task-projector'', pj_Handle = task_Handle r\<rparr>"

end
