(* ===== verification/TasksProps.thy ===== *)
theory TasksProps
  imports Tasks ConsumerProps Fixtures
begin

text \<open>
  The life of a task: how progress follows from the counted events, that a reward is paid once, and how the
  projector routes an event.
\<close>

section \<open>Progress\<close>

abbreviation task_of :: "db \<Rightarrow> int \<Rightarrow> string \<Rightarrow> task_row option" where
  "task_of s u k \<equiv> map_of (tasks s) (u, k)"

lemma upsert_task_Inr:
  assumes "upsert_task u k d target now s = Inr ((), s')"
  shows "\<exists>row. s' = s\<lparr>tasks := (case task_of s u k of None \<Rightarrow> tasks s @ [((u, k), row)] | Some _ \<Rightarrow> AList.update (u, k) row (tasks s))\<rparr>
    \<and> (case task_of s u k of None \<Rightarrow> tk_progress row = d \<and> tk_status row = TaskActive | Some r \<Rightarrow> bump_task d target now r = Inr row)"
  using assms by (auto simp: upsert_task_def split: option.splits if_splits sum.splits)

lemma upsert_task_of:
  assumes "upsert_task u k d target now s = Inr ((), s')"
  shows "\<exists>row. map_of (tasks s') = (map_of (tasks s))((u, k) \<mapsto> row) \<and> s' = s\<lparr>tasks := tasks s'\<rparr>
    \<and> (case task_of s u k of None \<Rightarrow> tk_progress row = d \<and> tk_status row = TaskActive | Some r \<Rightarrow> bump_task d target now r = Inr row)"
  using upsert_task_Inr [OF assms] by (auto simp: map_add_def fun_eq_iff split: option.splits)

lemma IncrProgress_cases:
  obtains (unchanged) "snd (IncrProgress env u k d s) = s"
  | (applied) cfg s' where "GetTaskConfig k = Some cfg" "upsert_task u k d (tc_Target cfg) (clk_now env) s = Inr ((), s')"
      "snd (IncrProgress env u k d s) = s'"
proof (cases "GetTaskConfig k")
  case None
  then show thesis using unchanged by (simp add: IncrProgress_def)
next
  case (Some cfg)
  show thesis
  proof (cases rule: run_auto_cases [of env "stmt env ''incr_task'' (upsert_task u k d (tc_Target cfg) (clk_now env))" s])
    case unchanged
    then show thesis using that(1) Some by (simp add: IncrProgress_def)
  next
    case (applied a s')
    then show thesis using that(2) [OF Some] Some by (simp add: IncrProgress_def tx_inv)
  qed
qed

text \<open>Whether an increment reaches the database, reported or not.\<close>

definition reaches :: "env \<Rightarrow> bool" where
  "reaches e \<longleftrightarrow> fault e ''incr_task'' = None \<and> (\<forall>x. commit_outcome e \<noteq> CommitFailed x)"

definition count_events :: "env list \<Rightarrow> int \<Rightarrow> string \<Rightarrow> db \<Rightarrow> db" where
  "count_events es u k s = fold (\<lambda>e s. snd (IncrProgress e u k 1 s)) es s"

text \<open>What is stored after \<^verbatim>\<open>n\<close> events.\<close>

definition counted :: "int \<Rightarrow> nat \<Rightarrow> task_row option \<Rightarrow> bool" where
  "counted target n t \<longleftrightarrow>
     (if n = 0 then t = None
      else \<exists>r. t = Some r \<and> tk_progress r = min (int n) target \<and> tk_status r = (if target \<le> int n \<and> 2 \<le> n then TaskCompleted else TaskActive))"

lemma counted_step:
  assumes "counted (tc_Target cfg) n (task_of s u k)" "1 \<le> tc_Target cfg" "GetTaskConfig k = Some cfg"
  shows "counted (tc_Target cfg) (if reaches e then Suc n else n) (task_of (snd (IncrProgress e u k 1 s)) u k)"
proof (cases "reaches e")
  case False
  then have "snd (IncrProgress e u k 1 s) = s"
    using assms(3) by (auto simp: reaches_def IncrProgress_def run_auto_def stmt_def tx_fail_def split: option.splits sum.splits commit_outcome.splits)
  then show ?thesis using False assms(1) by simp
next
  case True
  have ok: "\<exists>s'. upsert_task u k 1 (tc_Target cfg) (clk_now e) s = Inr ((), s')"
  proof (cases "task_of s u k")
    case None
    then show ?thesis by (simp add: upsert_task_def max_uint32_def)
  next
    case (Some r)
    then have "0 \<le> tk_progress r" using assms(1,2) by (auto simp: counted_def split: if_splits)
    then show ?thesis using Some by (simp add: upsert_task_def bump_task_def Let_def split: sum.split)
  qed
  then obtain s' where s': "upsert_task u k 1 (tc_Target cfg) (clk_now e) s = Inr ((), s')" by blast
  have end_state: "snd (IncrProgress e u k 1 s) = s'"
    using True s' assms(3) by (auto simp: reaches_def IncrProgress_def run_auto_def stmt_def split: commit_outcome.splits)
  obtain row where row: "map_of (tasks s') (u, k) = Some row"
    "case task_of s u k of None \<Rightarrow> tk_progress row = 1 \<and> tk_status row = TaskActive | Some r \<Rightarrow> bump_task 1 (tc_Target cfg) (clk_now e) r = Inr row"
    using upsert_task_of [OF s'] by auto
  show ?thesis
  proof (cases "task_of s u k")
    case None
    then have "n = 0" using assms(1) by (auto simp: counted_def split: if_splits)
    then show ?thesis using True end_state row None assms(2) by (simp add: counted_def)
  next
    case (Some r)
    then have r: "n \<noteq> 0" "tk_progress r = min (int n) (tc_Target cfg)"
      "tk_status r = (if tc_Target cfg \<le> int n \<and> 2 \<le> n then TaskCompleted else TaskActive)"
      using assms(1) by (auto simp: counted_def split: if_splits)
    have "bump_task 1 (tc_Target cfg) (clk_now e) r = Inr row" using row(2) Some by simp
    then have "tk_progress row = min (int (Suc n)) (tc_Target cfg)"
      "tk_status row = (if tc_Target cfg \<le> int (Suc n) then TaskCompleted else TaskActive)"
      using r assms(2) by (auto simp: bump_task_def Let_def split: if_splits)
    then show ?thesis using True end_state row(1) r(1) by (simp add: counted_def)
  qed
qed

lemma counted_run:
  assumes "counted (tc_Target cfg) n (task_of s u k)" "1 \<le> tc_Target cfg" "GetTaskConfig k = Some cfg"
  shows "counted (tc_Target cfg) (n + length (filter reaches es)) (task_of (count_events es u k s) u k)"
  using assms(1)
proof (induction es arbitrary: n s)
  case (Cons e es)
  from Cons.IH [OF counted_step [OF Cons.prems assms(2,3), of e]]
  show ?case by (simp add: count_events_def split: if_splits)
qed (simp add: count_events_def)

lemma target_positive: "GetTaskConfig k = Some cfg \<Longrightarrow> 1 \<le> tc_Target cfg \<and> 0 < tc_CoinReward cfg"
  by (auto simp: GetTaskConfig_def taskConfigs_def split: if_splits)

lemma IncrProgress_others:
  "(u', k') \<noteq> (u, k) \<Longrightarrow> task_of (snd (IncrProgress e u k d s)) u' k' = task_of s u' k'"
proof (cases rule: IncrProgress_cases [of e u k d s])
  case (applied cfg s')
  assume "(u', k') \<noteq> (u, k)"
  then show ?thesis using upsert_task_of [OF applied(2)] applied(3) by auto
qed simp

text \<open>A task that is no longer ACTIVE is not touched by events.\<close>

lemma completed_stays:
  assumes "task_of s u k = Some r" "tk_status r = TaskCompleted"
  shows "task_of (count_events es u k s) u k = Some r"
  using assms(1)
proof (induction es arbitrary: s)
  case (Cons e es)
  have "task_of (snd (IncrProgress e u k 1 s)) u k = Some r"
  proof (cases rule: IncrProgress_cases [of e u k 1 s])
    case (applied cfg s')
    from upsert_task_of [OF applied(2)] obtain row where "map_of (tasks s') = (map_of (tasks s))((u, k) \<mapsto> row)"
      "bump_task 1 (tc_Target cfg) (clk_now e) r = Inr row" using Cons.prems by auto
    then show ?thesis using applied(3) assms(2) by (simp add: bump_task_def)
  qed (use Cons.prems in simp)
  from Cons.IH [OF this] show ?case by (simp add: count_events_def)
qed (simp add: count_events_def)

text \<open>C32: progress counts events.  For a player and a configured task that has no row yet, whatever fails in
  between: after n increments that reached the database the stored progress is the smaller of n and the target; the
  task is never COMPLETED before the target; once a second event has been counted it is COMPLETED exactly if the target
  is reached, and it is ACTIVE otherwise; further events do not change it; and no other task of any player has changed.\<close>

theorem task_progress_exact:
  assumes "GetTaskConfig k = Some cfg" "task_of s u k = None" "n = length (filter reaches es)" "0 < n"
  shows "(\<exists>r. task_of (count_events es u k s) u k = Some r \<and> tk_progress r = min (int n) (tc_Target cfg)
      \<and> (tk_status r = TaskActive \<or> tk_status r = TaskCompleted)
      \<and> (tk_status r = TaskCompleted \<longrightarrow> tc_Target cfg \<le> int n)
      \<and> (2 \<le> n \<longrightarrow> tc_Target cfg \<le> int n \<longrightarrow> tk_status r = TaskCompleted
           \<and> (\<forall>more. task_of (count_events (es @ more) u k s) u k = Some r)))
    \<and> ((u', k') \<noteq> (u, k) \<longrightarrow> task_of (count_events es u k s) u' k' = task_of s u' k')"
proof
  have "counted (tc_Target cfg) 0 (task_of s u k)" using assms(2) by (simp add: counted_def)
  from counted_run [OF this _ assms(1), of es] target_positive [OF assms(1)] assms(3,4)
  obtain r where r: "task_of (count_events es u k s) u k = Some r" "tk_progress r = min (int n) (tc_Target cfg)"
    "tk_status r = (if tc_Target cfg \<le> int n \<and> 2 \<le> n then TaskCompleted else TaskActive)"
    by (auto simp: counted_def)
  have "task_of (count_events (es @ more) u k s) u k = Some r" if "tk_status r = TaskCompleted" for more
    using completed_stays [OF r(1) that, of more] by (simp add: count_events_def)
  with r show "\<exists>r. task_of (count_events es u k s) u k = Some r \<and> tk_progress r = min (int n) (tc_Target cfg)
      \<and> (tk_status r = TaskActive \<or> tk_status r = TaskCompleted)
      \<and> (tk_status r = TaskCompleted \<longrightarrow> tc_Target cfg \<le> int n)
      \<and> (2 \<le> n \<longrightarrow> tc_Target cfg \<le> int n \<longrightarrow> tk_status r = TaskCompleted
           \<and> (\<forall>more. task_of (count_events (es @ more) u k s) u k = Some r))"
    by (intro exI [of _ r]) (auto split: if_splits)
  have "(u', k') \<noteq> (u, k) \<Longrightarrow> task_of (count_events es u k s) u' k' = task_of s u' k'"
    by (induction es arbitrary: s) (simp_all add: count_events_def IncrProgress_others)
  then show "(u', k') \<noteq> (u, k) \<longrightarrow> task_of (count_events es u k s) u' k' = task_of s u' k'" by blast
qed

section \<open>The reward\<close>

definition rewarded :: "int \<Rightarrow> string \<Rightarrow> db \<Rightarrow> bool" where
  "rewarded u k s \<longleftrightarrow> (\<exists>r. task_of s u k = Some r \<and> tk_status r = TaskRewardClaimed)"

definition paid :: "int \<Rightarrow> int \<Rightarrow> db \<Rightarrow> db" where
  "paid u amount s = s\<lparr>wallets := (case wallets s u of None \<Rightarrow> wallets s | Some b \<Rightarrow> (wallets s)(u \<mapsto> b + amount))\<rparr>"

lemma claim_reward_Inr:
  assumes "claim_reward_body env u k cfg s = Inr (x, s')" "0 < tc_CoinReward cfg"
  shows "\<exists>r. task_of s u k = Some r \<and> tk_status r = TaskCompleted \<and> x = Committed (tc_CoinReward cfg)
    \<and> s' = paid u (tc_CoinReward cfg) (s\<lparr>tasks := AList.update (u, k) (r\<lparr>tk_status := TaskRewardClaimed, tk_updated := datetime3 (clk_now env)\<rparr>) (tasks s)\<rparr>)"
  using assms
  by (auto simp: claim_reward_body_def tx_inv take_reward_def pay_coins_def paid_def Let_def split: option.splits if_splits)

lemma reward_claim_effect:
  assumes "0 < tc_CoinReward cfg"
  shows "snd (claimRewardOnce u k cfg env s) = s
   \<or> (\<exists>r. task_of s u k = Some r \<and> tk_status r = TaskCompleted
        \<and> snd (claimRewardOnce u k cfg env s)
          = paid u (tc_CoinReward cfg) (s\<lparr>tasks := AList.update (u, k) (r\<lparr>tk_status := TaskRewardClaimed, tk_updated := datetime3 (clk_now env)\<rparr>) (tasks s)\<rparr>))"
proof (cases rule: run_tx_cases [of env "claim_reward_body env u k cfg" s])
  case unchanged
  then show ?thesis by (simp add: claimRewardOnce_def)
next
  case (applied a s')
  then show ?thesis using claim_reward_Inr [OF applied(1) assms] by (auto simp: claimRewardOnce_def)
qed

lemma rewarded_after: "rewarded u k (paid u c (s\<lparr>tasks := AList.update (u, k) (r\<lparr>tk_status := TaskRewardClaimed, tk_updated := t\<rparr>) (tasks s)\<rparr>))"
  by (simp add: rewarded_def paid_def)

definition reward_attempt :: "int \<Rightarrow> string \<Rightarrow> env \<Rightarrow> db \<Rightarrow> (go_error + int) \<times> db" where
  "reward_attempt u k env s =
     (case GetTaskConfig k of None \<Rightarrow> (Inl (New CommonInvalidArgument), s) | Some cfg \<Rightarrow> claimRewardOnce u k cfg env s)"

lemma reward_attempt_effect:
  "snd (reward_attempt u k env s) = s
   \<or> (\<exists>cfg r. GetTaskConfig k = Some cfg \<and> task_of s u k = Some r \<and> tk_status r = TaskCompleted
        \<and> snd (reward_attempt u k env s)
          = paid u (tc_CoinReward cfg) (s\<lparr>tasks := AList.update (u, k) (r\<lparr>tk_status := TaskRewardClaimed, tk_updated := datetime3 (clk_now env)\<rparr>) (tasks s)\<rparr>))"
proof (cases "GetTaskConfig k")
  case (Some cfg)
  then show ?thesis using reward_claim_effect [of cfg u k env s] target_positive by (simp add: reward_attempt_def)
qed (simp add: reward_attempt_def)

lemma reward_attempt_ok:
  assumes "fst (reward_attempt u k env s) = Inr c"
  shows "rewarded u k (snd (reward_attempt u k env s))"
proof -
  obtain cfg where cfg: "GetTaskConfig k = Some cfg" using assms by (auto simp: reward_attempt_def split: option.splits)
  then obtain t where t: "run_tx env (claim_reward_body env u k cfg) s = (Inr c, t)"
    using assms unfolding reward_attempt_def claimRewardOnce_def by (metis option.simps(5) prod.collapse)
  from run_tx_ok [OF this] obtain q x where "claim_reward_body env u k cfg s = Inr (x, q)" "x = Committed c \<and> q = t \<or> x = NoCommit c" by blast
  with claim_reward_Inr [OF this(1)] target_positive [OF cfg] have "rewarded u k t" using rewarded_after by auto
  with t cfg show ?thesis by (simp add: reward_attempt_def claimRewardOnce_def)
qed

lemma ClaimReward_retry:
  "GetTaskConfig k \<noteq> None \<Longrightarrow> ClaimReward wait envs u k s = retry_value wait IsTransient (\<lambda>n. reward_attempt u k (envs n)) s"
  "GetTaskConfig k = None \<Longrightarrow> ClaimReward wait envs u k s = (Inl (New CommonInvalidArgument), s)"
proof -
  show "ClaimReward wait envs u k s = retry_value wait IsTransient (\<lambda>n. reward_attempt u k (envs n)) s" if "GetTaskConfig k \<noteq> None"
  proof -
    from that obtain cfg where cfg: "GetTaskConfig k = Some cfg" by blast
    have "(\<lambda>n. reward_attempt u k (envs n)) = (\<lambda>n. claimRewardOnce u k cfg (envs n))" by (simp add: fun_eq_iff reward_attempt_def cfg)
    then show ?thesis by (simp add: ClaimReward_def cfg)
  qed
qed (simp add: ClaimReward_def)

interpretation reward_once: durable_once "\<lambda>_. True" "reward_attempt u k" "rewarded u k" for u k
proof (standard, goal_cases)
  case (2 s e)
  then show ?case using reward_attempt_effect [of u k e s] by (auto simp: rewarded_def)
next
  case (3 s e)
  show ?case using reward_attempt_effect [of u k e s]
  proof
    assume "\<exists>cfg r. GetTaskConfig k = Some cfg \<and> task_of s u k = Some r \<and> tk_status r = TaskCompleted
        \<and> snd (reward_attempt u k e s)
          = paid u (tc_CoinReward cfg) (s\<lparr>tasks := AList.update (u, k) (r\<lparr>tk_status := TaskRewardClaimed, tk_updated := datetime3 (clk_now e)\<rparr>) (tasks s)\<rparr>)"
    then show ?thesis using rewarded_after by metis
  qed simp
next
  case (4 s e r)
  then show ?case by (blast intro: reward_attempt_ok)
qed simp

interpretation reward_call: durable_once "\<lambda>_. True" "\<lambda>x. ClaimReward (fst x) (snd x) u k" "rewarded u k" for u k
proof (standard, goal_cases)
  case (2 s e)
  then show ?case
    using reward_once.retry_replay [where s = s and u = u and k = k] by (cases "GetTaskConfig k = None") (simp_all add: ClaimReward_retry)
next
  case (3 s e)
  show ?case
    using reward_once.retry_effect [where s = s and u = u and k = k] by (cases "GetTaskConfig k = None") (simp_all add: ClaimReward_retry)
next
  case (4 s e r)
  then show ?case
    using reward_once.retry_success [where s = s and u = u and k = k and r = r] by (cases "GetTaskConfig k = None") (simp_all add: ClaimReward_retry)
qed simp

lemma ClaimReward_effect:
  "snd (ClaimReward wait envs u k s) = s
    \<or> (\<exists>cfg r t. GetTaskConfig k = Some cfg \<and> task_of s u k = Some r \<and> tk_status r = TaskCompleted
        \<and> snd (ClaimReward wait envs u k s)
          = paid u (tc_CoinReward cfg) (s\<lparr>tasks := AList.update (u, k) (r\<lparr>tk_status := TaskRewardClaimed, tk_updated := t\<rparr>) (tasks s)\<rparr>))"
proof (cases "GetTaskConfig k = None")
  case False
  consider "snd (ClaimReward wait envs u k s) = s" | n where "snd (ClaimReward wait envs u k s) = snd (reward_attempt u k (envs n) s)"
    using reward_once.retry_one [where s = s and u = u and k = k and envs = envs and wait = wait and shouldRetry = IsTransient]
    unfolding ClaimReward_retry(1) [OF False] by blast
  then show ?thesis
  proof cases
    case (2 n)
    show ?thesis using reward_attempt_effect [of u k "envs n" s] unfolding 2 by blast
  qed simp
qed (simp add: ClaimReward_retry)

section \<open>Claims and events together\<close>

datatype task_op =
    TEvent env int string int
  | TClaim "nat \<Rightarrow> go_error option" "nat \<Rightarrow> env" int string

primrec task_exec :: "task_op \<Rightarrow> db \<Rightarrow> db" where
  "task_exec (TEvent e u k d) s = snd (IncrProgress e u k d s)"
| "task_exec (TClaim wait envs u k) s = snd (ClaimReward wait envs u k s)"

lemma paid_tasks [simp]: "tasks (paid u c s) = tasks s"
  by (simp add: paid_def)

text \<open>No operation of the service takes the claimed state away again.\<close>

lemma task_ops_keep: "rewarded u k s \<Longrightarrow> rewarded u k (task_exec op s)"
proof (cases op)
  case (TEvent e u' k' d)
  assume r: "rewarded u k s"
  show ?thesis
  proof (cases rule: IncrProgress_cases [of e u' k' d s])
    case unchanged
    then show ?thesis using TEvent r by simp
  next
    case (applied cfg s')
    obtain row where row: "map_of (tasks s') = (map_of (tasks s))((u', k') \<mapsto> row)"
      "case task_of s u' k' of None \<Rightarrow> tk_progress row = d \<and> tk_status row = TaskActive | Some x \<Rightarrow> bump_task d (tc_Target cfg) (clk_now e) x = Inr row"
      using upsert_task_of [OF applied(2)] by blast
    obtain x where x: "task_of s u k = Some x" "tk_status x = TaskRewardClaimed" using r by (auto simp: rewarded_def)
    have "rewarded u k s'"
    proof (cases "(u', k') = (u, k)")
      case True
      then have "row = x" using row(2) x by (simp add: bump_task_def)
      then show ?thesis using True row(1) x by (simp add: rewarded_def)
    next
      case False
      then show ?thesis using row(1) x by (auto simp: rewarded_def)
    qed
    then show ?thesis using applied(3) TEvent by simp
  qed
next
  case (TClaim wait envs u' k')
  assume "rewarded u k s"
  then show ?thesis using ClaimReward_effect [of wait envs u' k' s] TClaim by (auto simp: rewarded_def)
qed

text \<open>C31: the reward of a task is paid at most once and exactly.  Over any history of claims of one task, each retried
  and with any lost reply, and of events, claims of other tasks and other writes that keep a claimed task claimed, at
  most one claim changes the database and none after a reported success; a claim that changes it found the task
  COMPLETED, marks it, and adds exactly the configured coins to the wallet of the player.\<close>

theorem task_reward_paid_once:
  assumes "others_keep (\<lambda>_. True) (rewarded u k) h"
  shows "effective (\<lambda>x. ClaimReward (fst x) (snd x) u k) h s \<le> 1
    \<and> (fst (ClaimReward wait envs u k s) = Inr c \<longrightarrow>
         effective (\<lambda>x. ClaimReward (fst x) (snd x) u k) h (snd (ClaimReward wait envs u k s)) = 0)
    \<and> (snd (ClaimReward wait envs u k s) \<noteq> s \<longrightarrow>
         (\<exists>cfg r t. GetTaskConfig k = Some cfg \<and> task_of s u k = Some r \<and> tk_status r = TaskCompleted
            \<and> snd (ClaimReward wait envs u k s)
              = paid u (tc_CoinReward cfg) (s\<lparr>tasks := AList.update (u, k) (r\<lparr>tk_status := TaskRewardClaimed, tk_updated := t\<rparr>) (tasks s)\<rparr>)))"
  using reward_call.at_most_once [OF _ assms, of s]
    reward_call.nothing_after_success [where s = s and u = u and k = k and e = "(wait, envs)" and r = c and h = h] assms
    ClaimReward_effect [of wait envs u k s] by (intro conjI) (simp, simp, blast)


section \<open>Witnesses\<close>

lemma steal_config: "GetTaskConfig ''steal_1'' = Some \<lparr>tc_TargetEvent = ''farm.stolen.v1'', tc_Target = 1, tc_CoinReward = 30\<rparr>"
  by (simp add: GetTaskConfig_def taskConfigs_def)

lemma water_config: "GetTaskConfig ''help_water_3'' = Some \<lparr>tc_TargetEvent = ''farm.watered.v1_help'', tc_Target = 3, tc_CoinReward = 40\<rparr>"
  by (simp add: GetTaskConfig_def taskConfigs_def)

lemma task_progress_exact_witness:
  "(\<exists>r. task_of (count_events [demo_env, lost_ack_env, demo_env] 8 ''help_water_3'' demo_db) 8 ''help_water_3'' = Some r
      \<and> tk_progress r = 3 \<and> tk_status r = TaskCompleted)
   \<and> task_of (count_events [demo_env, lost_ack_env, demo_env] 8 ''help_water_3'' demo_db) 7 ''help_water_3'' = None"
proof -
  have n: "3 = length (filter reaches [demo_env, lost_ack_env, demo_env])" by (simp add: reaches_def demo_env_def lost_ack_env_def)
  have none: "task_of demo_db 8 ''help_water_3'' = None" "task_of demo_db 7 ''help_water_3'' = None" by (simp_all add: demo_db_def empty_db_def)
  show ?thesis using task_progress_exact [OF water_config none(1) n, of 7 "''help_water_3''"] none(2) by (simp, blast)
qed

definition done_task :: task_row where
  "done_task = \<lparr>tk_id = 1, tk_progress = 1, tk_status = TaskCompleted, tk_created = 0, tk_updated = 0\<rparr>"

definition task_db :: db where
  "task_db = demo_db\<lparr>tasks := [((8, ''steal_1''), done_task)]\<rparr>"

lemma claim_pays: "ClaimReward (\<lambda>_. None) (\<lambda>_. demo_env) 8 ''steal_1'' task_db
    = (Inr 30, paid 8 30 (task_db\<lparr>tasks := [((8, ''steal_1''), done_task\<lparr>tk_status := TaskRewardClaimed, tk_updated := datetime3 demo_now\<rparr>)]\<rparr>))"
  by (simp add: ClaimReward_def steal_config retry_value_def retry_from.simps MaxAttempts_def claimRewardOnce_def run_tx_def claim_reward_body_def
      tx_defs take_reward_def pay_coins_def paid_def task_db_def demo_env_def demo_db_def empty_db_def done_task_def max_int64_def)

lemma task_reward_paid_once_witness:
  "effective (\<lambda>x. ClaimReward (fst x) (snd x) 8 ''steal_1'') [Inl (\<lambda>_. None, \<lambda>_. lost_ack_env), Inl (\<lambda>_. None, \<lambda>_. demo_env)] task_db \<le> 1
   \<and> effective (\<lambda>x. ClaimReward (fst x) (snd x) 8 ''steal_1'') [Inl (\<lambda>_. None, \<lambda>_. demo_env)]
        (snd (ClaimReward (\<lambda>_. None) (\<lambda>_. demo_env) 8 ''steal_1'' task_db)) = 0
   \<and> wallets (snd (ClaimReward (\<lambda>_. None) (\<lambda>_. demo_env) 8 ''steal_1'' task_db)) 8 = Some 130"
proof -
  have o: "others_keep (\<lambda>_. True) (rewarded 8 ''steal_1'') [Inl (\<lambda>_. None, \<lambda>_. lost_ack_env), Inl (\<lambda>_. None, \<lambda>_. demo_env)]"
    "others_keep (\<lambda>_. True) (rewarded 8 ''steal_1'') [Inl (\<lambda>_. None, \<lambda>_. demo_env)]" by simp_all
  have w: "wallets (snd (ClaimReward (\<lambda>_. None) (\<lambda>_. demo_env) 8 ''steal_1'' task_db)) 8 = Some 130"
    unfolding claim_pays by (simp add: paid_def task_db_def demo_db_def)
  show ?thesis
    using task_reward_paid_once [OF o(1), of task_db] task_reward_paid_once [OF o(2), of task_db "\<lambda>_. None" "\<lambda>_. demo_env" 30] w
    by (simp add: claim_pays)
qed

section \<open>Finding: the first event never completes a task\<close>

text \<open>The row is inserted as ACTIVE whatever the progress is, and only the update of an existing row compares the progress with the
  target: the task of stealing once, which the steal of a player fulfils, is refused as not completed until the
  player has stolen twice.\<close>

lemma one_steal_is_not_enough:
  "fst (IncrProgress demo_env 8 ''steal_1'' 1 demo_db) = Inr ()"
  "fst (ClaimReward (\<lambda>_. None) (\<lambda>_. demo_env) 8 ''steal_1'' (snd (IncrProgress demo_env 8 ''steal_1'' 1 demo_db))) = Inl (New TaskNotCompleted)"
  by (simp_all add: IncrProgress_def ClaimReward_def steal_config run_auto_def upsert_task_def retry_value_def retry_from.simps MaxAttempts_def
      claimRewardOnce_def run_tx_def claim_reward_body_def tx_defs take_reward_def demo_env_def demo_db_def empty_db_def max_uint32_def
      next_task_id_def IsTransient_def isNumber_def)

end
