(* ===== verification/Retention.thy ===== *)
theory Retention
  imports Schema "HOL-Library.Sublist"
begin

text \<open>
  internal/farm/infrastructure/retention_reaper.go: workersvr deletes published outbox rows, command receipts and
  consumer receipts that are older than their retention, in batches.  What the environments say of a statement is
  what the driver reports; \<^verbatim>\<open>ctx n\<close> tells whether the context has ended before statement n.
\<close>

section \<open>Configuration\<close>

definition defaultReapBatchSize :: int where "defaultReapBatchSize = 500"
definition defaultReapMaxPerRun :: int where "defaultReapMaxPerRun = 20000"

record retention_policy =
  rp_PublishedOutbox :: duration
  rp_CmdReceipts :: duration
  rp_ConsumedEvents :: duration

definition Enabled :: "retention_policy \<Rightarrow> bool" where
  "Enabled p \<longleftrightarrow> rp_PublishedOutbox p > 0 \<or> rp_CmdReceipts p > 0 \<or> rp_ConsumedEvents p > 0"

record reaper =
  rr_policy :: retention_policy
  rr_batchSize :: int
  rr_maxPerRun :: int

definition NewRetentionReaper :: "retention_policy \<Rightarrow> int \<Rightarrow> int \<Rightarrow> reaper" where
  "NewRetentionReaper p cfgBatch cfgMax =
     \<lparr>rr_policy = p, rr_batchSize = (if cfgBatch > 0 then cfgBatch else defaultReapBatchSize),
      rr_maxPerRun = (if cfgMax > 0 then cfgMax else defaultReapMaxPerRun)\<rparr>"

section \<open>The statements\<close>

text \<open>DELETE ... ORDER BY the primary key LIMIT n on a table that is a list in that order, with the number of deleted rows.\<close>

fun delete_first :: "('a \<Rightarrow> bool) \<Rightarrow> nat \<Rightarrow> 'a list \<Rightarrow> 'a list \<times> nat" where
  "delete_first P n [] = ([], 0)"
| "delete_first P n (x # xs) =
     (if n = 0 then (x # xs, 0)
      else if P x then (let (ys, k) = delete_first P (n - 1) xs in (ys, Suc k))
      else (let (ys, k) = delete_first P n xs in (x # ys, k)))"

datatype reap_table = OutboxEvents | CmdReceipts | ConsumedEvents

definition old_outbox :: "gotime \<Rightarrow> outbox_row \<Rightarrow> bool" where
  "old_outbox cutoff r \<longleftrightarrow> ob_status r = OPublished \<and> (case ob_published_at r of None \<Rightarrow> False | Some t \<Rightarrow> t < cutoff)"

definition old_receipt :: "gotime \<Rightarrow> receipt_row \<Rightarrow> bool" where "old_receipt cutoff r \<longleftrightarrow> rc_created r < cutoff"
definition old_consumed :: "gotime \<Rightarrow> consumed_row \<Rightarrow> bool" where "old_consumed cutoff r \<longleftrightarrow> ce_processed r < cutoff"

definition reap_delete :: "reap_table \<Rightarrow> gotime \<Rightarrow> nat \<Rightarrow> (db, nat) tx" where
  "reap_delete t cutoff limit =
     (\<lambda>s. case t of
        OutboxEvents \<Rightarrow> (let (rows, n) = delete_first (old_outbox cutoff) limit (outbox s) in Inr (n, s\<lparr>outbox := rows\<rparr>))
      | CmdReceipts \<Rightarrow> (let (rows, n) = delete_first (old_receipt cutoff) limit (receipts s) in Inr (n, s\<lparr>receipts := rows\<rparr>))
      | ConsumedEvents \<Rightarrow> (let (rows, n) = delete_first (old_consumed cutoff) limit (consumed s) in Inr (n, s\<lparr>consumed := rows\<rparr>)))"

section \<open>Reap\<close>

record reap_env =
  re_now :: gotime
  re_ctx :: "reap_table \<Rightarrow> nat \<Rightarrow> bool"
  re_stmt :: "reap_table \<Rightarrow> nat \<Rightarrow> env"

text \<open>The loop of reapTable; the fuel bounds the statements, and \<^verbatim>\<open>maxPerRun\<close> of them are always enough because each one that
  does not end the loop has deleted at least one row.\<close>

fun reap_loop :: "nat \<Rightarrow> reaper \<Rightarrow> reap_env \<Rightarrow> reap_table \<Rightarrow> gotime \<Rightarrow> int \<Rightarrow> nat \<Rightarrow> db \<Rightarrow> (int \<times> go_error option) \<times> db" where
  "reap_loop 0 r env t cutoff deleted i s = ((deleted, None), s)"
| "reap_loop (Suc fuel) r env t cutoff deleted i s =
     (if \<not> deleted < rr_maxPerRun r then ((deleted, None), s)
      else if re_ctx env t i then ((deleted, None), s)
      else
        (let limit = (if rr_maxPerRun r - deleted < rr_batchSize r then rr_maxPerRun r - deleted else rr_batchSize r) in
         (case run_auto (re_stmt env t i) (stmt (re_stmt env t i) ''reap'' (reap_delete t cutoff (nat limit))) s of
            (Inl e, s') \<Rightarrow> ((deleted, Some e), s')
          | (Inr n, s') \<Rightarrow>
              if int n < limit then ((deleted + int n, None), s')
              else reap_loop fuel r env t cutoff (deleted + int n) (Suc i) s')))"

definition reapTable :: "reaper \<Rightarrow> reap_env \<Rightarrow> reap_table \<Rightarrow> gotime \<Rightarrow> db \<Rightarrow> (int \<times> go_error option) \<times> db" where
  "reapTable r env t cutoff s = reap_loop (nat (rr_maxPerRun r)) r env t cutoff 0 0 s"

definition reap_specs :: "reaper \<Rightarrow> (reap_table \<times> duration) list" where
  "reap_specs r = [(OutboxEvents, rp_PublishedOutbox (rr_policy r)), (CmdReceipts, rp_CmdReceipts (rr_policy r)),
     (ConsumedEvents, rp_ConsumedEvents (rr_policy r))]"

fun reap_each :: "reaper \<Rightarrow> reap_env \<Rightarrow> (reap_table \<times> duration) list \<Rightarrow> db \<Rightarrow> (int \<times> go_error list) \<times> db" where
  "reap_each r env [] s = ((0, []), s)"
| "reap_each r env ((t, retain) # specs) s =
     (if retain \<le> 0 then reap_each r env specs s
      else
        (let ((n, e), s1) = reapTable r env t (re_now env - retain) s;
             ((total, errs), s2) = reap_each r env specs s1 in
         ((n + total, (case e of Some x \<Rightarrow> x # errs | None \<Rightarrow> errs)), s2)))"

definition Reap :: "reaper \<Rightarrow> reap_env \<Rightarrow> db \<Rightarrow> (int \<times> go_error list) \<times> db" where
  "Reap r env s = reap_each r env (reap_specs r) s"

section \<open>What one statement deletes\<close>

text \<open>What remains of a table: its rows in order, less some of the rows that satisfy P.\<close>

definition thinned :: "('a \<Rightarrow> bool) \<Rightarrow> 'a list \<Rightarrow> 'a list \<Rightarrow> bool" where
  "thinned P ys xs \<longleftrightarrow> subseq ys xs \<and> filter (\<lambda>x. \<not> P x) ys = filter (\<lambda>x. \<not> P x) xs"

lemma thinned_refl [simp, intro]: "thinned P xs xs"
  by (simp add: thinned_def)

lemma thinned_trans: "thinned P xs zs \<Longrightarrow> thinned P ys xs \<Longrightarrow> thinned P ys zs"
  by (auto simp: thinned_def intro: subseq_order.trans)

lemma delete_first_spec:
  "thinned P (fst (delete_first P n xs)) xs \<and> snd (delete_first P n xs) \<le> n
   \<and> length (fst (delete_first P n xs)) + snd (delete_first P n xs) = length xs
   \<and> (snd (delete_first P n xs) < n \<longrightarrow> filter P (fst (delete_first P n xs)) = [])"
proof (induction P n xs rule: delete_first.induct)
  case (2 P n x xs)
  show ?case
  proof (cases "n = 0")
    case False
    show ?thesis
    proof (cases "P x")
      case True
      then show ?thesis using False 2(1) [OF False True] by (auto simp: Let_def case_prod_unfold thinned_def)
    next
      case f: False
      then show ?thesis using False 2(2) [OF False f] by (auto simp: Let_def case_prod_unfold thinned_def)
    qed
  qed simp
qed simp

text \<open>The state after reaping: each of the three tables is thinned, nothing else changes.\<close>

definition expired_rows :: "gotime \<Rightarrow> gotime \<Rightarrow> gotime \<Rightarrow> db \<Rightarrow> db \<Rightarrow> bool" where
  "expired_rows c1 c2 c3 s s' \<longleftrightarrow>
     (\<exists>rows recs cons. s' = s\<lparr>outbox := rows, receipts := recs, consumed := cons\<rparr>
        \<and> thinned (old_outbox c1) rows (outbox s) \<and> thinned (old_receipt c2) recs (receipts s)
        \<and> thinned (old_consumed c3) cons (consumed s))"

lemma expired_refl [simp]: "expired_rows c1 c2 c3 s s"
  unfolding expired_rows_def by (intro exI [of _ "outbox s"] exI [of _ "receipts s"] exI [of _ "consumed s"]) simp

lemma expired_trans: "expired_rows c1 c2 c3 s t \<Longrightarrow> expired_rows c1 c2 c3 t u \<Longrightarrow> expired_rows c1 c2 c3 s u"
  unfolding expired_rows_def by (elim exE conjE, intro exI conjI) (assumption | simp | (rule thinned_trans; simp))+

definition rows_in :: "reap_table \<Rightarrow> db \<Rightarrow> nat" where
  "rows_in t s = (case t of OutboxEvents \<Rightarrow> length (outbox s) | CmdReceipts \<Rightarrow> length (receipts s) | ConsumedEvents \<Rightarrow> length (consumed s))"

definition none_old :: "reap_table \<Rightarrow> gotime \<Rightarrow> db \<Rightarrow> bool" where
  "none_old t c s \<longleftrightarrow> (case t of OutboxEvents \<Rightarrow> filter (old_outbox c) (outbox s) = [] | CmdReceipts \<Rightarrow> filter (old_receipt c) (receipts s) = []
     | ConsumedEvents \<Rightarrow> filter (old_consumed c) (consumed s) = [])"

text \<open>The cutoffs of the three tables agree with the table a statement works on.\<close>

definition cutoff_of :: "gotime \<Rightarrow> gotime \<Rightarrow> gotime \<Rightarrow> reap_table \<Rightarrow> gotime" where
  "cutoff_of c1 c2 c3 t = (case t of OutboxEvents \<Rightarrow> c1 | CmdReceipts \<Rightarrow> c2 | ConsumedEvents \<Rightarrow> c3)"

lemma reap_delete_effect:
  assumes "reap_delete t (cutoff_of c1 c2 c3 t) limit s = Inr (n, s')"
  shows "expired_rows c1 c2 c3 s s' \<and> n \<le> limit \<and> rows_in t s' + n = rows_in t s
    \<and> (\<forall>t'. t' \<noteq> t \<longrightarrow> rows_in t' s' = rows_in t' s) \<and> (n < limit \<longrightarrow> none_old t (cutoff_of c1 c2 c3 t) s')"
proof (cases t)
  case OutboxEvents
  note d = delete_first_spec [of "old_outbox c1" limit "outbox s"]
  have "s' = s\<lparr>outbox := fst (delete_first (old_outbox c1) limit (outbox s))\<rparr>" "n = snd (delete_first (old_outbox c1) limit (outbox s))"
    using assms OutboxEvents by (auto simp: reap_delete_def cutoff_of_def Let_def case_prod_unfold)
  then show ?thesis using d OutboxEvents unfolding expired_rows_def
    by (intro conjI exI [of _ "fst (delete_first (old_outbox c1) limit (outbox s))"] exI [of _ "receipts s"] exI [of _ "consumed s"])
      (auto simp: rows_in_def none_old_def cutoff_of_def split: reap_table.split)
next
  case CmdReceipts
  note d = delete_first_spec [of "old_receipt c2" limit "receipts s"]
  have "s' = s\<lparr>receipts := fst (delete_first (old_receipt c2) limit (receipts s))\<rparr>" "n = snd (delete_first (old_receipt c2) limit (receipts s))"
    using assms CmdReceipts by (auto simp: reap_delete_def cutoff_of_def Let_def case_prod_unfold)
  then show ?thesis using d CmdReceipts unfolding expired_rows_def
    by (intro conjI exI [of _ "outbox s"] exI [of _ "fst (delete_first (old_receipt c2) limit (receipts s))"] exI [of _ "consumed s"])
      (auto simp: rows_in_def none_old_def cutoff_of_def split: reap_table.split)
next
  case ConsumedEvents
  note d = delete_first_spec [of "old_consumed c3" limit "consumed s"]
  have "s' = s\<lparr>consumed := fst (delete_first (old_consumed c3) limit (consumed s))\<rparr>" "n = snd (delete_first (old_consumed c3) limit (consumed s))"
    using assms ConsumedEvents by (auto simp: reap_delete_def cutoff_of_def Let_def case_prod_unfold)
  then show ?thesis using d ConsumedEvents unfolding expired_rows_def
    by (intro conjI exI [of _ "outbox s"] exI [of _ "receipts s"] exI [of _ "fst (delete_first (old_consumed c3) limit (consumed s))"])
      (auto simp: rows_in_def none_old_def cutoff_of_def split: reap_table.split)
qed

section \<open>What a run deletes\<close>

definition calm_reap :: "reap_env \<Rightarrow> bool" where
  "calm_reap env \<longleftrightarrow> (\<forall>t i. \<not> re_ctx env t i \<and> clean (re_stmt env t i))"

lemma reap_loop_effect:
  assumes "0 < rr_batchSize r" "deleted \<le> rr_maxPerRun r"
    and "reap_loop fuel r env t (cutoff_of c1 c2 c3 t) deleted i s = ((n, e), s')"
  shows "expired_rows c1 c2 c3 s s' \<and> deleted \<le> n \<and> n \<le> rr_maxPerRun r
    \<and> int (rows_in t s) - int (rows_in t s') \<le> rr_maxPerRun r - deleted
    \<and> n - deleted \<le> int (rows_in t s) - int (rows_in t s')
    \<and> (\<forall>t'. t' \<noteq> t \<longrightarrow> rows_in t' s' = rows_in t' s)
    \<and> (calm_reap env \<longrightarrow> e = None \<and> n - deleted = int (rows_in t s) - int (rows_in t s')
         \<and> (rr_maxPerRun r \<le> deleted + int fuel \<longrightarrow> n < rr_maxPerRun r \<longrightarrow> none_old t (cutoff_of c1 c2 c3 t) s'))"
  using assms(2,3)
proof (induction fuel arbitrary: deleted i s)
  case 0
  then show ?case by auto
next
  case (Suc fuel)
  let ?c = "cutoff_of c1 c2 c3 t" and ?max = "rr_maxPerRun r"
  show ?case
  proof (cases "\<not> deleted < ?max \<or> re_ctx env t i")
    case True
    then show ?thesis using Suc.prems by (auto simp: calm_reap_def split: if_splits)
  next
    case False
    define limit where "limit = (if ?max - deleted < rr_batchSize r then ?max - deleted else rr_batchSize r)"
    have lim: "0 < limit" "limit \<le> ?max - deleted" using False assms(1) by (auto simp: limit_def)
    obtain x s1 where x: "run_auto (re_stmt env t i) (stmt (re_stmt env t i) ''reap'' (reap_delete t ?c (nat limit))) s = (x, s1)"
      by (cases "run_auto (re_stmt env t i) (stmt (re_stmt env t i) ''reap'' (reap_delete t ?c (nat limit))) s")
    have eff: "s1 = s \<or> (\<exists>m. reap_delete t ?c (nat limit) s = Inr (m, s1))"
      using x by (cases rule: run_auto_cases [of "re_stmt env t i" "stmt (re_stmt env t i) ''reap'' (reap_delete t ?c (nat limit))" s]) (auto simp: tx_inv)
    have loop: "reap_loop (Suc fuel) r env t ?c deleted i s =
      (case x of Inl e' \<Rightarrow> ((deleted, Some e'), s1)
       | Inr m \<Rightarrow> if int m < limit then ((deleted + int m, None), s1) else reap_loop fuel r env t ?c (deleted + int m) (Suc i) s1)"
      using False x by (simp add: limit_def [symmetric] Let_def split: sum.split)
    show ?thesis
    proof (cases x)
      case (Inl e')
      have "\<not> calm_reap env"
      proof
        assume "calm_reap env"
        then have "clean (re_stmt env t i)" by (simp add: calm_reap_def)
        then show False using x Inl by (auto simp: tx_run reap_delete_def split: sum.splits reap_table.splits prod.splits)
      qed
      moreover have "n = deleted" "s' = s1" using Suc.prems(2) loop Inl by simp_all
      ultimately show ?thesis using eff reap_delete_effect [of t c1 c2 c3 "nat limit" s _ s1] Suc.prems(1) lim
        by (elim disjE exE) (force+)
    next
      case (Inr m)
      have d: "reap_delete t ?c (nat limit) s = Inr (m, s1)" using run_auto_ok x Inr by (fastforce simp: tx_inv)
      note de = reap_delete_effect [OF d]
      show ?thesis
      proof (cases "int m < limit")
        case True
        then have "n = deleted + int m" "s' = s1" "e = None" using Suc.prems(2) loop Inr by simp_all
        then show ?thesis using de lim True by auto
      next
        case f: False
        then have m: "int m = limit" using de lim by auto
        have "reap_loop fuel r env t ?c (deleted + int m) (Suc i) s1 = ((n, e), s')" using Suc.prems(2) loop Inr f by simp
        from Suc.IH [OF _ this] m lim
        have ih: "expired_rows c1 c2 c3 s1 s'" "deleted + int m \<le> n" "n \<le> ?max"
          "int (rows_in t s1) - int (rows_in t s') \<le> ?max - (deleted + int m)" "n - (deleted + int m) \<le> int (rows_in t s1) - int (rows_in t s')"
          "\<forall>t'. t' \<noteq> t \<longrightarrow> rows_in t' s' = rows_in t' s1"
          "calm_reap env \<longrightarrow> e = None \<and> n - (deleted + int m) = int (rows_in t s1) - int (rows_in t s')
            \<and> (?max \<le> deleted + int m + int fuel \<longrightarrow> n < ?max \<longrightarrow> none_old t ?c s')" by auto
        have "?max \<le> deleted + int (Suc fuel) \<longrightarrow> ?max \<le> deleted + int m + int fuel" using m lim by simp
        moreover have "expired_rows c1 c2 c3 s s'" using de ih(1) expired_trans by blast
        moreover have "int (rows_in t s) = int (rows_in t s1) + int m" using de by linarith
        moreover have "\<forall>t'. t' \<noteq> t \<longrightarrow> rows_in t' s' = rows_in t' s" using ih(6) de by simp
        ultimately show ?thesis using ih(2-5) ih(7) by (intro conjI impI) (linarith | simp)+
      qed
    qed
  qed
qed


definition reaper_ok :: "reaper \<Rightarrow> bool" where
  "reaper_ok r \<longleftrightarrow> 0 < rr_batchSize r \<and> 0 < rr_maxPerRun r"

lemma new_reaper_ok [simp]: "reaper_ok (NewRetentionReaper p b m)"
  by (simp add: reaper_ok_def NewRetentionReaper_def defaultReapBatchSize_def defaultReapMaxPerRun_def)

lemma reapTable_effect:
  assumes "reaper_ok r" "reapTable r env t (cutoff_of c1 c2 c3 t) s = ((n, e), s')"
  shows "expired_rows c1 c2 c3 s s' \<and> 0 \<le> n \<and> n \<le> rr_maxPerRun r
    \<and> int (rows_in t s) - int (rows_in t s') \<le> rr_maxPerRun r
    \<and> n \<le> int (rows_in t s) - int (rows_in t s') \<and> (\<forall>t'. t' \<noteq> t \<longrightarrow> rows_in t' s' = rows_in t' s)
    \<and> (calm_reap env \<longrightarrow> e = None \<and> n = int (rows_in t s) - int (rows_in t s') \<and> (n < rr_maxPerRun r \<longrightarrow> none_old t (cutoff_of c1 c2 c3 t) s'))"
proof -
  have b: "0 < rr_batchSize r" "0 \<le> rr_maxPerRun r" using assms(1) by (simp_all add: reaper_ok_def)
  from reap_loop_effect [OF b(1,2) assms(2) [unfolded reapTable_def]] b(2) show ?thesis by simp
qed

text \<open>The cutoffs of a run.\<close>

definition cutoff_at :: "reaper \<Rightarrow> reap_env \<Rightarrow> reap_table \<Rightarrow> gotime" where
  "cutoff_at r env t = re_now env - (case t of OutboxEvents \<Rightarrow> rp_PublishedOutbox (rr_policy r)
     | CmdReceipts \<Rightarrow> rp_CmdReceipts (rr_policy r) | ConsumedEvents \<Rightarrow> rp_ConsumedEvents (rr_policy r))"

definition retain_of :: "reaper \<Rightarrow> reap_table \<Rightarrow> duration" where
  "retain_of r t = (case t of OutboxEvents \<Rightarrow> rp_PublishedOutbox (rr_policy r)
     | CmdReceipts \<Rightarrow> rp_CmdReceipts (rr_policy r) | ConsumedEvents \<Rightarrow> rp_ConsumedEvents (rr_policy r))"

lemma reap_each_effect:
  assumes "reaper_ok r" "distinct (map fst specs)" "\<forall>t d. (t, d) \<in> set specs \<longrightarrow> d = retain_of r t"
    and "reap_each r env specs s = ((n, errs), s')"
  shows "expired_rows (cutoff_at r env OutboxEvents) (cutoff_at r env CmdReceipts) (cutoff_at r env ConsumedEvents) s s'
    \<and> 0 \<le> n \<and> (\<forall>t. rows_in t s' \<le> rows_in t s \<and> int (rows_in t s) - int (rows_in t s') \<le> rr_maxPerRun r
         \<and> (t \<notin> fst ` set specs \<or> retain_of r t \<le> 0 \<longrightarrow> rows_in t s' = rows_in t s))
    \<and> (calm_reap env \<longrightarrow> errs = [])"
  using assms(2-4)
proof (induction specs arbitrary: s n errs)
  case Nil
  then show ?case using assms(1) by (simp add: reaper_ok_def)
next
  case (Cons x specs)
  obtain t d where x: "x = (t, d)" by (cases x)
  have d: "d = retain_of r t" "re_now env - d = cutoff_of (cutoff_at r env OutboxEvents) (cutoff_at r env CmdReceipts) (cutoff_at r env ConsumedEvents) t"
    using Cons.prems(2) x by (cases t; simp add: retain_of_def cutoff_of_def cutoff_at_def)+
  have dis: "distinct (map fst specs)" "\<forall>t d. (t, d) \<in> set specs \<longrightarrow> d = retain_of r t" "t \<notin> fst ` set specs"
    using Cons.prems(1,2) x by simp_all
  show ?case
  proof (cases "d \<le> 0")
    case True
    have "reap_each r env specs s = ((n, errs), s')" using Cons.prems(3) x True by simp
    note b = Cons.IH [OF dis(1,2) this]
    have "t' \<notin> fst ` set specs \<or> retain_of r t' \<le> 0" if "t' \<notin> fst ` set (x # specs) \<or> retain_of r t' \<le> 0" for t'
      using that by auto
    then show ?thesis using b by blast
  next
    case False
    obtain m e s1 where 1: "reapTable r env t (re_now env - d) s = ((m, e), s1)" by (metis prod.collapse)
    obtain k es where 2: "reap_each r env specs s1 = ((k, es), s')"
      and eqs: "n = m + k" "errs = (case e of Some y \<Rightarrow> y # es | None \<Rightarrow> es)"
      using Cons.prems(3) x False 1 by (auto simp: Let_def split: prod.splits)
    note a = reapTable_effect [OF assms(1) 1 [unfolded d(2)]]
    note b = Cons.IH [OF dis(1,2) 2]
    have e: "expired_rows (cutoff_at r env OutboxEvents) (cutoff_at r env CmdReceipts) (cutoff_at r env ConsumedEvents) s s'"
      using a b expired_trans by blast
    have rows: "rows_in t' s' \<le> rows_in t' s \<and> int (rows_in t' s) - int (rows_in t' s') \<le> rr_maxPerRun r
         \<and> (t' \<notin> fst ` set (x # specs) \<or> retain_of r t' \<le> 0 \<longrightarrow> rows_in t' s' = rows_in t' s)" for t'
    proof (cases "t' = t")
      case True
      then have "rows_in t' s' = rows_in t' s1" using b dis(3) by blast
      then show ?thesis using a True x d(1) False by auto
    next
      case False
      then have r1: "rows_in t' s1 = rows_in t' s" using a by blast
      from b have "rows_in t' s' \<le> rows_in t' s1 \<and> int (rows_in t' s1) - int (rows_in t' s') \<le> rr_maxPerRun r
         \<and> (t' \<notin> fst ` set specs \<or> retain_of r t' \<le> 0 \<longrightarrow> rows_in t' s' = rows_in t' s1)" by blast
      then show ?thesis using r1 by simp
    qed
    have errs: "calm_reap env \<longrightarrow> errs = []" using a b eqs(2) by simp
    show ?thesis using e rows errs a b eqs(1) by simp
  qed
qed

text \<open>C33: retention deletes only what has expired.  Whatever the driver and the context do, a run of the reaper removes only rows
  that are PUBLISHED and were published before the cutoff, command receipts created before and consumer receipts processed
  before their cutoffs, keeps every other row of the three tables in its order, above all pending and DEAD events, and
  touches no other table; a table whose retention is not positive is left alone, at most maxPerRun rows
  leave a table, and without failures no error is reported.\<close>

theorem retention_deletes_only_expired:
  assumes "Reap (NewRetentionReaper p b m) env s = ((n, errs), s')"
  shows "expired_rows (re_now env - rp_PublishedOutbox p) (re_now env - rp_CmdReceipts p) (re_now env - rp_ConsumedEvents p) s s'
    \<and> (\<forall>t. int (rows_in t s) - int (rows_in t s') \<le> rr_maxPerRun (NewRetentionReaper p b m)
         \<and> (retain_of (NewRetentionReaper p b m) t \<le> 0 \<longrightarrow> rows_in t s' = rows_in t s))
    \<and> filter (\<lambda>r. ob_status r \<noteq> OPublished) (outbox s') = filter (\<lambda>r. ob_status r \<noteq> OPublished) (outbox s)
    \<and> (calm_reap env \<longrightarrow> errs = [])"
proof -
  let ?r = "NewRetentionReaper p b m"
  have specs: "distinct (map fst (reap_specs ?r))" "\<forall>t d. (t, d) \<in> set (reap_specs ?r) \<longrightarrow> d = retain_of ?r t"
    by (auto simp: reap_specs_def retain_of_def)
  note e = reap_each_effect [OF new_reaper_ok specs assms [unfolded Reap_def]]
  have c: "cutoff_at ?r env OutboxEvents = re_now env - rp_PublishedOutbox p" "cutoff_at ?r env CmdReceipts = re_now env - rp_CmdReceipts p"
    "cutoff_at ?r env ConsumedEvents = re_now env - rp_ConsumedEvents p"
    by (simp_all add: cutoff_at_def NewRetentionReaper_def)
  have "thinned (old_outbox (re_now env - rp_PublishedOutbox p)) (outbox s') (outbox s)"
    using e unfolding c by (auto simp: expired_rows_def)
  then have f: "filter (\<lambda>r. ob_status r \<noteq> OPublished) (filter (\<lambda>r. \<not> old_outbox (re_now env - rp_PublishedOutbox p) r) (outbox s'))
     = filter (\<lambda>r. ob_status r \<noteq> OPublished) (filter (\<lambda>r. \<not> old_outbox (re_now env - rp_PublishedOutbox p) r) (outbox s))"
    by (simp add: thinned_def)
  have live: "(\<lambda>r. ob_status r \<noteq> OPublished \<and> \<not> old_outbox c r) = (\<lambda>r. ob_status r \<noteq> OPublished)" for c
    by (auto simp: old_outbox_def)
  have "filter (\<lambda>r. ob_status r \<noteq> OPublished) (outbox s') = filter (\<lambda>r. ob_status r \<noteq> OPublished) (outbox s)"
    using f by (simp add: conj_commute live)
  then show ?thesis using e unfolding c by blast
qed

definition reap_calm_env :: reap_env where
  "reap_calm_env = \<lparr>re_now = 1000 * second, re_ctx = (\<lambda>_ _. False),
     re_stmt = (\<lambda>_ _. \<lparr>fault = (\<lambda>_. None), commit_outcome = CommitOK, clk_now = 0, fresh_id = []\<rparr>)\<rparr>"

definition receipt_db :: db where
  "receipt_db = empty_db\<lparr>receipts := [\<lparr>rc_user = 1, rc_cmd = ''a'', rc_version = None, rc_created = 10 * second\<rparr>,
     \<lparr>rc_user = 1, rc_cmd = ''b'', rc_version = None, rc_created = 990 * second\<rparr>]\<rparr>"

definition day_policy :: retention_policy where
  "day_policy = \<lparr>rp_PublishedOutbox = 0, rp_CmdReceipts = 100 * second, rp_ConsumedEvents = 0\<rparr>"

lemma retention_deletes_only_expired_witness:
  "receipts (snd (Reap (NewRetentionReaper day_policy 500 1) reap_calm_env receipt_db))
     = [\<lparr>rc_user = 1, rc_cmd = ''b'', rc_version = None, rc_created = 990 * second\<rparr>]
   \<and> expired_rows (1000 * second) (900 * second) (1000 * second) receipt_db (snd (Reap (NewRetentionReaper day_policy 500 1) reap_calm_env receipt_db))"
proof -
  have m: "nat (1::int) = Suc 0" by simp
  have r: "Reap (NewRetentionReaper day_policy 500 1) reap_calm_env receipt_db
    = ((1, []), receipt_db\<lparr>receipts := [\<lparr>rc_user = 1, rc_cmd = ''b'', rc_version = None, rc_created = 990 * second\<rparr>]\<rparr>)"
    by (simp add: Reap_def reap_specs_def NewRetentionReaper_def day_policy_def reapTable_def m run_auto_def stmt_def reap_delete_def
        receipt_db_def empty_db_def reap_calm_env_def old_receipt_def Let_def)
  show ?thesis
    using retention_deletes_only_expired [OF r] unfolding r by (simp add: day_policy_def reap_calm_env_def)
qed

end
