(* ===== verification/Accounts.thy ===== *)
theory Accounts
  imports AuthSessions Social FarmApply Sharding
begin

text \<open>
  internal/account/infrastructure/mysql_account_service.go and sharded_account_service.go: guest and local accounts with
  their first assets, the login transactions and the session each login issues.  The collation of the identity column, the
  password hash, HMAC and SHA-256 are parameters, and what crypto/rand, the clock and the global id
  generator give to a call is its environment.
\<close>

section \<open>Runes\<close>

text \<open>The width of the first rune of a string of bytes, and whether it is well formed; a byte that begins no well-formed
  rune counts as one.\<close>

definition cont :: "nat \<Rightarrow> nat \<Rightarrow> nat list \<Rightarrow> nat \<Rightarrow> bool" where
  "cont lo hi bs i \<longleftrightarrow> i < length bs \<and> lo \<le> bs ! i \<and> bs ! i \<le> hi"

definition rune_width :: "nat list \<Rightarrow> nat \<times> bool" where
  "rune_width bs =
     (case bs of
        [] \<Rightarrow> (1, False)
      | b # _ \<Rightarrow>
          if b < 128 then (1, True)
          else if 194 \<le> b \<and> b \<le> 223 \<and> cont 128 191 bs 1 then (2, True)
          else if 224 \<le> b \<and> b \<le> 239 \<and> cont (if b = 224 then 160 else 128) (if b = 237 then 159 else 191) bs 1 \<and> cont 128 191 bs 2 then (3, True)
          else if 240 \<le> b \<and> b \<le> 244 \<and> cont (if b = 240 then 144 else 128) (if b = 244 then 143 else 191) bs 1 \<and> cont 128 191 bs 2 \<and> cont 128 191 bs 3
          then (4, True)
          else (1, False))"

lemma rune_width_pos: "0 < fst (rune_width bs)"
  by (simp add: rune_width_def split: list.split)

function runes :: "nat list \<Rightarrow> bool list" where
  "runes bs = (if bs = [] then [] else snd (rune_width bs) # runes (drop (fst (rune_width bs)) bs))"
  by pat_completeness auto
termination
  by (relation "measure length") (use rune_width_pos in \<open>auto simp: rune_width_def split: list.splits\<close>)

declare runes.simps [simp del]

definition rune_count :: "string \<Rightarrow> nat" where "rune_count s = length (runes (map of_char s))"
definition valid_utf8 :: "string \<Rightarrow> bool" where "valid_utf8 s \<longleftrightarrow> list_all id (runes (map of_char s))"

section \<open>Names and credentials\<close>

definition normalizeRequestedDisplayName :: "string \<Rightarrow> go_error + string" where
  "normalizeRequestedDisplayName displayName =
     (let name = trim_space displayName in if rune_count name > 64 then Inl (New CommonInvalidArgument) else Inr name)"

definition normalizeRequiredDisplayName :: "string \<Rightarrow> go_error + string" where
  "normalizeRequiredDisplayName displayName =
     (case normalizeRequestedDisplayName displayName of
        Inl e \<Rightarrow> Inl e
      | Inr name \<Rightarrow> if rune_count name < 2 then Inl (New CommonInvalidArgument) else Inr name)"

text \<open>strings.ToLower as far as its result can match the pattern: the Kelvin sign and the dotted capital I are the only
  letters outside ASCII whose lower case is an ASCII letter.\<close>

fun lower_name :: "string \<Rightarrow> string" where
  "lower_name (a # b # c # s) =
     (if of_char a = (226::nat) \<and> of_char b = (132::nat) \<and> of_char c = (170::nat) then CHR ''k'' # lower_name s
      else if of_char a = (196::nat) \<and> of_char b = (176::nat) then CHR ''i'' # lower_name (c # s)
      else to_lower [a] @ lower_name (b # c # s))"
| "lower_name [a, b] = (if of_char a = (196::nat) \<and> of_char b = (176::nat) then ''i'' else to_lower [a, b])"
| "lower_name s = to_lower s"

definition username_char :: "char \<Rightarrow> bool" where
  "username_char c \<longleftrightarrow> (let n = (of_char c :: nat) in (97 \<le> n \<and> n \<le> 122) \<or> (48 \<le> n \<and> n \<le> 57) \<or> n = 95)"

definition localUsernamePattern :: "string \<Rightarrow> bool" where
  "localUsernamePattern s \<longleftrightarrow> list_all username_char s \<and> 4 \<le> length s \<and> length s \<le> 32"

definition normalizeUsername :: "string \<Rightarrow> go_error + string" where
  "normalizeUsername username =
     (let name = lower_name (trim_space username) in
      if localUsernamePattern name then Inr name else Inl (New CommonInvalidArgument))"

definition validatePassword :: "string \<Rightarrow> go_error + unit" where
  "validatePassword password =
     (if rune_count password < 8 \<or> length password > 128 then Inl (New CommonInvalidArgument) else Inr ())"

section \<open>Creating an account\<close>

definition initCoinBalance :: int where "initCoinBalance = 1000"
definition initSeedQuantity :: int where "initSeedQuantity = 5"
definition initSeedItemID :: int where "initSeedItemID = 1"
definition numInitPlots :: nat where "numInitPlots = 12"

text \<open>A text column: bytes that are no UTF-8 and too many characters are refused.\<close>

definition text_column :: "nat \<Rightarrow> string \<Rightarrow> go_error + unit" where
  "text_column n v =
     (if \<not> valid_utf8 v then Inl (MySQLErr 1366) else if rune_count v > n then Inl (MySQLErr 1406) else Inr ())"

definition next_account_id :: "db \<Rightarrow> int" where
  "next_account_id s = 1 + foldr (\<lambda>(u, r) m. max u m) (accounts s) 0"

text \<open>The insert into accounts, with a given id, which is then also the id of the farm, or with the next AUTO_INCREMENT value.\<close>

definition insert_account_row :: "int option \<Rightarrow> string \<Rightarrow> string \<Rightarrow> gotime \<Rightarrow> (db, int) tx" where
  "insert_account_row newID typ displayName now =
     (\<lambda>s. case text_column 64 displayName of
        Inl e \<Rightarrow> Inl e
      | Inr _ \<Rightarrow>
          (let u = opt_or newID (next_account_id s) in
           if u \<in> fst ` set (accounts s) \<or> (newID \<noteq> None \<and> Some u \<in> (acct_farm \<circ> snd) ` set (accounts s)) then Inl dup_key
           else Inr (u, s\<lparr>accounts := accounts s @ [(u, \<lparr>acct_farm = newID, acct_type = typ, acct_status = ''ACTIVE'', acct_created = datetime3 now\<rparr>)],
                          display_names := (display_names s)(u \<mapsto> displayName)\<rparr>)))"

definition update_farm_id :: "int \<Rightarrow> (db, unit) tx" where
  "update_farm_id u =
     (\<lambda>s. if \<exists>x\<in>set (accounts s). fst x \<noteq> u \<and> acct_farm (snd x) = Some u then Inl dup_key
          else Inr ((), s\<lparr>accounts := map (\<lambda>(v, r). (v, if v = u then r\<lparr>acct_farm := Some u\<rparr> else r)) (accounts s)\<rparr>))"

definition insert_account :: "env \<Rightarrow> (go_error + int) option \<Rightarrow> string \<Rightarrow> string \<Rightarrow> (db, int) tx" where
  "insert_account env drawn typ displayName =
     (case drawn of
        Some (Inl e) \<Rightarrow> tx_fail e
      | Some (Inr u) \<Rightarrow> stmt env ''insert_account'' (insert_account_row (Some u) typ displayName (clk_now env))
      | None \<Rightarrow>
          tx_bind (stmt env ''insert_account'' (insert_account_row None typ displayName (clk_now env))) (\<lambda>u.
            tx_seq (stmt env ''update_farm_id'' (update_farm_id u)) (tx_return u)))"

definition insert_identity :: "(string \<Rightarrow> string) \<Rightarrow> int \<Rightarrow> string \<Rightarrow> string \<Rightarrow> string option \<Rightarrow> (db, unit) tx" where
  "insert_identity collate u provider subject credential =
     (\<lambda>s. case text_column 191 subject of
        Inl e \<Rightarrow> Inl e
      | Inr _ \<Rightarrow>
          if map_of (identities s) (provider, collate subject) \<noteq> None then Inl dup_key
          else Inr ((), s\<lparr>identities := identities s @ [((provider, collate subject),
                 \<lparr>idn_user = u, idn_credential = credential, idn_status = ''ACTIVE''\<rparr>)]\<rparr>))"

text \<open>The first snapshot: json.Marshal writes the keys of a map in their order as strings.\<close>

definition empty_plot_json :: plot_json where
  "empty_plot_json = \<lparr>pj_CropID = [], pj_Status = ''EMPTY'', pj_PlantedAt = 0, pj_MatureAt = 0, pj_WateredCount = 0, pj_RemainingYield = Some 0\<rparr>"

definition initial_snapshot :: snapshot_json where
  "initial_snapshot = map (\<lambda>k. (k, empty_plot_json)) (sort (map (\<lambda>i. format_int (int i)) [1..<Suc numInitPlots]))"

definition initial_farm :: "int \<Rightarrow> farm_row" where
  "initial_farm u = \<lparr>fr_owner = u, fr_version = 0, fr_snapshot = initial_snapshot, fr_route_epoch = 0, fr_next_pet = None,
     fr_lease_owner = None, fr_lease_until = None\<rparr>"

definition insertInitialFarm :: "env \<Rightarrow> int \<Rightarrow> (db, unit) tx" where
  "insertInitialFarm env u =
     stmt env ''insert_farm'' (\<lambda>s. if map_of (farms s) u \<noteq> None then Inl dup_key
        else Inr ((), s\<lparr>farms := farms s @ [(u, initial_farm u)]\<rparr>))"

definition insert_wallet :: "env \<Rightarrow> int \<Rightarrow> (db, unit) tx" where
  "insert_wallet env u =
     stmt env ''insert_wallet'' (\<lambda>s. if wallets s u \<noteq> None then Inl dup_key
        else Inr ((), s\<lparr>wallets := (wallets s)(u \<mapsto> initCoinBalance)\<rparr>))"

definition insert_seeds :: "env \<Rightarrow> int \<Rightarrow> (db, unit) tx" where
  "insert_seeds env u =
     stmt env ''insert_seeds'' (\<lambda>s. if inventory s (u, ''SEED'', initSeedItemID) \<noteq> None then Inl dup_key
        else Inr ((), s\<lparr>inventory := (inventory s)((u, ''SEED'', initSeedItemID) \<mapsto> initSeedQuantity)\<rparr>))"

definition createGuestAccount :: "(string \<Rightarrow> string) \<Rightarrow> env \<Rightarrow> (go_error + int) option \<Rightarrow> string \<Rightarrow> string \<Rightarrow> (db, int) tx" where
  "createGuestAccount collate env drawn deviceID displayName =
     (let name = (if displayName = [] then ''Guest_'' @ take 8 deviceID else displayName) in
      tx_bind (insert_account env drawn ''GUEST'' name) (\<lambda>u.
        tx_seq (stmt env ''insert_identity'' (insert_identity collate u ''guest'' deviceID None))
          (tx_seq (insertInitialFarm env u) (tx_seq (insert_wallet env u) (tx_seq (insert_seeds env u) (tx_return u))))))"

definition createRegisteredAccount :: "(string \<Rightarrow> string) \<Rightarrow> env \<Rightarrow> (go_error + int) option \<Rightarrow> string \<Rightarrow> string \<Rightarrow> string \<Rightarrow> (db, int) tx" where
  "createRegisteredAccount collate env drawn username credentialHash displayName =
     tx_bind (insert_account env drawn ''REGISTERED'' displayName) (\<lambda>u.
       tx_seq (stmt env ''insert_identity'' (insert_identity collate u ''local'' username (Some credentialHash)))
         (tx_seq (insertInitialFarm env u) (tx_seq (insert_wallet env u) (tx_seq (insert_seeds env u) (tx_return u)))))"

section \<open>Sessions\<close>

record account =
  ac_UserID :: int
  ac_DisplayName :: string
  ac_AccountType :: string
  ac_Status :: string
  ac_FarmID :: int
  ac_CreatedAt :: gotime

record session_record =
  sr_SessionID :: string
  sr_UserID :: int
  sr_DeviceID :: string
  sr_AccessToken :: string
  sr_RefreshToken :: string
  sr_RefreshTokenHash :: string
  sr_ExpiresAt :: gotime
  sr_CreatedAt :: gotime

definition loadAccount :: "env \<Rightarrow> int \<Rightarrow> (db, account) tx" where
  "loadAccount env userID =
     (\<lambda>s. case fault env ''load_account'' of
        Some e \<Rightarrow> Inl (if e = SqlNoRows then New AuthUnauthorized else e)
      | None \<Rightarrow>
          (case map_of (accounts s) userID of
             None \<Rightarrow> Inl (New AuthUnauthorized)
           | Some r \<Rightarrow> Inr (\<lparr>ac_UserID = userID, ac_DisplayName = opt_or (display_names s userID) [], ac_AccountType = acct_type r,
                ac_Status = acct_status r, ac_FarmID = opt_or (acct_farm r) 0, ac_CreatedAt = acct_created r\<rparr>, s)))"

text \<open>The keys of a service, and what one call gets from outside.  A session id and a refresh token are None when
  crypto/rand fails.\<close>

record account_keys =
  ak_collate :: "string \<Rightarrow> string"
  ak_hmac :: hmac
  ak_sha :: "string \<Rightarrow> string"
  ak_secret :: string

record login_env =
  le_tx :: env
  le_redis :: redis_env
  le_session :: "string option"
  le_token :: "string option"
  le_signed_at :: gotime

definition accessTokenTTL :: duration where "accessTokenTTL = 30 * minute"
definition sessionRefreshTTL :: duration where "sessionRefreshTTL = 7 * 24 * 60 * minute"

definition createSession :: "account_keys \<Rightarrow> login_env \<Rightarrow> int \<Rightarrow> string \<Rightarrow> redis \<Rightarrow> (go_error + session_record) \<times> redis" where
  "createSession ks env userID deviceID rd =
     (case le_session env of
        None \<Rightarrow> (Inl (PlainErr ''gen_session_id''), rd)
      | Some sessionID \<Rightarrow>
          (case le_token env of
             None \<Rightarrow> (Inl (PlainErr ''gen_refresh_token''), rd)
           | Some refreshToken \<Rightarrow>
               (let rtHash = ak_sha ks refreshToken;
                    accessToken = SignSession (ak_hmac ks) (le_signed_at env) userID sessionID accessTokenTTL (ak_secret ks);
                    now = clk_now (le_tx env) in
                (case RS_Create (le_redis env) sessionID rtHash userID rd of
                   (Inl e, rd') \<Rightarrow> (Inl e, rd')
                 | (Inr _, rd') \<Rightarrow>
                     (Inr \<lparr>sr_SessionID = sessionID, sr_UserID = userID, sr_DeviceID = deviceID, sr_AccessToken = accessToken,
                        sr_RefreshToken = refreshToken, sr_RefreshTokenHash = rtHash, sr_ExpiresAt = now + sessionRefreshTTL,
                        sr_CreatedAt = now\<rparr>, rd')))))"

section \<open>Logins\<close>

text \<open>The state that a login works on: the shard, the store of the sessions and, when accounts get global ids, the generator.\<close>

record account_state =
  at_db :: db
  at_redis :: redis
  at_gen :: "id_generator option"

definition drawn_id :: "login_env \<Rightarrow> account_state \<Rightarrow> (go_error + int) option" where
  "drawn_id env st = map_option (\<lambda>g. fst (Next (clk_now (le_tx env) div millisecond) g)) (at_gen st)"

definition after_draw :: "bool \<Rightarrow> login_env \<Rightarrow> account_state \<Rightarrow> id_generator option" where
  "after_draw draws env st = map_option (\<lambda>g. if draws then snd (Next (clk_now (le_tx env) div millisecond) g) else g) (at_gen st)"

definition guest_user :: "(string \<Rightarrow> string) \<Rightarrow> string \<Rightarrow> db \<Rightarrow> int option" where
  "guest_user collate deviceID s = map_option idn_user (map_of (identities s) (''guest'', collate deviceID))"

definition updateGuestDisplayName :: "int \<Rightarrow> string \<Rightarrow> (db, unit) tx" where
  "updateGuestDisplayName userID displayName =
     (\<lambda>s. case map_of (accounts s) userID of
        None \<Rightarrow> Inr ((), s)
      | Some r \<Rightarrow>
          if acct_type r \<noteq> ''GUEST'' then Inr ((), s)
          else (case text_column 64 displayName of
             Inl e \<Rightarrow> Inl e
           | Inr _ \<Rightarrow> Inr ((), s\<lparr>display_names := (display_names s)(userID \<mapsto> displayName)\<rparr>)))"

definition guest_body :: "(string \<Rightarrow> string) \<Rightarrow> env \<Rightarrow> (go_error + int) option \<Rightarrow> string \<Rightarrow> string \<Rightarrow> (db, account ended) tx" where
  "guest_body collate env drawn deviceID displayName =
     tx_bind (query_exact env ''find_identity'' (guest_user collate deviceID)) (\<lambda>found.
       tx_bind (case found of
            None \<Rightarrow> createGuestAccount collate env drawn deviceID displayName
          | Some u \<Rightarrow> tx_seq (tx_when (displayName \<noteq> []) (stmt env ''rename_guest'' (updateGuestDisplayName u displayName))) (tx_return u)) (\<lambda>userID.
         tx_bind (loadAccount env userID) (\<lambda>acc. tx_return (Committed acc))))"

text \<open>Whether a transaction comes to the point where it draws an id.\<close>

definition guest_draws :: "(string \<Rightarrow> string) \<Rightarrow> env \<Rightarrow> string \<Rightarrow> db \<Rightarrow> bool" where
  "guest_draws collate env deviceID s \<longleftrightarrow>
     fault env ''begin'' = None \<and> (case fault env ''find_identity'' of Some e \<Rightarrow> e = SqlNoRows | None \<Rightarrow> guest_user collate deviceID s = None)"

definition issue_session :: "account_keys \<Rightarrow> login_env \<Rightarrow> string \<Rightarrow> account_state \<Rightarrow> go_error + account
    \<Rightarrow> (go_error + account \<times> session_record) \<times> account_state" where
  "issue_session ks env deviceID st r =
     (case r of
        Inl e \<Rightarrow> (Inl e, st)
      | Inr acc \<Rightarrow>
          (case createSession ks env (ac_UserID acc) deviceID (at_redis st) of
             (Inl e, rd) \<Rightarrow> (Inl e, st\<lparr>at_redis := rd\<rparr>)
           | (Inr sess, rd) \<Rightarrow> (Inr (acc, sess), st\<lparr>at_redis := rd\<rparr>)))"

definition GuestLogin :: "account_keys \<Rightarrow> login_env \<Rightarrow> string \<Rightarrow> string \<Rightarrow> account_state \<Rightarrow> (go_error + account \<times> session_record) \<times> account_state" where
  "GuestLogin ks env deviceID requestedDisplayName st =
     (case normalizeRequestedDisplayName requestedDisplayName of
        Inl e \<Rightarrow> (Inl e, st)
      | Inr displayName \<Rightarrow>
          (let (r, s') = run_tx (le_tx env) (guest_body (ak_collate ks) (le_tx env) (drawn_id env st) deviceID displayName) (at_db st) in
           issue_session ks env deviceID
             (st\<lparr>at_db := s', at_gen := after_draw (guest_draws (ak_collate ks) (le_tx env) deviceID (at_db st)) env st\<rparr>) r))"

definition LookupGuestUserID :: "(string \<Rightarrow> string) \<Rightarrow> env \<Rightarrow> string \<Rightarrow> db \<Rightarrow> go_error + int option" where
  "LookupGuestUserID collate env deviceID s =
     (case fault env ''lookup_guest'' of
        Some e \<Rightarrow> if errors_is e SqlNoRows then Inr None else Inl e
      | None \<Rightarrow> Inr (guest_user collate deviceID s))"

text \<open>Register: a duplicate key anywhere in the creation means that the name is taken.\<close>

definition register_body :: "(string \<Rightarrow> string) \<Rightarrow> env \<Rightarrow> (go_error + int) option \<Rightarrow> string \<Rightarrow> string \<Rightarrow> string \<Rightarrow> (db, account ended) tx" where
  "register_body collate env drawn username credentialHash displayName =
     tx_bind (query_row env ''check_username'' (\<lambda>s. map_of (identities s) (''local'', collate username))) (\<lambda>found.
       tx_seq (tx_guard (found = None) (New AuthIdentityExists))
         (tx_bind (\<lambda>s. case createRegisteredAccount collate env drawn username credentialHash displayName s of
              Inl e \<Rightarrow> Inl (if IsDuplicateKey e then New AuthIdentityExists else e)
            | Inr r \<Rightarrow> Inr r) (\<lambda>userID.
           tx_bind (loadAccount env userID) (\<lambda>acc. tx_return (Committed acc)))))"

definition register_draws :: "(string \<Rightarrow> string) \<Rightarrow> env \<Rightarrow> string \<Rightarrow> db \<Rightarrow> bool" where
  "register_draws collate env username s \<longleftrightarrow>
     fault env ''begin'' = None
     \<and> (case fault env ''check_username'' of Some e \<Rightarrow> errors_is e SqlNoRows | None \<Rightarrow> map_of (identities s) (''local'', collate username) = None)"

text \<open>\<^verbatim>\<open>hashed\<close> is what hashPassword returns with the salt of this call.\<close>

definition Register ::
  "account_keys \<Rightarrow> login_env \<Rightarrow> (go_error + string) \<Rightarrow> string \<Rightarrow> string \<Rightarrow> string \<Rightarrow> account_state
     \<Rightarrow> (go_error + account \<times> session_record) \<times> account_state" where
  "Register ks env hashed username password requestedDisplayName st =
     (case normalizeUsername username of
        Inl e \<Rightarrow> (Inl e, st)
      | Inr name \<Rightarrow>
          (case validatePassword password of
             Inl e \<Rightarrow> (Inl e, st)
           | Inr _ \<Rightarrow>
               (case normalizeRequiredDisplayName requestedDisplayName of
                  Inl e \<Rightarrow> (Inl e, st)
                | Inr displayName \<Rightarrow>
                    (case hashed of
                       Inl e \<Rightarrow> (Inl e, st)
                     | Inr credentialHash \<Rightarrow>
                         (let (r, s') = run_tx (le_tx env) (register_body (ak_collate ks) (le_tx env) (drawn_id env st) name credentialHash displayName) (at_db st) in
                          issue_session ks env ''web''
                            (st\<lparr>at_db := s', at_gen := after_draw (register_draws (ak_collate ks) (le_tx env) name (at_db st)) env st\<rparr>) r)))))"

definition local_identity :: "(string \<Rightarrow> string) \<Rightarrow> string \<Rightarrow> db \<Rightarrow> (int \<times> string \<times> string \<times> string) option" where
  "local_identity collate username s =
     Option.bind (map_of (identities s) (''local'', collate username)) (\<lambda>i.
       map_option (\<lambda>a. (idn_user i, opt_or (idn_credential i) [], idn_status i, acct_status a)) (map_of (accounts s) (idn_user i)))"

definition login_body :: "env \<Rightarrow> int \<Rightarrow> (db, account ended) tx" where
  "login_body env userID =
     tx_seq (stmt env ''touch_login'' (tx_return ())) (tx_bind (loadAccount env userID) (\<lambda>acc. tx_return (Committed acc)))"

definition PasswordLogin ::
  "account_keys \<Rightarrow> (string \<Rightarrow> string \<Rightarrow> bool) \<Rightarrow> login_env \<Rightarrow> string \<Rightarrow> string \<Rightarrow> account_state
     \<Rightarrow> (go_error + account \<times> session_record) \<times> account_state" where
  "PasswordLogin ks verify env username password st =
     (case (normalizeUsername username, password = []) of
        (Inr name, False) \<Rightarrow>
          (case query_row (le_tx env) ''load_local'' (local_identity (ak_collate ks) name) (at_db st) of
             Inl e \<Rightarrow> (Inl e, st)
           | Inr (None, _) \<Rightarrow> (Inl (New AuthUnauthorized), st)
           | Inr (Some (userID, credentialHash, identityStatus, accountStatus), _) \<Rightarrow>
               if \<not> verify credentialHash password then (Inl (New AuthUnauthorized), st)
               else if identityStatus \<noteq> ''ACTIVE'' \<or> accountStatus \<noteq> ''ACTIVE'' then (Inl (New AuthForbidden), st)
               else
                 (let (r, s') = run_tx (le_tx env) (login_body (le_tx env) userID) (at_db st) in
                  issue_session ks env ''web'' (st\<lparr>at_db := s'\<rparr>) r))
      | _ \<Rightarrow> (Inl (New AuthUnauthorized), st))"

text \<open>TRIM takes blanks off both ends, NULLIF and COALESCE replace an empty name by the id.\<close>

definition LoadDisplayName :: "env \<Rightarrow> int \<Rightarrow> db \<Rightarrow> go_error + string" where
  "LoadDisplayName env userID s =
     (case fault env ''load_display_name'' of
        Some e \<Rightarrow> if errors_is e SqlNoRows then Inr (format_int userID) else Inl e
      | None \<Rightarrow>
          (case map_of (accounts s) userID of
             None \<Rightarrow> Inr (format_int userID)
           | Some _ \<Rightarrow>
               (let name = sql_trim (opt_or (display_names s userID) []) in
                Inr (if name = [] then format_int userID else name))))"

end
