(* ===== verification/AccountsProps.thy ===== *)
theory AccountsProps
  imports Accounts AuthSessionsProps FarmCommitFacts
begin

text \<open>
  What the account service guarantees: an account comes with its farm, its wallet and its seeds or not at all, a device
  keeps its guest account, and the session that a login issues works.
\<close>

section \<open>Creating an account\<close>

definition started :: "int \<Rightarrow> string \<Rightarrow> string \<Rightarrow> gotime \<Rightarrow> string \<times> string \<Rightarrow> string option \<Rightarrow> db \<Rightarrow> db" where
  "started u typ name now key cred s = s\<lparr>
     accounts := accounts s @ [(u, \<lparr>acct_farm = Some u, acct_type = typ, acct_status = ''ACTIVE'', acct_created = datetime3 now\<rparr>)],
     display_names := (display_names s)(u \<mapsto> name),
     identities := identities s @ [(key, \<lparr>idn_user = u, idn_credential = cred, idn_status = ''ACTIVE''\<rparr>)],
     farms := farms s @ [(u, initial_farm u)],
     wallets := (wallets s)(u \<mapsto> 1000),
     inventory := (inventory s)((u, ''SEED'', 1) \<mapsto> 5)\<rparr>"

text \<open>Nothing of the new account exists yet.\<close>

definition unused :: "int \<Rightarrow> string \<times> string \<Rightarrow> db \<Rightarrow> bool" where
  "unused u key s \<longleftrightarrow> u \<notin> fst ` set (accounts s) \<and> map_of (identities s) key = None \<and> map_of (farms s) u = None
     \<and> wallets s u = None \<and> inventory s (u, ''SEED'', 1) = None"

lemma insert_account_Inr:
  assumes "insert_account env drawn typ name s = Inr (u, s')"
  shows "u \<notin> fst ` set (accounts s) \<and> s' = s\<lparr>
     accounts := accounts s @ [(u, \<lparr>acct_farm = Some u, acct_type = typ, acct_status = ''ACTIVE'', acct_created = datetime3 (clk_now env)\<rparr>)],
     display_names := (display_names s)(u \<mapsto> name)\<rparr>"
proof (cases drawn)
  case None
  have same: "map (\<lambda>(v, r). (v, if v = u then r\<lparr>acct_farm := Some u\<rparr> else r)) (accounts s) = accounts s" if "u \<notin> fst ` set (accounts s)"
    using that by (intro map_idI) force
  show ?thesis using assms None same
    by (auto simp: insert_account_def tx_inv insert_account_row_def update_farm_id_def Let_def split: sum.splits if_splits)
next
  case (Some d)
  then show ?thesis using assms
    by (auto simp: insert_account_def tx_inv insert_account_row_def Let_def split: sum.splits if_splits)
qed

lemma insert_identity_Inr:
  assumes "insert_identity coll u p subj cred s = Inr (x, s')"
  shows "map_of (identities s) (p, coll subj) = None
    \<and> s' = s\<lparr>identities := identities s @ [((p, coll subj), \<lparr>idn_user = u, idn_credential = cred, idn_status = ''ACTIVE''\<rparr>)]\<rparr>"
  using assms by (auto simp: insert_identity_def split: sum.splits if_splits)

lemma create_rest_Inr:
  assumes "tx_seq (stmt env l (insert_identity coll u p subj cred))
     (tx_seq (insertInitialFarm env u) (tx_seq (insert_wallet env u) (tx_seq (insert_seeds env u) (tx_return u)))) s = Inr (v, s')"
  shows "v = u \<and> map_of (identities s) (p, coll subj) = None \<and> map_of (farms s) u = None \<and> wallets s u = None
    \<and> inventory s (u, ''SEED'', 1) = None
    \<and> s' = s\<lparr>identities := identities s @ [((p, coll subj), \<lparr>idn_user = u, idn_credential = cred, idn_status = ''ACTIVE''\<rparr>)],
         farms := farms s @ [(u, initial_farm u)], wallets := (wallets s)(u \<mapsto> 1000), inventory := (inventory s)((u, ''SEED'', 1) \<mapsto> 5)\<rparr>"
  using assms
  by (auto simp: tx_inv insertInitialFarm_def insert_wallet_def insert_seeds_def initCoinBalance_def initSeedQuantity_def initSeedItemID_def
      split: if_splits dest!: insert_identity_Inr)

lemma create_guest_Inr:
  assumes "createGuestAccount coll env drawn dev name s = Inr (u, s')"
  shows "\<exists>n. unused u (''guest'', coll dev) s \<and> s' = started u ''GUEST'' n (clk_now env) (''guest'', coll dev) None s"
proof -
  obtain n s1 v where 1: "insert_account env drawn ''GUEST'' n s = Inr (v, s1)"
    "tx_seq (stmt env ''insert_identity'' (insert_identity coll v ''guest'' dev None))
     (tx_seq (insertInitialFarm env v) (tx_seq (insert_wallet env v) (tx_seq (insert_seeds env v) (tx_return v)))) s1 = Inr (u, s')"
    using assms unfolding createGuestAccount_def Let_def tx_bind_Inr [where m = "insert_account env drawn ''GUEST'' _"]
    by blast
  note i = insert_account_Inr [OF 1(1)] and r = create_rest_Inr [OF 1(2)]
  show ?thesis using i r by (auto simp: unused_def started_def)
qed

lemma create_registered_Inr:
  assumes "createRegisteredAccount coll env drawn user cred name s = Inr (u, s')"
  shows "unused u (''local'', coll user) s \<and> s' = started u ''REGISTERED'' name (clk_now env) (''local'', coll user) (Some cred) s"
proof -
  obtain s1 v where 1: "insert_account env drawn ''REGISTERED'' name s = Inr (v, s1)"
    "tx_seq (stmt env ''insert_identity'' (insert_identity coll v ''local'' user (Some cred)))
     (tx_seq (insertInitialFarm env v) (tx_seq (insert_wallet env v) (tx_seq (insert_seeds env v) (tx_return v)))) s1 = Inr (u, s')"
    using assms unfolding createRegisteredAccount_def tx_bind_Inr [where m = "insert_account env drawn ''REGISTERED'' _"]
    by blast
  note i = insert_account_Inr [OF 1(1)] and r = create_rest_Inr [OF 1(2)]
  show ?thesis using i r by (auto simp: unused_def started_def)
qed

section \<open>What a login does to the shard\<close>

lemma loadAccount_Inr:
  assumes "loadAccount env u s = Inr (acc, s')"
  shows "s' = s \<and> ac_UserID acc = u \<and> (\<exists>r. map_of (accounts s) u = Some r \<and> ac_Status acc = acct_status r)"
  using assms by (auto simp: loadAccount_def split: option.splits if_splits)

lemma guest_body_Inr:
  assumes "guest_body coll env drawn dev name s = Inr (x, s')" "fault env ''find_identity'' = None"
  shows "\<exists>acc. x = Committed acc
    \<and> (case guest_user coll dev s of
         None \<Rightarrow> (\<exists>n. unused (ac_UserID acc) (''guest'', coll dev) s
            \<and> s' = started (ac_UserID acc) ''GUEST'' n (clk_now env) (''guest'', coll dev) None s)
       | Some u \<Rightarrow> ac_UserID acc = u \<and> (\<exists>dn. s' = s\<lparr>display_names := dn\<rparr>))"
proof -
  define next_step where "next_step found = (case found of None \<Rightarrow> createGuestAccount coll env drawn dev name
     | Some u \<Rightarrow> tx_seq (tx_when (name \<noteq> []) (stmt env ''rename_guest'' (updateGuestDisplayName u name))) (tx_return u))" for found
  obtain u s1 acc where 1: "next_step (guest_user coll dev s) s = Inr (u, s1)" "loadAccount env u s1 = Inr (acc, s')" "x = Committed acc"
    using assms unfolding guest_body_def next_step_def [symmetric]
    by (auto simp: tx_inv query_exact_def)
  show ?thesis
  proof (cases "guest_user coll dev s")
    case None
    then have "createGuestAccount coll env drawn dev name s = Inr (u, s1)" using 1(1) by (simp add: next_step_def)
    from create_guest_Inr [OF this] 1(2,3) loadAccount_Inr [OF 1(2)] None show ?thesis by auto
  next
    case (Some v)
    then have "u = v \<and> (\<exists>dn. s1 = s\<lparr>display_names := dn\<rparr>)" using 1(1)
      by (auto simp: next_step_def tx_inv updateGuestDisplayName_def split: option.splits if_splits sum.splits intro: exI [of _ "display_names s"])
    then show ?thesis using 1(2,3) loadAccount_Inr [OF 1(2)] Some by auto
  qed
qed

text \<open>A driver never answers a query that has a row with sql.ErrNoRows.\<close>

definition honest_env :: "login_env \<Rightarrow> bool" where
  "honest_env env \<longleftrightarrow> (\<forall>l e. fault (le_tx env) l = Some e \<longrightarrow> \<not> errors_is e SqlNoRows)"

lemma honest_exact: "honest_env env \<Longrightarrow> fault (le_tx env) l \<noteq> Some SqlNoRows"
  by (force simp: honest_env_def errors_is.simps)

text \<open>One login changes the shard in one of three ways.\<close>

datatype login_effect = NoEffect | Renamed | Created int

definition effect_of :: "login_effect \<Rightarrow> string \<times> string \<Rightarrow> db \<Rightarrow> db \<Rightarrow> bool" where
  "effect_of k key s s' \<longleftrightarrow> (case k of
      NoEffect \<Rightarrow> s' = s
    | Renamed \<Rightarrow> (\<exists>dn. s' = s\<lparr>display_names := dn\<rparr>)
    | Created u \<Rightarrow> (\<exists>typ n now cred. unused u key s \<and> s' = started u typ n now key cred s))"

lemma issue_db [simp]: "at_db (snd (issue_session ks env dev st r)) = at_db st"
  by (simp add: issue_session_def split: sum.split prod.split)

lemma issue_fst: "fst (issue_session ks env dev st r) = Inr (acc, sess) \<Longrightarrow> r = Inr acc"
  by (auto simp: issue_session_def split: sum.splits prod.splits)

lemma query_exact_fault:
  "fault env ''find_identity'' = Some e \<Longrightarrow> e \<noteq> SqlNoRows \<Longrightarrow> guest_body coll env drawn dev name s = Inl e"
  by (simp add: guest_body_def tx_bind_def query_exact_def)

lemma GuestLogin_effect:
  assumes "honest_env env"
  shows "\<exists>k. effect_of k (''guest'', ak_collate ks dev) (at_db st) (at_db (snd (GuestLogin ks env dev name st)))
     \<and> (\<forall>u. k = Created u \<longrightarrow> guest_user (ak_collate ks) dev (at_db st) = None)
     \<and> (\<forall>acc sess. fst (GuestLogin ks env dev name st) = Inr (acc, sess) \<longrightarrow>
          guest_user (ak_collate ks) dev (at_db (snd (GuestLogin ks env dev name st))) = Some (ac_UserID acc))"
proof (cases "normalizeRequestedDisplayName name")
  case (Inl e)
  then show ?thesis by (intro exI [of _ NoEffect]) (simp add: GuestLogin_def effect_of_def)
next
  case (Inr nm)
  let ?coll = "ak_collate ks" and ?tx = "le_tx env" and ?s = "at_db st"
  let ?body = "guest_body ?coll ?tx (drawn_id env st) dev nm"
  obtain r s' where run: "run_tx ?tx ?body ?s = (r, s')" by (cases "run_tx ?tx ?body ?s")
  have db: "at_db (snd (GuestLogin ks env dev name st)) = s'" using Inr run by (simp add: GuestLogin_def)
  have res: "r = Inr acc" if "fst (GuestLogin ks env dev name st) = Inr (acc, sess)" for acc sess
    using that Inr run issue_fst by (fastforce simp: GuestLogin_def)
  have nf: "fault ?tx ''find_identity'' = None" if "?body ?s = Inr y" for y
    using that honest_exact [OF assms, of "''find_identity''"] query_exact_fault [of ?tx _ ?coll "drawn_id env st" dev nm ?s]
    by (cases "fault ?tx ''find_identity''") auto
  have found: "guest_user ?coll dev (started u ty n tm (''guest'', ?coll dev) cred ?s) = Some u" if "unused u (''guest'', ?coll dev) ?s" for u ty n tm cred
    using that by (simp add: guest_user_def started_def unused_def map_add_def)
  show ?thesis
  proof (cases "s' = ?s \<and> (\<forall>acc. r \<noteq> Inr acc)")
    case True
    then show ?thesis using db res by (intro exI [of _ NoEffect]) (auto simp: effect_of_def)
  next
    case False
    then obtain x t where x: "?body ?s = Inr (x, t)" "s' = t" "\<And>acc. r = Inr acc \<Longrightarrow> x = Committed acc"
    proof (cases r)
      case (Inr acc)
      from run_tx_ok [OF run [unfolded Inr]] consider "?body ?s = Inr (Committed acc, s')" | t where "?body ?s = Inr (NoCommit acc, t)" by blast
      then show thesis
      proof cases
        case 1
        then show thesis by (rule that) (use Inr in simp_all)
      next
        case (2 t)
        then show thesis using guest_body_Inr [OF 2 nf [OF 2]] by simp
      qed
    next
      case (Inl e)
      then have "snd (run_tx ?tx ?body ?s) \<noteq> ?s" using False run by simp
      then obtain a t where "?body ?s = Inr (Committed a, t)" "snd (run_tx ?tx ?body ?s) = t"
        by (cases rule: run_tx_cases [of ?tx ?body ?s]) auto
      then show thesis by (intro that [of "Committed a" t]) (use run Inl in simp_all)
    qed
    from guest_body_Inr [OF x(1) nf [OF x(1)]] obtain acc where acc: "x = Committed acc"
      "case guest_user ?coll dev ?s of
         None \<Rightarrow> (\<exists>n. unused (ac_UserID acc) (''guest'', ?coll dev) ?s \<and> t = started (ac_UserID acc) ''GUEST'' n (clk_now ?tx) (''guest'', ?coll dev) None ?s)
       | Some u \<Rightarrow> ac_UserID acc = u \<and> (\<exists>dn. t = ?s\<lparr>display_names := dn\<rparr>)" by blast
    show ?thesis
    proof (cases "guest_user ?coll dev ?s")
      case None
      then obtain n where n: "unused (ac_UserID acc) (''guest'', ?coll dev) ?s"
        "t = started (ac_UserID acc) ''GUEST'' n (clk_now ?tx) (''guest'', ?coll dev) None ?s" using acc(2) by auto
      have "effect_of (Created (ac_UserID acc)) (''guest'', ?coll dev) ?s s'" using n x(2) unfolding effect_of_def by auto
      then show ?thesis using db res x(2,3) acc(1) found [OF n(1)] n(2) None
        by (intro exI [of _ "Created (ac_UserID acc)"]) auto
    next
      case (Some u)
      then obtain dn where dn: "ac_UserID acc = u" "t = ?s\<lparr>display_names := dn\<rparr>" using acc(2) by auto
      then have "effect_of Renamed (''guest'', ?coll dev) ?s s'" using x(2) by (auto simp: effect_of_def)
      moreover have "guest_user ?coll dev t = Some u" using Some dn by (simp add: guest_user_def)
      ultimately show ?thesis using db res x(2,3) acc(1) dn(1) by (intro exI [of _ Renamed]) auto
    qed
  qed
qed


lemma error_mapped_Inr: "(case m of Inl e \<Rightarrow> Inl (f e) | Inr r \<Rightarrow> Inr r) = Inr x \<longleftrightarrow> m = Inr x"
  by (cases m) auto

lemma query_row_Inr: "query_row env l f s = Inr (v, s') \<Longrightarrow> s' = s"
  by (auto simp: query_row_def split: option.splits if_splits)

lemma register_body_Inr:
  assumes "register_body coll env drawn user cred name s = Inr (x, s')"
  shows "\<exists>acc. x = Committed acc \<and> unused (ac_UserID acc) (''local'', coll user) s
     \<and> s' = started (ac_UserID acc) ''REGISTERED'' name (clk_now env) (''local'', coll user) (Some cred) s"
proof -
  define create where "create s = (case createRegisteredAccount coll env drawn user cred name s of
     Inl e \<Rightarrow> Inl (if IsDuplicateKey e then New AuthIdentityExists else e) | Inr r \<Rightarrow> Inr r)" for s
  define load where "load u = tx_bind (loadAccount env u) (\<lambda>acc. tx_return (Committed acc))" for u
  obtain found s0 where q: "query_row env ''check_username'' (\<lambda>s. map_of (identities s) (''local'', coll user)) s = Inr (found, s0)"
    and c: "tx_bind create load s0 = Inr (x, s')"
    using assms unfolding register_body_def create_def [symmetric] load_def [symmetric] tx_bind_Inr [where m = "query_row env _ _"]
      tx_bind_Inr [where m = "tx_guard _ _"] tx_guard_Inr by blast
  obtain u s1 where u: "create s0 = Inr (u, s1)" "load u s1 = Inr (x, s')" using c unfolding tx_bind_Inr by blast
  obtain acc where acc: "loadAccount env u s1 = Inr (acc, s')" "x = Committed acc" using u(2) by (auto simp: load_def tx_inv)
  have "createRegisteredAccount coll env drawn user cred name s = Inr (u, s1)"
    using u(1) query_row_Inr [OF q] by (simp add: create_def error_mapped_Inr)
  then show ?thesis using create_registered_Inr loadAccount_Inr [OF acc(1)] acc(2) by auto
qed

lemma Register_effect:
  "\<exists>k subj. effect_of k (''local'', subj) (at_db st) (at_db (snd (Register ks env hashed user pw name st)))"
proof -
  have n: "\<exists>k subj. effect_of k (''local'', subj) s s" for s by (intro exI [of _ NoEffect]) (simp add: effect_of_def)
  have "\<exists>k subj. effect_of k (''local'', subj) (at_db st) (snd (run_tx (le_tx env) (register_body coll (le_tx env) d u c nm) (at_db st)))" for coll d u c nm
  proof (cases rule: run_tx_cases [of "le_tx env" "register_body coll (le_tx env) d u c nm" "at_db st"])
    case unchanged
    then show ?thesis using n by simp
  next
    case (applied a s')
    from register_body_Inr [OF applied(1)] show ?thesis
      unfolding applied(2) by (intro exI [of _ "Created (ac_UserID a)"] exI [of _ "coll u"]) (auto simp: effect_of_def)
  qed
  then show ?thesis using n by (simp add: Register_def Let_def case_prod_unfold split: sum.split)
qed

lemma PasswordLogin_effect: "at_db (snd (PasswordLogin ks verify env user pw st)) = at_db st"
proof -
  have "snd (run_tx (le_tx env) (login_body (le_tx env) u) s) = s" for u s
  proof (cases rule: run_tx_cases [of "le_tx env" "login_body (le_tx env) u" s])
    case (applied a s')
    then show ?thesis using loadAccount_Inr by (auto simp: login_body_def tx_inv)
  qed
  then show ?thesis
    by (simp add: PasswordLogin_def Let_def case_prod_unfold split: sum.split option.split bool.split)
qed

section \<open>Runs of logins\<close>

datatype login_op =
    LGuest login_env string string
  | LRegister login_env "go_error + string" string string string
  | LPassword login_env string string

primrec login_call :: "account_keys \<Rightarrow> (string \<Rightarrow> string \<Rightarrow> bool) \<Rightarrow> login_op \<Rightarrow> account_state \<Rightarrow> (go_error + account \<times> session_record) \<times> account_state" where
  "login_call ks verify (LGuest env dev name) st = GuestLogin ks env dev name st"
| "login_call ks verify (LRegister env hashed user pw name) st = Register ks env hashed user pw name st"
| "login_call ks verify (LPassword env user pw) st = PasswordLogin ks verify env user pw st"

primrec call_env :: "login_op \<Rightarrow> login_env" where
  "call_env (LGuest env dev name) = env"
| "call_env (LRegister env hashed user pw name) = env"
| "call_env (LPassword env user pw) = env"

definition login_run :: "account_keys \<Rightarrow> (string \<Rightarrow> string \<Rightarrow> bool) \<Rightarrow> login_op list \<Rightarrow> account_state \<Rightarrow> account_state" where
  "login_run ks verify ops st = fold (\<lambda>op st. snd (login_call ks verify op st)) ops st"

definition honest_ops :: "login_op list \<Rightarrow> bool" where "honest_ops ops \<longleftrightarrow> list_all (\<lambda>op. honest_env (call_env op)) ops"

lemma login_effect:
  assumes "honest_env (call_env op)"
  shows "\<exists>k key. effect_of k key (at_db st) (at_db (snd (login_call ks verify op st)))"
proof (cases op)
  case (LGuest env dev name)
  then show ?thesis using GuestLogin_effect [of env ks dev st name] assms by auto
next
  case (LRegister env hashed user pw name)
  then show ?thesis using Register_effect [of st ks env hashed user pw name] by auto
next
  case (LPassword env user pw)
  then show ?thesis by (intro exI [of _ NoEffect]) (simp add: PasswordLogin_effect effect_of_def)
qed

definition accounts_ok :: "db \<Rightarrow> bool" where
  "accounts_ok s \<longleftrightarrow> unique_keys (accounts s)
     \<and> (\<forall>u r. map_of (accounts s) u = Some r \<longrightarrow>
          acct_farm r = Some u \<and> (\<exists>f. map_of (farms s) u = Some f \<and> fr_owner f = u) \<and> wallets s u \<noteq> None)
     \<and> (\<forall>k i. map_of (identities s) k = Some i \<longrightarrow> idn_user i \<in> fst ` set (accounts s))"

definition fresh_assets :: "db \<Rightarrow> int \<Rightarrow> bool" where
  "fresh_assets s u \<longleftrightarrow> wallets s u = Some 1000 \<and> map_of (farms s) u = Some (initial_farm u) \<and> inventory s (u, ''SEED'', 1) = Some 5"

definition same_assets :: "db \<Rightarrow> db \<Rightarrow> int \<Rightarrow> bool" where
  "same_assets s s' u \<longleftrightarrow> wallets s' u = wallets s u \<and> map_of (farms s') u = map_of (farms s) u
     \<and> (\<forall>t i. inventory s' (u, t, i) = inventory s (u, t, i))"

definition accounts_grow :: "db \<Rightarrow> db \<Rightarrow> bool" where
  "accounts_grow s s' \<longleftrightarrow>
     (\<exists>new. accounts s' = accounts s @ new \<and> (\<forall>u. u \<in> fst ` set new \<longrightarrow> fresh_assets s' u))
     \<and> (\<forall>u. u \<in> fst ` set (accounts s) \<longrightarrow> same_assets s s' u)
     \<and> (\<forall>k i. map_of (identities s) k = Some i \<longrightarrow> map_of (identities s') k = Some i)"

lemma accounts_grow_refl [simp]: "accounts_grow s s"
  by (simp add: accounts_grow_def same_assets_def)

lemma same_assets_trans: "same_assets s t u \<Longrightarrow> same_assets t w u \<Longrightarrow> same_assets s w u"
  by (simp add: same_assets_def)

lemma fresh_kept: "fresh_assets s u \<Longrightarrow> same_assets s t u \<Longrightarrow> fresh_assets t u"
  by (simp add: fresh_assets_def same_assets_def)

lemma accounts_grow_trans:
  assumes "accounts_grow s t" "accounts_grow t w"
  shows "accounts_grow s w"
proof -
  obtain n1 where n1: "accounts t = accounts s @ n1" "\<forall>u. u \<in> fst ` set n1 \<longrightarrow> fresh_assets t u"
    using assms(1) [unfolded accounts_grow_def, THEN conjunct1] by (elim exE conjE)
  obtain n2 where n2: "accounts w = accounts t @ n2" "\<forall>u. u \<in> fst ` set n2 \<longrightarrow> fresh_assets w u"
    using assms(2) [unfolded accounts_grow_def, THEN conjunct1] by (elim exE conjE)
  note n = n1(1) n2(1)
  have f: "u \<in> fst ` set n1 \<Longrightarrow> fresh_assets t u" "u \<in> fst ` set n2 \<Longrightarrow> fresh_assets w u" for u
    using n1(2) n2(2) by simp_all
  have st: "\<And>u. u \<in> fst ` set (accounts s) \<Longrightarrow> same_assets s t u" and tw: "\<And>u. u \<in> fst ` set (accounts t) \<Longrightarrow> same_assets t w u"
    using assms unfolding accounts_grow_def by simp_all
  have sets: "fst ` set (accounts t) = fst ` set (accounts s) \<union> fst ` set n1" unfolding n(1) by (simp add: image_Un)
  have "fresh_assets w u" if "u \<in> fst ` set (n1 @ n2)" for u
  proof (cases "u \<in> fst ` set n1")
    case True
    then have "u \<in> fst ` set (accounts t)" using sets by blast
    then show ?thesis using f(1) [OF True] tw fresh_kept by blast
  next
    case False
    then show ?thesis using that f(2) by auto
  qed
  moreover have "accounts w = accounts s @ (n1 @ n2)" using n by simp
  ultimately have 1: "\<exists>new. accounts w = accounts s @ new \<and> (\<forall>u. u \<in> fst ` set new \<longrightarrow> fresh_assets w u)" by blast
  have 2: "same_assets s w u" if "u \<in> fst ` set (accounts s)" for u
    using same_assets_trans [OF st [OF that]] tw [of u] that sets by blast
  have 3: "\<forall>k i. map_of (identities s) k = Some i \<longrightarrow> map_of (identities w) k = Some i"
    using assms unfolding accounts_grow_def by simp
  show ?thesis unfolding accounts_grow_def using 1 2 3 by simp
qed

lemma accounts_okI:
  assumes "unique_keys (accounts s)"
    and "\<And>u r. map_of (accounts s) u = Some r \<Longrightarrow> acct_farm r = Some u"
    and "\<And>u r. map_of (accounts s) u = Some r \<Longrightarrow> \<exists>f. map_of (farms s) u = Some f \<and> fr_owner f = u"
    and "\<And>u r. map_of (accounts s) u = Some r \<Longrightarrow> wallets s u \<noteq> None"
    and "\<And>k i. map_of (identities s) k = Some i \<Longrightarrow> idn_user i \<in> fst ` set (accounts s)"
  shows "accounts_ok s"
  unfolding accounts_ok_def using assms by blast

lemma map_of_snoc: "map_of (xs @ [(k, v)]) j = (case map_of xs j of Some y \<Rightarrow> Some y | None \<Rightarrow> if j = k then Some v else None)"
  by (cases "map_of xs j") (auto simp: map_add_def)

lemma started_maps:
  fixes s u ty n now key cred
  defines "s' \<equiv> started u ty n now key cred s"
  shows "map_of (accounts s') v = (case map_of (accounts s) v of Some y \<Rightarrow> Some y | None \<Rightarrow>
       if v = u then Some \<lparr>acct_farm = Some u, acct_type = ty, acct_status = ''ACTIVE'', acct_created = datetime3 now\<rparr> else None)"
    and "map_of (farms s') v = (case map_of (farms s) v of Some y \<Rightarrow> Some y | None \<Rightarrow> if v = u then Some (initial_farm u) else None)"
    and "map_of (identities s') k = (case map_of (identities s) k of Some y \<Rightarrow> Some y | None \<Rightarrow>
       if k = key then Some \<lparr>idn_user = u, idn_credential = cred, idn_status = ''ACTIVE''\<rparr> else None)"
    and "wallets s' v = (if v = u then Some 1000 else wallets s v)"
    and "inventory s' (v, t, i) = (if (v, t, i) = (u, ''SEED'', 1) then Some 5 else inventory s (v, t, i))"
    and "fst ` set (accounts s') = insert u (fst ` set (accounts s))"
  by (simp_all add: s'_def started_def map_of_snoc del: map_of_append)

lemma started_ok:
  assumes "accounts_ok s" "unused u key s"
  shows "accounts_ok (started u ty n now key cred s)"
proof (rule accounts_okI)
  have u: "u \<notin> fst ` set (accounts s)" "map_of (farms s) u = None" using assms(2) unfolding unused_def by blast+
  then have u0: "map_of (accounts s) u = None" by (simp add: map_of_eq_None_iff)
  from u show "unique_keys (accounts (started u ty n now key cred s))"
    using assms(1) by (simp add: accounts_ok_def unique_keys_def started_def)
  have old: "acct_farm r = Some v \<and> (\<exists>f. map_of (farms s) v = Some f \<and> fr_owner f = v) \<and> wallets s v \<noteq> None"
    if "map_of (accounts s) v = Some r" for v r
    using assms(1) that unfolding accounts_ok_def by blast
  fix v r assume r: "map_of (accounts (started u ty n now key cred s)) v = Some r"
  have "acct_farm r = Some v \<and> (\<exists>f. map_of (farms (started u ty n now key cred s)) v = Some f \<and> fr_owner f = v)
    \<and> wallets (started u ty n now key cred s) v \<noteq> None"
  proof (cases "v = u")
    case True
    then show ?thesis using r u(2) u0 by (auto simp: started_maps initial_farm_def)
  next
    case False
    then have o: "map_of (accounts s) v = Some r" using r by (simp add: started_maps split: option.splits)
    show ?thesis using old [OF o] False by (auto simp: started_maps)
  qed
  then show "acct_farm r = Some v" "\<exists>f. map_of (farms (started u ty n now key cred s)) v = Some f \<and> fr_owner f = v"
    "wallets (started u ty n now key cred s) v \<noteq> None" by blast+
next
  fix k i assume i: "map_of (identities (started u ty n now key cred s)) k = Some i"
  show "idn_user i \<in> fst ` set (accounts (started u ty n now key cred s))"
  proof (cases "map_of (identities s) k")
    case None
    then show ?thesis using i unfolding started_maps by (auto split: if_splits)
  next
    case (Some j)
    then have "map_of (identities s) k = Some i" using i unfolding started_maps by simp
    then have "idn_user i \<in> fst ` set (accounts s)" using assms(1) unfolding accounts_ok_def by blast
    then show ?thesis unfolding started_maps by blast
  qed
qed

lemma started_grow:
  assumes "unused u key s"
  shows "accounts_grow s (started u ty n now key cred s)"
proof -
  let ?s' = "started u ty n now key cred s"
  have u: "u \<notin> fst ` set (accounts s)" "map_of (farms s) u = None" using assms unfolding unused_def by blast+
  have "fresh_assets ?s' u" unfolding fresh_assets_def started_maps using u by simp
  moreover have "\<exists>r. accounts ?s' = accounts s @ [(u, r)]" by (simp add: started_def)
  ultimately have 1: "\<exists>new. accounts ?s' = accounts s @ new \<and> (\<forall>u. u \<in> fst ` set new \<longrightarrow> fresh_assets ?s' u)" by force
  have 2: "same_assets s ?s' v" if "v \<in> fst ` set (accounts s)" for v
  proof -
    have "v \<noteq> u" using that u by blast
    then show ?thesis by (simp add: same_assets_def started_maps split: option.split)
  qed
  have 3: "\<forall>k i. map_of (identities s) k = Some i \<longrightarrow> map_of (identities ?s') k = Some i"
    unfolding started_maps by simp
  show ?thesis unfolding accounts_grow_def using 1 2 3 by blast
qed

lemma effect_grows: "effect_of k key s s' \<Longrightarrow> accounts_grow s s'"
  by (cases k) (auto simp: effect_of_def started_grow, auto simp: accounts_grow_def same_assets_def)

lemma run_grows:
  assumes "honest_ops ops"
  shows "accounts_grow (at_db st) (at_db (login_run ks verify ops st))"
  using assms
proof (induction ops arbitrary: st)
  case (Cons op ops)
  have op: "honest_env (call_env op)" "honest_ops ops" using Cons.prems by (simp_all add: honest_ops_def)
  from login_effect [OF op(1), of st ks verify] have "accounts_grow (at_db st) (at_db (snd (login_call ks verify op st)))"
    using effect_grows by blast
  from accounts_grow_trans [OF this Cons.IH [OF op(2)]] show ?case by (simp add: login_run_def)
qed (simp add: login_run_def)

text \<open>The first snapshot, whose keys come in the order of strings, is a farm of twelve empty plots.\<close>

lemma initial_snapshot_eval:
  "initial_snapshot = map (\<lambda>k. (k, empty_plot_json)) [''1'', ''10'', ''11'', ''12'', ''2'', ''3'', ''4'', ''5'', ''6'', ''7'', ''8'', ''9'']"
  by code_simp

lemma initial_plots: "unmarshal_plots [] initial_snapshot = Inr (map (\<lambda>k. (k, cleared_plot k)) [1, 10, 11, 12, 2, 3, 4, 5, 6, 7, 8, 9])"
  by code_simp

lemma initial_stored_ok: "stored_ok initial_snapshot"
  unfolding stored_ok_def initial_plots by (simp add: plots_ok_def unique_keys_def plot_ok_def int32_keys_def cleared_plot_def)

definition shard_ok :: "db \<Rightarrow> bool" where
  "shard_ok s \<longleftrightarrow> wf_db s \<and> snapshots_ok s \<and> accounts_ok s"

lemma started_shard_ok:
  assumes "shard_ok s" "unused u key s"
  shows "shard_ok (started u ty n now key cred s)"
proof -
  have u: "map_of (farms s) u = None" using assms(2) unfolding unused_def by blast
  then have "u \<notin> fst ` set (farms s)" by (simp add: map_of_eq_None_iff)
  then have "farms_ok (started u ty n now key cred s)"
    using assms(1) by (auto simp: shard_ok_def wf_db_def farms_ok_def started_def unique_keys_def initial_farm_def)
  moreover have "coins_ok (started u ty n now key cred s)" "inventory_ok (started u ty n now key cred s)"
    using assms(1) by (simp_all add: shard_ok_def wf_db_def coins_ok_def inventory_ok_def inv_ok_def started_def max_int64_def)
  moreover have "outbox_ok (started u ty n now key cred s)" "receipts_ok (started u ty n now key cred s)"
    using assms(1) by (simp_all add: shard_ok_def wf_db_def outbox_ok_def receipts_ok_def started_def)
  moreover have "snapshots_ok (started u ty n now key cred s)"
    using assms(1) initial_stored_ok by (auto simp: shard_ok_def snapshots_ok_def started_def initial_farm_def)
  ultimately show ?thesis using started_ok assms by (simp add: shard_ok_def wf_db_def)
qed

lemma effect_shard_ok:
  assumes "shard_ok s" "effect_of k key s s'"
  shows "shard_ok s'"
proof (cases k)
  case NoEffect
  then show ?thesis using assms by (simp add: effect_of_def)
next
  case Renamed
  then obtain dn where "s' = s\<lparr>display_names := dn\<rparr>" using assms(2) by (auto simp: effect_of_def)
  then show ?thesis using assms(1)
    by (simp add: shard_ok_def wf_db_def outbox_ok_def coins_ok_def inventory_ok_def receipts_ok_def farms_ok_def snapshots_ok_def accounts_ok_def)
next
  case (Created u)
  then obtain ty n now cred where c: "unused u key s" "s' = started u ty n now key cred s" using assms(2) by (auto simp: effect_of_def)
  show ?thesis unfolding c(2) by (rule started_shard_ok [OF assms(1) c(1)])
qed

lemma run_shard_ok:
  assumes "shard_ok (at_db st)" "honest_ops ops"
  shows "shard_ok (at_db (login_run ks verify ops st))"
  using assms
proof (induction ops arbitrary: st)
  case (Cons op ops)
  have op: "honest_env (call_env op)" "honest_ops ops" using Cons.prems(2) by (simp_all add: honest_ops_def)
  from login_effect [OF op(1), of st ks verify] have "shard_ok (at_db (snd (login_call ks verify op st)))"
    using effect_shard_ok [OF Cons.prems(1)] by blast
  from Cons.IH [OF this op(2)] show ?case by (simp add: login_run_def)
qed (simp add: login_run_def)

text \<open>C34: an account exists completely or not at all.  On a shard where every account has its farm and its wallet, over any run of
  guest logins, registrations and password logins, whatever the driver, the generator of ids, Redis and crypto/rand do: the invariants
  of the farm commits are kept; every account has a farm of its own and a wallet and every identity an account; accounts are only added,
  each with exactly 1000 coins, five wheat seeds and the farm of twelve empty plots at version 0; and the assets of the accounts
  that were there are untouched.\<close>

theorem accounts_are_complete:
  assumes "wf_db (at_db st)" "snapshots_ok (at_db st)" "accounts_ok (at_db st)" "honest_ops ops"
  shows "wf_db (at_db (login_run ks verify ops st)) \<and> snapshots_ok (at_db (login_run ks verify ops st))
    \<and> accounts_ok (at_db (login_run ks verify ops st)) \<and> accounts_grow (at_db st) (at_db (login_run ks verify ops st))
    \<and> unmarshal_plots [] initial_snapshot = Inr (map (\<lambda>k. (k, cleared_plot k)) [1, 10, 11, 12, 2, 3, 4, 5, 6, 7, 8, 9])"
  using run_shard_ok [of st ops ks verify] run_grows [of ops st ks verify] assms initial_plots by (simp add: shard_ok_def)

section \<open>The session of a login\<close>

lemma RS_Create_stored:
  assumes "RS_Create env sid h u rd = (Inr (), rd')" "t < rd_now env + AuthSessions.refreshTokenTTL"
  shows "\<exists>m. HGETALL t rd' (authSessionKey sid) = Inr m \<and> m ''user_id'' = Some (format_int u) \<and> m ''refresh_hash'' = Some h
     \<and> m ''status'' = Some ''ACTIVE'' \<and> GET t rd' (refreshKey h) = Inr (Some (format_int u))"
proof -
  let ?fs = "[(''user_id'', format_int u), (''refresh_hash'', h), (''status'', ''ACTIVE'')]"
  obtain g where g: "HGETALL (rd_now env) rd (authSessionKey sid) = Inr g" and rd': "rd' = SETEX (rd_now env) (refreshKey h) (format_int u) refreshTokenTTL
      (EXPIRE (rd_now env) (authSessionKey sid) refreshTokenTTL (HSET (rd_now env) (authSessionKey sid) ?fs rd))"
    using assms(1) by (auto simp: RS_Create_def redis_call_def split: commit_outcome.splits sum.splits)
  have ttl: "0 < AuthSessions.refreshTokenTTL" by (simp add: refreshTokenTTL_def)
  have "HGETALL t rd' (authSessionKey sid) = Inr (g ++ map_of (rev ?fs))"
    unfolding rd' using HGETALL_HSET_EXPIRE [OF g ttl, of t ?fs] assms(2) by (simp add: HGETALL_SETEX)
  moreover have "GET t rd' (refreshKey h) = Inr (Some (format_int u))" unfolding rd' using assms(2) by (simp add: GET_SETEX)
  ultimately show ?thesis by simp
qed

lemma issued:
  assumes "issue_session ks env dev st r = (Inr (acc, sess), st')"
  shows "r = Inr acc \<and> le_session env = Some (sr_SessionID sess) \<and> le_token env = Some (sr_RefreshToken sess)
    \<and> sr_AccessToken sess = SignSession (ak_hmac ks) (le_signed_at env) (ac_UserID acc) (sr_SessionID sess) accessTokenTTL (ak_secret ks)
    \<and> RS_Create (le_redis env) (sr_SessionID sess) (ak_sha ks (sr_RefreshToken sess)) (ac_UserID acc) (at_redis st) = (Inr (), at_redis st')"
  using assms by (auto simp: issue_session_def createSession_def Let_def split: sum.splits prod.splits option.splits)

lemma login_issues:
  assumes "login_call ks verify op st = (Inr (acc, sess), st')"
  shows "\<exists>dev st0. issue_session ks (call_env op) dev st0 (Inr acc) = (Inr (acc, sess), st')"
proof (cases op)
  case (LGuest env dev name)
  with assms show ?thesis using issued by (fastforce simp: GuestLogin_def Let_def case_prod_unfold split: sum.splits)
next
  case (LRegister env hashed user pw name)
  with assms show ?thesis using issued by (fastforce simp: Register_def Let_def case_prod_unfold split: sum.splits)
next
  case (LPassword env user pw)
  with assms show ?thesis using issued
    by (fastforce simp: PasswordLogin_def Let_def case_prod_unfold split: sum.splits option.splits bool.splits if_splits)
qed

text \<open>C36: the session of a login works.  After any login that succeeded, with a session id without a colon, as the generator makes them:
  until its expiry the access token is read as this user and this session; for seven days
  the session counts as active for this user and no other; and the refresh token with the session id is exchanged for a new access
  token of the same user and session.\<close>

theorem login_session_works:
  assumes "login_call ks verify op st = (Inr (acc, sess), st')"
    and "ac_UserID acc \<noteq> 0" "in_i64 (ac_UserID acc)" "in_i64 (expiry (le_signed_at (call_env op)) accessTokenTTL)"
    and "CHR '':'' \<notin> set (sr_SessionID sess)" "trim_space (sr_SessionID sess) \<noteq> []" "trim_space (sr_RefreshToken sess) \<noteq> []"
    and "rd_outcome ea = CommitOK" "rd_now ea < rd_now (le_redis (call_env op)) + sessionRefreshTTL"
    and "rf_session er = sr_SessionID sess" "rd_outcome (rf_rotate er) = CommitOK" "rd_now (rf_rotate er) < rd_now (le_redis (call_env op)) + sessionRefreshTTL"
  shows "ParseClaims (ak_hmac ks) later (sr_AccessToken sess) (ak_secret ks)
      = (if unix later \<le> expiry (le_signed_at (call_env op)) accessTokenTTL
         then Inr \<lparr>cm_UserID = ac_UserID acc, cm_SessionID = sr_SessionID sess, cm_ExpiresAt = expiry (le_signed_at (call_env op)) accessTokenTTL\<rparr>
         else Inl (New AuthTokenExpired))
    \<and> IsActive ea (sr_SessionID sess) u (at_redis st') = Inr (u = ac_UserID acc)
    \<and> fst (RefreshSession (ak_hmac ks) (ak_sha ks) tonumber (ak_secret ks) (sr_RefreshToken sess) er (at_redis st'))
      = Inr (SignSession (ak_hmac ks) (rf_now er) (ac_UserID acc) (sr_SessionID sess) accessTokenTTL (ak_secret ks), rf_token er)"
proof -
  obtain dev st0 where "issue_session ks (call_env op) dev st0 (Inr acc) = (Inr (acc, sess), st')" using login_issues [OF assms(1)] by blast
  note i = issued [OF this]
  have ttl: "AuthSessions.refreshTokenTTL = sessionRefreshTTL" by (simp add: AuthSessions.refreshTokenTTL_def sessionRefreshTTL_def)
  note stored = RS_Create_stored [OF i [THEN conjunct2, THEN conjunct2, THEN conjunct2, THEN conjunct2], unfolded ttl]
  have ne: "sr_SessionID sess \<noteq> []" using assms(6) by (auto simp: trim_space_def)
  have parse: "parse_int 64 (format_int (ac_UserID acc)) = Some (ac_UserID acc)" by (rule parse_format_i64 [OF assms(3)])
  obtain m where m: "HGETALL (rd_now ea) (at_redis st') (authSessionKey (sr_SessionID sess)) = Inr m"
    "m ''user_id'' = Some (format_int (ac_UserID acc))" "m ''status'' = Some ''ACTIVE''"
    using stored [OF assms(9)] by blast
  have active: "IsActive ea (sr_SessionID sess) u (at_redis st') = Inr (u = ac_UserID acc)"
    using m parse assms(8) by (auto simp: IsActive_def redis_call_def)
  obtain n where n: "HGETALL (rd_now (rf_rotate er)) (at_redis st') (authSessionKey (sr_SessionID sess)) = Inr n"
    "n ''user_id'' = Some (format_int (ac_UserID acc))" "n ''status'' = Some ''ACTIVE''" "n ''refresh_hash'' = Some (ak_sha ks (sr_RefreshToken sess))"
    "GET (rd_now (rf_rotate er)) (at_redis st') (refreshKey (ak_sha ks (sr_RefreshToken sess))) = Inr (Some (format_int (ac_UserID acc)))"
    using stored [OF assms(12)] by blast
  have "fst (Rotate (rf_rotate er) (sr_SessionID sess) (ak_sha ks (sr_RefreshToken sess)) new (at_redis st')) = Inr (ac_UserID acc)" for new
    using n parse assms(11) by (simp add: Rotate_def redis_call_def int_reply_def)
  then have "fst (RefreshSession (ak_hmac ks) (ak_sha ks) tonumber (ak_secret ks) (sr_RefreshToken sess) er (at_redis st'))
      = Inr (SignSession (ak_hmac ks) (rf_now er) (ac_UserID acc) (sr_SessionID sess) accessTokenTTL (ak_secret ks), rf_token er)"
    using assms(2,6,7,10)
    by (auto simp: RefreshSession_def Let_def accessTokenTTL_def split: sum.split prod.split dest!: arg_cong [where f = fst])
  moreover have "ParseClaims (ak_hmac ks) later (sr_AccessToken sess) (ak_secret ks)
      = (if unix later \<le> expiry (le_signed_at (call_env op)) accessTokenTTL
         then Inr \<lparr>cm_UserID = ac_UserID acc, cm_SessionID = sr_SessionID sess, cm_ExpiresAt = expiry (le_signed_at (call_env op)) accessTokenTTL\<rparr>
         else Inl (New AuthTokenExpired))"
    using token_read_back [OF assms(3,4) ne assms(5), of "ak_hmac ks" later "ak_secret ks"] i by simp
  ultimately show ?thesis using active by blast
qed

section \<open>Witnesses\<close>

definition calm_tx :: env where
  "calm_tx = \<lparr>fault = (\<lambda>_. None), commit_outcome = CommitOK, clk_now = 1000 * second, fresh_id = ''e1''\<rparr>"

definition calm_login :: login_env where
  "calm_login = \<lparr>le_tx = calm_tx, le_redis = auth_calm, le_session = Some ''s1'', le_token = Some ''tok'', le_signed_at = 1000 * second\<rparr>"

definition lost_login :: login_env where "lost_login = calm_login\<lparr>le_tx := calm_tx\<lparr>commit_outcome := CommitAckLost CtxDeadline\<rparr>\<rparr>"

definition plain_keys :: account_keys where
  "plain_keys = \<lparr>ak_collate = id, ak_hmac = plain_mac, ak_sha = rev, ak_secret = ''k''\<rparr>"

definition no_accounts :: account_state where
  "no_accounts = \<lparr>at_db = empty_db, at_redis = Map.empty, at_gen = None\<rparr>"

lemma calm_honest: "honest_env calm_login" "honest_env lost_login"
  by (simp_all add: honest_env_def calm_login_def lost_login_def calm_tx_def)

lemma none_ok: "accounts_ok (at_db no_accounts)"
  by (simp add: accounts_ok_def no_accounts_def empty_db_def unique_keys_def)

lemmas login_eval = GuestLogin_def Register_def PasswordLogin_def guest_body_def register_body_def login_body_def createGuestAccount_def createRegisteredAccount_def
  insert_account_def insert_account_row_def update_farm_id_def next_account_id_def insert_identity_def insertInitialFarm_def insert_wallet_def insert_seeds_def
  initCoinBalance_def initSeedQuantity_def initSeedItemID_def loadAccount_def issue_session_def createSession_def drawn_id_def after_draw_def query_exact_def
  guest_user_def guest_draws_def register_draws_def updateGuestDisplayName_def local_identity_def query_row_def
  normalizeRequestedDisplayName_def normalizeRequiredDisplayName_def normalizeUsername_def validatePassword_def localUsernamePattern_def username_char_def
  text_column_def calm_login_def lost_login_def calm_tx_def plain_keys_def no_accounts_def empty_db_def
  tx_bind_def tx_return_def tx_when_def tx_guard_def tx_fail_def stmt_def run_tx_def Let_def
  RS_Create_def redis_call_def auth_calm_def HGETALL_def live_def

lemma device_texts:
  "trim_space ''Ann'' = ''Ann''" "trim_space [] = []" "rune_count [] = 0" "rune_count ''Ann'' = 3" "rune_count ''d1'' = 2" "rune_count ''Guest_d1'' = 8"
  "valid_utf8 ''Ann''" "valid_utf8 ''d1''" "valid_utf8 ''Guest_d1''"
  by code_simp+

lemma guest_ok:
  "\<exists>a sess st. GuestLogin plain_keys calm_login ''d1'' ''Ann'' no_accounts = (Inr (a, sess), st) \<and> ac_UserID a = 1
     \<and> sr_SessionID sess = ''s1'' \<and> sr_RefreshToken sess = ''tok''"
  by (simp add: login_eval device_texts)

lemma accounts_are_complete_witness:
  "accounts_ok (at_db (login_run plain_keys (=) [LGuest lost_login ''d1'' ''Ann'', LRegister calm_login (Inr ''h'') ''anna'' ''12345678'' ''Ann''] no_accounts))
   \<and> accounts_grow empty_db (at_db (login_run plain_keys (=) [LGuest lost_login ''d1'' ''Ann'', LRegister calm_login (Inr ''h'') ''anna'' ''12345678'' ''Ann''] no_accounts))"
proof -
  have "wf_db (at_db no_accounts)" "snapshots_ok (at_db no_accounts)"
    by (simp_all add: no_accounts_def empty_db_def wf_db_def outbox_ok_def coins_ok_def inventory_ok_def inv_ok_def receipts_ok_def farms_ok_def snapshots_ok_def)
  moreover have "honest_ops [LGuest lost_login ''d1'' ''Ann'', LRegister calm_login (Inr ''h'') ''anna'' ''12345678'' ''Ann'']"
    using calm_honest by (simp add: honest_ops_def)
  ultimately show ?thesis
    using accounts_are_complete [OF _ _ none_ok, of "[LGuest lost_login ''d1'' ''Ann'', LRegister calm_login (Inr ''h'') ''anna'' ''12345678'' ''Ann'']" plain_keys "(=)"]
    unfolding no_accounts_def account_state.simps by blast
qed

lemma login_session_works_witness:
  "\<exists>a sess st. login_call plain_keys (=) (LGuest calm_login ''d1'' ''Ann'') no_accounts = (Inr (a, sess), st)
     \<and> IsActive auth_calm ''s1'' 1 (at_redis st) = Inr True
     \<and> fst (RefreshSession plain_mac rev (\<lambda>_. True) ''k'' ''tok'' (refresh_of ''s1'' ''t2'' CommitOK) (at_redis st))
       = Inr (SignSession plain_mac (1000 * second) 1 ''s1'' (30 * minute) ''k'', ''t2'')"
proof -
  obtain a sess st where g: "login_call plain_keys (=) (LGuest calm_login ''d1'' ''Ann'') no_accounts = (Inr (a, sess), st)"
    "ac_UserID a = 1" "sr_SessionID sess = ''s1''" "sr_RefreshToken sess = ''tok''" using guest_ok by auto
  have t: "trim_space ''s1'' \<noteq> []" "trim_space ''tok'' \<noteq> []" by code_simp+
  show ?thesis
    using login_session_works [OF g(1), of auth_calm "refresh_of ''s1'' ''t2'' CommitOK" "1000 * second" 1 "\<lambda>_. True"] g t
    by (simp add: calm_login_def auth_calm_def refresh_of_def sessionRefreshTTL_def in_i64_def min_int64_def max_int64_def expiry_def unix_def
        accessTokenTTL_def plain_keys_def)
qed

section \<open>Findings\<close>

text \<open>PasswordLogin refuses an account that is not active; GuestLogin reads the status and never looks at it.\<close>

definition banned_accounts :: account_state where
  "banned_accounts = no_accounts\<lparr>at_db := empty_db
     \<lparr>accounts := [(1, \<lparr>acct_farm = Some 1, acct_type = ''GUEST'', acct_status = ''BANNED'', acct_created = 0\<rparr>),
                   (2, \<lparr>acct_farm = Some 2, acct_type = ''REGISTERED'', acct_status = ''BANNED'', acct_created = 0\<rparr>)],
      identities := [((''guest'', ''d1''), \<lparr>idn_user = 1, idn_credential = None, idn_status = ''ACTIVE''\<rparr>),
                     ((''local'', ''anna''), \<lparr>idn_user = 2, idn_credential = Some ''pw'', idn_status = ''ACTIVE''\<rparr>)]\<rparr>\<rparr>"

lemma anna_text: "lower_name (trim_space ''anna'') = ''anna''" "list_all username_char ''anna''"
  by code_simp+

lemma banned_guest_logs_in:
  "\<exists>a sess. fst (GuestLogin plain_keys calm_login ''d1'' [] banned_accounts) = Inr (a, sess) \<and> ac_Status a = ''BANNED''"
  "fst (PasswordLogin plain_keys (=) calm_login ''anna'' ''pw'' banned_accounts) = Inl (New AuthForbidden)"
  by (simp_all add: login_eval [unfolded username_char_def] banned_accounts_def device_texts anna_text [unfolded username_char_def])

text \<open>The name of a guest is cut after eight bytes of the device id, in the middle of a character if need be, and MySQL refuses the row: such a
  device can never log in without a name of its own.\<close>

definition wide_device :: string where "wide_device = ''device-'' @ [char_of (195::nat), char_of (169::nat)]"

lemma wide_texts: "rune_count (''Guest_'' @ take 8 wide_device) = 14" "valid_utf8 wide_device" "\<not> valid_utf8 (''Guest_'' @ take 8 wide_device)"
  by code_simp+

lemma guest_name_is_cut:
  "fst (GuestLogin plain_keys calm_login wide_device [] no_accounts) = Inl (MySQLErr 1366)"
  by (simp add: login_eval device_texts wide_texts [simplified])

end
