(* ===== verification/AccountsSharded.thy ===== *)
theory AccountsSharded
  imports AccountsProps Consumer
begin

text \<open>
  internal/account/infrastructure/sharded_account_service.go: the logins of a cluster.  A local account lives on the shard of its name, a
  guest account on the shard where its device already has one, else on the shard of the device.
\<close>

section \<open>The facade\<close>

definition NewShardedAccountService :: "router \<Rightarrow> (string \<times> 'svc) list \<Rightarrow> go_error + (router \<times> (string \<times> 'svc) list \<times> 'svc option)" where
  "NewShardedAccountService r services =
     (if r = [] then Inl (PlainErr ''router is required'')
      else if list_ex (\<lambda>name. map_of services name = None) r then Inl (PlainErr ''missing account service'')
      else (let copied = map (\<lambda>name. (name, the (map_of services name))) r in Inr (r, copied, Some (snd (hd copied)))))"

text \<open>Each shard has its database and its generator, the sessions are in one Redis.\<close>

record account_cluster =
  cs_shards :: cluster
  cs_gens :: "string \<Rightarrow> id_generator option"
  cs_redis :: redis

definition service_state :: "string \<Rightarrow> account_cluster \<Rightarrow> account_state" where
  "service_state name st = \<lparr>at_db = cs_shards st name, at_redis = cs_redis st, at_gen = cs_gens st name\<rparr>"

definition on_service :: "string \<Rightarrow> (account_state \<Rightarrow> 'r \<times> account_state) \<Rightarrow> account_cluster \<Rightarrow> 'r \<times> account_cluster" where
  "on_service name f st =
     (case f (service_state name st) of
        (r, a) \<Rightarrow> (r, \<lparr>cs_shards = (cs_shards st)(name := at_db a), cs_gens = (cs_gens st)(name := at_gen a), cs_redis = at_redis a\<rparr>))"

text \<open>The loop over the shards, with what each lookup meets.\<close>

primrec serviceForExistingGuestDevice ::
  "(string \<Rightarrow> string) \<Rightarrow> (string \<Rightarrow> env) \<Rightarrow> string \<Rightarrow> string list \<Rightarrow> cluster \<Rightarrow> go_error + string option" where
  "serviceForExistingGuestDevice collate lookups deviceID [] shards = Inr None"
| "serviceForExistingGuestDevice collate lookups deviceID (name # names) shards =
     (case LookupGuestUserID collate (lookups name) deviceID (shards name) of
        Inl e \<Rightarrow> Inl e
      | Inr (Some _) \<Rightarrow> Inr (Some name)
      | Inr None \<Rightarrow> serviceForExistingGuestDevice collate lookups deviceID names shards)"

definition Sharded_GuestLogin ::
  "router \<Rightarrow> account_keys \<Rightarrow> (string \<Rightarrow> env) \<Rightarrow> login_env \<Rightarrow> string \<Rightarrow> string \<Rightarrow> account_cluster
     \<Rightarrow> (go_error + account \<times> session_record) \<times> account_cluster" where
  "Sharded_GuestLogin r ks lookups env deviceID displayName st =
     (case serviceForExistingGuestDevice (ak_collate ks) lookups deviceID r (cs_shards st) of
        Inl e \<Rightarrow> (Inl e, st)
      | Inr (Some name) \<Rightarrow> on_service name (GuestLogin ks env deviceID displayName) st
      | Inr None \<Rightarrow>
          (case ShardForKey r deviceID of
             Inl e \<Rightarrow> (Inl e, st)
           | Inr name \<Rightarrow> on_service name (GuestLogin ks env deviceID displayName) st))"

text \<open>A name that is no user name is refused on every shard, so only the lower case of user names matters for the route.\<close>

definition Sharded_Register ::
  "router \<Rightarrow> account_keys \<Rightarrow> login_env \<Rightarrow> (go_error + string) \<Rightarrow> string \<Rightarrow> string \<Rightarrow> string \<Rightarrow> account_cluster
     \<Rightarrow> (go_error + account \<times> session_record) \<times> account_cluster" where
  "Sharded_Register r ks env hashed username password displayName st =
     (case ShardForKey r (lower_name (trim_space username)) of
        Inl e \<Rightarrow> (Inl e, st)
      | Inr name \<Rightarrow> on_service name (Register ks env hashed username password displayName) st)"

definition Sharded_PasswordLogin ::
  "router \<Rightarrow> account_keys \<Rightarrow> (string \<Rightarrow> string \<Rightarrow> bool) \<Rightarrow> login_env \<Rightarrow> string \<Rightarrow> string \<Rightarrow> account_cluster
     \<Rightarrow> (go_error + account \<times> session_record) \<times> account_cluster" where
  "Sharded_PasswordLogin r ks verify env username password st =
     (case ShardForKey r (lower_name (trim_space username)) of
        Inl e \<Rightarrow> (Inl e, st)
      | Inr name \<Rightarrow> on_service name (PasswordLogin ks verify env username password) st)"

definition Sharded_LoadDisplayName :: "router \<Rightarrow> env \<Rightarrow> int \<Rightarrow> cluster \<Rightarrow> go_error + string" where
  "Sharded_LoadDisplayName r env userID shards =
     (case ShardForUserID r userID of Inl e \<Rightarrow> Inl e | Inr name \<Rightarrow> LoadDisplayName env userID (shards name))"

section \<open>Runs of logins\<close>

datatype sharded_op =
    SGuest "string \<Rightarrow> env" login_env string string
  | SRegister login_env "go_error + string" string string string
  | SPassword login_env string string

primrec sharded_call :: "router \<Rightarrow> account_keys \<Rightarrow> (string \<Rightarrow> string \<Rightarrow> bool) \<Rightarrow> sharded_op \<Rightarrow> account_cluster
    \<Rightarrow> (go_error + account \<times> session_record) \<times> account_cluster" where
  "sharded_call r ks verify (SGuest lookups env dev name) st = Sharded_GuestLogin r ks lookups env dev name st"
| "sharded_call r ks verify (SRegister env hashed user pw name) st = Sharded_Register r ks env hashed user pw name st"
| "sharded_call r ks verify (SPassword env user pw) st = Sharded_PasswordLogin r ks verify env user pw st"

definition sharded_run :: "router \<Rightarrow> account_keys \<Rightarrow> (string \<Rightarrow> string \<Rightarrow> bool) \<Rightarrow> sharded_op list \<Rightarrow> account_cluster \<Rightarrow> account_cluster" where
  "sharded_run r ks verify ops st = fold (\<lambda>op st. snd (sharded_call r ks verify op st)) ops st"

definition honest_lookups :: "(string \<Rightarrow> env) \<Rightarrow> bool" where
  "honest_lookups lookups \<longleftrightarrow> (\<forall>n l e. fault (lookups n) l = Some e \<longrightarrow> \<not> errors_is e SqlNoRows)"

primrec honest_call :: "sharded_op \<Rightarrow> bool" where
  "honest_call (SGuest lookups env dev name) \<longleftrightarrow> honest_lookups lookups \<and> honest_env env"
| "honest_call (SRegister env hashed user pw name) \<longleftrightarrow> honest_env env"
| "honest_call (SPassword env user pw) \<longleftrightarrow> honest_env env"

section \<open>The home of a device\<close>

definition device_home :: "(string \<Rightarrow> string) \<Rightarrow> string \<Rightarrow> router \<Rightarrow> cluster \<Rightarrow> string option" where
  "device_home coll dev r shards = find (\<lambda>n. guest_user coll dev (shards n) \<noteq> None) r"

lemma lookup_is_home:
  assumes "honest_lookups lookups" "serviceForExistingGuestDevice coll lookups dev r shards = Inr found"
  shows "found = device_home coll dev r shards"
  using assms(2)
proof (induction r)
  case (Cons n r)
  have "LookupGuestUserID coll (lookups n) dev (shards n) = Inr x \<Longrightarrow> x = guest_user coll dev (shards n)" for x
    using assms(1) by (auto simp: LookupGuestUserID_def honest_lookups_def split: option.splits if_splits)
  with Cons show ?case by (auto simp: device_home_def split: sum.splits option.splits)
qed (simp add: device_home_def)

lemma home_eq:
  "(\<And>n. n \<in> set r \<Longrightarrow> (guest_user coll dev (shards n) \<noteq> None) = (guest_user coll' dev' (shards' n) \<noteq> None))
    \<Longrightarrow> device_home coll dev r shards = device_home coll' dev' r shards'"
  unfolding device_home_def by (induction r) auto

lemma home_Some: "device_home coll dev r shards = Some n \<Longrightarrow> n \<in> set r \<and> guest_user coll dev (shards n) \<noteq> None"
  unfolding device_home_def by (auto simp: find_Some_iff in_set_conv_nth)

lemma home_None: "device_home coll dev r shards = None \<longleftrightarrow> (\<forall>n\<in>set r. guest_user coll dev (shards n) = None)"
  unfolding device_home_def by (auto simp: find_None_iff)

lemma shard_of_key:
  assumes "ShardForKey r key = Inr n" "length r \<le> 64"
  shows "n \<in> set r"
proof -
  have r: "r \<noteq> []" "n = r ! unat (fnv64a key mod of_nat (length r))" using assms(1) by (auto simp: ShardForKey_def split: if_splits)
  have "unat (of_nat (length r) :: 64 word) = length r" using assms(2) by (simp add: unat_of_nat take_bit_nat_eq_self)
  then have "unat (fnv64a key mod of_nat (length r)) < length r" using r(1) by (simp add: unat_mod_distrib)
  then show ?thesis using r(2) by simp
qed

lemma on_service_other: "m \<noteq> n \<Longrightarrow> cs_shards (snd (on_service n f st)) m = cs_shards st m"
  and on_service_here: "cs_shards (snd (on_service n f st)) n = at_db (snd (f (service_state n st)))"
  and on_service_fst: "fst (on_service n f st) = fst (f (service_state n st))"
  by (simp_all add: on_service_def case_prod_unfold)

lemma service_db [simp]: "at_db (service_state n st) = cs_shards st n"
  by (simp add: service_state_def)

lemma other_key_kept:
  assumes "effect_of k key s s'" "key \<noteq> (''guest'', coll dev) \<or> (\<forall>u. k \<noteq> Created u)"
  shows "guest_user coll dev s' = guest_user coll dev s"
  using assms by (cases k) (auto simp: effect_of_def guest_user_def started_maps split: option.splits)

text \<open>A call leaves the users of a device that has a home alone, on every shard.\<close>

lemma call_keeps_users:
  assumes "honest_call op" "device_home (ak_collate ks) dev r (cs_shards st) \<noteq> None"
  shows "guest_user (ak_collate ks) dev (cs_shards (snd (sharded_call r ks verify op st)) m) = guest_user (ak_collate ks) dev (cs_shards st m)"
proof -
  have kept: "guest_user (ak_collate ks) dev (cs_shards (snd (on_service n f st)) m) = guest_user (ak_collate ks) dev (cs_shards st m)"
    if "\<exists>k key. effect_of k key (cs_shards st n) (at_db (snd (f (service_state n st)))) \<and> (key \<noteq> (''guest'', ak_collate ks dev) \<or> (\<forall>u. k \<noteq> Created u))"
    for n and f :: "account_state \<Rightarrow> (go_error + account \<times> session_record) \<times> account_state"
  proof -
    from that obtain k key where k: "effect_of k key (cs_shards st n) (at_db (snd (f (service_state n st))))"
      "key \<noteq> (''guest'', ak_collate ks dev) \<or> (\<forall>u. k \<noteq> Created u)" by blast
    from other_key_kept [where coll = "ak_collate ks" and dev = dev, OF this] show ?thesis by (cases "m = n") (simp_all add: on_service_other on_service_here)
  qed
  show ?thesis
  proof (cases op)
    case (SGuest lookups env dev' name)
    let ?found = "serviceForExistingGuestDevice (ak_collate ks) lookups dev' r (cs_shards st)"
    have guest: "guest_user (ak_collate ks) dev (cs_shards (snd (on_service n (GuestLogin ks env dev' name) st)) m) = guest_user (ak_collate ks) dev (cs_shards st m)"
      if "guest_user (ak_collate ks) dev' (cs_shards st n) \<noteq> None \<or> ak_collate ks dev' \<noteq> ak_collate ks dev" for n
    proof (rule kept)
      from GuestLogin_effect [of env ks dev' "service_state n st" name] assms(1) SGuest obtain k where
        k: "effect_of k (''guest'', ak_collate ks dev') (cs_shards st n) (at_db (snd (GuestLogin ks env dev' name (service_state n st))))"
        "\<forall>u. k = Created u \<longrightarrow> guest_user (ak_collate ks) dev' (cs_shards st n) = None" by auto
      then show "\<exists>k key. effect_of k key (cs_shards st n) (at_db (snd (GuestLogin ks env dev' name (service_state n st))))
          \<and> (key \<noteq> (''guest'', ak_collate ks dev) \<or> (\<forall>u. k \<noteq> Created u))" using that by auto
    qed
    show ?thesis
    proof (cases ?found)
      case (Inl e)
      then show ?thesis using SGuest by (simp add: Sharded_GuestLogin_def)
    next
      case (Inr found)
      have home: "found = device_home (ak_collate ks) dev' r (cs_shards st)" using lookup_is_home [OF _ Inr] assms(1) SGuest by simp
      show ?thesis
      proof (cases found)
        case (Some n)
        then show ?thesis using home_Some home guest [of n] Inr SGuest by (simp add: Sharded_GuestLogin_def)
      next
        case None
        have "ak_collate ks dev' \<noteq> ak_collate ks dev"
        proof
          assume "ak_collate ks dev' = ak_collate ks dev"
          then have "device_home (ak_collate ks) dev' r (cs_shards st) = device_home (ak_collate ks) dev r (cs_shards st)"
            by (intro home_eq) (simp add: guest_user_def)
          then show False using assms(2) home None by simp
        qed
        then show ?thesis using guest Inr None SGuest by (simp add: Sharded_GuestLogin_def split: sum.split)
      qed
    qed
  next
    case (SRegister env hashed user pw name)
    have "\<exists>k key. effect_of k key (cs_shards st n) (at_db (snd (Register ks env hashed user pw name (service_state n st))))
        \<and> (key \<noteq> (''guest'', ak_collate ks dev) \<or> (\<forall>u. k \<noteq> Created u))" for n
      using Register_effect [of "service_state n st" ks env hashed user pw name] by auto
    from kept [where f = "Register ks env hashed user pw name", OF this] show ?thesis using SRegister by (simp add: Sharded_Register_def split: sum.split)
  next
    case (SPassword env user pw)
    have "\<exists>k key. effect_of k key (cs_shards st n) (at_db (snd (PasswordLogin ks verify env user pw (service_state n st))))
        \<and> (key \<noteq> (''guest'', ak_collate ks dev) \<or> (\<forall>u. k \<noteq> Created u))" for n
      by (intro exI [of _ NoEffect]) (simp add: PasswordLogin_effect effect_of_def)
    from kept [where f = "PasswordLogin ks verify env user pw", OF this] show ?thesis using SPassword by (simp add: Sharded_PasswordLogin_def split: sum.split)
  qed
qed

lemma run_keeps_users:
  assumes "list_all honest_call ops" "device_home (ak_collate ks) dev r (cs_shards st) \<noteq> None"
  shows "guest_user (ak_collate ks) dev (cs_shards (sharded_run r ks verify ops st) m) = guest_user (ak_collate ks) dev (cs_shards st m)"
  using assms
proof (induction ops arbitrary: st)
  case (Cons op ops)
  let ?st = "snd (sharded_call r ks verify op st)"
  have op: "honest_call op" "list_all honest_call ops" using Cons.prems(1) by simp_all
  note users = call_keeps_users [OF op(1) Cons.prems(2), of verify]
  have "device_home (ak_collate ks) dev r (cs_shards ?st) = device_home (ak_collate ks) dev r (cs_shards st)"
    by (intro home_eq) (simp add: users)
  then show ?case using Cons.IH [OF op(2), of ?st] Cons.prems(2) users by (simp add: sharded_run_def)
qed (simp add: sharded_run_def)

lemma guest_found:
  assumes "honest_lookups lookups" "device_home (ak_collate ks) dev r (cs_shards st) = Some n"
  shows "snd (Sharded_GuestLogin r ks lookups env dev name st) = st \<and> is_err (fst (Sharded_GuestLogin r ks lookups env dev name st))
    \<or> Sharded_GuestLogin r ks lookups env dev name st = on_service n (GuestLogin ks env dev name) st"
proof (cases "serviceForExistingGuestDevice (ak_collate ks) lookups dev r (cs_shards st)")
  case (Inr found)
  then show ?thesis using lookup_is_home [OF assms(1) Inr] assms(2) by (simp add: Sharded_GuestLogin_def)
qed (simp add: Sharded_GuestLogin_def)

text \<open>A login that succeeded leaves the device with a home, where it is this user.\<close>

lemma login_makes_home:
  assumes "Sharded_GuestLogin r ks lookups env dev name st = (Inr (a, sess), st')"
    and "honest_lookups lookups" "honest_env env" "length r \<le> 64"
  shows "\<exists>n. device_home (ak_collate ks) dev r (cs_shards st') = Some n \<and> guest_user (ak_collate ks) dev (cs_shards st' n) = Some (ac_UserID a)"
proof -
  have at: "guest_user (ak_collate ks) dev (cs_shards st' n) = Some (ac_UserID a)" if "on_service n (GuestLogin ks env dev name) st = (Inr (a, sess), st')" for n
  proof -
    have "fst (GuestLogin ks env dev name (service_state n st)) = Inr (a, sess)"
      using on_service_fst [of n "GuestLogin ks env dev name" st] that by simp
    moreover have "cs_shards st' n = at_db (snd (GuestLogin ks env dev name (service_state n st)))"
      using on_service_here [of n "GuestLogin ks env dev name" st] that by simp
    ultimately show ?thesis using GuestLogin_effect [OF assms(3), of ks dev "service_state n st" name] by auto
  qed
  show ?thesis
  proof (cases "device_home (ak_collate ks) dev r (cs_shards st)")
    case (Some n)
    have s: "on_service n (GuestLogin ks env dev name) st = (Inr (a, sess), st')"
      using guest_found [OF assms(2) Some, of env name] assms(1) by auto
    have "guest_user (ak_collate ks) dev (cs_shards st' m) \<noteq> None \<longleftrightarrow> guest_user (ak_collate ks) dev (cs_shards st m) \<noteq> None" for m
      using at [OF s] home_Some [OF Some] on_service_other [of m n "GuestLogin ks env dev name" st] s by (cases "m = n") auto
    then have "device_home (ak_collate ks) dev r (cs_shards st') = Some n" unfolding Some [symmetric] by (intro home_eq) simp
    then show ?thesis using at [OF s] by blast
  next
    case None
    obtain found where f: "serviceForExistingGuestDevice (ak_collate ks) lookups dev r (cs_shards st) = Inr found"
      using assms(1) by (auto simp: Sharded_GuestLogin_def split: sum.splits)
    have "found = None" using lookup_is_home [OF assms(2) f] None by simp
    then obtain n where key: "ShardForKey r dev = Inr n" and s: "on_service n (GuestLogin ks env dev name) st = (Inr (a, sess), st')"
      using assms(1) f by (auto simp: Sharded_GuestLogin_def split: sum.splits)
    have n: "n \<in> set r" by (rule shard_of_key [OF key assms(4)])
    have o: "guest_user (ak_collate ks) dev (cs_shards st' m) = None" if "m \<in> set r" "m \<noteq> n" for m
      using that None on_service_other [OF that(2), of "GuestLogin ks env dev name" st] s unfolding home_None by auto
    have "device_home (ak_collate ks) dev r (cs_shards st') \<noteq> None" unfolding home_None using n at [OF s] by auto
    then obtain h where h: "device_home (ak_collate ks) dev r (cs_shards st') = Some h" by blast
    have "h = n" using home_Some [OF h] o [of h] by (cases "h = n") simp_all
    then show ?thesis using h at [OF s] by simp
  qed
qed

text \<open>C35: a device keeps its guest account, on whatever shard it lives.  After a guest login that succeeded on a cluster, and after any
  further logins and registrations, a login of the same device returns the same user if it succeeds, and creates
  no account on any shard in any case.\<close>

theorem device_keeps_account:
  assumes "NewRouter names = Inr r" "Sharded_GuestLogin r ks l1 e1 dev n1 st = (Inr (a1, sess1), st1)"
    and "honest_lookups l1" "honest_env e1" "honest_lookups l2" "honest_env e2" "list_all honest_call ops"
  shows "(\<forall>a2 sess2. fst (Sharded_GuestLogin r ks l2 e2 dev n2 (sharded_run r ks verify ops st1)) = Inr (a2, sess2) \<longrightarrow> ac_UserID a2 = ac_UserID a1)
    \<and> (\<forall>m. accounts (cs_shards (snd (Sharded_GuestLogin r ks l2 e2 dev n2 (sharded_run r ks verify ops st1))) m)
          = accounts (cs_shards (sharded_run r ks verify ops st1) m))"
proof -
  let ?coll = "ak_collate ks" and ?st2 = "sharded_run r ks verify ops st1"
  have len: "length r \<le> 64" using router_length_dvd [OF assms(1)] by (auto dest: dvd_imp_le)
  obtain n where n: "device_home ?coll dev r (cs_shards st1) = Some n" "guest_user ?coll dev (cs_shards st1 n) = Some (ac_UserID a1)"
    using login_makes_home [OF assms(2,3,4) len] by blast
  have users: "guest_user ?coll dev (cs_shards ?st2 m) = guest_user ?coll dev (cs_shards st1 m)" for m
    using run_keeps_users [OF assms(7)] n(1) by simp
  have home: "device_home ?coll dev r (cs_shards ?st2) = Some n" unfolding n(1) [symmetric] by (rule home_eq) (simp add: users)
  from guest_found [OF assms(5) home, of e2 n2] show ?thesis
  proof
    assume s: "Sharded_GuestLogin r ks l2 e2 dev n2 ?st2 = on_service n (GuestLogin ks e2 dev n2) ?st2"
    obtain k where k: "effect_of k (''guest'', ?coll dev) (cs_shards ?st2 n) (at_db (snd (GuestLogin ks e2 dev n2 (service_state n ?st2))))"
      "\<And>u. k = Created u \<Longrightarrow> guest_user ?coll dev (cs_shards ?st2 n) = None"
      "\<And>acc sess. fst (GuestLogin ks e2 dev n2 (service_state n ?st2)) = Inr (acc, sess) \<Longrightarrow>
          guest_user ?coll dev (at_db (snd (GuestLogin ks e2 dev n2 (service_state n ?st2)))) = Some (ac_UserID acc)"
      using GuestLogin_effect [OF assms(6), of ks dev "service_state n ?st2" n2] by auto
    have nc: "\<forall>u. k \<noteq> Created u" using k(2) users n(2) by auto
    have same: "accounts (at_db (snd (GuestLogin ks e2 dev n2 (service_state n ?st2)))) = accounts (cs_shards ?st2 n)"
      using k(1) nc by (cases k) (auto simp: effect_of_def)
    have u: "guest_user ?coll dev (at_db (snd (GuestLogin ks e2 dev n2 (service_state n ?st2)))) = Some (ac_UserID a1)"
      using other_key_kept [OF k(1), of ?coll dev] nc users n(2) by simp
    have "accounts (cs_shards (snd (on_service n (GuestLogin ks e2 dev n2) ?st2)) m) = accounts (cs_shards ?st2 m)" for m
      using same by (cases "m = n") (simp_all add: on_service_other on_service_here)
    then show ?thesis unfolding s on_service_fst using k(3) u by auto
  next
    assume "snd (Sharded_GuestLogin r ks l2 e2 dev n2 ?st2) = ?st2 \<and> is_err (fst (Sharded_GuestLogin r ks l2 e2 dev n2 ?st2))"
    then show ?thesis by auto
  qed
qed

section \<open>Witness\<close>

definition new_cluster :: account_cluster where
  "new_cluster = \<lparr>cs_shards = (\<lambda>_. empty_db), cs_gens = (\<lambda>_. None), cs_redis = Map.empty\<rparr>"

lemma two_shards: "NewRouter [''a'', ''b''] = Inr [''a'', ''b'']"
  by code_simp

lemma d1_shard: "ShardForKey [''a'', ''b''] ''d1'' = Inr ([''a'', ''b''] ! unat (fnv64a ''d1'' mod 2))"
  by (simp add: ShardForKey_def)

lemma cluster_guest_ok:
  "\<exists>a sess st. Sharded_GuestLogin [''a'', ''b''] plain_keys (\<lambda>_. calm_tx) calm_login ''d1'' ''Ann'' new_cluster = (Inr (a, sess), st)"
  by (simp add: Sharded_GuestLogin_def LookupGuestUserID_def d1_shard on_service_def service_state_def new_cluster_def login_eval device_texts)

lemma device_keeps_account_witness:
  "\<exists>a sess st. Sharded_GuestLogin [''a'', ''b''] plain_keys (\<lambda>_. calm_tx) calm_login ''d1'' ''Ann'' new_cluster = (Inr (a, sess), st)
     \<and> (\<forall>m. accounts (cs_shards (snd (Sharded_GuestLogin [''a'', ''b''] plain_keys (\<lambda>_. calm_tx) lost_login ''d1'' []
            (sharded_run [''a'', ''b''] plain_keys (=) [SGuest (\<lambda>_. calm_tx) calm_login ''d2'' []] st))) m)
        = accounts (cs_shards (sharded_run [''a'', ''b''] plain_keys (=) [SGuest (\<lambda>_. calm_tx) calm_login ''d2'' []] st) m))"
proof -
  obtain a sess st where g: "Sharded_GuestLogin [''a'', ''b''] plain_keys (\<lambda>_. calm_tx) calm_login ''d1'' ''Ann'' new_cluster = (Inr (a, sess), st)"
    using cluster_guest_ok by blast
  have l: "honest_lookups (\<lambda>_. calm_tx)" by (simp add: honest_lookups_def calm_tx_def)
  have "list_all honest_call [SGuest (\<lambda>_. calm_tx) calm_login ''d2'' []]" using l calm_honest by simp
  from device_keeps_account [OF two_shards g l calm_honest(1) l calm_honest(2) this, of "[]" "(=)"] g show ?thesis by blast
qed

end
