(* ===== verification/Password.thy ===== *)
theory Password
  imports AccountsProps
begin

text \<open>
  internal/account/infrastructure/password.go: how a password is stored and checked, and that who registers can log in.  Argon2id is a
  parameter, \<^verbatim>\<open>argon password salt time memory threads keyLen\<close>, and it panics without a thread.
\<close>

section \<open>base64.RawStdEncoding\<close>

definition std64_char :: "nat \<Rightarrow> char" where
  "std64_char n = (if n < 26 then char_of (65 + n) else if n < 52 then char_of (71 + n) else if n < 62 then char_of (n - 4)
     else if n = 62 then CHR ''+'' else CHR ''/'')"

fun sextets :: "nat list \<Rightarrow> nat list" where
  "sextets [] = []"
| "sextets [a] = (let n = a * 16 in [n div 64, n mod 64])"
| "sextets [a, b] = (let n = (a * 256 + b) * 4 in [n div 4096, n div 64 mod 64, n mod 64])"
| "sextets (a # b # c # cs) = (let n = a * 65536 + b * 256 + c in
     [n div 262144, n div 4096 mod 64, n div 64 mod 64, n mod 64] @ sextets cs)"

definition EncodeToString :: "string \<Rightarrow> string" where
  "EncodeToString s = map std64_char (sextets (map of_char s))"

text \<open>The decoder skips line breaks, refuses any other byte outside the alphabet and a single last character, and ignores the bits left over.\<close>

definition std64_value :: "char \<Rightarrow> nat option" where
  "std64_value c =
     (let n = of_char c in
      if 65 \<le> n \<and> n \<le> 90 then Some (n - 65) else if 97 \<le> n \<and> n \<le> 122 then Some (n - 71) else if 48 \<le> n \<and> n \<le> 57 then Some (n + 4)
      else if n = 43 then Some 62 else if n = 47 then Some 63 else None)"

fun octets :: "nat list \<Rightarrow> nat list option" where
  "octets [] = Some []"
| "octets [x] = None"
| "octets [x, y] = Some [(x * 64 + y) div 16]"
| "octets [x, y, z] = (let n = (x * 4096 + y * 64 + z) div 4 in Some [n div 256, n mod 256])"
| "octets (x # y # z # w # vs) =
     (let n = x * 262144 + y * 4096 + z * 64 + w in
      map_option (\<lambda>r. n div 65536 # n div 256 mod 256 # n mod 256 # r) (octets vs))"

definition DecodeString :: "string \<Rightarrow> string option" where
  "DecodeString s =
     Option.bind (those (map std64_value (filter (\<lambda>c. of_char c \<noteq> (10::nat) \<and> of_char c \<noteq> (13::nat)) s)))
       (\<lambda>vs. map_option (map char_of) (octets vs))"

section \<open>hashPassword and verifyPassword\<close>

type_synonym argon2 = "string \<Rightarrow> string \<Rightarrow> nat \<Rightarrow> nat \<Rightarrow> nat \<Rightarrow> nat \<Rightarrow> string"

definition argonMemory :: nat where "argonMemory = 19 * 1024"
definition argonIterations :: nat where "argonIterations = 2"
definition argonParallelism :: nat where "argonParallelism = 1"
definition argonKeyLength :: nat where "argonKeyLength = 32"

text \<open>The salt is None when crypto/rand fails.\<close>

definition hashPassword :: "argon2 \<Rightarrow> string option \<Rightarrow> string \<Rightarrow> go_error + string" where
  "hashPassword argon drawn password =
     (case drawn of
        None \<Rightarrow> Inl (PlainErr ''generate password salt'')
      | Some salt \<Rightarrow>
          (let hash = argon password salt argonIterations argonMemory argonParallelism argonKeyLength in
           Inr (''$argon2id$v=19$m='' @ format_nat argonMemory @ '',t='' @ format_nat argonIterations @ '',p='' @ format_nat argonParallelism
             @ ''$'' @ EncodeToString salt @ ''$'' @ EncodeToString hash)))"

definition parseArgonParam :: "string \<Rightarrow> string \<Rightarrow> nat option" where
  "parseArgonParam v prefix =
     (if take (length prefix) v \<noteq> prefix then None
      else Option.bind (parse_unsigned (drop (length prefix) v)) (\<lambda>n. if n < 2 ^ 32 then Some n else None))"

text \<open>None is the panic of Argon2 when the number of threads is 0 as a byte.\<close>

definition verifyPassword :: "argon2 \<Rightarrow> string \<Rightarrow> string \<Rightarrow> bool option" where
  "verifyPassword argon encoded password =
     (case split_on (CHR ''$'') encoded of
        [p0, p1, p2, p3, p4, p5] \<Rightarrow>
          if p1 \<noteq> ''argon2id'' \<or> p2 \<noteq> ''v=19'' then Some False
          else
            (case split_on (CHR '','') p3 of
               [q0, q1, q2] \<Rightarrow>
                 (case (parseArgonParam q0 ''m='', parseArgonParam q1 ''t='', parseArgonParam q2 ''p='') of
                    (Some memory, Some iterations, Some parallelism) \<Rightarrow>
                      if memory = 0 \<or> iterations = 0 \<or> parallelism = 0 then Some False
                      else
                        (case DecodeString p4 of
                           None \<Rightarrow> Some False
                         | Some salt \<Rightarrow>
                             (case DecodeString p5 of
                                None \<Rightarrow> Some False
                              | Some want \<Rightarrow>
                                  if want = [] then Some False
                                  else if parallelism mod 256 = 0 then None
                                  else Some (argon password salt iterations memory (parallelism mod 256) (length want) = want)))
                  | _ \<Rightarrow> Some False)
             | _ \<Rightarrow> Some False)
      | _ \<Rightarrow> Some False)"

section \<open>The encoding is read back\<close>

lemma join_sextets: "(n::nat) div 262144 * 262144 + n div 4096 mod 64 * 4096 + n div 64 mod 64 * 64 + n mod 64 = n"
proof -
  have "n div 262144 = n div 4096 div 64" "n div 4096 = n div 64 div 64" by (simp_all add: div_mult2_eq [symmetric])
  then show ?thesis
    using div_mult_mod_eq [of "n div 4096" 64] div_mult_mod_eq [of "n div 64" 64] div_mult_mod_eq [of n 64] by linarith
qed

lemma bytes_of_word:
  assumes "(a::nat) < 256" "b < 256" "c < 256"
  shows "(a * 65536 + b * 256 + c) div 65536 = a" "(a * 65536 + b * 256 + c) div 256 mod 256 = b" "(a * 65536 + b * 256 + c) mod 256 = c"
proof -
  have "a * 65536 + b * 256 + c = (a * 256 + b) * 256 + c" by simp
  then have "(a * 65536 + b * 256 + c) div 256 = a * 256 + b" "(a * 65536 + b * 256 + c) mod 256 = c"
    using assms(3) by (simp_all only: div_mult_self3 mod_mult_self3) simp_all
  moreover have "(a * 65536 + b * 256 + c) div 65536 = (a * 65536 + b * 256 + c) div 256 div 256" by (simp add: div_mult2_eq [symmetric])
  ultimately show "(a * 65536 + b * 256 + c) div 65536 = a" "(a * 65536 + b * 256 + c) div 256 mod 256 = b" "(a * 65536 + b * 256 + c) mod 256 = c"
    using assms(2) by simp_all
qed

lemma octets_sextets: "\<forall>x\<in>set bs. x < 256 \<Longrightarrow> octets (sextets bs) = Some bs"
proof (induction bs rule: sextets.induct)
  case (2 a)
  have "a div 4 * 64 + a * 16 mod 64 = a * 16" using div_mult_mod_eq [of "a * 16" 64] by simp
  then show ?case by (simp add: Let_def)
next
  case (3 a b)
  have "((a * 256 + b) * 4) div 4096 * 4096 + ((a * 256 + b) * 4) div 64 mod 64 * 64 + ((a * 256 + b) * 4) mod 64 = (a * 256 + b) * 4"
  proof -
    have "((a * 256 + b) * 4) div 4096 = ((a * 256 + b) * 4) div 64 div 64" by (simp add: div_mult2_eq [symmetric])
    then show ?thesis using div_mult_mod_eq [of "((a * 256 + b) * 4) div 64" 64] div_mult_mod_eq [of "(a * 256 + b) * 4" 64] by linarith
  qed
  then show ?case using 3 by (simp add: Let_def)
next
  case (4 a b c cs)
  then show ?case using join_sextets [of "a * 65536 + b * 256 + c"] bytes_of_word [of a b c] by (simp add: Let_def)
qed simp

lemma sextets_64: "\<forall>x\<in>set bs. x < 256 \<Longrightarrow> y \<in> set (sextets bs) \<Longrightarrow> y < 64"
proof (induction bs rule: sextets.induct)
  case (2 a)
  then have "a * 16 div 64 < 64" by (intro less_mult_imp_div_less) simp
  then show ?case using 2(2) by (auto simp: Let_def)
next
  case (3 a b)
  then have "(a * 256 + b) * 4 div 4096 < 64" by (intro less_mult_imp_div_less) (simp add: distrib_right)
  moreover have "y = (a * 256 + b) * 4 div 4096 \<or> y = (a * 256 + b) * 4 div 64 mod 64 \<or> y = (a * 256 + b) * 4 mod 64"
    using 3(2) unfolding sextets.simps Let_def by simp
  ultimately show ?case by (elim disjE) simp_all
next
  case (4 a b c cs)
  have "(a * 65536 + b * 256 + c) div 262144 < 64" using 4(2) by (intro less_mult_imp_div_less) simp
  moreover have "y = (a * 65536 + b * 256 + c) div 262144 \<or> y = (a * 65536 + b * 256 + c) div 4096 mod 64
      \<or> y = (a * 65536 + b * 256 + c) div 64 mod 64 \<or> y = (a * 65536 + b * 256 + c) mod 64 \<or> y \<in> set (sextets cs)"
    using 4(3) unfolding sextets.simps Let_def by simp
  moreover have "y \<in> set (sextets cs) \<Longrightarrow> y < 64" using 4(1,2) by simp
  ultimately show ?case by (elim disjE) simp_all
qed simp

lemma std64_table:
  assumes "n < 64"
  shows "std64_value (std64_char n) = Some n \<and> (of_char (std64_char n) :: nat) \<notin> {10, 13, 36}"
proof -
  consider "n < 26" | "26 \<le> n" "n < 52" | "52 \<le> n" "n < 62" | "n = 62" | "n = 63" using assms by linarith
  then show ?thesis by cases (simp_all add: std64_char_def std64_value_def Let_def of_char_of, arith)
qed

lemma encoded_64:
  assumes "c \<in> set (EncodeToString s)"
  shows "\<exists>n<64. c = std64_char n"
  using assms sextets_64 [of "map of_char s"] of_char_255 by (fastforce simp: EncodeToString_def)

lemma decode_encode [simp]: "DecodeString (EncodeToString s) = Some s"
proof -
  have b: "\<forall>x\<in>set (map of_char s). (x::nat) < 256" by simp
  note lt = sextets_64 [OF b]
  have keep: "filter (\<lambda>c. of_char c \<noteq> (10::nat) \<and> of_char c \<noteq> (13::nat)) (EncodeToString s) = EncodeToString s"
    using std64_table encoded_64 [of _ s] by (intro filter_True) fastforce
  have "map std64_value (EncodeToString s) = map Some (sextets (map of_char s))"
    unfolding EncodeToString_def using std64_table lt by (auto simp: o_def)
  moreover have "those (map Some xs) = Some xs" for xs :: "nat list" by (induction xs) simp_all
  ultimately show ?thesis unfolding DecodeString_def keep using octets_sextets [OF b] by (simp add: o_def)
qed

lemma encoded_no_dollar: "CHR ''$'' \<notin> set (EncodeToString s)"
proof
  assume "CHR ''$'' \<in> set (EncodeToString s)"
  then obtain n where "n < 64" "CHR ''$'' = std64_char n" using encoded_64 by blast
  then have "(of_char (CHR ''$'') :: nat) \<notin> {10, 13, 36}" using std64_table by metis
  then show False by simp
qed

lemma split_here: "c \<notin> set a \<Longrightarrow> split_on c (a @ c # b) = a # split_on c b"
  by (induction a) auto

lemma split_last_piece: "c \<notin> set a \<Longrightarrow> split_on c a = [a]"
  by (induction a) auto

lemma digits_plain: "CHR ''$'' \<notin> set (format_nat n)" "CHR '','' \<notin> set (format_nat n)"
  by (auto dest!: format_nat_char_digit simp: char_digit_def)

lemma argon_param: "n < 4294967296 \<Longrightarrow> length p = 2 \<Longrightarrow> parseArgonParam (p @ format_nat n) p = Some n"
  by (simp add: parseArgonParam_def)

lemma argon_parts:
  "split_on (CHR '','') (''m='' @ format_nat m @ '',t='' @ format_nat t @ '',p='' @ format_nat p) = [''m='' @ format_nat m, ''t='' @ format_nat t, ''p='' @ format_nat p]"
proof -
  have "''m='' @ format_nat m @ '',t='' @ format_nat t @ '',p='' @ format_nat p
      = (''m='' @ format_nat m) @ CHR '','' # (''t='' @ format_nat t) @ CHR '','' # (''p='' @ format_nat p)" by simp
  moreover have "CHR '','' \<notin> set (''m='' @ format_nat m)" "CHR '','' \<notin> set (''t='' @ format_nat t)" "CHR '','' \<notin> set (''p='' @ format_nat p)"
    using digits_plain by simp_all
  ultimately show ?thesis by (simp only: split_here split_last_piece not_False_eq_True)
qed

lemma verify_hashed:
  assumes "hashPassword argon (Some salt) pw = Inr stored"
    and "length (argon pw salt argonIterations argonMemory argonParallelism argonKeyLength) = argonKeyLength"
  shows "verifyPassword argon stored pw' = Some (argon pw' salt argonIterations argonMemory argonParallelism argonKeyLength
      = argon pw salt argonIterations argonMemory argonParallelism argonKeyLength)"
proof -
  define h where "h = argon pw salt argonIterations argonMemory argonParallelism argonKeyLength"
  define params where "params = ''m='' @ format_nat argonMemory @ '',t='' @ format_nat argonIterations @ '',p='' @ format_nat argonParallelism"
  have s: "stored = [] @ CHR ''$'' # ''argon2id'' @ CHR ''$'' # ''v=19'' @ CHR ''$'' # params @ CHR ''$'' # EncodeToString salt @ CHR ''$'' # EncodeToString h"
    using assms(1) by (simp add: hashPassword_def Let_def params_def h_def)
  have p: "CHR ''$'' \<notin> set params" using digits_plain by (simp add: params_def)
  have "CHR ''$'' \<notin> set ''argon2id''" "CHR ''$'' \<notin> set ''v=19''" "CHR ''$'' \<notin> set []" by simp_all
  then have "split_on (CHR ''$'') stored = [[], ''argon2id'', ''v=19'', params, EncodeToString salt, EncodeToString h]"
    unfolding s using p encoded_no_dollar by (simp only: split_here split_last_piece not_False_eq_True)
  moreover have "split_on (CHR '','') params = [''m='' @ format_nat argonMemory, ''t='' @ format_nat argonIterations, ''p='' @ format_nat argonParallelism]"
    unfolding params_def by (rule argon_parts)
  moreover have "parseArgonParam (''m='' @ format_nat argonMemory) ''m='' = Some argonMemory" "parseArgonParam (''t='' @ format_nat argonIterations) ''t='' = Some argonIterations"
    "parseArgonParam (''p='' @ format_nat argonParallelism) ''p='' = Some argonParallelism"
    by (rule argon_param; simp add: argonMemory_def argonIterations_def argonParallelism_def)+
  moreover have "h \<noteq> []" "length h = argonKeyLength" using assms(2) by (auto simp: h_def argonKeyLength_def)
  moreover have "argonMemory \<noteq> 0" "argonIterations \<noteq> 0" "argonParallelism \<noteq> 0" "argonParallelism mod 256 = argonParallelism"
    by (simp_all add: argonMemory_def argonIterations_def argonParallelism_def)
  ultimately show ?thesis by (simp add: verifyPassword_def h_def [symmetric])
qed

section \<open>Who registers can log in\<close>

definition argon_of :: "argon2 \<Rightarrow> string \<Rightarrow> string \<Rightarrow> string" where
  "argon_of argon pw salt = argon pw salt argonIterations argonMemory argonParallelism argonKeyLength"

lemma hash_ok: "hashPassword argon (Some salt) pw = Inr (''$argon2id$v=19$m='' @ format_nat argonMemory @ '',t='' @ format_nat argonIterations @ '',p='' @ format_nat argonParallelism
     @ ''$'' @ EncodeToString salt @ ''$'' @ EncodeToString (argon_of argon pw salt))"
  by (simp add: hashPassword_def argon_of_def Let_def)

text \<open>The account and the identity that a registration leaves.\<close>

definition registered :: "(string \<Rightarrow> string) \<Rightarrow> string \<Rightarrow> string \<Rightarrow> int \<Rightarrow> db \<Rightarrow> bool" where
  "registered coll name cred u s \<longleftrightarrow>
     map_of (identities s) (''local'', coll name) = Some \<lparr>idn_user = u, idn_credential = Some cred, idn_status = ''ACTIVE''\<rparr>
     \<and> (\<exists>r. map_of (accounts s) u = Some r \<and> acct_status r = ''ACTIVE'')"

lemma registered_stays: "accounts_grow s s' \<Longrightarrow> registered coll name cred u s \<Longrightarrow> registered coll name cred u s'"
  by (auto simp: accounts_grow_def registered_def map_add_Some_iff)

lemma Register_ok:
  assumes "Register ks env (Inr cred) user pw dn st = (Inr (acc, sess), st')" "normalizeUsername user = Inr name"
  shows "registered (ak_collate ks) name cred (ac_UserID acc) (at_db st')"
proof -
  obtain dn' where dn: "normalizeRequiredDisplayName dn = Inr dn'" "validatePassword pw = Inr ()"
    using assms by (cases "validatePassword pw"; cases "normalizeRequiredDisplayName dn") (auto simp: Register_def)
  define body where "body = register_body (ak_collate ks) (le_tx env) (drawn_id env st) name cred dn'"
  obtain r s' where run: "run_tx (le_tx env) body (at_db st) = (r, s')" by (cases "run_tx (le_tx env) body (at_db st)")
  obtain st0 where i: "issue_session ks env ''web'' st0 r = (Inr (acc, sess), st')" "at_db st0 = s'"
    using assms dn run by (auto simp: Register_def body_def)
  have r: "r = Inr acc" using issued [OF i(1)] by blast
  have db: "at_db st' = s'" using issue_db [of ks env "''web''" st0 r] i by simp
  obtain t where t: "body (at_db st) = Inr (Committed acc, s') \<or> body (at_db st) = Inr (NoCommit acc, t)"
    using run_tx_ok [OF run [unfolded r]] by blast
  have "body (at_db st) = Inr (Committed acc, s')" using t register_body_Inr by (fastforce simp: body_def)
  from register_body_Inr [OF this [unfolded body_def]]
  have u: "unused (ac_UserID acc) (''local'', ak_collate ks name) (at_db st)"
    "s' = started (ac_UserID acc) ''REGISTERED'' dn' (clk_now (le_tx env)) (''local'', ak_collate ks name) (Some cred) (at_db st)" by auto
  have n: "map_of (identities (at_db st)) (''local'', ak_collate ks name) = None" "map_of (accounts (at_db st)) (ac_UserID acc) = None"
    using u(1) unfolding unused_def by (simp_all add: map_of_eq_None_iff)
  show ?thesis unfolding registered_def db u(2) started_maps using n by simp
qed

lemma PasswordLogin_registered:
  assumes "registered (ak_collate ks) name cred u (at_db st)" "normalizeUsername user = Inr name" "pw \<noteq> []"
    and "fault (le_tx env) = (\<lambda>_. None)" "commit_outcome (le_tx env) = CommitOK"
  shows "PasswordLogin ks verify env user pw st =
     (if verify cred pw then issue_session ks env ''web'' st (fst (run_tx (le_tx env) (login_body (le_tx env) u) (at_db st))) else (Inl (New AuthUnauthorized), st))"
proof -
  obtain r where r: "map_of (identities (at_db st)) (''local'', ak_collate ks name) = Some \<lparr>idn_user = u, idn_credential = Some cred, idn_status = ''ACTIVE''\<rparr>"
    "map_of (accounts (at_db st)) u = Some r" "acct_status r = ''ACTIVE''"
    using assms(1) unfolding registered_def by blast
  have row: "query_row (le_tx env) ''load_local'' (local_identity (ak_collate ks) name) (at_db st) = Inr (Some (u, cred, ''ACTIVE'', ''ACTIVE''), at_db st)"
    using r assms(4) by (simp add: query_row_def local_identity_def)
  have db: "snd (run_tx (le_tx env) (login_body (le_tx env) u) (at_db st)) = at_db st"
    using r assms(4,5) by (simp add: run_tx_def login_body_def stmt_def tx_bind_def tx_return_def loadAccount_def)
  then obtain x where "run_tx (le_tx env) (login_body (le_tx env) u) (at_db st) = (x, at_db st)"
    by (cases "run_tx (le_tx env) (login_body (le_tx env) u) (at_db st)") simp
  then show ?thesis using assms(2,3) row by (cases "pw = []") (simp_all add: PasswordLogin_def)
qed

text \<open>C37: who registers can log in.  After a registration that succeeded, and any further logins and registrations, a password login with the
  same name, in whatever case and with whatever blanks around it, and no failing statement is answered as follows: a password with another
  Argon2 hash than the registered one is refused with AUTH_UNAUTHORIZED and changes nothing, and the registered password gets
  a new session of the registered user, which fails only where creating the session fails.\<close>

theorem registered_can_log_in:
  assumes "Register ks e1 (hashPassword argon (Some salt) pw) user pw dn st = (Inr (a1, sess1), st1)"
    and "length (argon_of argon pw salt) = argonKeyLength" "normalizeUsername user2 = normalizeUsername user"
    and "honest_ops ops" "pw2 \<noteq> []" "fault (le_tx e2) = (\<lambda>_. None)" "commit_outcome (le_tx e2) = CommitOK"
  shows "\<exists>acc. ac_UserID acc = ac_UserID a1 \<and> ac_Status acc = ''ACTIVE''
     \<and> PasswordLogin ks (\<lambda>c p. verifyPassword argon c p = Some True) e2 user2 pw2 (login_run ks verify ops st1)
       = (if argon_of argon pw2 salt = argon_of argon pw salt then issue_session ks e2 ''web'' (login_run ks verify ops st1) (Inr acc)
          else (Inl (New AuthUnauthorized), login_run ks verify ops st1))"
proof -
  let ?st2 = "login_run ks verify ops st1"
  obtain cred where cred: "hashPassword argon (Some salt) pw = Inr cred" using hash_ok by blast
  obtain name where name: "normalizeUsername user = Inr name"
    using assms(1) by (cases "normalizeUsername user") (auto simp: Register_def)
  have "registered (ak_collate ks) name cred (ac_UserID a1) (at_db st1)" by (rule Register_ok [OF assms(1) [unfolded cred] name])
  then have reg: "registered (ak_collate ks) name cred (ac_UserID a1) (at_db ?st2)"
    by (rule registered_stays [OF run_grows [OF assms(4)]])
  obtain r where r: "map_of (accounts (at_db ?st2)) (ac_UserID a1) = Some r" "acct_status r = ''ACTIVE''" using reg unfolding registered_def by blast
  obtain acc where acc: "fst (run_tx (le_tx e2) (login_body (le_tx e2) (ac_UserID a1)) (at_db ?st2)) = Inr acc" "ac_UserID acc = ac_UserID a1" "ac_Status acc = ''ACTIVE''"
    using r assms(6,7) by (simp add: run_tx_def login_body_def stmt_def tx_bind_def tx_return_def loadAccount_def)
  have v: "(verifyPassword argon cred pw2 = Some True) \<longleftrightarrow> argon_of argon pw2 salt = argon_of argon pw salt"
    using verify_hashed [OF cred assms(2) [unfolded argon_of_def], of pw2] by (simp add: argon_of_def)
  have "PasswordLogin ks (\<lambda>c p. verifyPassword argon c p = Some True) e2 user2 pw2 ?st2
       = (if argon_of argon pw2 salt = argon_of argon pw salt then issue_session ks e2 ''web'' ?st2 (Inr acc) else (Inl (New AuthUnauthorized), ?st2))"
    using PasswordLogin_registered [OF reg assms(3) [unfolded name] assms(5,6,7), of "\<lambda>c p. verifyPassword argon c p = Some True"] acc(1) v by simp
  then show ?thesis using acc(2,3) by blast
qed

definition padded :: argon2 where "padded pw salt t m p n = take n (pw @ salt @ replicate n (CHR ''x''))"

lemma anna_facts:
  "normalizeUsername ''anna'' = Inr ''anna''" "normalizeUsername '' ANNA '' = normalizeUsername ''anna''"
  "rune_count ''12345678'' = 8" "rune_count ''anna'' = 4" "valid_utf8 ''anna''"
  by code_simp+

lemma anna_registers:
  "\<exists>a sess st. Register plain_keys calm_login (hashPassword padded (Some ''salt'') ''12345678'') ''anna'' ''12345678'' ''Ann'' no_accounts = (Inr (a, sess), st)
     \<and> ac_UserID a = 1"
  unfolding Register_def hash_ok anna_facts(1) by (simp add: login_eval anna_facts device_texts)

lemma registered_can_log_in_witness:
  "\<exists>a sess st acc. Register plain_keys calm_login (hashPassword padded (Some ''salt'') ''12345678'') ''anna'' ''12345678'' ''Ann'' no_accounts = (Inr (a, sess), st)
     \<and> ac_UserID acc = 1
     \<and> PasswordLogin plain_keys (\<lambda>c p. verifyPassword padded c p = Some True) calm_login '' ANNA '' ''12345678'' st = issue_session plain_keys calm_login ''web'' st (Inr acc)"
proof -
  obtain a sess st where g: "Register plain_keys calm_login (hashPassword padded (Some ''salt'') ''12345678'') ''anna'' ''12345678'' ''Ann'' no_accounts = (Inr (a, sess), st)"
    "ac_UserID a = 1" using anna_registers by blast
  have "length (argon_of padded ''12345678'' ''salt'') = argonKeyLength" by (simp add: argon_of_def padded_def argonKeyLength_def)
  from registered_can_log_in [OF g(1) this anna_facts(2), of "[]" "''12345678''" calm_login "(=)"] g show ?thesis
    by (auto simp: honest_ops_def calm_login_def calm_tx_def login_run_def)
qed

end
