(* ===== verification/Pets.thy ===== *)
theory Pets
  imports FarmCommit Consumer
begin

text \<open>
  internal/pet: buying a pet, the switch of its automatic harvest and the schedule that both write on the farm, on one shard
  (mysql_pet_service.go) and routed (sharded_pet_service.go).  The jitter of the first action is what crypto/rand gives,
  None when it fails.
\<close>

definition PetPrice :: int where "PetPrice = 200"
definition PetAutoHarvestInterval :: duration where "PetAutoHarvestInterval = 30 * second"

definition nextPetActionAt :: "gotime \<Rightarrow> nat option \<Rightarrow> go_error + gotime" where
  "nextPetActionAt now jitter =
     (case jitter of
        None \<Rightarrow> Inl (PlainErr ''crypto/rand'')
      | Some j \<Rightarrow> Inr (now + (PetAutoHarvestInterval + int (j mod 4) * second)))"

text \<open>SELECT 1 FROM farm_snapshots ... FOR UPDATE.\<close>

definition lock_farm :: "env \<Rightarrow> int \<Rightarrow> (db, unit) tx" where
  "lock_farm env userID =
     tx_bind (query_exact env ''lock_farm'' (\<lambda>s. map_of (farms s) userID)) (\<lambda>row. tx_guard (row \<noteq> None) (New FarmNotFound))"

text \<open>UPDATE farm_snapshots SET next_pet_action_at = ?, with the number of changed rows.\<close>

definition update_schedule :: "int \<Rightarrow> gotime option \<Rightarrow> (db, nat) tx" where
  "update_schedule farmID at =
     (\<lambda>s. case map_of (farms s) farmID of
        None \<Rightarrow> Inr (0, s)
      | Some r \<Rightarrow>
          (let r' = r\<lparr>fr_next_pet := map_option datetime3 at, fr_lease_owner := None, fr_lease_until := None\<rparr> in
           Inr (if r' = r then 0 else 1, s\<lparr>farms := AList.update farmID r' (farms s)\<rparr>)))"

section \<open>BuyPet\<close>

definition buy_body :: "env \<Rightarrow> nat option \<Rightarrow> int \<Rightarrow> (db, unit ended) tx" where
  "buy_body env jitter userID =
     tx_seq (lock_farm env userID)
       (tx_bind (query_exact env ''check_pet'' (\<lambda>s. pets s userID)) (\<lambda>pet.
         tx_seq (tx_guard (pet = None) (New PetAlreadyEquipped))
           (tx_bind (stmt env ''load_wallet'' (\<lambda>s. case wallets s userID of None \<Rightarrow> Inl SqlNoRows | Some b \<Rightarrow> Inr (b, s))) (\<lambda>balance.
             tx_seq (tx_guard (\<not> balance < PetPrice) (New EconomyInsufficient))
               (tx_seq (stmt env ''deduct_wallet'' (tx_modify (\<lambda>s. s\<lparr>wallets := (wallets s)(userID \<mapsto> balance - PetPrice)\<rparr>)))
                 (tx_seq (stmt env ''insert_pet'' (\<lambda>s. if pets s userID \<noteq> None then Inl dup_key
                      else Inr ((), s\<lparr>pets := (pets s)(userID \<mapsto> \<lparr>pt_status = PetActive, pt_auto = True\<rparr>)\<rparr>)))
                   (tx_bind (lift_sum (nextPetActionAt (clk_now env) jitter)) (\<lambda>at.
                     tx_bind (stmt env ''set_next_pet_action'' (update_schedule userID (Some at))) (\<lambda>_. tx_return (Committed ()))))))))))"

definition buyPetOnce :: "int \<Rightarrow> env \<times> nat option \<Rightarrow> db \<Rightarrow> (go_error + unit) \<times> db" where
  "buyPetOnce userID e s = run_tx (fst e) (buy_body (fst e) (snd e) userID) s"

definition BuyPet :: "(nat \<Rightarrow> go_error option) \<Rightarrow> (nat \<Rightarrow> env \<times> nat option) \<Rightarrow> int \<Rightarrow> db \<Rightarrow> (go_error + unit) \<times> db" where
  "BuyPet wait envs userID s = retry_value wait IsTransient (\<lambda>n. buyPetOnce userID (envs n)) s"

section \<open>The status and the switch\<close>

record player_status =
  ps_HasPet :: bool
  ps_AutoHarvestEnabled :: bool

definition GetStatus :: "env \<Rightarrow> int \<Rightarrow> db \<Rightarrow> go_error + player_status" where
  "GetStatus env userID s =
     (case query_exact env ''get_pet_status'' (\<lambda>s. Option.bind (pets s userID) (\<lambda>p. if pt_status p = PetActive then Some (pt_auto p) else None)) s of
        Inl e \<Rightarrow> Inl e
      | Inr (None, _) \<Rightarrow> Inr \<lparr>ps_HasPet = False, ps_AutoHarvestEnabled = False\<rparr>
      | Inr (Some enabled, _) \<Rightarrow> Inr \<lparr>ps_HasPet = True, ps_AutoHarvestEnabled = enabled\<rparr>)"

definition HasPet :: "env \<Rightarrow> int \<Rightarrow> db \<Rightarrow> go_error + bool" where
  "HasPet env userID s = map_sum id ps_HasPet (GetStatus env userID s)"

definition switch_body :: "env \<Rightarrow> nat option \<Rightarrow> int \<Rightarrow> bool \<Rightarrow> (db, unit ended) tx" where
  "switch_body env jitter userID enabled =
     tx_seq (lock_farm env userID)
       (tx_bind (query_exact env ''lock_pet'' (\<lambda>s. pets s userID)) (\<lambda>pet. case pet of
          None \<Rightarrow> tx_fail (New PetNotOwned)
        | Some p \<Rightarrow>
            tx_seq (tx_guard (pt_status p = PetActive) (New PetNotOwned))
              (if pt_auto p = enabled \<and> enabled then tx_return (Committed ())
               else
                 tx_seq (stmt env ''update_pet'' (tx_modify (\<lambda>s. s\<lparr>pets := (pets s)(userID \<mapsto> p\<lparr>pt_auto := enabled\<rparr>)\<rparr>)))
                   (tx_bind (if enabled then tx_bind (lift_sum (nextPetActionAt (clk_now env) jitter)) (\<lambda>at. tx_return (Some at)) else tx_return None) (\<lambda>at.
                     tx_bind (stmt env ''update_pet_schedule'' (update_schedule userID at)) (\<lambda>affected.
                       tx_seq (tx_guard (affected \<noteq> 0) (New FarmNotFound)) (tx_return (Committed ()))))))))"

definition setAutoHarvestOnce :: "int \<Rightarrow> bool \<Rightarrow> env \<times> nat option \<Rightarrow> db \<Rightarrow> (go_error + unit) \<times> db" where
  "setAutoHarvestOnce userID enabled e s = run_tx (fst e) (switch_body (fst e) (snd e) userID enabled) s"

definition SetAutoHarvest :: "(nat \<Rightarrow> go_error option) \<Rightarrow> (nat \<Rightarrow> env \<times> nat option) \<Rightarrow> int \<Rightarrow> bool \<Rightarrow> db \<Rightarrow> (go_error + unit) \<times> db" where
  "SetAutoHarvest wait envs userID enabled s = retry_value wait IsTransient (\<lambda>n. setAutoHarvestOnce userID enabled (envs n)) s"

section \<open>ShardedPetService\<close>

definition Sharded_BuyPet :: "router \<Rightarrow> (nat \<Rightarrow> go_error option) \<Rightarrow> (nat \<Rightarrow> env \<times> nat option) \<Rightarrow> int \<Rightarrow> cluster \<Rightarrow> (go_error + unit) \<times> cluster" where
  "Sharded_BuyPet r wait envs userID cl =
     (case ShardForUserID r userID of Inl e \<Rightarrow> (Inl e, cl) | Inr name \<Rightarrow> on_shard name (BuyPet wait envs userID) cl)"

definition Sharded_GetStatus :: "router \<Rightarrow> env \<Rightarrow> int \<Rightarrow> cluster \<Rightarrow> go_error + player_status" where
  "Sharded_GetStatus r env userID cl =
     (case ShardForUserID r userID of Inl e \<Rightarrow> Inl e | Inr name \<Rightarrow> GetStatus env userID (cl name))"

definition Sharded_HasPet :: "router \<Rightarrow> env \<Rightarrow> int \<Rightarrow> cluster \<Rightarrow> go_error + bool" where
  "Sharded_HasPet r env userID cl =
     (case ShardForUserID r userID of Inl e \<Rightarrow> Inl e | Inr name \<Rightarrow> HasPet env userID (cl name))"

definition Sharded_SetAutoHarvest ::
  "router \<Rightarrow> (nat \<Rightarrow> go_error option) \<Rightarrow> (nat \<Rightarrow> env \<times> nat option) \<Rightarrow> int \<Rightarrow> bool \<Rightarrow> cluster \<Rightarrow> (go_error + unit) \<times> cluster" where
  "Sharded_SetAutoHarvest r wait envs userID enabled cl =
     (case ShardForUserID r userID of Inl e \<Rightarrow> (Inl e, cl) | Inr name \<Rightarrow> on_shard name (SetAutoHarvest wait envs userID enabled) cl)"

end
