(* ===== verification/PetScanner.thy ===== *)
theory PetScanner
  imports Pets "HOL-Library.Product_Lexorder"
begin

text \<open>
  internal/worker/pet_scanner.go: the worker that leases the farms whose pet is due and submits a harvest of the smallest mature plot.  A stored
  snapshot is its JSON value, which always has the shape the scanner reads.
\<close>

record scanner_options =
  so_LeaseTTL :: duration
  so_Workers :: int
  so_RatePerSec :: int

definition NewPetScannerWithOptions :: "scanner_options \<Rightarrow> scanner_options" where
  "NewPetScannerWithOptions o1 =
     \<lparr>so_LeaseTTL = (if so_LeaseTTL o1 \<le> 0 then 15 * second else so_LeaseTTL o1),
      so_Workers = (if so_Workers o1 \<le> 0 then 4 else so_Workers o1),
      so_RatePerSec = (if so_RatePerSec o1 \<le> 0 then 50 else so_RatePerSec o1)\<rparr>"

record farm_to_scan =
  sc_farmID :: int
  sc_ownerID :: int
  sc_snapJSON :: snapshot_json
  sc_nextActionAt :: gotime
  sc_leaseToken :: string

section \<open>Claiming\<close>

text \<open>The rows the query selects, in its order; \<^verbatim>\<open>locked\<close> are the rows that other transactions have locked.\<close>

definition pet_due :: "gotime \<Rightarrow> int set \<Rightarrow> db \<Rightarrow> int \<times> farm_row \<Rightarrow> bool" where
  "pet_due now locked s kr \<longleftrightarrow>
     (case kr of (k, r) \<Rightarrow>
        pet_enabled s (fr_owner r)
        \<and> (case fr_next_pet r of Some t \<Rightarrow> t \<le> datetime6 now | None \<Rightarrow> False)
        \<and> (case fr_lease_until r of Some t \<Rightarrow> t \<le> datetime6 now | None \<Rightarrow> True)
        \<and> k \<notin> locked)"

definition due_farms :: "gotime \<Rightarrow> int set \<Rightarrow> nat \<Rightarrow> db \<Rightarrow> farm_to_scan list" where
  "due_farms now locked batch s =
     map (\<lambda>(k, r). \<lparr>sc_farmID = k, sc_ownerID = fr_owner r, sc_snapJSON = fr_snapshot r, sc_nextActionAt = opt_or (fr_next_pet r) 0, sc_leaseToken = []\<rparr>)
       (take batch (sort_key (\<lambda>(k, r). (opt_or (fr_next_pet r) 0, k)) (filter (pet_due now locked s) (farms s))))"

definition set_lease :: "int \<Rightarrow> string \<Rightarrow> gotime \<Rightarrow> (db, unit) tx" where
  "set_lease farmID token until =
     (\<lambda>s. case map_of (farms s) farmID of
        None \<Rightarrow> Inr ((), s)
      | Some r \<Rightarrow> Inr ((), s\<lparr>farms := AList.update farmID (r\<lparr>fr_lease_owner := Some token, fr_lease_until := Some (datetime6 until)\<rparr>) (farms s)\<rparr>))"

text \<open>The loop over the claimed farms; a token is None when crypto/rand fails.\<close>

fun claim_each :: "env \<Rightarrow> (nat \<Rightarrow> string option) \<Rightarrow> gotime \<Rightarrow> nat \<Rightarrow> farm_to_scan list \<Rightarrow> (db, farm_to_scan list) tx" where
  "claim_each env tokens until i [] = tx_return []"
| "claim_each env tokens until i (f # fs) =
     (case tokens i of
        None \<Rightarrow> tx_fail (PlainErr ''pet_scan lease token'')
      | Some token \<Rightarrow>
          tx_seq (stmt env ''claim_farm'' (set_lease (sc_farmID f) token until))
            (tx_bind (claim_each env tokens until (Suc i) fs) (\<lambda>claimed. tx_return (f\<lparr>sc_leaseToken := token\<rparr> # claimed))))"

definition claim_due_body :: "scanner_options \<Rightarrow> env \<Rightarrow> (nat \<Rightarrow> string option) \<Rightarrow> int set \<Rightarrow> nat \<Rightarrow> (db, farm_to_scan list ended) tx" where
  "claim_due_body so env tokens locked batch =
     tx_bind (stmt env ''pet_scan_query'' (tx_get (due_farms (clk_now env) locked batch))) (\<lambda>found.
       tx_bind (claim_each env tokens (clk_now env + so_LeaseTTL so) 0 found) (\<lambda>claimed. tx_return (Committed claimed)))"

definition claimDue :: "scanner_options \<Rightarrow> env \<Rightarrow> (nat \<Rightarrow> string option) \<Rightarrow> int set \<Rightarrow> nat \<Rightarrow> db \<Rightarrow> (go_error + farm_to_scan list) \<times> db" where
  "claimDue so env tokens locked batch s = run_tx env (claim_due_body so env tokens locked batch) s"

section \<open>Leases\<close>

definition holds_lease :: "string \<Rightarrow> gotime \<Rightarrow> farm_row \<Rightarrow> bool" where
  "holds_lease token now r \<longleftrightarrow>
     fr_lease_owner r = Some token \<and> (case fr_lease_until r of Some t \<Rightarrow> datetime6 now < t | None \<Rightarrow> False)"

text \<open>An UPDATE with the condition on the lease; MySQL counts the rows that it changed.\<close>

definition leased_update :: "int \<Rightarrow> (farm_row \<Rightarrow> bool) \<Rightarrow> (farm_row \<Rightarrow> farm_row) \<Rightarrow> (db, bool) tx" where
  "leased_update farmID cond f =
     (\<lambda>s. case map_of (farms s) farmID of
        None \<Rightarrow> Inr (False, s)
      | Some r \<Rightarrow> if cond r then Inr (f r \<noteq> r, s\<lparr>farms := AList.update farmID (f r) (farms s)\<rparr>) else Inr (False, s))"

definition renewLease :: "scanner_options \<Rightarrow> env \<Rightarrow> int \<Rightarrow> string \<Rightarrow> gotime \<Rightarrow> db \<Rightarrow> (go_error + bool) \<times> db" where
  "renewLease so env farmID token now s =
     run_auto env (stmt env ''renew_lease''
       (leased_update farmID (holds_lease token now) (\<lambda>r. r\<lparr>fr_lease_until := Some (datetime6 (now + so_LeaseTTL so))\<rparr>))) s"

definition pushNextPetAction :: "env \<Rightarrow> int \<Rightarrow> gotime \<Rightarrow> string \<Rightarrow> gotime \<Rightarrow> db \<Rightarrow> (go_error + bool) \<times> db" where
  "pushNextPetAction env farmID expected token now s =
     run_auto env (stmt env ''push_next_pet''
       (leased_update farmID (\<lambda>r. fr_next_pet r = Some (datetime6 expected) \<and> holds_lease token now r)
          (\<lambda>r. r\<lparr>fr_next_pet := Some (datetime3 (now + 30 * second)), fr_lease_owner := None, fr_lease_until := None\<rparr>))) s"

section \<open>One farm\<close>

definition pet_mature :: "gotime \<Rightarrow> plot_json \<Rightarrow> bool" where
  "pet_mature now p \<longleftrightarrow> pj_Status p = ''GROWING'' \<and> \<not> is_zero_time (pj_MatureAt p) \<and> \<not> now < pj_MatureAt p"

definition findSmallestMaturePlotChecked :: "snapshot_json \<Rightarrow> gotime \<Rightarrow> int option" where
  "findSmallestMaturePlotChecked snap now =
     (case sort (List.map_filter (\<lambda>(key, p). if pet_mature now p then parse_int 32 key else None) snap) of
        [] \<Rightarrow> None
      | plotID # _ \<Rightarrow> Some plotID)"

definition petAutoHarvestKey :: "int \<Rightarrow> gotime \<Rightarrow> int \<Rightarrow> string" where
  "petAutoHarvestKey farmID scheduledAt plotID =
     ''pet-auto:'' @ format_int farmID @ '':'' @ format_int (scheduledAt div millisecond) @ '':'' @ format_int plotID"

record scan_result =
  pr_Claimed :: nat
  pr_Harvested :: nat
  pr_Rescheduled :: nat
  pr_SubmitFailed :: nat

definition no_result :: scan_result where
  "no_result = \<lparr>pr_Claimed = 0, pr_Harvested = 0, pr_Rescheduled = 0, pr_SubmitFailed = 0\<rparr>"

definition harvest_command :: "farm_to_scan \<Rightarrow> int \<Rightarrow> command" where
  "harvest_command f plotID =
     \<lparr>cmd_CmdID = petAutoHarvestKey (sc_farmID f) (sc_nextActionAt f) plotID, cmd_FarmID = sc_farmID f, cmd_ActorUser = sc_ownerID f,
      cmd_Type = CmdPetAutoHarvest, cmd_PlotID = plotID, cmd_CropID = [], cmd_Quantity = 0, cmd_BaseVersion = 0, cmd_RouteEpoch = 0,
      cmd_PetScheduledAt = sc_nextActionAt f\<rparr>"

text \<open>\<^verbatim>\<open>pe_submit\<close> is the client of farmsvr; the two statements of the scanner have outcomes of their own.\<close>

record process_farm_env =
  pe_renew :: env
  pe_push :: env
  pe_submit :: "command \<Rightarrow> db \<Rightarrow> (go_error + commit_result) \<times> db"

definition processClaimedFarm :: "scanner_options \<Rightarrow> process_farm_env \<Rightarrow> farm_to_scan \<Rightarrow> db \<Rightarrow> scan_result \<times> db" where
  "processClaimedFarm so pe f s =
     (let now = clk_now (pe_renew pe) in
      case renewLease so (pe_renew pe) (sc_farmID f) (sc_leaseToken f) now s of
        (Inl _, s1) \<Rightarrow> (no_result\<lparr>pr_SubmitFailed := 1\<rparr>, s1)
      | (Inr renewed, s1) \<Rightarrow>
          if \<not> renewed then (no_result, s1)
          else
            (case findSmallestMaturePlotChecked (sc_snapJSON f) now of
               None \<Rightarrow>
                 (case pushNextPetAction (pe_push pe) (sc_farmID f) (sc_nextActionAt f) (sc_leaseToken f) now s1 of
                    (Inl _, s2) \<Rightarrow> (no_result\<lparr>pr_SubmitFailed := 1\<rparr>, s2)
                  | (Inr moved, s2) \<Rightarrow> (if moved then no_result\<lparr>pr_Rescheduled := 1\<rparr> else no_result, s2))
             | Some plotID \<Rightarrow>
                 (case pe_submit pe (harvest_command f plotID) s1 of
                    (Inl _, s2) \<Rightarrow> (no_result\<lparr>pr_SubmitFailed := 1\<rparr>, s2)
                  | (Inr _, s2) \<Rightarrow> (no_result\<lparr>pr_Harvested := 1\<rparr>, s2))))"

section \<open>A scan\<close>

definition add_result :: "scan_result \<Rightarrow> scan_result \<Rightarrow> scan_result" where
  "add_result a b = a\<lparr>pr_Harvested := pr_Harvested a + pr_Harvested b, pr_Rescheduled := pr_Rescheduled a + pr_Rescheduled b,
     pr_SubmitFailed := pr_SubmitFailed a + pr_SubmitFailed b\<rparr>"

text \<open>The pool of workers: the farms are handed out in order until the context ends, \<^verbatim>\<open>process i\<close> being what processing farm \<^verbatim>\<open>i\<close> meets.\<close>

fun process_each :: "scanner_options \<Rightarrow> (nat \<Rightarrow> process_farm_env) \<Rightarrow> nat \<Rightarrow> farm_to_scan list \<Rightarrow> scan_result \<Rightarrow> db \<Rightarrow> scan_result \<times> db" where
  "process_each so pes i [] acc s = (acc, s)"
| "process_each so pes i (f # fs) acc s =
     (case processClaimedFarm so (pes i) f s of (r, s') \<Rightarrow> process_each so pes (Suc i) fs (add_result acc r) s')"

record scan_env =
  se_claim :: env
  se_tokens :: "nat \<Rightarrow> string option"
  se_locked :: "int set"
  se_process :: "nat \<Rightarrow> process_farm_env"
  se_ctx :: "(nat \<times> go_error) option"

definition Scan :: "scanner_options \<Rightarrow> scan_env \<Rightarrow> int \<Rightarrow> db \<Rightarrow> (scan_result \<times> go_error option) \<times> db" where
  "Scan so se batchSize s =
     (if batchSize \<le> 0 then ((no_result, None), s)
      else
        (case claimDue so (se_claim se) (se_tokens se) (se_locked se) (nat batchSize) s of
           (Inl e, s1) \<Rightarrow> ((no_result, Some e), s1)
         | (Inr claimed, s1) \<Rightarrow>
             (let start = no_result\<lparr>pr_Claimed := length claimed\<rparr> in
              if claimed = [] then ((start, None), s1)
              else
                (case process_each so (se_process se) 0 (case se_ctx se of None \<Rightarrow> claimed | Some (n, _) \<Rightarrow> take n claimed) start s1 of
                   (r, s2) \<Rightarrow> ((r, map_option snd (se_ctx se)), s2)))))"

definition ScanAndHarvest :: "scanner_options \<Rightarrow> scan_env \<Rightarrow> int \<Rightarrow> db \<Rightarrow> (nat \<times> go_error option) \<times> db" where
  "ScanAndHarvest so se batchSize s = (case Scan so se batchSize s of ((r, e), s') \<Rightarrow> ((pr_Harvested r, e), s'))"

end
