(* ===== verification/PetsProps.thy ===== *)
theory PetsProps
  imports PetScanner FarmCommitProps
begin

text \<open>
  What pets guarantee: a pet is paid for once, and a pet harvests its farm at most every 30 seconds, whatever scanners, farm servers and the
  switch do to the schedule.
\<close>

section \<open>Buying\<close>

lemma lock_farm_Inr: "lock_farm env u s = Inr (x, s') \<Longrightarrow> s' = s \<and> map_of (farms s) u \<noteq> None"
  by (auto simp: lock_farm_def tx_inv query_exact_def split: option.splits if_splits)

lemma query_exact_Inr: "query_exact env l f s = Inr (v, s') \<Longrightarrow> s' = s \<and> (v = f s \<or> v = None)"
  by (auto simp: query_exact_def split: option.splits if_splits)

lemma nextPetActionAt_Inr:
  "nextPetActionAt now jitter = Inr at \<Longrightarrow> \<exists>j<4. at = now + (30 + int j) * second"
  by (auto simp: nextPetActionAt_def PetAutoHarvestInterval_def distrib_right split: option.splits)

definition scheduled :: "int \<Rightarrow> gotime option \<Rightarrow> db \<Rightarrow> db" where
  "scheduled f at s = (case map_of (farms s) f of
     None \<Rightarrow> s
   | Some r \<Rightarrow> s\<lparr>farms := AList.update f (r\<lparr>fr_next_pet := map_option datetime3 at, fr_lease_owner := None, fr_lease_until := None\<rparr>) (farms s)\<rparr>)"

lemma update_schedule_Inr: "update_schedule f at s = Inr (n, s') \<Longrightarrow> s' = scheduled f at s"
  by (auto simp: update_schedule_def scheduled_def Let_def split: option.splits)

definition bought :: "int \<Rightarrow> gotime \<Rightarrow> db \<Rightarrow> db" where
  "bought u at s = scheduled u (Some at) (s\<lparr>wallets := (wallets s)(u \<mapsto> the (wallets s u) - 200), pets := (pets s)(u \<mapsto> \<lparr>pt_status = PetActive, pt_auto = True\<rparr>)\<rparr>)"

lemma buy_body_Inr:
  assumes "buy_body env jitter u s = Inr (x, s')"
  shows "x = Committed () \<and> pets s u = None \<and> map_of (farms s) u \<noteq> None \<and> (\<exists>b. wallets s u = Some b \<and> 200 \<le> b)
    \<and> (\<exists>j<4. s' = bought u (clk_now env + (30 + int j) * second) s)"
proof -
  obtain b where b: "wallets s u = Some b" "200 \<le> b" "pets s u = None" "map_of (farms s) u \<noteq> None"
    and r: "\<exists>at n. nextPetActionAt (clk_now env) jitter = Inr at
       \<and> update_schedule u (Some at) (s\<lparr>wallets := (wallets s)(u \<mapsto> b - 200), pets := (pets s)(u \<mapsto> \<lparr>pt_status = PetActive, pt_auto = True\<rparr>)\<rparr>) = Inr (n, s')
       \<and> x = Committed ()"
    using assms unfolding buy_body_def
    by (auto simp: tx_inv PetPrice_def lift_sum_def dest!: lock_farm_Inr query_exact_Inr split: option.splits if_splits sum.splits)
  then obtain at n where at: "nextPetActionAt (clk_now env) jitter = Inr at"
    "update_schedule u (Some at) (s\<lparr>wallets := (wallets s)(u \<mapsto> b - 200), pets := (pets s)(u \<mapsto> \<lparr>pt_status = PetActive, pt_auto = True\<rparr>)\<rparr>) = Inr (n, s')"
    "x = Committed ()" by blast
  have "s' = bought u at s" using update_schedule_Inr [OF at(2)] b(1) by (simp add: bought_def)
  then show ?thesis using b at nextPetActionAt_Inr [OF at(1)] by auto
qed

lemma scheduled_other [simp]: "pets (scheduled f at s) = pets s" "wallets (scheduled f at s) = wallets s" "inventory (scheduled f at s) = inventory s"
  by (simp_all add: scheduled_def split: option.split)

lemma buy_effect:
  "snd (buyPetOnce u e s) = s
    \<or> pets s u = None \<and> map_of (farms s) u \<noteq> None \<and> (\<exists>b. wallets s u = Some b \<and> 200 \<le> b)
      \<and> (\<exists>j<4. snd (buyPetOnce u e s) = bought u (clk_now (fst e) + (30 + int j) * second) s)"
proof (cases rule: run_tx_cases [of "fst e" "buy_body (fst e) (snd e) u" s])
  case unchanged
  then show ?thesis by (simp add: buyPetOnce_def)
next
  case (applied a s')
  then show ?thesis using buy_body_Inr [OF applied(1)] by (simp add: buyPetOnce_def)
qed

lemma buy_ok:
  assumes "fst (buyPetOnce u e s) = Inr r"
  shows "pets (snd (buyPetOnce u e s)) u \<noteq> None"
proof -
  obtain s' where run: "run_tx (fst e) (buy_body (fst e) (snd e) u) s = (Inr r, s')"
    using assms unfolding buyPetOnce_def by (cases "run_tx (fst e) (buy_body (fst e) (snd e) u) s") simp
  from run_tx_ok [OF run] show ?thesis
  proof
    assume "buy_body (fst e) (snd e) u s = Inr (Committed r, s')"
    then show ?thesis using buy_body_Inr run by (fastforce simp: buyPetOnce_def bought_def)
  next
    assume "\<exists>t. buy_body (fst e) (snd e) u s = Inr (NoCommit r, t) \<and> s' = s"
    then show ?thesis using buy_body_Inr by fastforce
  qed
qed

interpretation pet_once: durable_once "\<lambda>_. True" "buyPetOnce u" "\<lambda>s. pets s u \<noteq> None" for u
proof (standard, goal_cases)
  case (2 s e)
  then show ?case using buy_effect [of u e s] by auto
next
  case (3 s e)
  show ?case using buy_effect [of u e s] by (auto simp: bought_def)
next
  case (4 s e r)
  then show ?case using buy_ok [of u e s r] by simp
qed simp

interpretation pet_call: durable_once "\<lambda>_. True" "\<lambda>x. BuyPet (fst x) (snd x) u" "\<lambda>s. pets s u \<noteq> None" for u
proof (standard, goal_cases)
  case (2 s e)
  then show ?case using pet_once.retry_replay [where s = s and u = u] by (simp add: BuyPet_def)
next
  case (3 s e)
  show ?case using pet_once.retry_effect [where s = s and u = u] by (simp add: BuyPet_def)
next
  case (4 s e r)
  then show ?case using pet_once.retry_success [where s = s and u = u and r = r] by (simp add: BuyPet_def)
qed simp

lemma BuyPet_effect:
  "snd (BuyPet wait envs u s) = s
    \<or> pets s u = None \<and> map_of (farms s) u \<noteq> None \<and> (\<exists>b. wallets s u = Some b \<and> 200 \<le> b)
      \<and> (\<exists>n. \<exists>j<4. snd (BuyPet wait envs u s) = bought u (clk_now (fst (envs n)) + (30 + int j) * second) s)"
proof -
  consider "snd (BuyPet wait envs u s) = s" | n where "snd (BuyPet wait envs u s) = snd (buyPetOnce u (envs n) s)"
    using pet_once.retry_one [where s = s and u = u and envs = envs and wait = wait and shouldRetry = IsTransient]
    unfolding BuyPet_def by blast
  then show ?thesis
  proof cases
    case (2 n)
    show ?thesis using buy_effect [of u "envs n" s] unfolding 2 by blast
  qed simp
qed

text \<open>C40: a pet is paid for once.  Over any run of purchases of one player, retried and with lost replies, and of operations that take no pet
  away, at most one changes the database and none after a reported success; the one that does found no pet, a farm and at
  least 200 coins, takes exactly 200 coins, stores an active pet with its automatic harvest switched on and
  schedules its first action 30 to 33 seconds later.\<close>

theorem pet_bought_once:
  assumes "others_keep (\<lambda>_. True) (\<lambda>s. pets s u \<noteq> None) h"
  shows "effective (\<lambda>x. BuyPet (fst x) (snd x) u) h s \<le> 1
    \<and> (fst (BuyPet wait envs u s) = Inr () \<longrightarrow> effective (\<lambda>x. BuyPet (fst x) (snd x) u) h (snd (BuyPet wait envs u s)) = 0)
    \<and> (snd (BuyPet wait envs u s) \<noteq> s \<longrightarrow>
         pets s u = None \<and> map_of (farms s) u \<noteq> None \<and> (\<exists>b. wallets s u = Some b \<and> 200 \<le> b)
         \<and> (\<exists>n. \<exists>j<4. snd (BuyPet wait envs u s) = bought u (clk_now (fst (envs n)) + (30 + int j) * second) s))"
  using pet_call.at_most_once [OF _ assms, of s]
    pet_call.nothing_after_success [where s = s and u = u and e = "(wait, envs)" and r = "()" and h = h] assms
    BuyPet_effect [of wait envs u s] by (intro conjI) (simp, simp, blast)

section \<open>The schedule of a farm\<close>

definition next_pet :: "db \<Rightarrow> int \<Rightarrow> gotime option" where
  "next_pet s f = Option.bind (map_of (farms s) f) fr_next_pet"

lemma farms_ok_update:
  assumes "farms_ok s" "map_of (farms s) f = Some r" "fr_owner r' = fr_owner r" "farms s' = AList.update f r' (farms s)"
  shows "farms_ok s'"
proof -
  have u: "unique_keys (farms s)" and o: "\<forall>(k, r)\<in>set (farms s). fr_owner r = k" using assms(1) by (simp_all add: farms_ok_def)
  have own: "fr_owner r = f" using o map_of_SomeD [OF assms(2)] by auto
  have u': "unique_keys (farms s')" using u assms(4) by simp
  have "fr_owner b = a" if "map_of (farms s') a = Some b" for a b
    using that own assms(3) o map_of_SomeD [of "farms s" a b] by (auto simp: assms(4) update_conv' split: if_splits)
  then show ?thesis using u' by (auto simp: farms_ok_def map_of_mem_iff [OF u', symmetric])
qed

text \<open>What changes only leases.\<close>

definition same_schedules :: "db \<Rightarrow> db \<Rightarrow> bool" where
  "same_schedules s s' \<longleftrightarrow> pets s' = pets s \<and> inventory s' = inventory s \<and> (farms_ok s \<longrightarrow> farms_ok s') \<and> (\<forall>f. next_pet s' f = next_pet s f)"

lemma same_schedules_refl [simp]: "same_schedules s s"
  by (simp add: same_schedules_def)

lemma same_schedules_trans: "same_schedules s t \<Longrightarrow> same_schedules t w \<Longrightarrow> same_schedules s w"
  by (simp add: same_schedules_def)

lemma row_update_schedules:
  assumes "map_of (farms s) f = Some r" "fr_owner r' = fr_owner r" "fr_next_pet r' = fr_next_pet r"
  shows "same_schedules s (s\<lparr>farms := AList.update f r' (farms s)\<rparr>)"
  unfolding same_schedules_def using assms farms_ok_update [OF _ assms(1,2)]
  by (auto simp: next_pet_def update_conv')

lemma claim_each_schedules: "claim_each env tokens until i fs s = Inr (x, s') \<Longrightarrow> same_schedules s s'"
proof (induction fs arbitrary: i s x)
  case (Cons f fs)
  then obtain token t y where t: "set_lease (sc_farmID f) token until s = Inr ((), t)" "claim_each env tokens until (Suc i) fs t = Inr (y, s')"
    by (auto simp: tx_inv split: option.splits)
  have "same_schedules s t" using t(1) row_update_schedules by (auto simp: set_lease_def split: option.splits)
  then show ?case using Cons.IH [OF t(2)] same_schedules_trans by blast
qed (simp add: tx_inv)

lemma claimDue_schedules: "same_schedules s (snd (claimDue so env tokens locked batch s))"
proof (cases rule: run_tx_cases [of env "claim_due_body so env tokens locked batch" s])
  case unchanged
  then show ?thesis by (simp add: claimDue_def)
next
  case (applied a s')
  then show ?thesis using claim_each_schedules by (auto simp: claimDue_def claim_due_body_def tx_inv)
qed

lemma run_auto_snd: "snd (run_auto env m s) = s \<or> (\<exists>a s'. m s = Inr (a, s') \<and> snd (run_auto env m s) = s')"
  by (auto simp: run_auto_def split: sum.split commit_outcome.split)

lemma leased_update_Inr:
  "leased_update f cond g s = Inr (x, s') \<Longrightarrow>
     s' = s \<or> (\<exists>r. map_of (farms s) f = Some r \<and> cond r \<and> s' = s\<lparr>farms := AList.update f (g r) (farms s)\<rparr>)"
  by (auto simp: leased_update_def split: option.splits if_splits)

lemma leased_auto:
  "snd (run_auto env (stmt env l (leased_update f cond g)) s) = s
    \<or> (\<exists>r. map_of (farms s) f = Some r \<and> cond r \<and> snd (run_auto env (stmt env l (leased_update f cond g)) s) = s\<lparr>farms := AList.update f (g r) (farms s)\<rparr>)"
proof -
  consider "snd (run_auto env (stmt env l (leased_update f cond g)) s) = s"
    | a s' where "stmt env l (leased_update f cond g) s = Inr (a, s')" "snd (run_auto env (stmt env l (leased_update f cond g)) s) = s'"
    using run_auto_snd [of env "stmt env l (leased_update f cond g)" s] by blast
  then show ?thesis
  proof cases
    case (2 a s')
    then show ?thesis using leased_update_Inr [of f cond g s a s'] by (simp add: stmt_Inr)
  qed simp
qed

lemma renew_schedules: "same_schedules s (snd (renewLease so env f token now s))"
proof -
  from leased_auto [of env "''renew_lease''" f "holds_lease token now" "\<lambda>r. r\<lparr>fr_lease_until := Some (datetime6 (now + so_LeaseTTL so))\<rparr>" s]
  show ?thesis unfolding renewLease_def [symmetric]
  proof (elim disjE exE conjE)
    fix r assume "map_of (farms s) f = Some r"
      "snd (renewLease so env f token now s) = s\<lparr>farms := AList.update f (r\<lparr>fr_lease_until := Some (datetime6 (now + so_LeaseTTL so))\<rparr>) (farms s)\<rparr>"
    then show ?thesis using row_update_schedules [of s f r "r\<lparr>fr_lease_until := Some (datetime6 (now + so_LeaseTTL so))\<rparr>"] by simp
  qed simp
qed

lemma push_schedules:
  "snd (pushNextPetAction env f expected token now s) = s
    \<or> (\<exists>r. map_of (farms s) f = Some r \<and> fr_next_pet r = Some (datetime6 expected)
        \<and> snd (pushNextPetAction env f expected token now s)
          = s\<lparr>farms := AList.update f (r\<lparr>fr_next_pet := Some (datetime3 (now + 30 * second)), fr_lease_owner := None, fr_lease_until := None\<rparr>) (farms s)\<rparr>)"
  unfolding pushNextPetAction_def using leased_auto by blast

section \<open>The cadence of harvests\<close>

lemma next_pet_update: "next_pet (s\<lparr>farms := AList.update f r (farms s)\<rparr>) g = (if g = f then fr_next_pet r else next_pet s g)"
  by (simp add: next_pet_def update_conv')

lemma datetime3_mono: "a \<le> b \<Longrightarrow> datetime3 a \<le> datetime3 b"
  unfolding datetime3_def by (intro mult_right_mono zdiv_mono1) simp_all

lemma datetime3_near: "t - 500000 \<le> datetime3 t \<and> datetime3 t \<le> t + 500000"
proof -
  have ms: "0 < millisecond" "millisecond = 1000000" by simp_all
  show ?thesis unfolding datetime3_def
    using div_mult_mod_eq [of "t + 500000" millisecond] pos_mod_sign [OF ms(1), of "t + 500000"] pos_mod_bound [OF ms(1), of "t + 500000"] ms(2)
    by linarith
qed

text \<open>What a farm commit does to the schedules.\<close>

definition harvests :: "committer \<Rightarrow> command \<Rightarrow> env \<Rightarrow> db \<Rightarrow> bool" where
  "harvests c cmd env s \<longleftrightarrow> cmd_Type cmd = CmdPetAutoHarvest \<and> snd (commitFarmOnce c cmd env s) \<noteq> s"

lemma commit_schedules:
  assumes "farm_inv s"
  shows "farm_inv (snd (commitFarmOnce c cmd env s)) \<and> pets (snd (commitFarmOnce c cmd env s)) = pets s
    \<and> (\<not> harvests c cmd env s \<longrightarrow> (\<forall>f. next_pet (snd (commitFarmOnce c cmd env s)) f = next_pet s f))
    \<and> (harvests c cmd env s \<longrightarrow>
         (\<exists>t. next_pet s (cmd_FarmID cmd) = Some t \<and> t \<le> clk_now env) \<and> pets s (cmd_FarmID cmd) \<noteq> None
         \<and> (\<forall>f. next_pet (snd (commitFarmOnce c cmd env s)) f
              = (if f = cmd_FarmID cmd then Some (datetime3 (clk_now env + 30 * second)) else next_pet s f)))"
proof (cases "snd (commitFarmOnce c cmd env s) = s")
  case True
  then show ?thesis using assms by (simp add: harvests_def)
next
  case False
  have ok: "farms_ok s" "inventory_ok s" using assms by (simp_all add: farm_inv_def)
  from False ok(2) show ?thesis
  proof (rule farm_took_effect)
    fix snap snap1 :: snapshot and nxt :: "gotime option" and ar iv
    let ?new = "snap1\<lparr>snap_Version := i64 (snap_Version snap + 1)\<rparr>"
    let ?s' = "snd (commitFarmOnce c cmd env s)"
    assume h: "read_snapshot s (cmd_FarmID cmd) = Inr (snap, nxt)"
      "cmd_Type cmd = CmdPetAutoHarvest \<Longrightarrow> cmd_ActorUser cmd = snap_OwnerID snap \<and> pet_enabled s (snap_OwnerID snap)
         \<and> (\<exists>t. nxt = Some t \<and> t = datetime6 (cmd_PetScheduledAt cmd) \<and> t \<le> clk_now env)"
      "applyCmd snap cmd (clk_now env) = Inr (ar, snap1)"
      "?s' = s\<lparr>inventory := iv, farms := upsert_farm ?new (pet_farms cmd (clk_now env) s),
            receipts := receipts_after env cmd ?new (receipts s),
            outbox := outbox s @ [entry_of env cmd ?new ar s]\<rparr>"
    note ids = read_snapshot_ids [OF h(1) ok(1)] and frame = applyCmd_frame [OF h(3)]
    have fs: "farms ?s' = upsert_farm ?new (pet_farms cmd (clk_now env) s)" and ps: "pets ?s' = pets s" by (simp_all add: h(4))
    have nx: "next_pet s (cmd_FarmID cmd) = nxt" using h(1)
      by (auto simp: read_snapshot_def next_pet_def split: option.splits sum.splits)
    have look: "map_of (farms ?s') f = (if f = cmd_FarmID cmd
       then Some (case map_of (pet_farms cmd (clk_now env) s) f of Some r \<Rightarrow> stored_row ?new r | None \<Rightarrow> new_farm_row ?new)
       else map_of (farms s) f)" for f
      unfolding fs by (rule map_of_farms_after [OF ok(1)]) (simp_all add: ids frame)
    have other: "next_pet ?s' f = next_pet s f" if "f \<noteq> cmd_FarmID cmd" for f using that by (simp add: next_pet_def look)
    have plain: "next_pet ?s' (cmd_FarmID cmd) = next_pet s (cmd_FarmID cmd)" if "cmd_Type cmd \<noteq> CmdPetAutoHarvest"
      using that by (simp add: next_pet_def look pet_farms_def stored_row_def new_farm_row_def split: option.split)
    have pet: "next_pet ?s' (cmd_FarmID cmd) = Some (datetime3 (clk_now env + 30 * second))
       \<and> (\<exists>t. next_pet s (cmd_FarmID cmd) = Some t \<and> t \<le> clk_now env) \<and> pets s (cmd_FarmID cmd) \<noteq> None" if p: "cmd_Type cmd = CmdPetAutoHarvest"
    proof -
      obtain t where t: "nxt = Some t" "t \<le> clk_now env" "pet_enabled s (cmd_FarmID cmd)" using h(2) [OF p] ids by auto
      obtain r where r: "map_of (farms s) (cmd_FarmID cmd) = Some r" using t(1) nx by (auto simp: next_pet_def bind_eq_Some_conv)
      have "next_pet ?s' (cmd_FarmID cmd) = Some (datetime3 (clk_now env + 30 * second))"
        using p r by (simp add: next_pet_def look pet_farms_def update_conv' stored_row_def rescheduled_def)
      then show ?thesis using t nx by (auto simp: pet_enabled_def split: option.splits)
    qed
    have all: "next_pet ?s' f = next_pet s f" if "cmd_Type cmd \<noteq> CmdPetAutoHarvest" for f
      using other [of f] plain [OF that] by (cases "f = cmd_FarmID cmd") simp_all
    have "next_pet ?s' f = (if f = cmd_FarmID cmd then Some (datetime3 (clk_now env + 30 * second)) else next_pet s f)"
      if "cmd_Type cmd = CmdPetAutoHarvest" for f
      using other [of f] pet [OF that] by simp
    then show ?thesis
      using farm_effect_applied [OF assms False] ps all pet False by (simp add: harvests_def)
  qed
qed

text \<open>The switch.\<close>

lemma nextPetActionAt_late: "nextPetActionAt now jitter = Inr at \<Longrightarrow> now + 30 * second \<le> at"
  using nextPetActionAt_Inr [of now jitter at] by auto

lemma tx_return_bind [simp]: "tx_bind (tx_return a) f = f a"
  by (simp add: tx_bind_def tx_return_def fun_eq_iff)

definition switched :: "int \<Rightarrow> gotime \<Rightarrow> db \<Rightarrow> db \<Rightarrow> bool" where
  "switched u now s s' \<longleftrightarrow> s' = s \<or> (\<exists>p at. s' = scheduled u at (s\<lparr>pets := (pets s)(u \<mapsto> p)\<rparr>)
      \<and> (case at of None \<Rightarrow> True | Some t \<Rightarrow> now + 30 * second \<le> t))"

lemma switchedI:
  "switched u now s s"
  "switched u now s (scheduled u None (s\<lparr>pets := (pets s)(u \<mapsto> p)\<rparr>))"
  "now + 30 * second \<le> t \<Longrightarrow> switched u now s (scheduled u (Some t) (s\<lparr>pets := (pets s)(u \<mapsto> p)\<rparr>))"
  unfolding switched_def by (blast, force, force)

lemma switch_body_Inr:
  assumes "switch_body env jitter u enabled s = Inr (x, s')"
  shows "switched u (clk_now env) s s'"
proof -
  obtain pet r where 1: "(case pet of
          None \<Rightarrow> tx_fail (New PetNotOwned)
        | Some p \<Rightarrow>
            tx_seq (tx_guard (pt_status p = PetActive) (New PetNotOwned))
              (if pt_auto p = enabled \<and> enabled then tx_return (Committed ())
               else
                 tx_seq (stmt env ''update_pet'' (tx_modify (\<lambda>s. s\<lparr>pets := (pets s)(u \<mapsto> p\<lparr>pt_auto := enabled\<rparr>)\<rparr>)))
                   (tx_bind (if enabled then tx_bind (lift_sum (nextPetActionAt (clk_now env) jitter)) (\<lambda>at. tx_return (Some at)) else tx_return None) (\<lambda>at.
                     tx_bind (stmt env ''update_pet_schedule'' (update_schedule u at)) (\<lambda>affected.
                       tx_seq (tx_guard (affected \<noteq> 0) (New FarmNotFound)) (tx_return (Committed ()))))))) s = Inr r" "r = (x, s')"
    using assms unfolding switch_body_def tx_bind_Inr [where m = "lock_farm env u"] tx_bind_Inr [where m = "query_exact env _ _"]
    by (blast dest: lock_farm_Inr query_exact_Inr)
  show ?thesis
  proof (cases enabled)
    case True
    then show ?thesis using 1 by (auto simp: tx_inv lift_sum_def split: option.splits if_splits sum.splits dest!: update_schedule_Inr nextPetActionAt_late intro: switchedI)
  next
    case False
    then show ?thesis using 1 by (auto simp: tx_inv split: option.splits if_splits dest!: update_schedule_Inr intro: switchedI)
  qed
qed

lemma once_switched: "switched u (clk_now (fst e)) s (snd (setAutoHarvestOnce u enabled e s))"
proof (cases rule: run_tx_cases [of "fst e" "switch_body (fst e) (snd e) u enabled" s])
  case unchanged
  then show ?thesis by (simp add: setAutoHarvestOnce_def switchedI)
next
  case (applied a s')
  then show ?thesis using switch_body_Inr [OF applied(1)] by (simp add: setAutoHarvestOnce_def)
qed

text \<open>The steps that touch farms and pets, in any order and by any number of servers: one statement or transaction each.  A commit and a switch
  carry the clock of their server.  Everything else leaves the two tables alone.\<close>

datatype pet_step =
    StepClaim scanner_options env "nat \<Rightarrow> string option" "int set" nat
  | StepRenew scanner_options env int string gotime
  | StepPush env int gotime string gotime
  | StepCommit committer command env
  | StepBuy int "env \<times> nat option"
  | StepSwitch int bool "env \<times> nat option"
  | StepOther "db \<Rightarrow> db"

primrec pet_do :: "pet_step \<Rightarrow> db \<Rightarrow> db" where
  "pet_do (StepClaim so env tokens locked batch) s = snd (claimDue so env tokens locked batch s)"
| "pet_do (StepRenew so env f token now) s = snd (renewLease so env f token now s)"
| "pet_do (StepPush env f expected token now) s = snd (pushNextPetAction env f expected token now s)"
| "pet_do (StepCommit c cmd env) s = snd (commitFarmOnce c cmd env s)"
| "pet_do (StepBuy u e) s = snd (buyPetOnce u e s)"
| "pet_do (StepSwitch u enabled e) s = snd (setAutoHarvestOnce u enabled e s)"
| "pet_do (StepOther g) s = g s"

text \<open>A harvest that took effect, with its farm and the clock of its commit.\<close>

primrec harvested_at :: "pet_step \<Rightarrow> db \<Rightarrow> (int \<times> gotime) list" where
  "harvested_at (StepClaim so env tokens locked batch) s = []"
| "harvested_at (StepRenew so env f token now) s = []"
| "harvested_at (StepPush env f expected token now) s = []"
| "harvested_at (StepCommit c cmd env) s = (if harvests c cmd env s then [(cmd_FarmID cmd, clk_now env)] else [])"
| "harvested_at (StepBuy u e) s = []"
| "harvested_at (StepSwitch u enabled e) s = []"
| "harvested_at (StepOther g) s = []"

fun pet_log :: "pet_step list \<Rightarrow> db \<Rightarrow> (int \<times> gotime) list" where
  "pet_log [] s = []"
| "pet_log (x # xs) s = harvested_at x s @ pet_log xs (pet_do x s)"

primrec step_clock :: "pet_step \<Rightarrow> gotime list" where
  "step_clock (StepClaim so env tokens locked batch) = []"
| "step_clock (StepRenew so env f token now) = []"
| "step_clock (StepPush env f expected token now) = []"
| "step_clock (StepCommit c cmd env) = [clk_now env]"
| "step_clock (StepBuy u e) = []"
| "step_clock (StepSwitch u enabled e) = [clk_now (fst e)]"
| "step_clock (StepOther g) = []"

text \<open>A scanner reschedules what it claimed, which was due; the other steps leave farms, pets and the inventory's range alone.\<close>

primrec proper_step :: "pet_step \<Rightarrow> bool" where
  "proper_step (StepClaim so env tokens locked batch) \<longleftrightarrow> True"
| "proper_step (StepRenew so env f token now) \<longleftrightarrow> True"
| "proper_step (StepPush env f expected token now) \<longleftrightarrow> expected \<le> now"
| "proper_step (StepCommit c cmd env) \<longleftrightarrow> True"
| "proper_step (StepBuy u e) \<longleftrightarrow> True"
| "proper_step (StepSwitch u enabled e) \<longleftrightarrow> True"
| "proper_step (StepOther g) \<longleftrightarrow> (\<forall>s. farms (g s) = farms s \<and> pets (g s) = pets s \<and> (inventory_ok s \<longrightarrow> inventory_ok (g s)))"

text \<open>After a harvest of a farm at a clock its next action is 30 seconds away or not scheduled at all.\<close>

definition waits :: "(int \<times> gotime) set \<Rightarrow> db \<Rightarrow> bool" where
  "waits H s \<longleftrightarrow> farm_inv s \<and> (\<forall>(f, t)\<in>H. pets s f \<noteq> None \<and> (case next_pet s f of None \<Rightarrow> True | Some n \<Rightarrow> datetime3 (t + 30 * second) \<le> n))"

lemma waits_same:
  assumes "waits H s" "same_schedules s s'"
  shows "waits H s'"
  using assms by (simp add: waits_def same_schedules_def farm_inv_def inventory_ok_def)

lemma farms_ok_scheduled:
  assumes "farms_ok s"
  shows "farms_ok (scheduled f at s)"
proof (cases "map_of (farms s) f")
  case (Some r)
  show ?thesis by (rule farms_ok_update [OF assms Some]) (simp_all add: scheduled_def Some)
qed (simp add: scheduled_def assms)

lemma datetime6_near: "datetime6 t \<le> t + 500"
  unfolding datetime6_def using div_mult_mod_eq [of "t + 500" 1000] pos_mod_sign [of 1000 "t + 500"] by linarith

lemma next_pet_scheduled: "next_pet (scheduled f at s) g = (if g = f then (if map_of (farms s) f = None then None else map_option datetime3 at) else next_pet s g)"
  by (auto simp: scheduled_def next_pet_update next_pet_def split: option.split)

lemma farms_ok_pets [simp]: "farms_ok (s\<lparr>pets := p\<rparr>) = farms_ok s" "farms_ok (s\<lparr>wallets := w, pets := p\<rparr>) = farms_ok s"
  by (simp_all add: farms_ok_def)

lemma next_pet_pets [simp]: "next_pet (s\<lparr>pets := p\<rparr>) f = next_pet s f" "next_pet (s\<lparr>wallets := w, pets := p\<rparr>) f = next_pet s f"
  by (simp_all add: next_pet_def)

lemma scheduled_waits:
  assumes "waits H s" "farms s0 = farms s" "inventory s0 = inventory s" "\<And>f. pets s f \<noteq> None \<Longrightarrow> pets s0 f \<noteq> None"
    and "\<And>t n. (u, t) \<in> H \<Longrightarrow> at = Some n \<Longrightarrow> datetime3 (t + 30 * second) \<le> datetime3 n"
  shows "waits H (scheduled u at s0)"
proof -
  have inv: "farms_ok s0" "inventory_ok s0" using assms(1,2,3) by (simp_all add: waits_def farm_inv_def farms_ok_def inventory_ok_def)
  have nx: "next_pet s0 = next_pet s" using assms(2) by (simp add: next_pet_def fun_eq_iff)
  have "farm_inv (scheduled u at s0)" using inv farms_ok_scheduled by (simp add: farm_inv_def inventory_ok_def)
  moreover have "pets (scheduled u at s0) f \<noteq> None
      \<and> (case next_pet (scheduled u at s0) f of None \<Rightarrow> True | Some n \<Rightarrow> datetime3 (t + 30 * second) \<le> n)" if "(f, t) \<in> H" for f t
  proof -
    have o: "pets s f \<noteq> None" "case next_pet s f of None \<Rightarrow> True | Some n \<Rightarrow> datetime3 (t + 30 * second) \<le> n"
      using assms(1) that unfolding waits_def by blast+
    show ?thesis using o assms(4) [OF o(1)] assms(5) that by (cases "f = u"; cases at) (auto simp: next_pet_scheduled nx)
  qed
  ultimately show ?thesis by (auto simp: waits_def)
qed

lemma step_waits:
  assumes "waits H s" "proper_step x" "\<forall>(f, t)\<in>H. \<forall>c\<in>set (step_clock x). t \<le> c"
  shows "waits (H \<union> set (harvested_at x s)) (pet_do x s)
    \<and> (\<forall>(f, t)\<in>set (harvested_at x s). \<forall>(g, u)\<in>H. g = f \<longrightarrow> datetime3 (u + 30 * second) \<le> t)"
proof (cases x)
  case (StepClaim so env tokens locked batch)
  then show ?thesis using waits_same [OF assms(1) claimDue_schedules] by simp
next
  case (StepRenew so env f token now)
  then show ?thesis using waits_same [OF assms(1) renew_schedules] by simp
next
  case (StepPush env f expected token now)
  let ?s' = "snd (pushNextPetAction env f expected token now s)"
  have "waits H ?s'"
  proof (cases "?s' = s")
    case False
    with push_schedules [of env f expected token now s] obtain r where r: "map_of (farms s) f = Some r" "fr_next_pet r = Some (datetime6 expected)"
      "?s' = s\<lparr>farms := AList.update f (r\<lparr>fr_next_pet := Some (datetime3 (now + 30 * second)), fr_lease_owner := None, fr_lease_until := None\<rparr>) (farms s)\<rparr>"
      by blast
    have ok: "farms_ok ?s'" unfolding r(3)
      by (rule farms_ok_update [OF _ r(1)]) (use assms(1) in \<open>simp_all add: waits_def farm_inv_def\<close>)
    have late: "datetime3 (t + 30 * second) \<le> datetime3 (now + 30 * second)" if "(f, t) \<in> H" for t
    proof -
      have "datetime3 (t + 30 * second) \<le> datetime6 expected" using assms(1) that r(1,2) by (fastforce simp: waits_def next_pet_def)
      also have "datetime6 expected \<le> now + 500" using assms(2) StepPush datetime6_near [of expected] by simp
      finally have "t + 30 * second - 500000 \<le> now + 500" using datetime3_near [of "t + 30 * second"] by linarith
      then have "t \<le> now" by simp
      then show ?thesis by (intro datetime3_mono) simp
    qed
    have "next_pet ?s' g = (if g = f then Some (datetime3 (now + 30 * second)) else next_pet s g)" for g
      unfolding r(3) next_pet_update by simp
    then show ?thesis using assms(1) ok late unfolding waits_def farm_inv_def by (auto simp: r(3) inventory_ok_def)
  qed (use assms(1) in simp)
  then show ?thesis using StepPush by simp
next
  case (StepCommit c cmd env)
  let ?s' = "snd (commitFarmOnce c cmd env s)"
  have "farm_inv s" using assms(1) by (simp add: waits_def)
  note e = commit_schedules [OF this, of c cmd env]
  show ?thesis
  proof (cases "harvests c cmd env s")
    case False
    then have "waits H ?s'" using e assms(1) by (auto simp: waits_def)
    then show ?thesis using False StepCommit by simp
  next
    case True
    obtain n where n: "next_pet s (cmd_FarmID cmd) = Some n" "n \<le> clk_now env" using e True by blast
    have nx: "next_pet ?s' g = (if g = cmd_FarmID cmd then Some (datetime3 (clk_now env + 30 * second)) else next_pet s g)" for g
      using e True by blast
    have gap: "datetime3 (t + 30 * second) \<le> clk_now env" if "(cmd_FarmID cmd, t) \<in> H" for t
      using assms(1) that n by (fastforce simp: waits_def)
    have mono: "datetime3 (t + 30 * second) \<le> datetime3 (clk_now env + 30 * second)" if "(cmd_FarmID cmd, t) \<in> H" for t
      using assms(3) that StepCommit by (intro datetime3_mono) auto
    have "waits (insert (cmd_FarmID cmd, clk_now env) H) ?s'"
      using e True assms(1) mono unfolding waits_def by (auto simp: nx)
    then show ?thesis using True StepCommit gap by auto
  qed
next
  case (StepBuy u e)
  have "waits H (snd (buyPetOnce u e s))"
    using buy_effect [of u e s]
  proof (elim disjE conjE exE)
    fix j b assume p: "pets s u = None" and s': "snd (buyPetOnce u e s) = bought u (clk_now (fst e) + (30 + int j) * second) s"
    have "(u, t) \<notin> H" for t using assms(1) p by (fastforce simp: waits_def)
    then show ?thesis unfolding s' bought_def by (intro scheduled_waits [OF assms(1)]) auto
  qed (use assms(1) in simp)
  then show ?thesis using StepBuy by simp
next
  case (StepSwitch u enabled e)
  have "waits H (snd (setAutoHarvestOnce u enabled e s))"
    using once_switched [of u e s enabled] unfolding switched_def
  proof (elim disjE exE conjE)
    fix p at assume s': "snd (setAutoHarvestOnce u enabled e s) = scheduled u at (s\<lparr>pets := (pets s)(u \<mapsto> p)\<rparr>)"
      and at: "case at of None \<Rightarrow> True | Some t \<Rightarrow> clk_now (fst e) + 30 * second \<le> t"
    have late: "datetime3 (t + 30 * second) \<le> datetime3 n" if "(u, t) \<in> H" "at = Some n" for t n
      using assms(3) that at StepSwitch by (intro datetime3_mono) force
    show ?thesis unfolding s' by (intro scheduled_waits [OF assms(1)] late) auto
  qed (use assms(1) in simp)
  then show ?thesis using StepSwitch by simp
next
  case (StepOther g)
  then have "waits H (g s)" using assms(1,2) by (simp add: waits_def farm_inv_def farms_ok_def next_pet_def)
  then show ?thesis using StepOther by simp
qed

definition clocks :: "pet_step list \<Rightarrow> gotime list" where "clocks xs = concat (map step_clock xs)"

definition spaced :: "int \<times> gotime \<Rightarrow> int \<times> gotime \<Rightarrow> bool" where
  "spaced h h' \<longleftrightarrow> (fst h = fst h' \<longrightarrow> datetime3 (snd h + 30 * second) \<le> snd h')"

lemma step_log_one: "sorted_wrt P (harvested_at x s) \<and> set (map snd (harvested_at x s)) \<subseteq> set (step_clock x)"
  by (cases x) simp_all

lemma log_spaced:
  assumes "waits H s" "list_all proper_step xs" "sorted (clocks xs)" "\<forall>(f, t)\<in>H. \<forall>c\<in>set (clocks xs). t \<le> c"
  shows "sorted_wrt spaced (pet_log xs s) \<and> (\<forall>h\<in>set (pet_log xs s). \<forall>h'\<in>H. spaced h' h)"
  using assms
proof (induction xs arbitrary: s H)
  case (Cons x xs)
  have p: "proper_step x" "list_all proper_step xs" using Cons.prems(2) by simp_all
  have c: "sorted (clocks xs)" "\<forall>c\<in>set (step_clock x). \<forall>d\<in>set (clocks xs). c \<le> d"
    using Cons.prems(3) by (simp_all add: clocks_def sorted_append)
  have H1: "\<forall>(f, t)\<in>H. \<forall>c\<in>set (step_clock x). t \<le> c" using Cons.prems(4) by (fastforce simp: clocks_def)
  note st = step_waits [OF Cons.prems(1) p(1) H1]
  have "\<forall>(f, t)\<in>H \<union> set (harvested_at x s). \<forall>d\<in>set (clocks xs). t \<le> d"
    using Cons.prems(4) c(2) step_log_one [of _ x s] by (fastforce simp: clocks_def)
  note ih = Cons.IH [OF st [THEN conjunct1] p(2) c(1) this]
  have now: "\<forall>h\<in>set (harvested_at x s). \<forall>h'\<in>H. spaced h' h" using st by (fastforce simp: spaced_def)
  show ?case using ih now step_log_one [of spaced x s] by (auto simp: sorted_wrt_append)
qed simp

text \<open>C38: a pet harvests its farm at most every 30 seconds.  Over any interleaving of scanners that claim, renew and reschedule, of farm commits
  of every kind (the harvests that any scanner or client submits among them), of purchases, of the switch and of whatever leaves
  farms and pets alone, with failures and lost replies everywhere, and with no order assumed between the clocks of the
  scanners: as long as the clocks of the commits and of the switch do not run backwards, a harvest that takes effect comes at least
  30 seconds, up to the rounding of the column to milliseconds, after every earlier one of the same farm.\<close>

theorem pet_harvests_are_spaced:
  assumes "farm_inv s" "list_all proper_step xs" "sorted (clocks xs)"
  shows "sorted_wrt (\<lambda>(f, t) (g, u). f = g \<longrightarrow> datetime3 (t + 30 * second) \<le> u) (pet_log xs s)"
proof -
  have "waits {} s" using assms(1) by (simp add: waits_def)
  from log_spaced [OF this assms(2,3)] have "sorted_wrt spaced (pet_log xs s)" by simp
  then show ?thesis by (rule sorted_wrt_mono_rel [rotated]) (auto simp: spaced_def)
qed

section \<open>The scanner and the committer\<close>

text \<open>Processing a claimed farm is at most two steps.\<close>

lemma process_is_steps:
  assumes "\<And>cmd t. pe_submit pe cmd t = commitFarmOnce c (cmd\<lparr>cmd_RouteEpoch := e\<rparr>) env t" "sc_nextActionAt f \<le> clk_now (pe_renew pe)"
  shows "\<exists>xs. list_all proper_step xs \<and> length xs \<le> 2 \<and> snd (processClaimedFarm so pe f s) = fold pet_do xs s"
proof -
  let ?now = "clk_now (pe_renew pe)" and ?renew = "StepRenew so (pe_renew pe) (sc_farmID f) (sc_leaseToken f) (clk_now (pe_renew pe))"
  let ?push = "StepPush (pe_push pe) (sc_farmID f) (sc_nextActionAt f) (sc_leaseToken f) (clk_now (pe_renew pe))"
  obtain r s1 where 1: "renewLease so (pe_renew pe) (sc_farmID f) (sc_leaseToken f) ?now s = (r, s1)"
    by (cases "renewLease so (pe_renew pe) (sc_farmID f) (sc_leaseToken f) ?now s")
  have only: "\<exists>xs. list_all proper_step xs \<and> length xs \<le> 2 \<and> s1 = fold pet_do xs s"
    by (rule exI [of _ "[?renew]"]) (simp add: 1)
  have two: "\<exists>xs. list_all proper_step xs \<and> length xs \<le> 2 \<and> pet_do y s1 = fold pet_do xs s" if "proper_step y" for y
    by (rule exI [of _ "[?renew, y]"]) (simp add: 1 that)
  show ?thesis
  proof (cases "r = Inr True")
    case False
    then have "snd (processClaimedFarm so pe f s) = s1"
      by (auto simp: processClaimedFarm_def 1 Let_def split: sum.split)
    then show ?thesis using only by simp
  next
    case True
    show ?thesis
    proof (cases "findSmallestMaturePlotChecked (sc_snapJSON f) ?now")
      case None
      then have "snd (processClaimedFarm so pe f s) = pet_do ?push s1"
        by (simp add: processClaimedFarm_def 1 True Let_def split: sum.split prod.split)
      then show ?thesis using two [of ?push] assms(2) by simp
    next
      case (Some p)
      then have "snd (processClaimedFarm so pe f s) = pet_do (StepCommit c (harvest_command f p\<lparr>cmd_RouteEpoch := e\<rparr>) env) s1"
        by (simp add: processClaimedFarm_def 1 True Let_def assms(1) split: sum.split prod.split)
      then show ?thesis using two [of "StepCommit c (harvest_command f p\<lparr>cmd_RouteEpoch := e\<rparr>) env"] by simp
    qed
  qed
qed

lemma hd_sort_Min:
  assumes "(xs :: int list) \<noteq> []"
  shows "\<exists>ys. sort xs = Min (set xs) # ys"
proof -
  obtain y ys where y: "sort xs = y # ys" using assms by (metis length_0_conv length_sort neq_Nil_conv)
  have "sorted (sort xs)" "set (sort xs) = set xs" by simp_all
  then have "sorted (y # ys)" "set (y # ys) = set xs" unfolding y .
  then have "Min (set xs) = y" by (intro Min_eqI) auto
  then show ?thesis using y by blast
qed

lemma pet_mature_json:
  assumes "plot_ok p"
  shows "pet_mature now (plot_to_json p) \<longleftrightarrow> EffectiveStatus p now = PlotMature"
proof -
  have "Status p = PlotEmpty \<or> Status p = PlotGrowing" using assms by (auto simp: plot_ok_def)
  then show ?thesis by (auto simp: pet_mature_def plot_to_json_def EffectiveStatus_def status_text_def)
qed

lemma scanner_finds_smallest:
  assumes "plots_ok ps" "int32_keys ps"
  shows "findSmallestMaturePlotChecked (map (\<lambda>(k, p). (format_int k, plot_to_json p)) ps) now = smallestMaturePlotID ps now"
proof -
  let ?found = "List.map_filter (\<lambda>(key, p). if pet_mature now p then parse_int 32 key else None) (map (\<lambda>(k, p). (format_int k, plot_to_json p)) ps)"
  have "set (List.map_filter (\<lambda>(key, p). if pet_mature now p then parse_int 32 key else None) (map (\<lambda>(k, p). (format_int k, plot_to_json p)) qs)) = mature_ids qs now"
    if "set qs \<subseteq> set ps" for qs
    using that
  proof (induction qs)
    case (Cons q qs)
    obtain k p where q: "q = (k, p)" by (cases q)
    have ok: "plot_ok p" using assms(1) Cons.prems q by (auto simp: plots_ok_def)
    have key: "parse_int 32 (format_int k) = Some k" using assms(2) Cons.prems q by (force simp: int32_keys_def intro: parse_int32)
    show ?case using Cons pet_mature_json [OF ok, of now] key by (simp add: q mature_ids_Cons List.map_filter_def)
  qed (simp add: mature_ids_def List.map_filter_def)
  then have set: "set ?found = mature_ids ps now" by simp
  show ?thesis
  proof (cases "?found = []")
    case True
    then have "mature_ids ps now = {}" using set by (metis empty_set)
    then show ?thesis unfolding findSmallestMaturePlotChecked_def True by (simp add: smallestMaturePlotID_spec)
  next
    case False
    then have ne: "mature_ids ps now \<noteq> {}" using set by (metis set_empty)
    obtain ys where "sort ?found = Min (mature_ids ps now) # ys" using hd_sort_Min [OF False] unfolding set by blast
    then show ?thesis unfolding findSmallestMaturePlotChecked_def using ne by (simp add: smallestMaturePlotID_spec)
  qed
qed

lemma mature_applies:
  assumes "snapshot_ok snap" "smallestMaturePlotID (snap_Plots snap) now = Some p" "cmd_Type cmd = CmdPetAutoHarvest" "cmd_PlotID cmd = p"
  shows "\<exists>ar snap'. applyCmd snap cmd now = Inr (ar, snap') \<and> 1 \<le> ar_harvestedYield ar"
proof -
  have ne: "mature_ids (snap_Plots snap) now \<noteq> {}" and pm: "p = Min (mature_ids (snap_Plots snap) now)"
    using assms(2) by (auto simp: smallestMaturePlotID_spec split: if_splits)
  have "mature_ids (snap_Plots snap) now \<subseteq> fst ` set (snap_Plots snap)" by (force simp: mature_ids_def)
  then have "finite (mature_ids (snap_Plots snap) now)" by (rule finite_subset) simp
  then have "p \<in> mature_ids (snap_Plots snap) now" using ne pm by (metis Min_in)
  then obtain q where q: "(p, q) \<in> set (snap_Plots snap)" "EffectiveStatus q now = PlotMature" by (auto simp: mature_ids_def)
  have ok: "unique_keys (snap_Plots snap)" "PlotID q = p" "plot_ok q" using assms(1) q(1) by (auto simp: snapshot_ok_def plots_ok_def)
  have "map_of (snap_Plots snap) p = Some q" using ok(1) q(1) by (simp add: unique_keys_def)
  then have t: "target_plot snap cmd = q" using ok(2) assms(4) by (simp add: target_plot_def plot_at_def)
  have "1 \<le> RemainingYield q" using ok(3) q(2) by (auto simp: plot_ok_def EffectiveStatus_def split: if_splits)
  then show ?thesis using assms(2-4) q(2) by (simp add: applyCmd_target t apply_pet_harvest_def harvested_def plain_result_def Let_def)
qed

lemma claimed_from:
  assumes "claim_each env tokens until i fs s = Inr (claimed, s')" "f \<in> set claimed"
  shows "\<exists>g\<in>set fs. sc_farmID f = sc_farmID g \<and> sc_ownerID f = sc_ownerID g \<and> sc_snapJSON f = sc_snapJSON g \<and> sc_nextActionAt f = sc_nextActionAt g"
  using assms
proof (induction fs arbitrary: i s claimed)
  case (Cons g fs)
  then obtain token t rest where t: "claim_each env tokens until (Suc i) fs t = Inr (rest, s')" "claimed = g\<lparr>sc_leaseToken := token\<rparr> # rest"
    by (auto simp: tx_inv split: option.splits)
  show ?case
  proof (cases "f = g\<lparr>sc_leaseToken := token\<rparr>")
    case False
    then have "f \<in> set rest" using Cons.prems(2) t(2) by simp
    from Cons.IH [OF t(1) this] show ?thesis by auto
  qed auto
qed (simp add: tx_inv)

lemma claimed_is_due:
  assumes "claimDue so env tokens locked batch s = (Inr claimed, s1)" "f \<in> set claimed"
  shows "\<exists>r. (sc_farmID f, r) \<in> set (farms s) \<and> sc_ownerID f = fr_owner r \<and> sc_snapJSON f = fr_snapshot r \<and> fr_next_pet r = Some (sc_nextActionAt f)
    \<and> sc_nextActionAt f \<le> datetime6 (clk_now env) \<and> pet_enabled s (fr_owner r)
    \<and> (case fr_lease_until r of None \<Rightarrow> True | Some t \<Rightarrow> t \<le> datetime6 (clk_now env))"
proof -
  from run_tx_ok [OF assms(1) [unfolded claimDue_def]]
  have "claim_due_body so env tokens locked batch s = Inr (Committed claimed, s1)"
    by (auto simp: claim_due_body_def tx_inv)
  then obtain t where "claim_each env tokens (clk_now env + so_LeaseTTL so) 0 (due_farms (clk_now env) locked batch s) s = Inr (claimed, t)"
    by (auto simp: claim_due_body_def tx_inv)
  from claimed_from [OF this assms(2)] obtain g where g: "g \<in> set (due_farms (clk_now env) locked batch s)"
    "sc_farmID f = sc_farmID g" "sc_ownerID f = sc_ownerID g" "sc_snapJSON f = sc_snapJSON g" "sc_nextActionAt f = sc_nextActionAt g" by blast
  then show ?thesis
    by (auto simp: due_farms_def pet_due_def split: option.splits dest!: in_set_takeD)
qed

text \<open>C39: the command of the scanner is what the committer accepts.  For a farm that a scan has claimed, and as long as the farm is as the claim found
  it: the scanner picks from the stored JSON exactly the plot that the committer takes for the smallest mature one, no plot when
  the committer finds none; and at that clock its command passes the check of the schedule and of the pet, and is
  applied with a yield of at least one.\<close>

theorem scanner_command_is_accepted:
  assumes "claimDue so env tokens locked batch s = (Inr claimed, s1)" "f \<in> set claimed" "wf_db s"
    and "read_snapshot s (sc_farmID f) = Inr (snap, nxt)" "snapshot_ok snap" "int32_keys (snap_Plots snap)"
    and "sc_snapJSON f = marshalSnapshot snap" "0 < sc_nextActionAt f" "sc_nextActionAt f \<le> now"
  shows "findSmallestMaturePlotChecked (sc_snapJSON f) now = smallestMaturePlotID (snap_Plots snap) now
    \<and> (\<forall>p. findSmallestMaturePlotChecked (sc_snapJSON f) now = Some p \<longrightarrow>
          check_pet_schedule (harvest_command f p) snap nxt now s = Inr ((), s)
          \<and> pet_enabled s (snap_OwnerID snap)
          \<and> (\<exists>ar snap'. applyCmd snap (harvest_command f p) now = Inr (ar, snap') \<and> 1 \<le> ar_harvestedYield ar))"
proof -
  obtain r where r: "(sc_farmID f, r) \<in> set (farms s)" "sc_ownerID f = fr_owner r" "fr_next_pet r = Some (sc_nextActionAt f)" "pet_enabled s (fr_owner r)"
    using claimed_is_due [OF assms(1,2)] by blast
  have ok: "farms_ok s" using assms(3) by (simp add: wf_db_def)
  have row: "map_of (farms s) (sc_farmID f) = Some r" using ok r(1) by (simp add: farms_ok_def unique_keys_def)
  have snap: "snap_OwnerID snap = fr_owner r" "nxt = Some (sc_nextActionAt f)"
    using assms(4) row r(3) by (auto simp: read_snapshot_def unmarshalSnapshot_def split: sum.splits)
  have eq: "findSmallestMaturePlotChecked (sc_snapJSON f) now = smallestMaturePlotID (snap_Plots snap) now"
    unfolding assms(7) marshalSnapshot_def using scanner_finds_smallest assms(5,6) by (simp add: snapshot_ok_def)
  have "check_pet_schedule (harvest_command f p) snap nxt now s = Inr ((), s)" for p
    unfolding check_pet_schedule_Inr using snap r(2) assms(8,9) by (simp add: harvest_command_def sameMillis_def)
  moreover have "\<exists>ar snap'. applyCmd snap (harvest_command f p) now = Inr (ar, snap') \<and> 1 \<le> ar_harvestedYield ar"
    if "findSmallestMaturePlotChecked (sc_snapJSON f) now = Some p" for p
    by (rule mature_applies [OF assms(5) that [unfolded eq]]) (simp_all add: harvest_command_def)
  ultimately show ?thesis using eq r(4) snap(1) by simp
qed

end
