(* ===== verification/PetWitnesses.thy ===== *)
theory PetWitnesses
  imports PetsProps Fixtures
begin

text \<open>The properties of pets on the shard of Fixtures, and what the switch does when it is used twice.\<close>

definition no_pet_db :: db where
  "no_pet_db = demo_db\<lparr>pets := Map.empty\<rparr>"

lemma pet_buy_eval:
  "BuyPet (\<lambda>_. None) (\<lambda>_. (demo_env, Some 2)) 7 no_pet_db = (Inr (), bought 7 (demo_now + 32 * second) no_pet_db)"
  by (simp add: BuyPet_def retry_value_def retry_from.simps MaxAttempts_def buyPetOnce_def run_tx_def buy_body_def lock_farm_def query_exact_def tx_defs
      lift_sum_def nextPetActionAt_def PetAutoHarvestInterval_def PetPrice_def update_schedule_def scheduled_def bought_def Let_def
      no_pet_db_def demo_defs)

lemma pet_bought_once_witness:
  "effective (\<lambda>x. BuyPet (fst x) (snd x) 7) [Inl (\<lambda>_. None, \<lambda>_. (lost_ack_env, Some 2)), Inl (\<lambda>_. None, \<lambda>_. (demo_env, Some 2))] no_pet_db \<le> 1
   \<and> effective (\<lambda>x. BuyPet (fst x) (snd x) 7) [Inl (\<lambda>_. None, \<lambda>_. (demo_env, Some 1))] (snd (BuyPet (\<lambda>_. None) (\<lambda>_. (demo_env, Some 2)) 7 no_pet_db)) = 0
   \<and> wallets (snd (BuyPet (\<lambda>_. None) (\<lambda>_. (demo_env, Some 2)) 7 no_pet_db)) 7 = Some 300"
proof -
  have o: "others_keep (\<lambda>_. True) (\<lambda>s. pets s 7 \<noteq> None) [Inl (\<lambda>_::nat. None :: go_error option, \<lambda>_::nat. (lost_ack_env, Some 2)), Inl (\<lambda>_. None, \<lambda>_. (demo_env, Some 2))]"
    "others_keep (\<lambda>_. True) (\<lambda>s. pets s 7 \<noteq> None) [Inl (\<lambda>_::nat. None :: go_error option, \<lambda>_::nat. (demo_env, Some 1))]" by simp_all
  have w: "wallets (bought 7 (demo_now + 32 * second) no_pet_db) 7 = Some 300" by (simp add: bought_def no_pet_db_def demo_db_def)
  show ?thesis
    using pet_bought_once [OF o(1), of no_pet_db] pet_bought_once [OF o(2), of no_pet_db "\<lambda>_. None" "\<lambda>_. (demo_env, Some 2)"] w
    by (simp add: pet_buy_eval)
qed

section \<open>Two harvests\<close>

definition second_env :: env where "second_env = demo_env\<lparr>clk_now := 1400 * second, fresh_id := ''e2''\<rparr>"

definition second_command :: command where
  "second_command = pet_command\<lparr>cmd_CmdID := ''c2'', cmd_PlotID := 2, cmd_PetScheduledAt := 1030 * second\<rparr>"

definition two_harvests :: "pet_step list" where
  "two_harvests = [StepCommit plain_committer pet_command demo_env, StepCommit plain_committer second_command second_env]"

lemma harvest_changes: "farm_version (snd (commitFarmOnce c cmd env s)) f \<noteq> farm_version s f \<Longrightarrow> snd (commitFarmOnce c cmd env s) \<noteq> s"
  by auto

lemma two_harvests_log: "pet_log two_harvests demo_db = [(7, 1000 * second), (7, 1400 * second)]"
proof -
  let ?s1 = "snd (commitFarmOnce plain_committer pet_command demo_env demo_db)"
  have 1: "farm_version ?s1 7 = 5" "farm_version demo_db 7 = 4" by code_simp+
  have 2: "farm_version (snd (commitFarmOnce plain_committer second_command second_env ?s1)) 7 = 6" by code_simp
  have "harvests plain_committer pet_command demo_env demo_db" "harvests plain_committer second_command second_env ?s1"
    using harvest_changes [of plain_committer pet_command demo_env demo_db 7] harvest_changes [of plain_committer second_command second_env ?s1 7] 1 2
    by (simp_all add: harvests_def pet_command_def second_command_def)
  then show ?thesis by (simp add: two_harvests_def second_env_def second_command_def demo_env_def demo_now_def pet_command_def demo_command_def)
qed

lemma pet_harvests_are_spaced_witness:
  "pet_log two_harvests demo_db = [(7, 1000 * second), (7, 1400 * second)] \<and> datetime3 (1000 * second + 30 * second) \<le> 1400 * second"
proof -
  have "farm_inv demo_db" using demo_wf by blast
  moreover have "list_all proper_step two_harvests" "sorted (clocks two_harvests)"
    by (simp_all add: two_harvests_def clocks_def second_env_def demo_env_def demo_now_def)
  ultimately have "sorted_wrt (\<lambda>(f, t) (g, u). f = g \<longrightarrow> datetime3 (t + 30 * second) \<le> u) (pet_log two_harvests demo_db)"
    by (rule pet_harvests_are_spaced)
  then show ?thesis unfolding two_harvests_log by simp
qed

section \<open>A scan\<close>

definition scan_at :: env where "scan_at = demo_env\<lparr>clk_now := 1020 * second\<rparr>"

lemma demo_claim:
  "\<exists>s1. claimDue (NewPetScannerWithOptions \<lparr>so_LeaseTTL = 0, so_Workers = 0, so_RatePerSec = 0\<rparr>) scan_at (\<lambda>_. Some ''t1'') {} 10 demo_db
     = (Inr [\<lparr>sc_farmID = 7, sc_ownerID = 7, sc_snapJSON = marshalSnapshot demo_snapshot, sc_nextActionAt = 900 * second, sc_leaseToken = ''t1''\<rparr>], s1)"
  by (simp add: claimDue_def claim_due_body_def run_tx_def tx_defs due_farms_def pet_due_def pet_enabled_def set_lease_def scan_at_def
      demo_env_def demo_db_def demo_farm_def empty_db_def datetime6_def)

lemma scanner_command_is_accepted_witness:
  "findSmallestMaturePlotChecked (marshalSnapshot demo_snapshot) (1020 * second) = Some 1
   \<and> (\<exists>ar snap'. applyCmd demo_snapshot (harvest_command \<lparr>sc_farmID = 7, sc_ownerID = 7, sc_snapJSON = marshalSnapshot demo_snapshot,
        sc_nextActionAt = 900 * second, sc_leaseToken = ''t1''\<rparr> 1) (1020 * second) = Inr (ar, snap') \<and> 1 \<le> ar_harvestedYield ar)"
proof -
  let ?f = "\<lparr>sc_farmID = 7, sc_ownerID = 7, sc_snapJSON = marshalSnapshot demo_snapshot, sc_nextActionAt = 900 * second, sc_leaseToken = ''t1''\<rparr>"
  obtain s1 where c: "claimDue (NewPetScannerWithOptions \<lparr>so_LeaseTTL = 0, so_Workers = 0, so_RatePerSec = 0\<rparr>) scan_at (\<lambda>_. Some ''t1'') {} 10 demo_db
     = (Inr [?f], s1)" using demo_claim by blast
  have "read_snapshot demo_db 7 = Inr (demo_snapshot, Some (900 * second))" by code_simp
  then have r: "read_snapshot demo_db (sc_farmID ?f) = Inr (demo_snapshot, Some (900 * second))" by simp
  have s: "smallestMaturePlotID (snap_Plots demo_snapshot) (1020 * second) = Some 1"
    by (simp add: smallestMaturePlotID_def EffectiveStatus_def is_zero_time_def demo_snapshot_def carrot_plot_def wheat_plot_def)
  have in1: "?f \<in> set [?f]" by simp
  from scanner_command_is_accepted [OF c in1 demo_wf(1) r demo_snapshot_ok, of "1020 * second"]
  show ?thesis using s by simp
qed

section \<open>Finding: switching off twice\<close>

text \<open>The second time the UPDATE changes no row, which the service takes for a missing farm, and its transaction is rolled back.\<close>

lemma switch_off_twice:
  "fst (SetAutoHarvest (\<lambda>_. None) (\<lambda>_. (demo_env, None)) 7 False demo_db) = Inr ()"
  "fst (SetAutoHarvest (\<lambda>_. None) (\<lambda>_. (demo_env, None)) 7 False (snd (SetAutoHarvest (\<lambda>_. None) (\<lambda>_. (demo_env, None)) 7 False demo_db))) = Inl (New FarmNotFound)"
  by (simp_all add: SetAutoHarvest_def retry_value_def retry_from.simps MaxAttempts_def setAutoHarvestOnce_def run_tx_def switch_body_def lock_farm_def query_exact_def tx_defs
      update_schedule_def Let_def demo_env_def demo_db_def demo_farm_def empty_db_def)

end
