(* ===== verification/ShardHistory.thy ===== *)
theory ShardHistory
  imports EconomyProps Retention
begin

text \<open>
  What gamesvr and the retention of workersvr do to one shard, in any order: commands of players, each retried, cutovers of
  routes, and runs of the reaper, which deletes the receipts of old commands.  Over all such histories a command takes
  effect at most once, and a fence stays.
\<close>

section \<open>Histories\<close>

datatype shard_op =
    OpCommand command call_env
  | OpAdvance int int call_env
  | OpReap retention_policy int int reap_env

fun shard_exec :: "committer \<Rightarrow> shard_op \<Rightarrow> db \<Rightarrow> db" where
  "shard_exec c (OpCommand cmd e) s = snd (commit_call c cmd e s)"
| "shard_exec c (OpAdvance f epoch e) s = snd (AdvanceRouteEpoch (fst e) (snd e) f epoch s)"
| "shard_exec c (OpReap p b m e) s = snd (Reap (NewRetentionReaper p b m) e s)"

definition shard_run :: "committer \<Rightarrow> shard_op list \<Rightarrow> db \<Rightarrow> db" where
  "shard_run c h s = fold (shard_exec c) h s"

text \<open>Submissions of one command, with other operations in between.\<close>

definition shard_history :: "committer \<Rightarrow> (call_env + shard_op) list \<Rightarrow> (call_env + (db \<Rightarrow> db)) list" where
  "shard_history c h = map (\<lambda>x. case x of Inl e \<Rightarrow> Inl e | Inr op \<Rightarrow> Inr (shard_exec c op)) h"

definition reaps :: "(call_env + shard_op) list \<Rightarrow> bool" where
  "reaps h \<longleftrightarrow> (\<exists>p b m e. Inr (OpReap p b m e) \<in> set h)"

section \<open>What the operations keep\<close>

lemma commit_call_cases:
  assumes "cmd_inv s"
  obtains (same) "snd (commit_call c cmd e s) = s"
  | (once) n where "snd (commit_call c cmd e s) = snd (commitFarmCommandOnce c cmd (snd e n) s)"
      "snd (commitFarmCommandOnce c cmd (snd e n) s) \<noteq> s"
proof (cases "snd (commit_call c cmd e s) = s")
  case False
  from cmd_once.retry_one [OF assms, of "fst e" "\<lambda>err. IsTransient err \<or> (is_economic (cmd_Type cmd) \<or> requiresCommandReceipt (cmd_Type cmd)) \<and> IsDuplicateKey err" c cmd "snd e"]
  have "snd (commit_call c cmd e s) = s \<or> (\<exists>n. snd (commit_call c cmd e s) = snd (commitFarmCommandOnce c cmd (snd e n) s))"
    by (simp only: commit_call_def CommitFarmCommand_def Let_def)
  with False obtain n where n: "snd (commit_call c cmd e s) = snd (commitFarmCommandOnce c cmd (snd e n) s)" by blast
  show thesis by (rule once [OF n]) (use False n in simp)
qed (rule same)

lemma Reap_tables:
  "\<exists>rows recs cons. snd (Reap (NewRetentionReaper p b m) e s) = s\<lparr>outbox := rows, receipts := recs, consumed := cons\<rparr>"
proof -
  let ?r = "NewRetentionReaper p b m"
  obtain n errs s' where r: "Reap ?r e s = ((n, errs), s')" by (metis prod.collapse)
  have specs: "distinct (map fst (reap_specs ?r))" "\<forall>t d. (t, d) \<in> set (reap_specs ?r) \<longrightarrow> d = retain_of ?r t"
    by (auto simp: reap_specs_def retain_of_def)
  from reap_each_effect [OF new_reaper_ok specs r [unfolded Reap_def]]
  have "expired_rows (cutoff_at ?r e OutboxEvents) (cutoff_at ?r e CmdReceipts) (cutoff_at ?r e ConsumedEvents) s s'" by blast
  then show ?thesis using r by (auto simp: expired_rows_def)
qed

lemma Reap_keeps:
  "farms (snd (Reap (NewRetentionReaper p b m) e s)) = farms s"
  "ledger (snd (Reap (NewRetentionReaper p b m) e s)) = ledger s"
  "cmd_inv (snd (Reap (NewRetentionReaper p b m) e s)) = cmd_inv s"
proof -
  obtain rows recs cons where r: "snd (Reap (NewRetentionReaper p b m) e s) = s\<lparr>outbox := rows, receipts := recs, consumed := cons\<rparr>"
    using Reap_tables by blast
  show "farms (snd (Reap (NewRetentionReaper p b m) e s)) = farms s" "ledger (snd (Reap (NewRetentionReaper p b m) e s)) = ledger s"
    "cmd_inv (snd (Reap (NewRetentionReaper p b m) e s)) = cmd_inv s"
    unfolding r by (simp_all add: cmd_inv_def farm_inv_def econ_inv_def farms_ok_def inventory_ok_def coins_ok_def ledger_ok_def)
qed

text \<open>A cutover writes one column of one farm.\<close>

definition advanced :: "db \<Rightarrow> db \<Rightarrow> bool" where
  "advanced s t \<longleftrightarrow> cmd_inv t \<and> (\<forall>f. farm_version t f = farm_version s f \<and> farm_epoch s f \<le> farm_epoch t f)
     \<and> receipts t = receipts s \<and> ledger t = ledger s"

lemma advance_once:
  assumes "cmd_inv s"
  shows "advanced s (snd (advanceRouteEpochOnce f e env s))"
proof (cases "snd (advanceRouteEpochOnce f e env s) = s")
  case False
  then obtain r where r: "map_of (farms s) f = Some r"
    "snd (advanceRouteEpochOnce f e env s) = s\<lparr>farms := AList.update f (r\<lparr>fr_route_epoch := e\<rparr>) (farms s)\<rparr>"
    by (rule advance_effect)
  have inv: "farm_inv s" using assms by (simp add: cmd_inv_def)
  have "farm_inv (snd (advanceRouteEpochOnce f e env s))" by (rule advance_inv(1) [OF inv])
  moreover have "econ_inv (snd (advanceRouteEpochOnce f e env s))"
    using assms unfolding r(2) by (simp add: cmd_inv_def econ_inv_def coins_ok_def inventory_ok_def ledger_ok_def)
  moreover have "farm_version (snd (advanceRouteEpochOnce f e env s)) g = farm_version s g" for g
    using r(1) unfolding r(2) by (simp add: farm_version_def)
  moreover have "farm_epoch s g \<le> farm_epoch (snd (advanceRouteEpochOnce f e env s)) g" for g by (rule advance_inv(2) [OF inv])
  ultimately show ?thesis unfolding advanced_def cmd_inv_def using r(2) by simp
qed (use assms in \<open>simp add: advanced_def\<close>)

lemma advanced_trans: "advanced a b \<Longrightarrow> advanced b c \<Longrightarrow> advanced a c"
  unfolding advanced_def by (metis order_trans)

lemma AdvanceRouteEpoch_advances:
  assumes "cmd_inv s"
  shows "advanced s (snd (AdvanceRouteEpoch wait envs f e s))"
proof -
  have "advanced s (snd (retry_value wait IsTransient (\<lambda>n. advanceRouteEpochOnce f e (envs n)) s))"
  proof (rule retry_value_invariant)
    fix n t assume t: "advanced s t"
    then have "cmd_inv t" by (simp add: advanced_def)
    from advanced_trans [OF t advance_once [OF this]] show "advanced s (snd (advanceRouteEpochOnce f e (envs n) t))" .
  next
    show "advanced s s" using assms by (simp add: advanced_def)
  qed
  then show ?thesis using assms by (simp add: AdvanceRouteEpoch_def advanced_def)
qed

lemma once_epoch:
  assumes "cmd_inv s"
  shows "farm_epoch (snd (commitFarmCommandOnce c cmd env s)) f = farm_epoch s f"
proof (cases "is_economic (cmd_Type cmd)")
  case True
  then have "farms (snd (commitFarmCommandOnce c cmd env s)) = farms s"
    using econ_effect_applied [of s cmd env] assms
    by (cases "snd (commitEconomicTx cmd env s) = s") (auto simp: commitFarmCommandOnce_def cmd_inv_def)
  then show ?thesis by (simp add: farm_epoch_def)
next
  case False
  then show ?thesis using commit_keeps_epoch assms by (simp add: commitFarmCommandOnce_def cmd_inv_def)
qed

lemma shard_exec_inv: "cmd_inv s \<Longrightarrow> cmd_inv (shard_exec c op s)"
  using call_once.inv_kept [of s] AdvanceRouteEpoch_advances [of s] Reap_keeps(3) by (cases op) (auto simp: advanced_def)

lemma shard_exec_epoch: "cmd_inv s \<Longrightarrow> farm_epoch s f \<le> farm_epoch (shard_exec c op s) f"
proof (cases op)
  case (OpCommand cmd e)
  assume inv: "cmd_inv s"
  show ?thesis
    by (rule commit_call_cases [OF inv, of c cmd e]) (use OpCommand once_epoch [OF inv] in simp_all)
next
  case (OpAdvance g epoch e)
  assume "cmd_inv s"
  then show ?thesis using OpAdvance AdvanceRouteEpoch_advances by (simp add: advanced_def)
next
  case (OpReap p b m e)
  then show ?thesis using Reap_keeps(1) by (simp add: farm_epoch_def)
qed

lemma shard_run_keeps: "cmd_inv s \<Longrightarrow> cmd_inv (shard_run c h s) \<and> farm_epoch s f \<le> farm_epoch (shard_run c h s) f"
proof (induction h arbitrary: s)
  case (Cons op h)
  have "cmd_inv (shard_exec c op s)" using Cons.prems by (rule shard_exec_inv)
  from Cons.IH [OF this] shard_exec_epoch [OF Cons.prems, of f c op] show ?case by (simp add: shard_run_def)
qed (simp add: shard_run_def)

section \<open>The fence\<close>

lemma AdvanceRouteEpoch_success:
  assumes "cmd_inv s" "fst (AdvanceRouteEpoch wait envs f e s) = Inr ()"
  shows "farm_epoch (snd (AdvanceRouteEpoch wait envs f e s)) f = e"
proof -
  obtain s1 where s1: "retry_value wait IsTransient (\<lambda>n. advanceRouteEpochOnce f e (envs n)) s = (Inr (), s1)"
    "snd (AdvanceRouteEpoch wait envs f e s) = s1"
    using assms(2) by (auto simp: AdvanceRouteEpoch_def split: if_splits) (metis prod.collapse)
  obtain n t where "advanceRouteEpochOnce f e (envs n) t = (Inr (), s1)" using retry_value_ok [OF s1(1)] by blast
  from advance_success [OF this] show ?thesis using s1(2) by simp
qed

text \<open>C4: once a new owner has advanced the fence of a farm to epoch \<^verbatim>\<open>e\<close>, no farm command with an older epoch ever changes
  the database again, whatever commands, cutovers and runs of the reaper follow, whatever fails, and however often it
  is retried; and no command at all with an older epoch changes a farm.  Purchases and sales carry no fence: they touch only the
  wallet, the items and the ledger of the player.\<close>

theorem route_fence_is_permanent:
  assumes "cmd_inv s" "fst (AdvanceRouteEpoch wait envs f e s) = Inr ()"
    and "cmd_FarmID cmd = f" "cmd_RouteEpoch cmd < e"
    and "t = shard_run c h (snd (AdvanceRouteEpoch wait envs f e s))"
  shows "(\<not> is_economic (cmd_Type cmd) \<longrightarrow> snd (commit_call c cmd call t) = t)
    \<and> farms (snd (commit_call c cmd call t)) = farms t"
proof -
  have "cmd_inv (snd (AdvanceRouteEpoch wait envs f e s))" using AdvanceRouteEpoch_advances [OF assms(1)] by (simp add: advanced_def)
  from shard_run_keeps [OF this, of c h f] have t: "cmd_inv t" "e \<le> farm_epoch t f"
    using AdvanceRouteEpoch_success [OF assms(1,2)] assms(5) by simp_all
  then have stale: "snd (commitFarmOnce c cmd env t) = t" for env
    using stale_epoch_no_effect assms(3,4) by (metis order_less_le_trans)
  show ?thesis
  proof (rule commit_call_cases [OF t(1), of c cmd call])
    fix n
    assume n: "snd (commit_call c cmd call t) = snd (commitFarmCommandOnce c cmd (snd call n) t)"
      "snd (commitFarmCommandOnce c cmd (snd call n) t) \<noteq> t"
    then have "is_economic (cmd_Type cmd)" using stale by (auto simp: commitFarmCommandOnce_def split: if_splits)
    then show ?thesis using n econ_effect_applied [of t cmd "snd call n"] t(1) by (simp add: commitFarmCommandOnce_def cmd_inv_def)
  qed simp
qed

section \<open>At most once\<close>

text \<open>Without a reaper the receipt is the credential, and for an economic command the ledger is, with or without one.\<close>

lemma shard_exec_ledger: "cmd_inv s \<Longrightarrow> econ_applied cmd s \<Longrightarrow> econ_applied cmd (shard_exec c op s)"
proof (cases op)
  case (OpCommand cmd' e)
  assume s: "cmd_inv s" "econ_applied cmd s"
  obtain h where h: "binary16 (cmd_CmdID cmd) = Inr h" "ledger s (econ_key cmd h) \<noteq> None"
    using s(2) unfolding econ_applied_def by blast
  have "ledger (shard_exec c op s) (econ_key cmd h) \<noteq> None"
  proof (rule commit_call_cases [OF s(1), of c cmd' e])
    fix n assume "snd (commit_call c cmd' e s) = snd (commitFarmCommandOnce c cmd' (snd e n) s)"
    then show ?thesis using econ_keeps_ledger [OF s(1) h(2), of c cmd' "snd e n"] unfolding OpCommand by (simp only: shard_exec.simps) blast
  qed (use OpCommand h(2) in simp)
  then show ?thesis using h(1) unfolding econ_applied_def by blast
next
  case (OpAdvance g epoch e)
  assume "cmd_inv s" "econ_applied cmd s"
  then show ?thesis using OpAdvance AdvanceRouteEpoch_advances [of s "fst e" "snd e" g epoch] by (simp add: advanced_def econ_applied_def)
next
  case (OpReap p b m e)
  assume "econ_applied cmd s"
  then show ?thesis using OpReap Reap_keeps(2) by (simp add: econ_applied_def)
qed

lemma shard_exec_receipt:
  assumes "cmd_inv s" "cmd_applied cmd s" "is_economic (cmd_Type cmd) \<or> requiresCommandReceipt (cmd_Type cmd)"
    and "\<And>p b m e. op \<noteq> OpReap p b m e"
  shows "cmd_applied cmd (shard_exec c op s)"
proof (cases op)
  case (OpCommand cmd' e)
  then show ?thesis using other_call_keeps [OF assms(1-3), of c cmd' e] by simp
next
  case (OpAdvance g epoch e)
  then show ?thesis
    using AdvanceRouteEpoch_advances [OF assms(1), of "fst e" "snd e" g epoch] assms(2,3)
    by (auto simp: advanced_def cmd_applied_def econ_applied_def farm_applied_def)
qed (use assms(4) in blast)

lemma keeps_credential:
  assumes "is_economic (cmd_Type cmd) \<or> requiresCommandReceipt (cmd_Type cmd)" "is_economic (cmd_Type cmd) \<or> \<not> reaps h"
  shows "others_keep cmd_inv (cmd_applied cmd) (shard_history c h)"
  unfolding others_keep_def
proof (intro allI impI)
  fix f s assume "Inr f \<in> set (shard_history c h)" and s: "cmd_inv s"
  then obtain op where op: "Inr op \<in> set h" "f = shard_exec c op" by (auto simp: shard_history_def split: sum.splits)
  have "cmd_applied cmd (f s)" if a: "cmd_applied cmd s"
  proof (cases "is_economic (cmd_Type cmd)")
    case True
    then show ?thesis using shard_exec_ledger [OF s] a by (simp add: op cmd_applied_def)
  next
    case False
    then have "op \<noteq> OpReap p b m e" for p b m e using assms(2) op(1) by (auto simp: reaps_def)
    then show ?thesis unfolding op(2) using shard_exec_receipt [OF s a assms(1)] by blast
  qed
  then show "cmd_inv (f s) \<and> (cmd_applied cmd s \<longrightarrow> cmd_applied cmd (f s))" using shard_exec_inv [OF s] op(2) by simp
qed

text \<open>With a reaper the version of the farm is: a command that took effect is based on a version that never comes back, as
  long as the version does not reach the end of int64.\<close>

definition version_room :: "int \<Rightarrow> nat \<Rightarrow> db \<Rightarrow> bool" where
  "version_room f n s \<longleftrightarrow> cmd_inv s \<and> 0 \<le> farm_version s f \<and> farm_version s f + int n < max_int64"

lemma once_version:
  assumes "version_room f (Suc n) s" "snd (commitFarmCommandOnce c cmd env s) \<noteq> s"
  shows "farm_version (snd (commitFarmCommandOnce c cmd env s)) f
     = farm_version s f + (if f = cmd_FarmID cmd \<and> \<not> is_economic (cmd_Type cmd) then 1 else 0)"
proof (cases "is_economic (cmd_Type cmd)")
  case True
  then have "farms (snd (commitFarmCommandOnce c cmd env s)) = farms s"
    using econ_effect_applied [of s cmd env] assms by (auto simp: commitFarmCommandOnce_def cmd_inv_def version_room_def)
  then show ?thesis using True by (simp add: farm_version_def)
next
  case False
  have i: "i64 (farm_version s f + 1) = farm_version s f + 1"
    using assms(1) by (intro i64_id) (simp add: in_i64_def version_room_def min_int64_def)
  have "farm_version (snd (commitFarmOnce c cmd env s)) f = (if f = cmd_FarmID cmd then i64 (farm_version s f + 1) else farm_version s f)"
    using False assms farm_effect_version [of s c cmd env f] by (simp add: commitFarmCommandOnce_def version_room_def cmd_inv_def)
  then show ?thesis using False i by (cases "f = cmd_FarmID cmd") (simp_all add: commitFarmCommandOnce_def)
qed

lemma call_version:
  assumes "version_room f (Suc n) s"
  shows "version_room f n (snd (commit_call c cmd e s)) \<and> farm_version s f \<le> farm_version (snd (commit_call c cmd e s)) f"
proof -
  have inv: "cmd_inv s" using assms by (simp add: version_room_def)
  have keep: "cmd_inv (snd (commit_call c cmd e s))" by (rule call_once.inv_kept [OF inv])
  show ?thesis
  proof (rule commit_call_cases [OF inv, of c cmd e])
    fix k assume k: "snd (commit_call c cmd e s) = snd (commitFarmCommandOnce c cmd (snd e k) s)"
      "snd (commitFarmCommandOnce c cmd (snd e k) s) \<noteq> s"
    then show ?thesis using once_version [OF assms k(2)] keep assms by (auto simp: version_room_def)
  qed (use assms in \<open>auto simp: version_room_def\<close>)
qed

lemma exec_version:
  assumes "version_room f (Suc n) s"
  shows "version_room f n (shard_exec c op s) \<and> farm_version s f \<le> farm_version (shard_exec c op s) f"
proof (cases op)
  case (OpCommand cmd e)
  then show ?thesis using call_version [OF assms] by simp
next
  case (OpAdvance g epoch e)
  have "cmd_inv s" using assms by (simp add: version_room_def)
  from AdvanceRouteEpoch_advances [OF this] OpAdvance assms show ?thesis by (simp add: advanced_def version_room_def)
next
  case (OpReap p b m e)
  then show ?thesis using assms Reap_keeps by (simp add: version_room_def farm_version_def)
qed

lemma call_effect_version:
  assumes "version_room (cmd_FarmID cmd) (Suc n) s" "\<not> is_economic (cmd_Type cmd)" "cmd_Type cmd \<noteq> CmdPetAutoHarvest"
    and "snd (commit_call c cmd e s) \<noteq> s"
  shows "cmd_BaseVersion cmd = farm_version s (cmd_FarmID cmd)"
    "cmd_BaseVersion cmd < farm_version (snd (commit_call c cmd e s)) (cmd_FarmID cmd)"
proof -
  have inv: "cmd_inv s" using assms(1) by (simp add: version_room_def)
  obtain k where k: "snd (commit_call c cmd e s) = snd (commitFarmCommandOnce c cmd (snd e k) s)"
    "snd (commitFarmCommandOnce c cmd (snd e k) s) \<noteq> s"
    using commit_call_cases [OF inv, of c cmd e] assms(4) by metis
  have "snd (commitFarmOnce c cmd (snd e k) s) \<noteq> s" using k(2) assms(2) by (simp add: commitFarmCommandOnce_def)
  then show "cmd_BaseVersion cmd = farm_version s (cmd_FarmID cmd)"
    using farm_effect_version [of s c cmd "snd e k"] inv assms(3) by (simp add: cmd_inv_def)
  then show "cmd_BaseVersion cmd < farm_version (snd (commit_call c cmd e s)) (cmd_FarmID cmd)"
    using once_version [OF assms(1) k(2)] k(1) assms(2) by simp
qed

lemma version_at_most_once:
  assumes "version_room (cmd_FarmID cmd) (length h) s" "\<not> is_economic (cmd_Type cmd)" "cmd_Type cmd \<noteq> CmdPetAutoHarvest"
  shows "effective (commit_call c cmd) (shard_history c h) s \<le> 1
    \<and> (cmd_BaseVersion cmd < farm_version s (cmd_FarmID cmd) \<longrightarrow> effective (commit_call c cmd) (shard_history c h) s = 0)"
  using assms(1)
proof (induction h arbitrary: s)
  case (Cons x h)
  have room: "version_room (cmd_FarmID cmd) (Suc (length h)) s" using Cons.prems by simp
  show ?case
  proof (cases x)
    case (Inl e)
    note step = call_version [OF room, of c cmd e]
    note ih = Cons.IH [OF conjunct1 [OF step]]
    show ?thesis
    proof (cases "snd (commit_call c cmd e s) = s")
      case True
      then show ?thesis using ih Inl by (simp add: shard_history_def)
    next
      case False
      note eff = call_effect_version [OF room assms(2,3) False]
      then show ?thesis using ih Inl False by (simp add: shard_history_def)
    qed
  next
    case (Inr op)
    note step = exec_version [OF room, of c op]
    from Cons.IH [OF conjunct1 [OF step]] step show ?thesis using Inr by (auto simp: shard_history_def)
  qed
qed (simp add: shard_history_def)

text \<open>C2: a purchase, a sale or a command with a receipt, submitted through the retried entry point any number of times in
  any environments (failures, lost acknowledgements, cancelled waits), with any other commands, route
  cutovers and runs of the retention reaper in between, changes the database at most once, even when its receipt has been
  deleted: its base version does not come back.  After a submission that reported success, or one that changed the
  database, it changes nothing any more, unless the success was the replay of a receipt that the reaper then deletes.  The automatic
  harvest of a pet, which has no base version, is covered as long as receipts stand.\<close>

theorem commit_command_at_most_once:
  assumes "cmd_inv s" "is_economic (cmd_Type cmd) \<or> requiresCommandReceipt (cmd_Type cmd)"
    and "cmd_Type cmd = CmdPetAutoHarvest \<Longrightarrow> \<not> reaps h"
    and "0 \<le> farm_version s (cmd_FarmID cmd)" "farm_version s (cmd_FarmID cmd) + int (length h) + 1 < max_int64"
  shows "effective (commit_call c cmd) (shard_history c h) s \<le> 1
    \<and> (\<forall>e res. fst (commit_call c cmd e s) = Inr res \<and> (is_economic (cmd_Type cmd) \<or> \<not> reaps h)
          \<or> snd (commit_call c cmd e s) \<noteq> s
        \<longrightarrow> effective (commit_call c cmd) (shard_history c h) (snd (commit_call c cmd e s)) = 0)"
proof (cases "is_economic (cmd_Type cmd) \<or> \<not> reaps h")
  case True
  note keep = keeps_credential [OF assms(2) True, of c]
  have "effective (commit_call c cmd) (shard_history c h) (snd (commit_call c cmd e s)) = 0" if "snd (commit_call c cmd e s) \<noteq> s" for e
    using call_once.no_effect_after_applied [OF call_once.inv_kept [OF assms(1)] _ keep] call_once.effect_leaves_credential [OF assms(1)] that
    by blast
  then show ?thesis
    using call_once.at_most_once [OF assms(1) keep] call_once.nothing_after_success [OF assms(1) _ keep] by blast
next
  case False
  then have c: "\<not> is_economic (cmd_Type cmd)" "cmd_Type cmd \<noteq> CmdPetAutoHarvest" using assms(3) by blast+
  have room: "version_room (cmd_FarmID cmd) (Suc (length h)) s" "version_room (cmd_FarmID cmd) (length h) s"
    using assms(1,4,5) by (simp_all add: version_room_def)
  have "effective (commit_call c cmd) (shard_history c h) (snd (commit_call c cmd e s)) = 0" if "snd (commit_call c cmd e s) \<noteq> s" for e
    using version_at_most_once [OF conjunct1 [OF call_version [OF room(1)]] c, of c] call_effect_version(2) [OF room(1) c that] by blast
  then show ?thesis using version_at_most_once [OF room(2) c] False by blast
qed

section \<open>Witnesses\<close>

definition reap_all :: shard_op where
  "reap_all = OpReap day_policy 500 1000 reap_calm_env"

theorem commit_command_at_most_once_witness:
  "effective (commit_call plain_committer demo_command)
     (shard_history plain_committer [Inl demo_call, Inr reap_all, Inl demo_call, Inr (OpCommand buy_command demo_call), Inl demo_call]) demo_db \<le> 1
   \<and> effective (commit_call plain_committer buy_command)
     (shard_history plain_committer [Inl demo_call, Inr reap_all, Inl demo_call]) (snd (commit_call plain_committer buy_command demo_call demo_db)) = 0"
proof
  have v: "farm_version demo_db 7 = 4" by code_simp
  have d: "requiresCommandReceipt (cmd_Type demo_command)" "cmd_Type demo_command \<noteq> CmdPetAutoHarvest" "cmd_FarmID demo_command = 7"
    by (simp_all add: demo_command_def requiresCommandReceipt_def)
  show "effective (commit_call plain_committer demo_command)
     (shard_history plain_committer [Inl demo_call, Inr reap_all, Inl demo_call, Inr (OpCommand buy_command demo_call), Inl demo_call]) demo_db \<le> 1"
    by (rule conjunct1 [OF commit_command_at_most_once [OF demo_econ(2)]]) (use d v in \<open>simp_all add: max_int64_def\<close>)
  have b: "is_economic (cmd_Type buy_command)" "cmd_FarmID buy_command = 7" by (simp_all add: buy_command_def demo_command_def is_economic_def)
  have "wallets (snd (commit_call plain_committer buy_command demo_call demo_db)) 7 = Some 380" by code_simp
  then have n: "snd (commit_call plain_committer buy_command demo_call demo_db) \<noteq> demo_db" by (auto simp: demo_db_def)
  have "cmd_Type buy_command \<noteq> CmdPetAutoHarvest" by (simp add: buy_command_def)
  then have all: "\<forall>e res. fst (commit_call plain_committer buy_command e demo_db) = Inr res \<and> (is_economic (cmd_Type buy_command) \<or> \<not> reaps [Inl demo_call, Inr reap_all, Inl demo_call])
          \<or> snd (commit_call plain_committer buy_command e demo_db) \<noteq> demo_db
        \<longrightarrow> effective (commit_call plain_committer buy_command) (shard_history plain_committer [Inl demo_call, Inr reap_all, Inl demo_call]) (snd (commit_call plain_committer buy_command e demo_db)) = 0"
    by (intro conjunct2 [OF commit_command_at_most_once [OF demo_econ(2)]]) (use b v in \<open>simp_all add: max_int64_def\<close>)
  show "effective (commit_call plain_committer buy_command)
     (shard_history plain_committer [Inl demo_call, Inr reap_all, Inl demo_call]) (snd (commit_call plain_committer buy_command demo_call demo_db)) = 0"
    using all n by blast
qed

definition quiet_call :: call_env where "quiet_call = (\<lambda>_. None, \<lambda>_. demo_env)"

theorem route_fence_is_permanent_witness:
  "snd (commit_call plain_committer demo_command quiet_call
      (shard_run plain_committer [OpCommand demo_command demo_call, reap_all, OpAdvance 7 5 demo_call]
        (snd (AdvanceRouteEpoch (\<lambda>_. None) (\<lambda>_. demo_env) 7 3 demo_db))))
   = shard_run plain_committer [OpCommand demo_command demo_call, reap_all, OpAdvance 7 5 demo_call]
        (snd (AdvanceRouteEpoch (\<lambda>_. None) (\<lambda>_. demo_env) 7 3 demo_db))"
proof -
  have ok: "fst (AdvanceRouteEpoch (\<lambda>_. None) (\<lambda>_. demo_env) 7 3 demo_db) = Inr ()" by code_simp
  have d: "cmd_FarmID demo_command = 7" "cmd_RouteEpoch demo_command < 3" "\<not> is_economic (cmd_Type demo_command)"
    by (simp_all add: demo_command_def is_economic_def)
  show ?thesis
    using route_fence_is_permanent [OF demo_econ(2) ok d(1,2) refl, where c = plain_committer and call = quiet_call
      and h = "[OpCommand demo_command demo_call, reap_all, OpAdvance 7 5 demo_call]"] d(3) by blast
qed

end
