(* ===== verification/Spec2Isabelle.thy ===== *)
theory Spec2Isabelle
  imports FarmWitnesses EconomyProps OutboxRelayScan ActorRuntimeWedge StealProps MailProps FriendWitnesses AuthSessionsProps GateSessionsProps TasksProps Retention
    AccountsSharded Password PetWitnesses ShardHistory
begin

text \<open>
  Verification library of the farm server (Go module under src/server).

  \<^bold>\<open>The program.\<close>  Four services share one code base.  gatesvr takes the HTTP and WebSocket connections of the players and
  keeps their sessions in Redis.  farmsvr runs one logical actor per farm, which puts the commands of a farm in
  order and checks them against a hot snapshot.  gamesvr is the only writer of game facts: it commits a command in
  one MySQL transaction over the farm, the wallet, the items, the ledger, the receipt of the command and the outbox, and it
  serves accounts, friends, mails, tasks and pets.  workersvr relays the outbox to Kafka, consumes the events, harvests for pets and deletes old
  rows.  A player and everything the player owns live on one MySQL shard; what concerns two shards travels
  as an event.  The theories follow these parts; each names its Go files at its head.

  \<^bold>\<open>Theories.\<close>

  \<^item> Foundations.  \<^verbatim>\<open>Prelude\<close>: int64 with its wrap-around, times in nanoseconds, association lists, the collections
    of rewrite rules.  \<^verbatim>\<open>ErrCode\<close>: pkg/errcode, the chains of wrapped errors and their HTTP and gRPC forms.  \<^verbatim>\<open>Strconv\<close>: what the
    sources use of strconv and strings.  \<^verbatim>\<open>Tx\<close>: transactions of database/sql, with the environment that decides which
    statement fails and whether Commit succeeds, fails, or stores and loses its answer.  \<^verbatim>\<open>MysqlRetry\<close>: pkg/mysqlretry and the
    locale \<^verbatim>\<open>durable_once\<close>.  \<^verbatim>\<open>Schema\<close>: the tables of a shard after all migrations, as the record \<^verbatim>\<open>db\<close>.  \<^verbatim>\<open>Redis\<close>:
    keys with values and expiry.  \<^verbatim>\<open>Events\<close>: contracts/events.  \<^verbatim>\<open>Sharding\<close>: pkg/shard and pkg/id.  \<^verbatim>\<open>Fixtures\<close>: a small concrete shard
    for the instances of the theorems.
  \<^item> Farm commands (internal/farm/domain, crop_config.go, committer_mysql.go).  \<^verbatim>\<open>FarmDomain\<close>: plots, growth, crops, commands.  \<^verbatim>\<open>FarmApply\<close>:
    \<^verbatim>\<open>applyCmd\<close> on a snapshot and the stored form of snapshots; \<^verbatim>\<open>FarmApplyProps\<close>: whole runs of it.  \<^verbatim>\<open>FarmCommit\<close>: the
    transaction of a farm command, the route fence, LoadSnapshot; \<^verbatim>\<open>FarmCommitFacts\<close> what one transaction writes,
    \<^verbatim>\<open>FarmCommitProps\<close> its properties, \<^verbatim>\<open>FarmWitnesses\<close> their instances.  \<^verbatim>\<open>Economy\<close>, \<^verbatim>\<open>EconomyProps\<close>: purchases, sales and
    the retried entry point CommitFarmCommand.
  \<^item> \<^verbatim>\<open>ActorRuntime\<close> (internal/farm/actor/runtime.go): the handlers of schedulers and workers; \<^verbatim>\<open>ActorRuntimeProps\<close> the goroutines as a
    step relation with its invariant, \<^verbatim>\<open>ActorRuntimeClaims\<close> order and bounds, \<^verbatim>\<open>ActorRuntimeWedge\<close> an executable scheduler
    and the run that blocks itself.
  \<^item> The way of events.  \<^verbatim>\<open>OutboxRelay\<close> (outbox_relay.go, event_publisher.go), \<^verbatim>\<open>OutboxRelayProps\<close> the system of several
    workers as a step relation, \<^verbatim>\<open>OutboxRelayClaims\<close> and \<^verbatim>\<open>OutboxRelayScan\<close> its properties.  \<^verbatim>\<open>Consumer\<close> (event_consumer.go,
    consumer_failure_store.go, sharded_consumer.go), \<^verbatim>\<open>ConsumerProps\<close> with the locale \<^verbatim>\<open>projection\<close>.  \<^verbatim>\<open>CrossShardSteal\<close>,
    \<^verbatim>\<open>StealProps\<close>: the projector that credits a thief of another shard.
  \<^item> Players.  \<^verbatim>\<open>Accounts\<close>, \<^verbatim>\<open>AccountsProps\<close>, \<^verbatim>\<open>AccountsSharded\<close>, \<^verbatim>\<open>Password\<close> (internal/account).  \<^verbatim>\<open>AuthSessions\<close>,
    \<^verbatim>\<open>AuthSessionsProps\<close> (pkg/session, refresh_store.go).  \<^verbatim>\<open>GateSessions\<close>, \<^verbatim>\<open>GateSessionsProps\<close> (session_store.go,
    conn_store.go).  \<^verbatim>\<open>Social\<close>, \<^verbatim>\<open>FriendSaga\<close>, \<^verbatim>\<open>FriendSagaProps\<close>, \<^verbatim>\<open>FriendWitnesses\<close> (invite_store.go, internal/social).  \<^verbatim>\<open>Mail\<close>,
    \<^verbatim>\<open>MailProps\<close> (internal/mail).  \<^verbatim>\<open>Tasks\<close>, \<^verbatim>\<open>TasksProps\<close> (internal/task, task_projector.go).  \<^verbatim>\<open>Pets\<close>, \<^verbatim>\<open>PetScanner\<close>, \<^verbatim>\<open>PetsProps\<close>,
    \<^verbatim>\<open>PetWitnesses\<close> (internal/pet, internal/worker/pet_scanner.go).
  \<^item> \<^verbatim>\<open>Retention\<close> (retention_reaper.go), and \<^verbatim>\<open>ShardHistory\<close>: commands, cutovers and the reaper together on one shard.

  \<^bold>\<open>From code to definition.\<close>  A struct is a record and an enumeration a datatype; a function keeps its name, with the prefix
  \<^verbatim>\<open>Sharded_\<close> for the facades that route a call.  A method that opens a transaction is a function from the state of the shard to its
  result and the new state; its body is a \<^verbatim>\<open>tx\<close> that names each statement, and \<^verbatim>\<open>run_tx\<close> rolls back on every
  path without Commit.  Row locks make a transaction atomic, so concurrent transactions are run one after the other; where the code
  works in several transactions or without one (the relay, the scanner, the saga, the actor runtime, Redis), each of its
  atomic pieces is a step, and the properties quantify over all interleavings of the steps.  The environment of a call
  holds what the code cannot know: failing statements and lost acknowledgements, the clock, random bytes, ended contexts.  Errors are
  values: the left side of a sum.

  \<^bold>\<open>Contracts.\<close>  \<^verbatim>\<open>durable_once\<close> is the contract that makes a retry safe: a transaction leaves a credential together with its
  effect and does nothing where it finds one.  Its lemmas give at most one effect over any number of attempts, with
  retries and with other transactions in between.  It is interpreted for the farm transaction (\<^verbatim>\<open>farm_once\<close>), the command
  (\<^verbatim>\<open>cmd_once\<close>, \<^verbatim>\<open>call_once\<close>), the credit of a stolen crop (\<^verbatim>\<open>steal_once\<close>), the claim of an attachment (\<^verbatim>\<open>claim_once\<close>,
  \<^verbatim>\<open>claim_call\<close>), the acceptance of an invitation (\<^verbatim>\<open>friend_once\<close>), the reward of a task (\<^verbatim>\<open>reward_once\<close>, \<^verbatim>\<open>reward_call\<close>) and the
  purchase of a pet (\<^verbatim>\<open>pet_once\<close>, \<^verbatim>\<open>pet_call\<close>).  \<^verbatim>\<open>projection\<close> is what the consumer asks of a projector; \<^verbatim>\<open>steal_projection\<close> interprets it.
  \<^verbatim>\<open>event_publisher\<close> is the promise of a publisher that a nil error means a stored message; \<^verbatim>\<open>mem_publisher\<close> interprets it
  for the publisher in memory, and for the one on Kafka it follows (\<^verbatim>\<open>kafka_honest\<close>) from what kafka.Writer documents (\<^verbatim>\<open>writer_ok\<close>).  The growth stages of a crop are a
  \<^verbatim>\<open>linorder\<close>, in the order a plant passes them.

  \<^bold>\<open>What the lemmas show.\<close>  Farm commands: the transaction refines the application in memory, moves exactly the items it should, keeps
  the constraints of the tables and the invariant of plots, rejects stale commands, bounds steals and guards the harvests of pets; yield is
  conserved.  Commands are applied at most once, with a reaper that deletes receipts: what is left then is the base
  version of the command, which the farm has passed, or the ledger.  A fence of a route stays.  Events: published rows
  were sent, a scan is a run of the concurrent system, an undisturbed relay drains its table in order, no row disappears; the offset
  of the consumer covers only settled messages, and the consumer comes to an end with each.  A stolen crop arrives once.  Actors: commands of a
  farm run one at a time in the order of their admission, within the bounds of the configuration.  Identifiers
  lead home.  Accounts are complete, a device keeps its account, passwords and sessions work, a refresh token is good once, accepted tokens
  are signed, an old owner of a session cannot hand it over.  Badges of mailboxes are exact; attachments, rewards and pets
  are paid once; friendships across shards are announced once and a half one can heal.  The reaper deletes only what is
  expired.  Some lemmas exhibit runs in which the code does not do what it means to do; they stand beside the
  properties of their component under a heading that begins with Finding.

  \<^bold>\<open>Bounds and fuel.\<close>  A retried transaction has three attempts (\<^verbatim>\<open>MaxAttempts\<close>); \<^verbatim>\<open>retry_from\<close> ends because the
  number of the attempt grows.  The batches of the reaper (\<^verbatim>\<open>reap_loop\<close>) are counted down from the limit of a run: every batch but the
  last one deletes a row, so the loop of the source makes no more turns.  \<^verbatim>\<open>record_from\<close>, the loop of the consumer that stores
  a failure, may go on for ever, so it is a partial function and its end is proved under the condition that gives it one;
  \<^verbatim>\<open>handle_from\<close> and \<^verbatim>\<open>delay_loop\<close> have measures.  The other loops are structural recursions over rows, plots or messages.

  \<^bold>\<open>Parameters.\<close>  HMAC-SHA-256, SHA-256 and Argon2id; the collation of user names and devices (\<^verbatim>\<open>account_keys\<close>); kafka.Writer; the pool of a shard.  MySQL and Redis are modelled by the statements the
  sources use, with AUTO_INCREMENT as the next number after the greatest, DATETIME(3) rounding and
  affected rows counted as changed rows.

  \<^bold>\<open>Not modelled.\<close>  Texts of messages, logs, metrics and traces; encoding of JSON, which is the identity on typed values; white
  space beyond ASCII in TrimSpace; columns that nothing reads.  The processes and their wiring (cmd), configuration, discovery,
  admission and observability; the transports (HTTP handlers and their caches, the WebSocket connection, the RPC clients, servers and
  conversions), which carry the calls of the modelled services; the realtime buses, which only shorten the time until a client sees a
  change; the routing leases in etcd; the read models of catalog and assets and the projectors
  behind catalog and mail; the committer of the tests that works in memory; generated code and the load test.
\<close>

end
